(* ===== verification/Prelude.thy ===== *)
theory Prelude
  imports Main "HOL-Library.Word"
begin

text \<open>
  Shared vocabulary of the development: the machine types, the C library functions the
  clients call (string scanning, \<open>strncpy\<close>, \<open>atoi\<close>, \<open>sscanf\<close> with \<open>%2x\<close>, \<open>snprintf\<close>,
  decimal and hexadecimal printing), the big-endian layout of a 64-bit size, and the
  generic lemmas the component theories use.

  Conventions. A C string is a \<^typ>\<open>string\<close> without the terminating NUL; binary data is a
  list of 8-bit words; a pointer that may be NULL is an \<open>option\<close>. A C \<open>int\<close> that is only
  stored and compared is an \<^typ>\<open>int\<close>; conversions that can lose information are written
  out with a word of the C type's width.
\<close>

unbundle bit_operations_syntax

named_theorems clib_simps
named_theorems wire_simps

type_synonym byte = "8 word"
type_synonym u32 = "32 word"
type_synonym u64 = "64 word"

section \<open>Machine conversions\<close>

text \<open>\<open>(int)n\<close> for a \<open>size_t\<close>, and the value of a C \<open>int\<close> after a wrapping conversion.\<close>

definition c_int :: "int \<Rightarrow> int" where
  "c_int v = sint (of_int v :: u32)"

definition int_of_size :: "nat \<Rightarrow> int" where
  "int_of_size n = c_int (int n)"

lemma c_int_id [clib_simps]: "- (2 ^ 31) \<le> v \<Longrightarrow> v < 2 ^ 31 \<Longrightarrow> c_int v = v"
  unfolding c_int_def by (simp add: int_word_sint)

lemma int_of_size_id [clib_simps]: "n < 2 ^ 31 \<Longrightarrow> int_of_size n = int n"
  unfolding int_of_size_def by (rule c_int_id) auto

lemma c_int_range: "- (2 ^ 31) \<le> c_int v \<and> c_int v < 2 ^ 31"
  unfolding c_int_def using sint_greater_eq [of "of_int v :: u32"] sint_less [of "of_int v :: u32"]
  by simp

text \<open>The number of padding units that completes \<open>n\<close> to a multiple of \<open>m\<close>.\<close>

lemma pad_unique:
  fixes k m n :: nat
  assumes "k < m" and "(n + k) mod m = 0"
  shows "(m - n mod m) mod m = k"
proof -
  have lt: "n mod m < m" using assms(1) by simp
  have z: "(n mod m + k) mod m = 0" using assms(2) by (simp add: mod_add_left_eq)
  show ?thesis
  proof (cases "n mod m + k < m")
    case True
    with z have "n mod m = 0" "k = 0" by simp_all
    then show ?thesis by simp
  next
    case False
    have "n mod m + k - m < m" using lt assms(1) by linarith
    then have "(n mod m + k) mod m = n mod m + k - m"
      using False by (metis le_mod_geq mod_less not_less)
    with z False have "k = m - n mod m" using lt by simp
    with assms(1) show ?thesis by simp
  qed
qed

section \<open>Characters and bytes\<close>

definition nul :: char where
  "nul = CHR 0x00"

definition bytes_of_str :: "string \<Rightarrow> byte list" where
  "bytes_of_str s = map of_char s"

definition str_of_bytes :: "byte list \<Rightarrow> string" where
  "str_of_bytes bs = map (\<lambda>b. char_of (unat b)) bs"

lemma length_bytes_of_str [simp]: "length (bytes_of_str s) = length s"
  by (simp add: bytes_of_str_def)

lemma length_str_of_bytes [simp]: "length (str_of_bytes bs) = length bs"
  by (simp add: str_of_bytes_def)

lemma of_char_byte: "(of_char c :: byte) = of_nat (of_char c)"
  by (simp add: of_char_def [where ?'a = nat] of_char_def [where ?'a = byte] horner_sum_simps)

lemma unat_of_char: "unat (of_char c :: byte) = (of_char c :: nat)"
proof -
  have "(of_char c :: nat) < 256" by (rule nat_of_char_less_256)
  then show ?thesis by (simp add: of_char_byte unat_of_nat)
qed

lemma str_of_bytes_of_str [simp]: "str_of_bytes (bytes_of_str s) = s"
  by (induction s) (simp_all add: str_of_bytes_def bytes_of_str_def unat_of_char)

lemma bytes_of_str_of_bytes [simp]: "bytes_of_str (str_of_bytes bs) = bs"
proof (induction bs)
  case (Cons b bs)
  have "(of_char (char_of (unat b) :: char) :: byte) = b"
    using unsigned_less [of b, where 'a = nat] by (simp add: of_char_byte)
  with Cons show ?case by (simp add: str_of_bytes_def bytes_of_str_def)
qed (simp add: str_of_bytes_def bytes_of_str_def)

section \<open>NUL-terminated arrays\<close>

text \<open>
  A fixed \<open>char\<close> array is a list of its length; \<open>cstr\<close> is the C string it holds.
  \<open>strncpy_arr\<close> is \<open>strncpy(dst, src, n)\<close>: at most \<open>n\<close> characters of the source, then zeros
  up to \<open>n\<close>, the bytes behind untouched. The clients always copy into a zeroed array with
  \<open>n = sizeof - 1\<close>, so the field then holds the first \<open>n\<close> characters of the source
  (\<open>cstr_strncpy\<close>): the records of the component theories store that string.
\<close>

definition cstr :: "string \<Rightarrow> string" where
  "cstr a = takeWhile (\<lambda>c. c \<noteq> nul) a"

definition strncpy_arr :: "nat \<Rightarrow> string \<Rightarrow> string \<Rightarrow> string" where
  "strncpy_arr n src dst = take n src @ replicate (n - length src) nul @ drop n dst"

definition strncpy_fld :: "nat \<Rightarrow> string \<Rightarrow> string" where
  "strncpy_fld n src = take n src"

lemma cstr_strncpy:
  assumes "nul \<notin> set src" and "length dst = Suc n" and "dst ! n = nul"
  shows "cstr (strncpy_arr n src dst) = strncpy_fld n src"
proof -
  have d: "drop n dst = [nul]"
    using assms(2,3) by (simp add: Cons_nth_drop_Suc [symmetric])
  have t: "takeWhile (\<lambda>c. c \<noteq> nul) (take n src @ xs) = take n src @ takeWhile (\<lambda>c. c \<noteq> nul) xs" for xs
    using assms(1) by (intro takeWhile_append2) (auto dest: in_set_takeD)
  have r: "takeWhile (\<lambda>c. c \<noteq> nul) (replicate k nul @ [nul]) = []" for k
    by (cases k) simp_all
  show ?thesis by (simp add: cstr_def strncpy_arr_def strncpy_fld_def t d r)
qed

lemma length_strncpy_fld: "length (strncpy_fld n s) = min n (length s)"
  by (simp add: strncpy_fld_def min.commute)

lemma strncpy_fld_bound [simp]: "length (strncpy_fld n s) \<le> n"
  by (simp add: strncpy_fld_def)

lemma strncpy_fld_less: "n < m \<Longrightarrow> length (strncpy_fld n s) < m"
  by (rule le_less_trans [OF strncpy_fld_bound])

lemma strncpy_fld_short: "length s \<le> n \<Longrightarrow> strncpy_fld n s = s"
  by (simp add: strncpy_fld_def)

lemma strncpy_fld_nul: "nul \<notin> set s \<Longrightarrow> nul \<notin> set (strncpy_fld n s)"
  by (auto simp: strncpy_fld_def dest: in_set_takeD)

section \<open>Scanning\<close>

definition is_space :: "char \<Rightarrow> bool" where
  "is_space c \<longleftrightarrow> c \<in> {CHR '' '', CHR 0x09, CHR 0x0A, CHR 0x0B, CHR 0x0C, CHR 0x0D}"

definition hexval :: "char \<Rightarrow> nat option" where
  "hexval c =
     (let n = (of_char c :: nat)
      in if 48 \<le> n \<and> n \<le> 57 then Some (n - 48)
         else if 97 \<le> n \<and> n \<le> 102 then Some (n - 87)
         else if 65 \<le> n \<and> n \<le> 70 then Some (n - 55)
         else None)"

definition isxdigit :: "char \<Rightarrow> bool" where
  "isxdigit c \<longleftrightarrow> hexval c \<noteq> None"

definition isdigit :: "char \<Rightarrow> bool" where
  "isdigit c \<longleftrightarrow> 48 \<le> (of_char c :: nat) \<and> (of_char c :: nat) \<le> 57"

text \<open>
  \<open>sscanf(s, "%2x", &byte)\<close>: white space is skipped, then at most two characters are read;
  a sign counts, and so does the \<open>0x\<close> prefix, which alone is no number. The result is the
  converted value, \<open>None\<close> when the call does not return 1. The scanf directive \<open>%02x\<close>
  reads the width as 2 and is the same.
\<close>

definition sscanf_2x :: "string \<Rightarrow> u32 option" where
  "sscanf_2x s =
     (case dropWhile is_space s of
        [] \<Rightarrow> None
      | c # r \<Rightarrow>
          if c = CHR ''+'' \<or> c = CHR ''-'' then
            (case r of
               [] \<Rightarrow> None
             | d # _ \<Rightarrow>
                 (case hexval d of
                    None \<Rightarrow> None
                  | Some v \<Rightarrow> Some (if c = CHR ''-'' then - of_nat v else of_nat v)))
          else
            (case hexval c of
               None \<Rightarrow> None
             | Some h \<Rightarrow>
                 (case r of
                    [] \<Rightarrow> Some (of_nat h)
                  | d # _ \<Rightarrow>
                      if c = CHR ''0'' \<and> (d = CHR ''x'' \<or> d = CHR ''X'') then None
                      else (case hexval d of
                              None \<Rightarrow> Some (of_nat h)
                            | Some l \<Rightarrow> Some (of_nat (16 * h + l))))))"

text \<open>\<open>atoi\<close>: \<open>(int)strtol(s, NULL, 10)\<close>, so the value saturates at the \<open>long\<close> range first.\<close>

fun dec_value :: "string \<Rightarrow> nat \<Rightarrow> nat" where
  "dec_value [] acc = acc"
| "dec_value (c # cs) acc = dec_value cs (10 * acc + ((of_char c :: nat) - 48))"

definition strtol10 :: "string \<Rightarrow> int" where
  "strtol10 s =
     (let t = dropWhile is_space s;
          neg = (t \<noteq> [] \<and> hd t = CHR ''-'');
          u = (if t \<noteq> [] \<and> (hd t = CHR ''-'' \<or> hd t = CHR ''+'') then tl t else t);
          v = int (dec_value (takeWhile isdigit u) 0);
          w = (if neg then - v else v)
      in max (- (2 ^ 63)) (min (2 ^ 63 - 1) w))"

definition atoi :: "string \<Rightarrow> int" where
  "atoi s = c_int (strtol10 s)"

text \<open>\<open>strchr\<close> and \<open>strrchr\<close> as splits around the first and the last occurrence.\<close>

fun split_first :: "char \<Rightarrow> string \<Rightarrow> (string \<times> string) option" where
  "split_first c [] = None"
| "split_first c (x # xs) =
     (if x = c then Some ([], xs)
      else (case split_first c xs of None \<Rightarrow> None | Some (a, b) \<Rightarrow> Some (x # a, b)))"

fun split_last :: "char \<Rightarrow> string \<Rightarrow> (string \<times> string) option" where
  "split_last c [] = None"
| "split_last c (x # xs) =
     (case split_last c xs of
        Some (a, b) \<Rightarrow> Some (x # a, b)
      | None \<Rightarrow> if x = c then Some ([], xs) else None)"

lemma split_first_SomeD: "split_first c s = Some (a, b) \<Longrightarrow> s = a @ c # b \<and> c \<notin> set a"
  by (induction s arbitrary: a) (auto split: option.splits if_splits)

lemma split_first_append: "c \<notin> set a \<Longrightarrow> split_first c (a @ c # b) = Some (a, b)"
  by (induction a) auto

lemma split_first_None_iff: "split_first c s = None \<longleftrightarrow> c \<notin> set s"
  by (induction s) (auto split: option.splits)

lemma split_last_None_iff: "split_last c s = None \<longleftrightarrow> c \<notin> set s"
  by (induction s) (auto split: option.splits)

lemma split_last_append: "c \<notin> set b \<Longrightarrow> split_last c (a @ c # b) = Some (a, b)"
proof (induction a)
  case Nil
  then show ?case by (simp add: split_last_None_iff [THEN iffD2])
qed simp

lemma split_last_SomeD: "split_last c s = Some (a, b) \<Longrightarrow> s = a @ c # b \<and> c \<notin> set b"
  by (induction s arbitrary: a) (auto simp: split_last_None_iff split: option.splits if_splits)

text \<open>\<open>strstr(s, pat) == s\<close>, \<open>strncmp(s, pat, strlen(pat)) == 0\<close> and \<open>strstr(s, pat) != NULL\<close>.\<close>

definition starts_with :: "string \<Rightarrow> string \<Rightarrow> bool" where
  "starts_with pat s \<longleftrightarrow> take (length pat) s = pat"

fun contains_str :: "string \<Rightarrow> string \<Rightarrow> bool" where
  "contains_str pat [] = (pat = [])"
| "contains_str pat (x # xs) = (starts_with pat (x # xs) \<or> contains_str pat xs)"

definition tolower :: "char \<Rightarrow> char" where
  "tolower c = (let n = (of_char c :: nat) in if 65 \<le> n \<and> n \<le> 90 then char_of (n + 32) else c)"

definition strcaseeq :: "string \<Rightarrow> string \<Rightarrow> bool" where
  "strcaseeq a b \<longleftrightarrow> map tolower a = map tolower b"

section \<open>Printing\<close>

definition digit :: "nat \<Rightarrow> char" where
  "digit n = char_of (48 + n)"

fun dec_of_nat :: "nat \<Rightarrow> string" where
  "dec_of_nat n = (if n < 10 then [digit n] else dec_of_nat (n div 10) @ [digit (n mod 10)])"

declare dec_of_nat.simps [simp del]

text \<open>\<open>printf("%d", i)\<close> and its wider variants.\<close>

definition dec_of_int :: "int \<Rightarrow> string" where
  "dec_of_int i = (if i < 0 then CHR ''-'' # dec_of_nat (nat (- i)) else dec_of_nat (nat i))"

text \<open>\<open>snprintf(out, n, "%s", s)\<close>: what is stored, and the return value.\<close>

definition snprintf_c :: "nat \<Rightarrow> string \<Rightarrow> string \<times> int" where
  "snprintf_c n s = (take (n - 1) s, int (length s))"

definition hexdigit :: "nat \<Rightarrow> char" where
  "hexdigit n = (if n < 10 then char_of (48 + n) else char_of (87 + n))"

text \<open>\<open>printf("%02x", b)\<close> for a byte.\<close>

definition hex02 :: "byte \<Rightarrow> string" where
  "hex02 b = [hexdigit (unat b div 16), hexdigit (unat b mod 16)]"

lemma isdigit_digit: "n < 10 \<Longrightarrow> isdigit (digit n)"
  by (simp add: isdigit_def digit_def)

lemma digit_value: "n < 10 \<Longrightarrow> (of_char (digit n) :: nat) - 48 = n"
  by (simp add: digit_def)

lemma dec_of_nat_digits: "\<forall>c \<in> set (dec_of_nat n). isdigit c"
proof (induction n rule: dec_of_nat.induct)
  case (1 n)
  then show ?case
    by (cases "n < 10") (auto simp: dec_of_nat.simps [of n] isdigit_digit)
qed

lemma dec_of_nat_nonempty [simp]: "dec_of_nat n \<noteq> []"
  by (subst dec_of_nat.simps) simp

lemma dec_of_nat_length: "n < 10 ^ Suc k \<Longrightarrow> length (dec_of_nat n) \<le> Suc k"
proof (induction k arbitrary: n)
  case 0
  then show ?case by (simp add: dec_of_nat.simps)
next
  case (Suc k)
  have "n div 10 < 10 ^ Suc k" using Suc(2) by (intro less_mult_imp_div_less) (simp add: mult.commute)
  with Suc(1) show ?case by (subst dec_of_nat.simps) simp
qed

lemma dec_value_append: "dec_value (a @ b) acc = dec_value b (dec_value a acc)"
  by (induction a arbitrary: acc) auto

lemma dec_value_dec_of_nat: "dec_value (dec_of_nat n) 0 = n"
proof (induction n rule: dec_of_nat.induct)
  case (1 n)
  then show ?case
    by (cases "n < 10") (simp_all add: dec_of_nat.simps [of n] dec_value_append digit_value)
qed

lemma not_space_digit: "isdigit c \<Longrightarrow> \<not> is_space c"
  by (auto simp: isdigit_def is_space_def)

lemma not_sign_digit: "isdigit c \<Longrightarrow> c \<noteq> CHR ''-'' \<and> c \<noteq> CHR ''+''"
  by (auto simp: isdigit_def)

lemma strtol10_dec:
  assumes "n < 2 ^ 63"
  shows "strtol10 (dec_of_nat n) = int n"
proof -
  obtain c cs where s: "dec_of_nat n = c # cs" by (cases "dec_of_nat n") auto
  then have c: "isdigit c" using dec_of_nat_digits [of n] by auto
  have t: "takeWhile isdigit (dec_of_nat n) = dec_of_nat n"
    using dec_of_nat_digits [of n] by (simp add: takeWhile_eq_all_conv)
  have d: "dropWhile is_space (dec_of_nat n) = dec_of_nat n"
    using not_space_digit [OF c] by (simp add: s)
  have h: "hd (dec_of_nat n) \<noteq> CHR ''-''" "hd (dec_of_nat n) \<noteq> CHR ''+''"
    using not_sign_digit [OF c] by (simp_all add: s)
  show ?thesis
    using assms by (simp add: strtol10_def Let_def d t h dec_value_dec_of_nat)
qed

lemma atoi_dec_of_nat: "n < 2 ^ 31 \<Longrightarrow> atoi (dec_of_nat n) = int n"
  by (simp add: atoi_def strtol10_dec c_int_id)

section \<open>Hexadecimal digits\<close>

lemma hexval_hexdigit: "n < 16 \<Longrightarrow> hexval (hexdigit n) = Some n"
  by (auto simp: hexval_def hexdigit_def Let_def)

lemma hexval_less: "hexval c = Some h \<Longrightarrow> h < 16"
  by (auto simp: hexval_def Let_def split: if_splits)

lemma isxdigit_not_special:
  assumes "isxdigit c"
  shows "\<not> is_space c \<and> c \<noteq> CHR ''+'' \<and> c \<noteq> CHR ''-'' \<and> c \<noteq> CHR ''x'' \<and> c \<noteq> CHR ''X'' \<and> c \<noteq> nul"
  using assms by (auto simp: isxdigit_def hexval_def is_space_def nul_def)

lemma sscanf_2x_digits:
  assumes "hexval c = Some h" and "hexval d = Some l"
  shows "sscanf_2x (c # d # r) = Some (of_nat (16 * h + l))"
proof -
  have c: "isxdigit c" and d: "isxdigit d" using assms by (auto simp: isxdigit_def)
  show ?thesis
    using isxdigit_not_special [OF c] isxdigit_not_special [OF d] assms
    by (simp add: sscanf_2x_def)
qed

end
