(* ===== verification/Buffers.thy ===== *)
theory Buffers
  imports Prelude "HOL-Library.Monad_Syntax"
begin

text \<open>
  The growing byte buffers of the clients: the HTTP response of \<open>src/common/auth_http.c\<close>
  (\<open>write_cb\<close>), the PNG writer's output and the output of a clipboard tool in
  \<open>src/linux/main.c\<close> (\<open>dynbuf_write\<close>, the loop of \<open>read_type\<close>) and the WebSocket message
  being received (\<open>ws_callback\<close>).

  A heap block is a list of cells, \<open>None\<close> where nothing was written yet. A write outside its
  block and a doubling loop that never ends make the operation \<open>None\<close>; \<open>alloc\<close> says which
  sizes \<open>realloc\<close> can serve.
\<close>

section \<open>Blocks\<close>

type_synonym block = "byte option list"

definition memcpy :: "block \<Rightarrow> nat \<Rightarrow> byte list \<Rightarrow> block option" where
  "memcpy d off bs =
     (if off + length bs \<le> length d then Some (take off d @ map Some bs @ drop (off + length bs) d) else None)"

definition realloc :: "block \<Rightarrow> nat \<Rightarrow> block" where
  "realloc d n = take n d @ replicate (n - length d) None"

definition filled :: "block \<Rightarrow> nat \<Rightarrow> byte list" where
  "filled d n = map the (take n d)"

text \<open>\<open>while (cap < need) cap *= 2;\<close>\<close>

partial_function (option) grow :: "nat \<Rightarrow> nat \<Rightarrow> nat option" where
  "grow cap need = (if cap < need then grow (cap * 2) need else Some cap)"

declare grow.simps [code]

lemma length_memcpy: "memcpy d off bs = Some d' \<Longrightarrow> length d' = length d"
  by (auto simp: memcpy_def split: if_splits)

lemma length_realloc [simp]: "length (realloc d n) = n"
  by (simp add: realloc_def)

lemma filled_realloc: "n \<le> length d \<Longrightarrow> n \<le> k \<Longrightarrow> filled (realloc d k) n = filled d n"
  by (simp add: filled_def realloc_def)

lemma memcpy_filled:
  assumes "n + length bs \<le> length d"
  shows "\<exists>d'. memcpy d n bs = Some d' \<and> length d' = length d \<and> filled d' n = filled d n
     \<and> filled d' (n + length bs) = filled d n @ bs"
proof -
  have "n \<le> length d" using assms by simp
  then have "take n (take n d @ map Some bs @ drop (n + length bs) d) = take n d"
    "take (n + length bs) (take n d @ map Some bs @ drop (n + length bs) d) = take n d @ map Some bs"
    by (simp_all add: min_def)
  then show ?thesis using assms by (simp add: memcpy_def filled_def comp_def)
qed

lemma grow_returns:
  assumes "0 < cap"
  shows "\<exists>c. grow cap need = Some c \<and> need \<le> c \<and> cap \<le> c \<and> c < max (cap + 1) (2 * need)"
  using assms
proof (induction "need - cap" arbitrary: cap rule: less_induct)
  case less
  show ?case
  proof (cases "cap < need")
    case True
    then obtain c where c: "grow (cap * 2) need = Some c" "need \<le> c" "cap * 2 \<le> c" "c < max (cap * 2 + 1) (2 * need)"
    proof -
      have "need - cap * 2 < need - cap" using True less(2) by linarith
      then show ?thesis using less(1) [of "cap * 2"] less(2) that by auto
    qed
    then show ?thesis using True by (intro exI [of _ c]) (simp add: grow.simps [of cap])
  next
    case False
    then show ?thesis by (simp add: grow.simps [of cap])
  qed
qed

section \<open>The HTTP response\<close>

record HttpBuf =
  hb_data :: block
  hb_len :: nat
  hb_cap :: nat

definition write_cb :: "(nat \<Rightarrow> bool) \<Rightarrow> byte list \<Rightarrow> HttpBuf \<Rightarrow> (nat \<times> HttpBuf) option" where
  "write_cb alloc chunk buf =
     (let total = length chunk in
      do {
        room \<leftarrow> (if hb_len buf + total + 1 > hb_cap buf
                then do {
                  new_cap \<leftarrow> grow (if hb_cap buf = 0 then 1024 else hb_cap buf * 2) (hb_len buf + total + 1);
                  Some (if alloc new_cap
                        then Some (buf\<lparr>hb_data := realloc (hb_data buf) new_cap, hb_cap := new_cap\<rparr>) else None)
                }
                else Some (Some buf));
        (case room of
           None \<Rightarrow> Some (0, buf)
         | Some buf \<Rightarrow> do {
             d \<leftarrow> memcpy (hb_data buf) (hb_len buf) chunk;
             d \<leftarrow> memcpy d (hb_len buf + total) [0];
             Some (total, buf\<lparr>hb_data := d, hb_len := hb_len buf + total\<rparr>)
           })
      })"

text \<open>Once something was written, a NUL follows the contents and is inside the block.\<close>

definition http_inv :: "HttpBuf \<Rightarrow> bool" where
  "http_inv b \<longleftrightarrow> hb_cap b = length (hb_data b) \<and>
     (hb_cap b = 0 \<and> hb_len b = 0 \<or> hb_len b < hb_cap b \<and> hb_data b ! hb_len b = Some 0)"

definition http_contents :: "HttpBuf \<Rightarrow> byte list" where
  "http_contents b = filled (hb_data b) (hb_len b)"

section \<open>The PNG writer's output\<close>

record DynBuf =
  db_data :: block
  db_len :: nat
  db_cap :: nat

text \<open>The result of \<open>realloc\<close> is not checked: a failure is a write through NULL.\<close>

definition dynbuf_write :: "(nat \<Rightarrow> bool) \<Rightarrow> byte list \<Rightarrow> DynBuf \<Rightarrow> DynBuf option" where
  "dynbuf_write alloc d b =
     do {
       b \<leftarrow> (if db_len b + length d > db_cap b
            then do {
              newcap \<leftarrow> grow (if db_cap b \<noteq> 0 then db_cap b * 2 else 4096) (db_len b + length d);
              if alloc newcap then Some (b\<lparr>db_data := realloc (db_data b) newcap, db_cap := newcap\<rparr>) else None
            }
            else Some b);
       x \<leftarrow> memcpy (db_data b) (db_len b) d;
       Some (b\<lparr>db_data := x, db_len := db_len b + length d\<rparr>)
     }"

definition dyn_inv :: "DynBuf \<Rightarrow> bool" where
  "dyn_inv b \<longleftrightarrow> db_cap b = length (db_data b) \<and> db_len b \<le> db_cap b"

definition dyn_contents :: "DynBuf \<Rightarrow> byte list" where
  "dyn_contents b = filled (db_data b) (db_len b)"

section \<open>The message being received\<close>

record RecvBuf =
  g_recv_buf :: block
  g_recv_len :: nat
  g_recv_cap :: nat

text \<open>One fragment; \<open>False\<close> when there is no memory, which drops what was received before.\<close>

definition recv_fragment :: "(nat \<Rightarrow> bool) \<Rightarrow> byte list \<Rightarrow> RecvBuf \<Rightarrow> (bool \<times> RecvBuf) option" where
  "recv_fragment alloc d b =
     (let needed = g_recv_len b + length d in
      do {
        room \<leftarrow> (if needed > g_recv_cap b
                then do {
                  new_cap \<leftarrow> grow (if g_recv_cap b \<noteq> 0 then g_recv_cap b else 4096) (needed + 1);
                  Some (if alloc new_cap
                        then Some (b\<lparr>g_recv_buf := realloc (g_recv_buf b) new_cap, g_recv_cap := new_cap\<rparr>) else None)
                }
                else Some (Some b));
        (case room of
           None \<Rightarrow> Some (False, b\<lparr>g_recv_len := 0\<rparr>)
         | Some b \<Rightarrow> do {
             x \<leftarrow> memcpy (g_recv_buf b) (g_recv_len b) d;
             Some (True, b\<lparr>g_recv_buf := x, g_recv_len := needed\<rparr>)
           })
      })"

text \<open>The last fragment is there: terminate the text and start over.\<close>

definition recv_finish :: "RecvBuf \<Rightarrow> (byte list \<times> RecvBuf) option" where
  "recv_finish b =
     do {
       x \<leftarrow> memcpy (g_recv_buf b) (g_recv_len b) [0];
       Some (filled x (g_recv_len b), b\<lparr>g_recv_buf := x, g_recv_len := 0\<rparr>)
     }"

definition recv_inv :: "RecvBuf \<Rightarrow> bool" where
  "recv_inv b \<longleftrightarrow> g_recv_cap b = length (g_recv_buf b) \<and> g_recv_len b \<le> g_recv_cap b"

definition recv_contents :: "RecvBuf \<Rightarrow> byte list" where
  "recv_contents b = filled (g_recv_buf b) (g_recv_len b)"

section \<open>The output of a clipboard tool\<close>

text \<open>
  \<open>fread\<close> fills the space that is left unless the pipe ends. The result is \<open>Some None\<close> for a
  NULL of \<open>realloc\<close>, else the block and the number of bytes.
\<close>

function read_loop :: "(nat \<Rightarrow> bool) \<Rightarrow> block \<Rightarrow> nat \<Rightarrow> nat \<Rightarrow> byte list \<Rightarrow> (block \<times> nat) option option" where
  "read_loop alloc buf got cap pipe =
     (let n = min (cap - got) (length pipe) in
      if n = 0 then Some (Some (buf, got))
      else (case memcpy buf got (take n pipe) of
              None \<Rightarrow> None
            | Some buf \<Rightarrow>
                if got + n \<ge> cap then
                  (if alloc (cap * 2) then read_loop alloc (realloc buf (cap * 2)) (got + n) (cap * 2) (drop n pipe)
                   else Some None)
                else read_loop alloc buf (got + n) cap (drop n pipe)))"
  by pat_completeness auto
termination by (relation "measure (\<lambda>(_, _, _, _, p). length p)") auto

definition READ_CAP :: nat where "READ_CAP = 1024 * 1024"

definition read_pipe :: "(nat \<Rightarrow> bool) \<Rightarrow> byte list \<Rightarrow> byte list option option" where
  "read_pipe alloc pipe =
     (if \<not> alloc READ_CAP then Some None
      else (case read_loop alloc (replicate READ_CAP None) 0 READ_CAP pipe of
              None \<Rightarrow> None
            | Some None \<Rightarrow> Some None
            | Some (Some (buf, got)) \<Rightarrow> Some (if got = 0 then None else Some (filled buf got))))"

section \<open>The contract of a growing buffer\<close>

text \<open>Appending never fails and keeps what was there.\<close>

fun feed :: "(byte list \<Rightarrow> 'b \<Rightarrow> 'b option) \<Rightarrow> byte list list \<Rightarrow> 'b \<Rightarrow> 'b option" where
  "feed app [] b = Some b"
| "feed app (c # cs) b = (case app c b of None \<Rightarrow> None | Some b' \<Rightarrow> feed app cs b')"

locale growing_buffer =
  fixes inv :: "'b \<Rightarrow> bool"
    and contents :: "'b \<Rightarrow> byte list"
    and app :: "byte list \<Rightarrow> 'b \<Rightarrow> 'b option"
  assumes app_ok: "inv b \<Longrightarrow> \<exists>b'. app c b = Some b' \<and> inv b' \<and> contents b' = contents b @ c"
begin

lemma feed_concat:
  "inv b \<Longrightarrow> \<exists>b'. feed app cs b = Some b' \<and> inv b' \<and> contents b' = contents b @ concat cs"
proof (induction cs arbitrary: b)
  case (Cons c cs)
  obtain b' where b': "app c b = Some b'" "inv b'" "contents b' = contents b @ c" using app_ok [OF Cons(2)] by blast
  then show ?case using Cons(1) [OF b'(2)] by auto
qed simp

lemma feed_chunking:
  assumes "inv b" and "concat cs = concat ds" and "feed app cs b = Some b1" and "feed app ds b = Some b2"
  shows "contents b1 = contents b2"
  using feed_concat [OF assms(1), of cs] feed_concat [OF assms(1), of ds] assms(2-4) by auto

end

lemma memcpy_nul:
  assumes "n < length d"
  shows "\<exists>d'. memcpy d n [0] = Some d' \<and> length d' = length d \<and> filled d' n = filled d n \<and> d' ! n = Some 0"
  using assms by (auto simp: memcpy_def filled_def nth_append)

lemma http_store:
  assumes "hb_len b + length c < length (hb_data b)" and "hb_cap b = length (hb_data b)"
  shows "\<exists>d1 d2. memcpy (hb_data b) (hb_len b) c = Some d1 \<and> memcpy d1 (hb_len b + length c) [0] = Some d2 \<and>
     http_inv (b\<lparr>hb_data := d2, hb_len := hb_len b + length c\<rparr>) \<and>
     http_contents (b\<lparr>hb_data := d2, hb_len := hb_len b + length c\<rparr>) = http_contents b @ c"
proof -
  obtain d1 where d1: "memcpy (hb_data b) (hb_len b) c = Some d1" "length d1 = length (hb_data b)"
    "filled d1 (hb_len b + length c) = filled (hb_data b) (hb_len b) @ c"
    using memcpy_filled [of "hb_len b" c "hb_data b"] assms by auto
  obtain d2 where d2: "memcpy d1 (hb_len b + length c) [0] = Some d2" "length d2 = length d1"
    "filled d2 (hb_len b + length c) = filled d1 (hb_len b + length c)" "d2 ! (hb_len b + length c) = Some 0"
    using memcpy_nul [of "hb_len b + length c" d1] assms d1(2) by auto
  show ?thesis using assms d1 d2 by (intro exI [of _ d1] exI [of _ d2]) (simp add: http_inv_def http_contents_def)
qed

text \<open>A chunk is stored whole with the NUL behind it, or there is no memory and nothing changes.\<close>

lemma write_cb_cases:
  assumes "http_inv b"
  obtains (stored) b' where "write_cb alloc c b = Some (length c, b')" "http_inv b'" "http_contents b' = http_contents b @ c"
    | (no_memory) n where "write_cb alloc c b = Some (0, b)" "\<not> alloc n" "n < max (2 * hb_cap b + 1025) (2 * (hb_len b + length c + 1))"
proof (cases "hb_len b + length c + 1 > hb_cap b")
  case False
  then obtain d1 d2 where "memcpy (hb_data b) (hb_len b) c = Some d1" "memcpy d1 (hb_len b + length c) [0] = Some d2"
    "http_inv (b\<lparr>hb_data := d2, hb_len := hb_len b + length c\<rparr>)"
    "http_contents (b\<lparr>hb_data := d2, hb_len := hb_len b + length c\<rparr>) = http_contents b @ c"
    using http_store [of b c] assms by (auto simp: http_inv_def)
  then show ?thesis using False by (intro stored) (auto simp: write_cb_def Let_def)
next
  case True
  define c0 where "c0 = (if hb_cap b = 0 then 1024 else hb_cap b * 2)"
  have c0: "0 < c0" by (simp add: c0_def)
  obtain n where n: "grow c0 (hb_len b + length c + 1) = Some n" "hb_len b + length c + 1 \<le> n" "c0 \<le> n"
    "n < max (c0 + 1) (2 * (hb_len b + length c + 1))"
    using grow_returns [of c0 "hb_len b + length c + 1"] c0 by blast
  show ?thesis
  proof (cases "alloc n")
    case False
    moreover have "c0 + 1 \<le> 2 * hb_cap b + 1025" by (simp add: c0_def)
    ultimately show ?thesis using n True
      by (intro no_memory [of n]) (auto simp: write_cb_def Let_def c0_def [symmetric])
  next
    case ok: True
    define b0 where "b0 = b\<lparr>hb_data := realloc (hb_data b) n, hb_cap := n\<rparr>"
    have b0: "hb_len b0 = hb_len b" "http_contents b0 = http_contents b"
      using n assms True by (auto simp: b0_def http_contents_def http_inv_def filled_realloc)
    obtain d1 d2 where "memcpy (hb_data b0) (hb_len b0) c = Some d1" "memcpy d1 (hb_len b0 + length c) [0] = Some d2"
      "http_inv (b0\<lparr>hb_data := d2, hb_len := hb_len b0 + length c\<rparr>)"
      "http_contents (b0\<lparr>hb_data := d2, hb_len := hb_len b0 + length c\<rparr>) = http_contents b0 @ c"
      using http_store [of b0 c] n(2) by (auto simp: b0_def)
    then show ?thesis using True ok n(1) b0
      by (intro stored [of "b0\<lparr>hb_data := d2, hb_len := hb_len b0 + length c\<rparr>"])
        (auto simp: write_cb_def Let_def c0_def [symmetric] b0_def [symmetric])
  qed
qed

interpretation http: growing_buffer http_inv http_contents "\<lambda>c b. map_option snd (write_cb (\<lambda>_. True) c b)"
proof
  fix b c
  assume "http_inv b"
  then show "\<exists>b'. map_option snd (write_cb (\<lambda>_. True) c b) = Some b' \<and> http_inv b' \<and> http_contents b' = http_contents b @ c"
    by (cases rule: write_cb_cases [of b "\<lambda>_. True" c]) auto
qed

lemma dynbuf_ok:
  assumes "dyn_inv b"
  shows "\<exists>b'. dynbuf_write (\<lambda>_. True) c b = Some b' \<and> dyn_inv b' \<and> dyn_contents b' = dyn_contents b @ c"
proof -
  define c0 where "c0 = (if db_cap b \<noteq> 0 then db_cap b * 2 else 4096)"
  have c0: "0 < c0" by (simp add: c0_def)
  obtain n where n: "grow c0 (db_len b + length c) = Some n" "db_len b + length c \<le> n" "c0 \<le> n"
    using grow_returns [of c0 "db_len b + length c"] c0 by blast
  define b0 where "b0 = (if db_len b + length c > db_cap b then b\<lparr>db_data := realloc (db_data b) n, db_cap := n\<rparr> else b)"
  have b0: "db_len b0 = db_len b" "dyn_contents b0 = dyn_contents b" "db_cap b0 = length (db_data b0)"
    "db_len b + length c \<le> length (db_data b0)"
    using n assms by (auto simp: b0_def dyn_contents_def dyn_inv_def filled_realloc c0_def)
  obtain d1 where d1: "memcpy (db_data b0) (db_len b0) c = Some d1" "length d1 = length (db_data b0)"
    "filled d1 (db_len b0 + length c) = filled (db_data b0) (db_len b0) @ c"
    using memcpy_filled [of "db_len b0" c "db_data b0"] b0 by auto
  have "dynbuf_write (\<lambda>_. True) c b = Some (b0\<lparr>db_data := d1, db_len := db_len b0 + length c\<rparr>)"
    using n(1) d1(1) unfolding dynbuf_write_def c0_def [symmetric] by (auto simp: b0_def)
  then show ?thesis using d1 b0 by (auto simp: dyn_inv_def dyn_contents_def)
qed

interpretation dyn: growing_buffer dyn_inv dyn_contents "dynbuf_write (\<lambda>_. True)"
  by unfold_locales (rule dynbuf_ok)

lemma recv_fragment_ok:
  assumes "recv_inv b"
  shows "\<exists>b'. recv_fragment (\<lambda>_. True) c b = Some (True, b') \<and> recv_inv b' \<and> recv_contents b' = recv_contents b @ c"
proof -
  define c0 where "c0 = (if g_recv_cap b \<noteq> 0 then g_recv_cap b else 4096)"
  have c0: "0 < c0" by (simp add: c0_def)
  obtain n where n: "grow c0 (g_recv_len b + length c + 1) = Some n" "g_recv_len b + length c + 1 \<le> n" "c0 \<le> n"
    using grow_returns [of c0 "g_recv_len b + length c + 1"] c0 by blast
  define b0 where "b0 = (if g_recv_len b + length c > g_recv_cap b then b\<lparr>g_recv_buf := realloc (g_recv_buf b) n, g_recv_cap := n\<rparr> else b)"
  have b0: "g_recv_len b0 = g_recv_len b" "recv_contents b0 = recv_contents b" "g_recv_cap b0 = length (g_recv_buf b0)"
    "g_recv_len b + length c \<le> length (g_recv_buf b0)"
    using n assms by (auto simp: b0_def recv_contents_def recv_inv_def filled_realloc c0_def)
  obtain d1 where d1: "memcpy (g_recv_buf b0) (g_recv_len b0) c = Some d1" "length d1 = length (g_recv_buf b0)"
    "filled d1 (g_recv_len b0 + length c) = filled (g_recv_buf b0) (g_recv_len b0) @ c"
    using memcpy_filled [of "g_recv_len b0" c "g_recv_buf b0"] b0 by auto
  have "recv_fragment (\<lambda>_. True) c b = Some (True, b0\<lparr>g_recv_buf := d1, g_recv_len := g_recv_len b0 + length c\<rparr>)"
    using n(1) d1(1) unfolding recv_fragment_def Let_def c0_def [symmetric] by (auto simp: b0_def)
  then show ?thesis using d1 b0 by (auto simp: recv_inv_def recv_contents_def)
qed

interpretation recv: growing_buffer recv_inv recv_contents "\<lambda>c b. map_option snd (recv_fragment (\<lambda>_. True) c b)"
proof
  fix b c
  assume "recv_inv b"
  then show "\<exists>b'. map_option snd (recv_fragment (\<lambda>_. True) c b) = Some b' \<and> recv_inv b' \<and> recv_contents b' = recv_contents b @ c"
    using recv_fragment_ok [of b c] by fastforce
qed

section \<open>Properties\<close>

text \<open>
  C24. The response buffer is never overrun: for every chunk and every behaviour of \<open>realloc\<close>,
  \<open>write_cb\<close> ends, and has either stored the whole chunk behind what was there, with a
  terminating NUL inside the block, or returned 0 with the buffer as it was because a
  block of at most twice the needed size was refused.
\<close>

theorem write_cb_never_overruns:
  assumes "http_inv b"
  shows "\<exists>n b'. write_cb alloc c b = Some (n, b') \<and> http_inv b' \<and>
     (n = length c \<and> http_contents b' = http_contents b @ c \<or>
      n = 0 \<and> b' = b \<and> (\<exists>k < max (2 * hb_cap b + 1025) (2 * (hb_len b + length c + 1)). \<not> alloc k))"
  using assms
proof (cases rule: write_cb_cases [of b alloc c])
  case (stored b')
  then show ?thesis by (intro exI [of _ "length c"] exI [of _ b']) simp
next
  case (no_memory k)
  then show ?thesis using assms by (intro exI [of _ 0] exI [of _ b]) auto
qed

lemma http_empty: "http_inv \<lparr>hb_data = [], hb_len = 0, hb_cap = 0\<rparr>"
  by (simp add: http_inv_def)

theorem write_cb_never_overruns_witness:
  "\<exists>n b'. write_cb (\<lambda>k. k < 10) [1, 2] \<lparr>hb_data = [], hb_len = 0, hb_cap = 0\<rparr> = Some (n, b') \<and> http_inv b'"
  using write_cb_never_overruns [OF http_empty, of "\<lambda>k. k < 10" "[1, 2]"] by blast

lemma read_loop_all:
  assumes "length buf = cap" and "got < cap"
  shows "\<exists>r. read_loop alloc buf got cap pipe = Some r \<and>
     (r = None \<longrightarrow> \<not> (\<forall>n. alloc n)) \<and>
     (\<forall>d n. r = Some (d, n) \<longrightarrow> n = got + length pipe \<and> filled d n = filled buf got @ pipe)"
  using assms
proof (induction alloc buf got cap pipe rule: read_loop.induct)
  case (1 alloc buf got cap pipe)
  define n where "n = min (cap - got) (length pipe)"
  show ?case
  proof (cases "n = 0")
    case True
    then have "pipe = []" using 1(4) by (simp add: n_def min_def split: if_splits)
    then show ?thesis by simp
  next
    case False
    have ln: "length (take n pipe) = n" "got + n \<le> cap" using 1(4) by (simp_all add: n_def)
    obtain d where d: "memcpy buf got (take n pipe) = Some d" "length d = cap" "filled d (got + n) = filled buf got @ take n pipe"
      using memcpy_filled [of got "take n pipe" buf] ln 1(3) by auto
    have rest: "n + length (drop n pipe) = length pipe" by (simp add: n_def)
    have unf: "read_loop alloc buf got cap pipe =
        (if got + n \<ge> cap then
           (if alloc (cap * 2) then read_loop alloc (realloc d (cap * 2)) (got + n) (cap * 2) (drop n pipe) else Some None)
         else read_loop alloc d (got + n) cap (drop n pipe))"
      using False d(1) by (subst read_loop.simps) (simp add: Let_def n_def [symmetric] del: read_loop.simps)
    consider (refused) "got + n \<ge> cap" "\<not> alloc (cap * 2)" | (grown) "got + n \<ge> cap" "alloc (cap * 2)" | (room) "got + n < cap"
      by linarith
    then show ?thesis
    proof cases
      case refused
      then show ?thesis using unf by auto
    next
      case grown
      have f: "filled (realloc d (cap * 2)) (got + n) = filled buf got @ take n pipe"
        using d(2,3) ln(2) by (simp add: filled_realloc)
      show ?thesis
        using 1(1) [OF n_def False d(1) grown] unf grown f rest ln 1(4) by (auto simp del: read_loop.simps)
    next
      case room
      show ?thesis
        using 1(2) [OF n_def False d(1)] unf room d rest by (auto simp del: read_loop.simps)
    qed
  qed
qed

text \<open>
  What a clipboard tool prints is read completely: \<open>read_type\<close>'s loop stays inside its
  block, ends, and returns exactly the bytes of the pipe, however many there are; an empty
  output is NULL, and so is running out of memory.
\<close>

theorem read_pipe_complete:
  "\<exists>r. read_pipe alloc pipe = Some r \<and> (r = Some pipe \<and> pipe \<noteq> [] \<or> r = None \<and> (pipe = [] \<or> (\<exists>n. \<not> alloc n)))"
proof -
  obtain r where "read_loop alloc (replicate READ_CAP None) 0 READ_CAP pipe = Some r"
    "r = None \<longrightarrow> \<not> (\<forall>n. alloc n)"
    "\<forall>d n. r = Some (d, n) \<longrightarrow> n = length pipe \<and> filled d n = pipe"
    using read_loop_all [of "replicate READ_CAP None" READ_CAP 0 alloc pipe] by (auto simp: READ_CAP_def filled_def)
  then show ?thesis by (cases r) (auto simp: read_pipe_def simp del: read_loop.simps)
qed

lemma recv_finish_iff:
  assumes "recv_inv b"
  shows "if g_recv_len b < g_recv_cap b
     then \<exists>b'. recv_finish b = Some (recv_contents b, b') \<and> recv_inv b' \<and> g_recv_len b' = 0 \<and> g_recv_cap b' = g_recv_cap b
     else recv_finish b = None"
proof (cases "g_recv_len b < g_recv_cap b")
  case True
  then show ?thesis
    using assms memcpy_nul [of "g_recv_len b" "g_recv_buf b"] by (auto simp: recv_finish_def recv_inv_def recv_contents_def)
next
  case False
  then show ?thesis using assms by (auto simp: recv_finish_def recv_inv_def memcpy_def)
qed

text \<open>
  C25. A WebSocket message is put together from its fragments: whatever they are, their bytes
  end up in the buffer in order, and the completed text is handed over and the buffer emptied
  when one byte is left for the terminating NUL. When the message exactly fills the buffer,
  that NUL is written one byte behind the block.
\<close>

theorem message_reassembled:
  assumes "recv_inv b" and "g_recv_len b = 0"
  shows "\<exists>b'. feed (\<lambda>c b. map_option snd (recv_fragment (\<lambda>_. True) c b)) cs b = Some b' \<and> recv_inv b' \<and>
     g_recv_len b' = length (concat cs) \<and>
     (if length (concat cs) < g_recv_cap b'
      then \<exists>b''. recv_finish b' = Some (concat cs, b'') \<and> recv_inv b'' \<and> g_recv_len b'' = 0
      else recv_finish b' = None)"
proof -
  obtain b' where b': "feed (\<lambda>c b. map_option snd (recv_fragment (\<lambda>_. True) c b)) cs b = Some b'" "recv_inv b'"
    "recv_contents b' = concat cs"
    using recv.feed_concat [OF assms(1), of cs] assms(2) by (auto simp: recv_contents_def filled_def)
  moreover have "length (recv_contents b') = g_recv_len b'"
    using b'(2) by (simp add: recv_contents_def filled_def recv_inv_def)
  ultimately show ?thesis using recv_finish_iff [OF b'(2)] by (intro exI [of _ b']) (auto split: if_splits)
qed

definition empty_recv :: RecvBuf where
  "empty_recv = \<lparr>g_recv_buf = [], g_recv_len = 0, g_recv_cap = 0\<rparr>"

lemma empty_recv_inv: "recv_inv empty_recv" "g_recv_len empty_recv = 0"
  by (simp_all add: recv_inv_def empty_recv_def)

theorem message_reassembled_witness:
  "\<exists>b'. feed (\<lambda>c b. map_option snd (recv_fragment (\<lambda>_. True) c b)) [[123], [125]] empty_recv = Some b' \<and> g_recv_len b' = 2"
  using message_reassembled [OF empty_recv_inv, of "[[123], [125]]"] by auto

text \<open>
  The overrun happens: a first message of 4095 bytes leaves a block of 4096, and a second
  message of 4096 bytes writes its NUL behind it.
\<close>

theorem recv_overrun:
  assumes "length m1 = 4095" and "length m2 = 4096"
  shows "\<exists>b1 b2 b3. recv_fragment (\<lambda>_. True) m1 empty_recv = Some (True, b1) \<and> recv_finish b1 = Some (m1, b2)
     \<and> recv_fragment (\<lambda>_. True) m2 b2 = Some (True, b3) \<and> recv_finish b3 = None"
proof -
  obtain b1 where b1: "recv_fragment (\<lambda>_. True) m1 empty_recv = Some (True, b1)" "recv_inv b1" "recv_contents b1 = m1"
    using recv_fragment_ok [OF empty_recv_inv(1), of m1] by (auto simp: recv_contents_def filled_def empty_recv_def)
  have c1: "g_recv_cap b1 = 4096" "g_recv_len b1 = 4095"
    using b1(1) assms(1) by (auto simp: recv_fragment_def empty_recv_def Let_def grow.simps memcpy_def)
  obtain b2 where b2: "recv_finish b1 = Some (m1, b2)" "recv_inv b2" "g_recv_len b2 = 0" "g_recv_cap b2 = 4096"
    using recv_finish_iff [OF b1(2)] c1 b1(3) by auto
  obtain b3 where b3: "recv_fragment (\<lambda>_. True) m2 b2 = Some (True, b3)" "recv_inv b3"
    using recv_fragment_ok [OF b2(2), of m2] by blast
  have "g_recv_cap b3 = 4096" "g_recv_len b3 = 4096"
    using b3(1) b2(3,4) assms(2) by (auto simp: recv_fragment_def Let_def bind_eq_Some_conv)
  then have "recv_finish b3 = None" using recv_finish_iff [OF b3(2)] by simp
  then show ?thesis using b1 b2 b3 by blast
qed

end
