(* ===== verification/Openssl.thy ===== *)
theory Openssl
  imports Prelude
begin

text \<open>
  The OpenSSL calls of the clients, and \<open>malloc\<close>, as a record of functions that the models
  of \<open>common/codec.c\<close>, \<open>common/crypto.c\<close> and \<open>common/ft/\<close> take as an argument. The code of
  OpenSSL is not part of the repository, so nothing is assumed of these functions in the
  definitions; the documented behaviour a property relies on is one of the predicates
  below, and \<open>ref_ssl\<close> is an instance that satisfies all of them: the base64 of RFC 4648
  with its round trip proved, and simple stand-ins for the ciphers and digests.

  \<^item> \<open>b64_write d n\<close>: \<open>BIO_write\<close> of \<open>n\<close> bytes through \<open>BIO_f_base64\<close> with
    \<open>BIO_FLAGS_BASE64_NO_NL\<close> and the flush: the return value and the memory BIO's text.
  \<^item> \<open>b64_read t n m\<close>: \<open>BIO_read\<close> of at most \<open>m\<close> bytes from the first \<open>n\<close> characters of
    \<open>t\<close>: the return value and the bytes.
  \<^item> \<open>encode_block d n\<close>, \<open>decode_block t n\<close>: \<open>EVP_EncodeBlock\<close> and \<open>EVP_DecodeBlock\<close>.
  \<^item> \<open>gcm_seal k iv p n\<close>: the \<open>EVP_aes_256_gcm\<close> encryption sequence, ciphertext and tag,
    \<open>None\<close> when one of the calls does not return 1; \<open>gcm_open\<close> the decryption sequence.
  \<^item> \<open>cbc_init\<close>, \<open>cbc_seal\<close>, \<open>cbc_open\<close>: the \<open>EVP_aes_256_cbc\<close> sequences.
  \<^item> \<open>sha256\<close>, \<open>hmac_sha256\<close>: the digest, and \<open>HMAC\<close> with the length it reports.
  \<^item> \<open>malloc_ok site n\<close>: whether the allocation of \<open>n\<close> bytes at that place succeeds.
\<close>

record openssl =
  b64_write :: "byte list \<Rightarrow> int \<Rightarrow> int \<times> string"
  b64_read :: "string \<Rightarrow> int \<Rightarrow> int \<Rightarrow> int \<times> byte list"
  encode_block :: "byte list \<Rightarrow> int \<Rightarrow> string"
  decode_block :: "string \<Rightarrow> int \<Rightarrow> int \<times> byte list"
  gcm_seal :: "byte list \<Rightarrow> byte list \<Rightarrow> byte list \<Rightarrow> int \<Rightarrow> (byte list \<times> byte list) option"
  gcm_open :: "byte list \<Rightarrow> byte list \<Rightarrow> byte list \<Rightarrow> int \<Rightarrow> byte list \<Rightarrow> byte list option"
  cbc_init :: "byte list \<Rightarrow> byte list \<Rightarrow> bool"
  cbc_seal :: "byte list \<Rightarrow> byte list \<Rightarrow> byte list \<Rightarrow> int \<Rightarrow> byte list"
  cbc_open :: "byte list \<Rightarrow> byte list \<Rightarrow> byte list \<Rightarrow> int \<Rightarrow> byte list option"
  sha256 :: "byte list \<Rightarrow> byte list"
  hmac_sha256 :: "byte list \<Rightarrow> byte list \<Rightarrow> byte list \<times> nat"
  malloc_ok :: "string \<Rightarrow> nat \<Rightarrow> bool"

section \<open>Documented behaviour\<close>

definition b64_alphabet :: string where
  "b64_alphabet =
     ''ABCDEFGHIJKLMNOPQRSTUVWXYZabcdefghijklmnopqrstuvwxyz0123456789+/''"

definition mem_ok :: "openssl \<Rightarrow> bool" where
  "mem_ok ssl \<longleftrightarrow> (\<forall>site n. malloc_ok ssl site n)"

text \<open>
  The shape of a base64 text of \<open>n\<close> bytes: four characters per group of three bytes, letters
  of the alphabet and then at most two \<open>=\<close>.
\<close>

definition b64_shape :: "nat \<Rightarrow> string \<Rightarrow> bool" where
  "b64_shape n t \<longleftrightarrow>
     (\<exists>body k. t = body @ replicate k CHR ''='' \<and> k \<le> 2 \<and> set body \<subseteq> set b64_alphabet
        \<and> length t = 4 * ((n + 2) div 3) \<and> (n + k) mod 3 = 0)"

definition b64_documented :: "openssl \<Rightarrow> bool" where
  "b64_documented ssl \<longleftrightarrow>
     (\<forall>d. d \<noteq> [] \<and> length d < 2 ^ 30 \<longrightarrow>
        (\<exists>t. b64_write ssl d (int (length d)) = (int (length d), t) \<and> b64_shape (length d) t
           \<and> (\<forall>m \<ge> int (length d). b64_read ssl t (int (length t)) m = (int (length d), d))))"

definition block_documented :: "openssl \<Rightarrow> bool" where
  "block_documented ssl \<longleftrightarrow>
     (\<forall>d. length d < 2 ^ 30 \<longrightarrow>
        (let t = encode_block ssl d (int (length d));
             k = (3 - length d mod 3) mod 3
         in b64_shape (length d) t
            \<and> decode_block ssl t (int (length t)) = (int (length d + k), d @ replicate k 0)))"

definition gcm_documented :: "openssl \<Rightarrow> bool" where
  "gcm_documented ssl \<longleftrightarrow>
     (\<forall>k iv p. length k = 32 \<and> length iv = 12 \<and> length p < 2 ^ 31 \<longrightarrow>
        (\<exists>c t. gcm_seal ssl k iv p (int (length p)) = Some (c, t)
           \<and> length c = length p \<and> length t = 16
           \<and> gcm_open ssl k iv c (int (length c)) t = Some p))"

definition cbc_documented :: "openssl \<Rightarrow> bool" where
  "cbc_documented ssl \<longleftrightarrow>
     (\<forall>k iv p. length k = 32 \<and> length iv = 16 \<and> length p < 2 ^ 30 \<longrightarrow>
        (let c = cbc_seal ssl k iv p (int (length p))
         in cbc_init ssl k iv \<and> length c = 16 * (length p div 16 + 1)
            \<and> cbc_open ssl k iv c (int (length c)) = Some p))"

definition digest_documented :: "openssl \<Rightarrow> bool" where
  "digest_documented ssl \<longleftrightarrow>
     (\<forall>d. length (sha256 ssl d) = 32) \<and>
     (\<forall>k d. length (fst (hmac_sha256 ssl k d)) = 32 \<and> snd (hmac_sha256 ssl k d) = 32)"

lemma b64_shape_nul: "b64_shape n t \<Longrightarrow> nul \<notin> set t"
proof -
  assume "b64_shape n t"
  then obtain body k where t: "t = body @ replicate k CHR ''=''" "set body \<subseteq> set b64_alphabet"
    by (auto simp: b64_shape_def)
  have "nul \<notin> set b64_alphabet" by (simp add: b64_alphabet_def nul_def)
  then show ?thesis using t by (auto simp: nul_def)
qed

section \<open>Base64 of RFC 4648\<close>

definition b64_char :: "nat \<Rightarrow> char" where
  "b64_char n = b64_alphabet ! n"

fun b64_index_from :: "nat \<Rightarrow> string \<Rightarrow> char \<Rightarrow> nat option" where
  "b64_index_from i [] c = None"
| "b64_index_from i (x # xs) c = (if x = c then Some i else b64_index_from (Suc i) xs c)"

definition b64_index :: "char \<Rightarrow> nat option" where
  "b64_index c = b64_index_from 0 b64_alphabet c"

fun rfc_encode :: "byte list \<Rightarrow> string" where
  "rfc_encode [] = []"
| "rfc_encode [a] =
     [b64_char (unat a div 4), b64_char (unat a mod 4 * 16), CHR ''='', CHR ''='']"
| "rfc_encode [a, b] =
     [b64_char (unat a div 4), b64_char (unat a mod 4 * 16 + unat b div 16),
      b64_char (unat b mod 16 * 4), CHR ''='']"
| "rfc_encode (a # b # c # r) =
     b64_char (unat a div 4) # b64_char (unat a mod 4 * 16 + unat b div 16) #
     b64_char (unat b mod 16 * 4 + unat c div 64) # b64_char (unat c mod 64) # rfc_encode r"

definition dec3 :: "nat \<Rightarrow> nat \<Rightarrow> nat \<Rightarrow> nat \<Rightarrow> byte list" where
  "dec3 w x y z =
     [of_nat (w * 4 + x div 16), of_nat (x mod 16 * 16 + y div 4), of_nat (y mod 4 * 64 + z)]"

text \<open>A group with its index values; \<open>=\<close> counts as zero, as in \<open>EVP_DecodeBlock\<close>.\<close>

definition b64_val :: "char \<Rightarrow> nat option" where
  "b64_val c = (if c = CHR ''='' then Some 0 else b64_index c)"

fun rfc_decode_block :: "string \<Rightarrow> byte list option" where
  "rfc_decode_block [] = Some []"
| "rfc_decode_block (p # q # r # s # t) =
     (case (b64_val p, b64_val q, b64_val r, b64_val s) of
        (Some w, Some x, Some y, Some z) \<Rightarrow> map_option ((@) (dec3 w x y z)) (rfc_decode_block t)
      | _ \<Rightarrow> None)"
| "rfc_decode_block _ = None"

definition pad_count :: "string \<Rightarrow> nat" where
  "pad_count t = length (takeWhile (\<lambda>c. c = CHR ''='') (rev t))"

definition rfc_decode :: "string \<Rightarrow> byte list option" where
  "rfc_decode t = map_option (\<lambda>d. take (length d - pad_count t) d) (rfc_decode_block t)"

lemma length_b64_alphabet: "length b64_alphabet = 64"
  by (simp add: b64_alphabet_def)

lemma b64_index_char: "n < 64 \<Longrightarrow> b64_index (b64_char n) = Some n"
proof -
  have "\<forall>n \<in> set [0..<64]. b64_index (b64_char n) = Some n"
    by code_simp
  then show "n < 64 \<Longrightarrow> b64_index (b64_char n) = Some n" by simp
qed

lemma b64_char_mem: "n < 64 \<Longrightarrow> b64_char n \<in> set b64_alphabet"
  using length_b64_alphabet by (simp add: b64_char_def)

lemma b64_pad_not_mem: "CHR ''='' \<notin> set b64_alphabet"
  by (simp add: b64_alphabet_def)

lemma b64_val_char: "n < 64 \<Longrightarrow> b64_val (b64_char n) = Some n"
  using b64_char_mem [of n] b64_pad_not_mem by (auto simp: b64_val_def b64_index_char)

lemma b64_val_pad: "b64_val CHR ''='' = Some 0"
  by (simp add: b64_val_def)

lemma unat_byte_less: "unat (b :: byte) < 256"
  using unsigned_less [of b, where 'a = nat] by simp

lemma group_split: "n < k \<Longrightarrow> (m * k + n) div k = m \<and> (m * k + n) mod k = n" for m n k :: nat
  by simp

lemma byte_div: "unat (b :: byte) div 4 < 64" "unat b div 16 < 16" "unat b div 64 < 4"
  using unat_byte_less [of b] by (simp_all add: less_mult_imp_div_less)

lemma dec3_enc:
  fixes a b c :: byte
  shows "dec3 (unat a div 4) (unat a mod 4 * 16 + unat b div 16)
           (unat b mod 16 * 4 + unat c div 64) (unat c mod 64) = [a, b, c]"
proof -
  have x: "(unat a mod 4 * 16 + unat b div 16) div 16 = unat a mod 4"
    "(unat a mod 4 * 16 + unat b div 16) mod 16 = unat b div 16"
    using group_split [OF byte_div(2) [of b]] by blast+
  have y: "(unat b mod 16 * 4 + unat c div 64) div 4 = unat b mod 16"
    "(unat b mod 16 * 4 + unat c div 64) mod 4 = unat c div 64"
    using group_split [OF byte_div(3) [of c]] by blast+
  show ?thesis
    unfolding dec3_def x y div_mult_mod_eq by simp
qed

lemma mix_bounds: "x < 4 \<Longrightarrow> y < 16 \<Longrightarrow> x * 16 + y < (64 :: nat)"
  "x < 16 \<Longrightarrow> y < 4 \<Longrightarrow> x * 4 + y < (64 :: nat)"
  by simp_all

lemma enc_bounds:
  fixes a b c :: byte
  shows "unat a div 4 < 64" and "unat a mod 4 * 16 + unat b div 16 < 64"
    and "unat b mod 16 * 4 + unat c div 64 < 64" and "unat c mod 64 < 64"
    and "unat a mod 4 * 16 < 64" and "unat b mod 16 * 4 < 64"
  using mix_bounds(1) [OF mod_less_divisor byte_div(2)] mix_bounds(2) [OF mod_less_divisor byte_div(3)]
    mix_bounds(1) [OF mod_less_divisor, of "unat a" 0] mix_bounds(2) [OF mod_less_divisor, of "unat b" 0]
    byte_div(1)
  by simp_all

lemma rfc_decode_block_encode:
  "rfc_decode_block (rfc_encode d) = Some (d @ replicate ((3 - length d mod 3) mod 3) 0)"
proof (induction d rule: rfc_encode.induct)
  case (2 a)
  then show ?case
    using dec3_enc [of a 0 0] by (simp add: b64_val_char enc_bounds b64_val_pad numeral_2_eq_2)
next
  case (3 a b)
  then show ?case
    using dec3_enc [of a b 0] by (simp add: b64_val_char enc_bounds b64_val_pad)
next
  case (4 a b c r)
  then show ?case by (simp add: b64_val_char enc_bounds dec3_enc)
qed simp

lemma b64_shapeE:
  assumes "b64_shape n t"
  obtains body k where "t = body @ replicate k CHR ''=''" "k \<le> 2"
    "set body \<subseteq> set b64_alphabet" "length t = 4 * ((n + 2) div 3)" "(n + k) mod 3 = 0"
  using assms unfolding b64_shape_def by (elim exE conjE) (rule that)

lemma rfc_encode_shape: "b64_shape (length d) (rfc_encode d)"
proof (induction d rule: rfc_encode.induct)
  case 1
  show ?case unfolding b64_shape_def by (rule exI [of _ "[]"], rule exI [of _ 0]) simp
next
  case (2 a)
  show ?case unfolding b64_shape_def
    by (rule exI [of _ "[b64_char (unat a div 4), b64_char (unat a mod 4 * 16)]"], rule exI [of _ 2])
      (simp add: b64_char_mem enc_bounds numeral_2_eq_2)
next
  case (3 a b)
  show ?case unfolding b64_shape_def
    by (rule exI [of _ "[b64_char (unat a div 4), b64_char (unat a mod 4 * 16 + unat b div 16),
      b64_char (unat b mod 16 * 4)]"], rule exI [of _ 1]) (simp add: b64_char_mem enc_bounds)
next
  case (4 a b c r)
  then obtain body k where bk: "rfc_encode r = body @ replicate k CHR ''=''" "k \<le> 2"
    "set body \<subseteq> set b64_alphabet" "length (rfc_encode r) = 4 * ((length r + 2) div 3)"
    "(length r + k) mod 3 = 0"
    by (elim b64_shapeE)
  let ?g = "[b64_char (unat a div 4), b64_char (unat a mod 4 * 16 + unat b div 16),
     b64_char (unat b mod 16 * 4 + unat c div 64), b64_char (unat c mod 64)]"
  have "set (?g @ body) \<subseteq> set b64_alphabet"
    using bk(3) by (simp add: b64_char_mem enc_bounds)
  moreover have "rfc_encode (a # b # c # r) = (?g @ body) @ replicate k CHR ''=''"
    using bk(1) by simp
  moreover have "length (rfc_encode (a # b # c # r)) = 4 * ((length (a # b # c # r) + 2) div 3)"
  proof -
    have "(length r + 2 + 3) div 3 = (length r + 2) div 3 + 1" by simp
    then show ?thesis using bk(4) by (simp add: add.commute)
  qed
  moreover have "(length (a # b # c # r) + k) mod 3 = 0"
    using bk(5) by (simp add: mod_Suc)
  ultimately show ?case unfolding b64_shape_def using bk(2) by (intro exI conjI)
qed

lemma pad_count_shape:
  assumes "b64_shape n t"
  shows "pad_count t = (3 - n mod 3) mod 3"
proof -
  obtain body k where bk: "t = body @ replicate k CHR ''=''" "k \<le> 2"
    "set body \<subseteq> set b64_alphabet" "(n + k) mod 3 = 0"
    using assms by (elim b64_shapeE)
  have "takeWhile (\<lambda>c. c = CHR ''='') (rev body) = []"
    using bk(3) b64_pad_not_mem by (cases body rule: rev_cases) auto
  then have "pad_count t = k"
    by (simp add: pad_count_def bk(1) takeWhile_append)
  moreover have "(3 - n mod 3) mod 3 = k" using bk(2,4) by (intro pad_unique) simp_all
  ultimately show ?thesis by simp
qed

lemma rfc_decode_encode: "rfc_decode (rfc_encode d) = Some d"
  using pad_count_shape [OF rfc_encode_shape, of d]
  by (simp add: rfc_decode_def rfc_decode_block_encode)

section \<open>A reference instance\<close>

definition ref_mask :: "byte list \<Rightarrow> byte list \<Rightarrow> byte list" where
  "ref_mask k p = map (\<lambda>b. b XOR hd k) p"

definition ref_sum :: "byte list \<Rightarrow> byte" where
  "ref_sum d = foldl (\<lambda>h b. 31 * h + b) 7 d"

definition ref_tag :: "byte list \<Rightarrow> byte list \<Rightarrow> byte list \<Rightarrow> byte list" where
  "ref_tag k iv c = replicate 16 (ref_sum (k @ iv @ c))"

definition ref_pad :: "byte list \<Rightarrow> byte list" where
  "ref_pad p = p @ replicate (16 - length p mod 16) (of_nat (16 - length p mod 16))"

definition ref_ssl :: openssl where
  "ref_ssl =
     \<lparr>b64_write = (\<lambda>d n. if n \<le> 0 then (0, []) else (n, rfc_encode (take (nat n) d))),
      b64_read = (\<lambda>t n m. case rfc_decode (take (nat n) t) of
                     None \<Rightarrow> (- 1, [])
                   | Some d \<Rightarrow> (int (length (take (nat m) d)), take (nat m) d)),
      encode_block = (\<lambda>d n. rfc_encode (take (nat n) d)),
      decode_block = (\<lambda>t n. case rfc_decode_block (take (nat n) t) of
                         None \<Rightarrow> (- 1, [])
                       | Some d \<Rightarrow> (int (length d), d)),
      gcm_seal = (\<lambda>k iv p n. Some (ref_mask k p, ref_tag k iv (ref_mask k p))),
      gcm_open = (\<lambda>k iv c n t. if t = ref_tag k iv c then Some (ref_mask k c) else None),
      cbc_init = (\<lambda>k iv. True),
      cbc_seal = (\<lambda>k iv p n. ref_mask k (ref_pad p)),
      cbc_open = (\<lambda>k iv c n.
         let p = ref_mask k c in
         if p = [] \<or> length p < unat (last p) \<or> last p = 0 then None
         else Some (take (length p - unat (last p)) p)),
      sha256 = (\<lambda>d. replicate 32 (ref_sum d)),
      hmac_sha256 = (\<lambda>k d. (replicate 32 (ref_sum (k @ d)), 32)),
      malloc_ok = (\<lambda>site n. True)\<rparr>"

lemma ref_mask_mask: "ref_mask k (ref_mask k p) = p"
  by (induction p) (simp_all add: ref_mask_def xor.assoc)

lemma length_ref_mask [simp]: "length (ref_mask k p) = length p"
  by (simp add: ref_mask_def)

lemma ref_mem: "mem_ok ref_ssl"
  by (simp add: mem_ok_def ref_ssl_def)

lemma ref_b64: "b64_documented ref_ssl"
proof -
  have "\<exists>t. b64_write ref_ssl d (int (length d)) = (int (length d), t) \<and> b64_shape (length d) t
      \<and> (\<forall>m \<ge> int (length d). b64_read ref_ssl t (int (length t)) m = (int (length d), d))"
    if "d \<noteq> []" for d
    using that by (intro exI [of _ "rfc_encode d"])
      (auto simp: ref_ssl_def rfc_encode_shape rfc_decode_encode)
  then show ?thesis by (auto simp: b64_documented_def)
qed

lemma ref_block: "block_documented ref_ssl"
  by (auto simp: block_documented_def ref_ssl_def Let_def rfc_encode_shape rfc_decode_block_encode)

lemma ref_gcm: "gcm_documented ref_ssl"
  by (simp add: gcm_documented_def ref_ssl_def ref_mask_mask ref_tag_def)

lemma ref_cbc: "cbc_documented ref_ssl"
proof -
  have "cbc_open ref_ssl k iv (cbc_seal ref_ssl k iv p n) m = Some p" for k iv p n m
  proof -
    let ?q = "16 - length p mod 16"
    have u: "unat (of_nat ?q :: byte) = ?q"
      by (simp add: unat_of_nat del: of_nat_diff)
    then have "(of_nat ?q :: byte) \<noteq> 0"
      by (metis mod_less_divisor unsigned_0 zero_less_diff zero_less_numeral less_irrefl)
    then show ?thesis using u
      by (simp add: ref_ssl_def Let_def ref_mask_mask ref_pad_def)
  qed
  moreover have "length (cbc_seal ref_ssl k iv p n) = 16 * (length p div 16 + 1)" for k iv p n
    by (simp add: ref_ssl_def ref_pad_def) arith
  moreover have "cbc_init ref_ssl k iv" for k iv
    by (simp add: ref_ssl_def)
  ultimately show ?thesis by (simp add: cbc_documented_def Let_def)
qed

lemma ref_digest: "digest_documented ref_ssl"
  by (simp add: digest_documented_def ref_ssl_def)

end
