(* ===== verification/Codec.thy ===== *)
theory Codec
  imports Openssl
begin

text \<open>
  \<open>common/codec.c\<close>: base64 through the OpenSSL BIO filter, the normalisation of
  base64url input, and the hexadecimal conversions. A NULL result is \<open>None\<close>.
\<close>

section \<open>Definitions\<close>

definition sc_base64_encode :: "openssl \<Rightarrow> byte list \<Rightarrow> string option" where
  "sc_base64_encode ssl data =
     (let (wr, txt) = b64_write ssl data (int_of_size (length data)) in
      if wr \<le> 0 then None
      else if \<not> malloc_ok ssl ''sc_base64_encode'' (length txt + 1) then None
      else Some txt)"

text \<open>
  \<open>normalise_base64\<close>: the character loop, then the padding loop with its (re)allocation
  guard; the buffer is the string written so far and \<open>cap\<close> its capacity.
\<close>

definition normalise_char :: "char \<Rightarrow> char" where
  "normalise_char c = (if c = CHR ''-'' then CHR ''+'' else if c = CHR ''_'' then CHR ''/'' else c)"

function normalise_pad :: "openssl \<Rightarrow> string \<Rightarrow> nat \<Rightarrow> string option" where
  "normalise_pad ssl buf cap =
     (if length buf mod 4 \<noteq> 0 then
        (if length buf + 1 \<ge> cap then
           (if malloc_ok ssl ''normalise_base64.realloc'' (cap * 2)
            then normalise_pad ssl (buf @ [CHR ''='']) (cap * 2)
            else None)
         else normalise_pad ssl (buf @ [CHR ''='']) cap)
      else Some buf)"
  by pat_completeness auto
termination
  by (relation "measure (\<lambda>(ssl, buf, cap). (4 - length buf mod 4) mod 4)") (auto simp: mod_Suc)

declare normalise_pad.simps [simp del]

definition normalise_base64 :: "openssl \<Rightarrow> string \<Rightarrow> string option" where
  "normalise_base64 ssl input =
     (let len = length input; cap = len + 4 + 1 in
      if \<not> malloc_ok ssl ''normalise_base64'' cap then None
      else normalise_pad ssl (map normalise_char input) cap)"

definition sc_base64_decode :: "openssl \<Rightarrow> string option \<Rightarrow> byte list option" where
  "sc_base64_decode ssl input =
     (case input of
        None \<Rightarrow> None
      | Some inp \<Rightarrow>
          (case normalise_base64 ssl inp of
             None \<Rightarrow> None
           | Some normalised \<Rightarrow>
               (let in_len = length normalised; max_out = in_len * 3 div 4 + 4 in
                if \<not> malloc_ok ssl ''sc_base64_decode'' max_out then None
                else (let (decoded, buf) = b64_read ssl normalised (int_of_size in_len) (int_of_size max_out) in
                      if decoded < 0 then None else Some (take (nat decoded) buf)))))"

text \<open>
  \<open>sc_hex_to_bytes\<close>: \<open>-1\<close> is \<open>None\<close>, \<open>0\<close> is the filled buffer. The scan at \<open>hex + 2 * i\<close>
  sees the whole rest of the string.
\<close>

fun hex_scan_loop :: "string \<Rightarrow> nat \<Rightarrow> nat \<Rightarrow> byte list option" where
  "hex_scan_loop hex i 0 = Some []"
| "hex_scan_loop hex i (Suc n) =
     (case sscanf_2x (drop (2 * i) hex) of
        None \<Rightarrow> None
      | Some b \<Rightarrow> map_option ((#) (ucast b)) (hex_scan_loop hex (Suc i) n))"

definition sc_hex_to_bytes :: "string \<Rightarrow> nat \<Rightarrow> byte list option" where
  "sc_hex_to_bytes hex out_len =
     (if length hex \<noteq> out_len * 2 then None else hex_scan_loop hex 0 out_len)"

definition hex_digits :: string where
  "hex_digits = ''0123456789abcdef''"

definition sc_bytes_to_hex :: "byte list \<Rightarrow> string" where
  "sc_bytes_to_hex bytes =
     concat (map (\<lambda>b. [hex_digits ! unat (drop_bit 4 b AND 0x0F), hex_digits ! unat (b AND 0x0F)]) bytes)"

section \<open>Hexadecimal\<close>

text \<open>The bytes a string of hexadecimal digits denotes, two digits at a time.\<close>

fun hex_pairs :: "string \<Rightarrow> byte list" where
  "hex_pairs (c # d # r) = of_nat (16 * the (hexval c) + the (hexval d)) # hex_pairs r"
| "hex_pairs _ = []"

lemma hex_scan_loop_xdigits:
  assumes "\<forall>c \<in> set hex. isxdigit c" and "length hex = 2 * (i + n)"
  shows "hex_scan_loop hex i n = Some (hex_pairs (drop (2 * i) hex))"
  using assms(2)
proof (induction n arbitrary: i)
  case 0
  then show ?case by simp
next
  case (Suc n)
  then have "2 * i < length hex" and "Suc (2 * i) < length hex" by auto
  then obtain c d where r: "drop (2 * i) hex = c # d # drop (2 * Suc i) hex"
    and cd: "c \<in> set hex" "d \<in> set hex"
    by (metis Cons_nth_drop_Suc mult_Suc_right nth_mem plus_1_eq_Suc add_2_eq_Suc)
  from cd assms(1) obtain h l where hl: "hexval c = Some h" "hexval d = Some l"
    by (metis isxdigit_def option.exhaust)
  have "sscanf_2x (drop (2 * i) hex) = Some (of_nat (16 * h + l))"
    unfolding r using hl by (rule sscanf_2x_digits)
  moreover have "hex_scan_loop hex (Suc i) n = Some (hex_pairs (drop (2 * Suc i) hex))"
    by (rule Suc.IH) (use Suc.prems in simp)
  moreover have "(ucast (of_nat (16 * h + l) :: u32) :: byte) = of_nat (16 * h + l)"
    using hexval_less [OF hl(1)] hexval_less [OF hl(2)] by (simp add: unsigned_of_nat take_bit_nat_eq_self del: of_nat_add of_nat_mult)
  ultimately show ?case by (simp add: r hl)
qed

lemma sc_hex_to_bytes_xdigits:
  assumes "\<forall>c \<in> set hex. isxdigit c" and "length hex = 2 * n"
  shows "sc_hex_to_bytes hex n = Some (hex_pairs hex)"
  using hex_scan_loop_xdigits [of hex 0 n] assms by (simp add: sc_hex_to_bytes_def)

lemma length_hex_pairs: "length (hex_pairs s) = length s div 2"
  by (induction s rule: hex_pairs.induct) auto

lemma length_hex_scan_loop: "hex_scan_loop hex i n = Some bs \<Longrightarrow> length bs = n"
  by (induction n arbitrary: i bs) (auto split: option.splits)

lemma sc_hex_to_bytes_length: "sc_hex_to_bytes hex n = Some bs \<Longrightarrow> length bs = n \<and> length hex = 2 * n"
  by (auto simp: sc_hex_to_bytes_def length_hex_scan_loop split: if_splits)

lemma hex_digits_nth: "n < 16 \<Longrightarrow> hex_digits ! n = hexdigit n"
proof -
  have "\<forall>n \<in> set [0..<16]. hex_digits ! n = hexdigit n" by code_simp
  then show "n < 16 \<Longrightarrow> hex_digits ! n = hexdigit n" by simp
qed

lemma unat_nibbles: "unat (drop_bit 4 b) = unat b div 16" "unat (b AND 0x0F) = unat b mod 16"
  for b :: byte
proof -
  have m: "(x AND 0x0F) = take_bit 4 x" for x :: byte
    by (simp add: take_bit_eq_mask mask_numeral)
  have t: "unat (take_bit 4 x) = unat x mod 16" for x :: byte
    by (simp add: unsigned_take_bit_eq take_bit_eq_mod [where 'a = nat])
  have d: "unat (drop_bit 4 x) = unat x div 16" for x :: byte
    using unat_byte_less [of x]
    by (simp add: unsigned_drop_bit_eq take_bit_nat_eq_self drop_bit_eq_div [where 'a = nat])
  show "unat (drop_bit 4 b) = unat b div 16"
    by (rule d)
  show "unat (b AND 0x0F) = unat b mod 16"
    unfolding m t by simp
qed

lemma sc_bytes_to_hex_hex02: "sc_bytes_to_hex bs = concat (map hex02 bs)"
proof -
  have "[hex_digits ! unat (drop_bit 4 b AND 0x0F), hex_digits ! unat (b AND 0x0F)] = hex02 b" for b :: byte
    unfolding unat_nibbles hex02_def using byte_div(2) [of b] by (simp add: hex_digits_nth)
  then show ?thesis by (simp add: sc_bytes_to_hex_def)
qed

lemma hex02_facts: "hexval (hexdigit (unat b div 16)) = Some (unat b div 16)"
  "hexval (hexdigit (unat b mod 16)) = Some (unat b mod 16)" for b :: byte
  using byte_div(2) [of b] by (simp_all add: hexval_hexdigit)

lemma xdigits_concat_hex02: "\<forall>c \<in> set (concat (map hex02 bs)). isxdigit c"
  by (auto simp: hex02_def isxdigit_def hex02_facts)

lemma hex_pairs_hex02: "hex_pairs (concat (map hex02 bs)) = bs"
  by (induction bs) (simp_all add: hex02_def hex02_facts)

lemma length_concat_hex02: "length (concat (map hex02 bs)) = 2 * length bs"
  by (induction bs) (simp_all add: hex02_def)

text \<open>
  Hexadecimal round trip: scanning the text that \<open>sc_bytes_to_hex\<close> writes gives the
  bytes back, whatever they are.
\<close>

theorem hex_roundtrip: "sc_hex_to_bytes (sc_bytes_to_hex bs) (length bs) = Some bs"
  by (simp add: sc_bytes_to_hex_hex02 sc_hex_to_bytes_xdigits xdigits_concat_hex02
      length_concat_hex02 hex_pairs_hex02)

section \<open>Base64\<close>

abbreviation pad4 :: "nat \<Rightarrow> nat" where
  "pad4 n \<equiv> (4 - n mod 4) mod 4"

lemma pad4_Suc: "n mod 4 \<noteq> 0 \<Longrightarrow> pad4 n = Suc (pad4 (Suc n))"
  by (auto simp: mod_Suc)

text \<open>
  The padding loop never reaches its reallocation: the buffer of \<open>len + 5\<close> bytes has room
  for the at most three padding characters and the NUL.
\<close>

lemma normalise_pad_eq:
  "length buf + pad4 (length buf) < cap \<Longrightarrow>
     normalise_pad ssl buf cap = Some (buf @ replicate (pad4 (length buf)) CHR ''='')"
proof (induction ssl buf cap rule: normalise_pad.induct)
  case (1 ssl buf cap)
  show ?case
  proof (cases "length buf mod 4 = 0")
    case True
    then show ?thesis by (simp add: normalise_pad.simps [of ssl buf])
  next
    case False
    have p: "pad4 (length buf) = Suc (pad4 (Suc (length buf)))"
      by (rule pad4_Suc [OF False])
    then have nc: "\<not> length buf + 1 \<ge> cap" using "1.prems" by simp
    have "length (buf @ [CHR ''='']) + pad4 (length (buf @ [CHR ''=''])) < cap"
      using "1.prems" p by simp
    from "1.IH"(2) [OF False nc this] show ?thesis
      using False nc p by (simp add: normalise_pad.simps [of ssl buf])
  qed
qed

lemma normalise_base64_eq:
  assumes "malloc_ok ssl ''normalise_base64'' (length s + 5)"
  shows "normalise_base64 ssl s = Some (map normalise_char s @ replicate (pad4 (length s)) CHR ''='')"
proof -
  have "pad4 (length s) < 4" by (rule mod_less_divisor) simp
  then have "length (map normalise_char s) + pad4 (length (map normalise_char s)) < length s + 4 + 1"
    by simp
  from normalise_pad_eq [OF this, of ssl] show ?thesis
    using assms by (simp add: normalise_base64_def Let_def add.commute)
qed

text \<open>The base64url form of a text: \<open>-\<close> and \<open>_\<close> for \<open>+\<close> and \<open>/\<close>, and no padding.\<close>

definition base64url_of :: "string \<Rightarrow> string" where
  "base64url_of t =
     map (\<lambda>c. if c = CHR ''+'' then CHR ''-'' else if c = CHR ''/'' then CHR ''_'' else c)
       (rev (dropWhile (\<lambda>c. c = CHR ''='') (rev t)))"

lemma normalise_alphabet:
  assumes "c \<in> set b64_alphabet"
  shows "normalise_char c = c"
    and "normalise_char (if c = CHR ''+'' then CHR ''-'' else if c = CHR ''/'' then CHR ''_'' else c) = c"
proof -
  have "CHR ''-'' \<notin> set b64_alphabet" "CHR ''_'' \<notin> set b64_alphabet"
    by (simp_all add: b64_alphabet_def)
  with assms show "normalise_char c = c"
    and "normalise_char (if c = CHR ''+'' then CHR ''-'' else if c = CHR ''/'' then CHR ''_'' else c) = c"
    by (auto simp: normalise_char_def)
qed

lemma map_id_on: "(\<And>x. x \<in> set xs \<Longrightarrow> f x = x) \<Longrightarrow> map f xs = xs"
  by (induction xs) auto

lemma normalise_shape:
  assumes sh: "b64_shape n t" and mem: "mem_ok ssl"
  shows "normalise_base64 ssl t = Some t" and "normalise_base64 ssl (base64url_of t) = Some t"
proof -
  obtain body k where bk: "t = body @ replicate k CHR ''=''" "k \<le> 2"
    "set body \<subseteq> set b64_alphabet" "length t = 4 * ((n + 2) div 3)"
    using sh by (elim b64_shapeE)
  have l4: "length t mod 4 = 0" by (simp add: bk(4))
  have body: "map normalise_char body = body"
    by (rule map_id_on) (use bk(3) normalise_alphabet(1) in blast)
  have "map normalise_char t = t"
    by (simp add: bk(1) body) (simp add: map_replicate_const [symmetric] normalise_char_def)
  then show "normalise_base64 ssl t = Some t"
    using mem l4 by (simp add: normalise_base64_eq mem_ok_def)
  have "rev (dropWhile (\<lambda>c. c = CHR ''='') (rev t)) = body"
  proof (cases body rule: rev_cases)
    case Nil
    then show ?thesis by (simp add: bk(1))
  next
    case (snoc ys y)
    then have "y \<noteq> CHR ''=''" using bk(3) b64_pad_not_mem by auto
    then show ?thesis by (simp add: bk(1) snoc dropWhile_append)
  qed
  then have u: "map normalise_char (base64url_of t) = body"
    unfolding base64url_of_def map_map
    by (simp only: o_def) (rule map_id_on, use bk(3) normalise_alphabet(2) in blast)
  then have lu: "length (base64url_of t) = length body"
    by (metis length_map)
  have "(length body + k) mod 4 = 0" using l4 by (simp add: bk(1))
  then have "pad4 (length body) = k"
    using bk(2) by (intro pad_unique) simp_all
  with u lu show "normalise_base64 ssl (base64url_of t) = Some t"
    using mem by (simp add: normalise_base64_eq mem_ok_def bk(1))
qed

lemma base64_roundtrip_ex:
  assumes "b64_documented ssl" and "mem_ok ssl" and "d \<noteq> []" and "length d < 2 ^ 30"
  shows "\<exists>t. sc_base64_encode ssl d = Some t \<and> sc_base64_decode ssl (Some t) = Some d
    \<and> sc_base64_decode ssl (Some (base64url_of t)) = Some d \<and> nul \<notin> set t"
proof -
  obtain t where t: "b64_write ssl d (int (length d)) = (int (length d), t)" "b64_shape (length d) t"
    "\<And>m. int (length d) \<le> m \<Longrightarrow> b64_read ssl t (int (length t)) m = (int (length d), d)"
    using assms(1,3,4) unfolding b64_documented_def by blast
  have lt: "length t = 4 * ((length d + 2) div 3)" using t(2) by (elim b64_shapeE)
  then have b: "length t < 2 ^ 31" "length t * 3 div 4 + 4 < 2 ^ 31" "length d \<le> length t * 3 div 4 + 4"
    using assms(4) by simp_all
  have "sc_base64_encode ssl d = Some t"
    using t(1) assms by (simp add: sc_base64_encode_def int_of_size_id mem_ok_def)
  moreover have "sc_base64_decode ssl (Some s) = Some d" if "normalise_base64 ssl s = Some t" for s
    using that t(3) [of "int (length t * 3 div 4 + 4)"] b assms(2)
    by (simp add: sc_base64_decode_def Let_def int_of_size_id mem_ok_def)
  ultimately show ?thesis
    using normalise_shape [OF t(2) assms(2)] b64_shape_nul [OF t(2)] by blast
qed

text \<open>
  Base64 transport: with the documented BIO filter and memory available, encoding a
  non-empty buffer below 1 GiB gives a text that \<open>sc_base64_decode\<close> turns back into the
  buffer, and so does the base64url form of that text without padding.
\<close>

theorem base64_roundtrip:
  assumes "b64_documented ssl" and "mem_ok ssl" and "d \<noteq> []" and "length d < 2 ^ 30"
  shows "\<exists>t. sc_base64_encode ssl d = Some t \<and> sc_base64_decode ssl (Some t) = Some d
    \<and> sc_base64_decode ssl (Some (base64url_of t)) = Some d"
  using base64_roundtrip_ex [OF assms] by blast

theorem base64_roundtrip_witness:
  "\<exists>t. sc_base64_encode ref_ssl [0x02, 0xFF, 0xFE, 0x41] = Some t
     \<and> sc_base64_decode ref_ssl (Some t) = Some [0x02, 0xFF, 0xFE, 0x41]
     \<and> sc_base64_decode ref_ssl (Some (base64url_of t)) = Some [0x02, 0xFF, 0xFE, 0x41]"
  by (rule base64_roundtrip [OF ref_b64 ref_mem]) simp_all

end
