(* ===== verification/StbContext.thy ===== *)
theory StbContext
  imports Prelude
begin

text \<open>
  What the loaders of \<open>src/common/stb_image.h\<close> share: the memory context and its reads, the checks
  of sizes, and the conversion between numbers of channels and of bits. \<open>img_buffer\<close> is what lies
  between \<open>img_buffer\<close> and \<open>img_buffer_end\<close>; a skip behind the end leaves nothing to read. Callback
  contexts are not used by the clients. Allocation is a parameter: which sizes \<open>malloc\<close> grants.
  Samples of 16 bits are numbers below \<open>2 ^ 16\<close>, those of 8 bits bytes.
\<close>

section \<open>Contexts\<close>

record stbi__context =
  img_x :: nat
  img_y :: nat
  img_n :: nat
  img_out_n :: nat
  img_buffer :: "byte list"
  img_buffer_original :: "byte list"

definition stbi__start_mem :: "byte list \<Rightarrow> stbi__context" where
  "stbi__start_mem buffer = \<lparr>img_x = 0, img_y = 0, img_n = 0, img_out_n = 0, img_buffer = buffer, img_buffer_original = buffer\<rparr>"

definition stbi__rewind :: "stbi__context \<Rightarrow> stbi__context" where
  "stbi__rewind s = s\<lparr>img_buffer := img_buffer_original s\<rparr>"

definition stbi__get8 :: "stbi__context \<Rightarrow> byte \<times> stbi__context" where
  "stbi__get8 s = (case img_buffer s of [] \<Rightarrow> (0, s) | b # r \<Rightarrow> (b, s\<lparr>img_buffer := r\<rparr>))"

definition stbi__skip :: "int \<Rightarrow> stbi__context \<Rightarrow> stbi__context" where
  "stbi__skip n s = (if n < 0 then s\<lparr>img_buffer := []\<rparr> else s\<lparr>img_buffer := drop (nat n) (img_buffer s)\<rparr>)"

definition stbi__getn :: "nat \<Rightarrow> stbi__context \<Rightarrow> (byte list \<times> stbi__context) option" where
  "stbi__getn n s =
     (if n \<le> length (img_buffer s) then Some (take n (img_buffer s), s\<lparr>img_buffer := drop n (img_buffer s)\<rparr>) else None)"

definition stbi__get16be :: "stbi__context \<Rightarrow> nat \<times> stbi__context" where
  "stbi__get16be s = (let (z, s) = stbi__get8 s; (b, s) = stbi__get8 s in (unat z * 2 ^ 8 + unat b, s))"

definition stbi__get32be :: "stbi__context \<Rightarrow> nat \<times> stbi__context" where
  "stbi__get32be s = (let (z, s) = stbi__get16be s; (b, s) = stbi__get16be s in (z * 2 ^ 16 + b, s))"

definition stbi__get16le :: "stbi__context \<Rightarrow> nat \<times> stbi__context" where
  "stbi__get16le s = (let (z, s) = stbi__get8 s; (b, s) = stbi__get8 s in (unat z + unat b * 2 ^ 8, s))"

definition stbi__get32le :: "stbi__context \<Rightarrow> nat \<times> stbi__context" where
  "stbi__get32le s = (let (z, s) = stbi__get16le s; (b, s) = stbi__get16le s in (z + b * 2 ^ 16, s))"

section \<open>Sizes\<close>

definition STBI_MAX_DIMENSIONS :: nat where "STBI_MAX_DIMENSIONS = 2 ^ 24"

definition stbi__addsizes_valid :: "int \<Rightarrow> int \<Rightarrow> bool" where
  "stbi__addsizes_valid a b = (if b < 0 then False else a \<le> 2 ^ 31 - 1 - b)"

definition stbi__mul2sizes_valid :: "int \<Rightarrow> int \<Rightarrow> bool" where
  "stbi__mul2sizes_valid a b = (if a < 0 \<or> b < 0 then False else if b = 0 then True else a \<le> (2 ^ 31 - 1) div b)"

definition stbi__mad2sizes_valid :: "int \<Rightarrow> int \<Rightarrow> int \<Rightarrow> bool" where
  "stbi__mad2sizes_valid a b add \<longleftrightarrow> stbi__mul2sizes_valid a b \<and> stbi__addsizes_valid (a * b) add"

definition stbi__mad3sizes_valid :: "int \<Rightarrow> int \<Rightarrow> int \<Rightarrow> int \<Rightarrow> bool" where
  "stbi__mad3sizes_valid a b c add \<longleftrightarrow>
     stbi__mul2sizes_valid a b \<and> stbi__mul2sizes_valid (a * b) c \<and> stbi__addsizes_valid (a * b * c) add"

definition stbi__malloc_mad2 :: "(nat \<Rightarrow> bool) \<Rightarrow> int \<Rightarrow> int \<Rightarrow> int \<Rightarrow> bool" where
  "stbi__malloc_mad2 alloc a b add \<longleftrightarrow> stbi__mad2sizes_valid a b add \<and> alloc (nat (a * b + add))"

definition stbi__malloc_mad3 :: "(nat \<Rightarrow> bool) \<Rightarrow> int \<Rightarrow> int \<Rightarrow> int \<Rightarrow> int \<Rightarrow> bool" where
  "stbi__malloc_mad3 alloc a b c add \<longleftrightarrow> stbi__mad3sizes_valid a b c add \<and> alloc (nat (a * b * c + add))"

section \<open>Pixels\<close>

text \<open>\<open>pixel_groups n k d\<close>: the first \<open>k\<close> groups of \<open>n\<close> samples.\<close>

fun pixel_groups :: "nat \<Rightarrow> nat \<Rightarrow> 'a list \<Rightarrow> 'a list list" where
  "pixel_groups n 0 d = []"
| "pixel_groups n (Suc k) d = take n d # pixel_groups n k (drop n d)"

definition stbi__compute_y :: "byte \<Rightarrow> byte \<Rightarrow> byte \<Rightarrow> byte" where
  "stbi__compute_y r g b = of_nat ((unat r * 77 + unat g * 150 + 29 * unat b) div 2 ^ 8)"

definition stbi__compute_y_16 :: "nat \<Rightarrow> nat \<Rightarrow> nat \<Rightarrow> nat" where
  "stbi__compute_y_16 r g b = ((r * 77 + g * 150 + 29 * b) div 2 ^ 8) mod 2 ^ 16"

text \<open>
  One pixel from \<open>img_n\<close> to \<open>req_comp\<close> channels, with the brightness of a colour and the value of
  full opacity as parameters; no conversion for other numbers.
\<close>

definition convert_pixel :: "('a \<Rightarrow> 'a \<Rightarrow> 'a \<Rightarrow> 'a) \<Rightarrow> 'a \<Rightarrow> nat \<Rightarrow> nat \<Rightarrow> ('a list \<Rightarrow> 'a list) option" where
  "convert_pixel luma opaque nch req_comp =
     (if nch = 1 \<and> req_comp = 2 then Some (\<lambda>s. [s ! 0, opaque])
      else if nch = 1 \<and> req_comp = 3 then Some (\<lambda>s. [s ! 0, s ! 0, s ! 0])
      else if nch = 1 \<and> req_comp = 4 then Some (\<lambda>s. [s ! 0, s ! 0, s ! 0, opaque])
      else if nch = 2 \<and> req_comp = 1 then Some (\<lambda>s. [s ! 0])
      else if nch = 2 \<and> req_comp = 3 then Some (\<lambda>s. [s ! 0, s ! 0, s ! 0])
      else if nch = 2 \<and> req_comp = 4 then Some (\<lambda>s. [s ! 0, s ! 0, s ! 0, s ! 1])
      else if nch = 3 \<and> req_comp = 4 then Some (\<lambda>s. [s ! 0, s ! 1, s ! 2, opaque])
      else if nch = 3 \<and> req_comp = 1 then Some (\<lambda>s. [luma (s ! 0) (s ! 1) (s ! 2)])
      else if nch = 3 \<and> req_comp = 2 then Some (\<lambda>s. [luma (s ! 0) (s ! 1) (s ! 2), opaque])
      else if nch = 4 \<and> req_comp = 1 then Some (\<lambda>s. [luma (s ! 0) (s ! 1) (s ! 2)])
      else if nch = 4 \<and> req_comp = 2 then Some (\<lambda>s. [luma (s ! 0) (s ! 1) (s ! 2), s ! 3])
      else if nch = 4 \<and> req_comp = 3 then Some (\<lambda>s. [s ! 0, s ! 1, s ! 2])
      else None)"

definition stbi__convert_format :: "(nat \<Rightarrow> bool) \<Rightarrow> byte list \<Rightarrow> nat \<Rightarrow> nat \<Rightarrow> nat \<Rightarrow> nat \<Rightarrow> byte list option" where
  "stbi__convert_format alloc d nch req_comp x y =
     (if req_comp = nch then Some d
      else if \<not> stbi__malloc_mad3 alloc (int req_comp) (int x) (int y) 0 then None
      else (case convert_pixel stbi__compute_y 255 nch req_comp of
              None \<Rightarrow> None
            | Some f \<Rightarrow> Some (concat (map f (pixel_groups nch (x * y) d)))))"

definition stbi__convert_format16 :: "(nat \<Rightarrow> bool) \<Rightarrow> nat list \<Rightarrow> nat \<Rightarrow> nat \<Rightarrow> nat \<Rightarrow> nat \<Rightarrow> nat list option" where
  "stbi__convert_format16 alloc d nch req_comp x y =
     (if req_comp = nch then Some d
      else if \<not> alloc ((req_comp * x * y * 2) mod 2 ^ 32) then None
      else (case convert_pixel stbi__compute_y_16 0xffff nch req_comp of
              None \<Rightarrow> None
            | Some f \<Rightarrow> Some (concat (map f (pixel_groups nch (x * y) d)))))"

definition stbi__convert_16_to_8 :: "(nat \<Rightarrow> bool) \<Rightarrow> nat list \<Rightarrow> nat \<Rightarrow> nat \<Rightarrow> nat \<Rightarrow> byte list option" where
  "stbi__convert_16_to_8 alloc orig w h channels =
     (let img_len = w * h * channels
      in if \<not> alloc img_len then None else Some (map (\<lambda>v. of_nat (v div 2 ^ 8)) (take img_len orig)))"

section \<open>Reads\<close>

lemma get8_Cons: "img_buffer s = b # r \<Longrightarrow> stbi__get8 s = (b, s\<lparr>img_buffer := r\<rparr>)"
  by (simp add: stbi__get8_def)

lemma get16be_Cons: "img_buffer s = a # b # r \<Longrightarrow> stbi__get16be s = (unat a * 2 ^ 8 + unat b, s\<lparr>img_buffer := r\<rparr>)"
  by (simp add: stbi__get16be_def get8_Cons)

lemma get32be_Cons:
  "img_buffer s = a # b # c # d # r \<Longrightarrow>
     stbi__get32be s = ((unat a * 2 ^ 8 + unat b) * 2 ^ 16 + (unat c * 2 ^ 8 + unat d), s\<lparr>img_buffer := r\<rparr>)"
  by (simp add: stbi__get32be_def get16be_Cons)

lemma length_pixels [simp]: "length (pixel_groups n k d) = k"
  by (induction n k d rule: pixel_groups.induct) simp_all

lemma pixels_lengths: "n * k \<le> length d \<Longrightarrow> p \<in> set (pixel_groups n k d) \<Longrightarrow> length p = n"
proof (induction n k d rule: pixel_groups.induct)
  case (2 n k d)
  then have "n * k \<le> length (drop n d)" "n \<le> length d" by simp_all
  then show ?case using 2 by auto
qed simp

lemma concat_pixels: "n * k \<le> length d \<Longrightarrow> concat (pixel_groups n k d) = take (n * k) d"
proof (induction n k d rule: pixel_groups.induct)
  case (2 n k d)
  then have "concat (pixel_groups n k (drop n d)) = take (n * k) (drop n d)" by simp
  then show ?case by (simp add: take_add)
qed simp

lemma convert_pixel_length: "convert_pixel luma opaque nch req_comp = Some f \<Longrightarrow> length (f s) = req_comp"
  by (auto simp: convert_pixel_def split: if_splits)

lemma length_convert_pixels:
  assumes "convert_pixel luma opaque nch req_comp = Some f"
  shows "length (concat (map f (pixel_groups nch k d))) = req_comp * k"
proof -
  have "map (length \<circ> f) (pixel_groups nch k d) = replicate k req_comp"
    using convert_pixel_length [OF assms] by (intro nth_equalityI) simp_all
  then show ?thesis by (simp add: length_concat sum_list_replicate)
qed

end
