(* ===== verification/PngFilter.thy ===== *)
theory PngFilter
  imports Prelude
begin

text \<open>
  The line filters of PNG: \<open>stbiw__paeth\<close>, \<open>stbiw__encode_png_line\<close> and the choice of a filter in
  \<open>src/common/stb_image_write.h\<close>, \<open>stbi__paeth\<close> and the filter switch of
  \<open>stbi__create_png_image_raw\<close> in \<open>src/common/stb_image.h\<close>. A line is the list of its bytes; the
  differences wrap as the bytes of the C code do. The reader undoes the writer whatever filter
  was chosen, and its branch-free Paeth predictor is the one of the writer.
\<close>

section \<open>The writer\<close>

definition stbiw__paeth :: "int \<Rightarrow> int \<Rightarrow> int \<Rightarrow> byte" where
  "stbiw__paeth a b c =
     (let p = a + b - c; pa = \<bar>p - a\<bar>; pb = \<bar>p - b\<bar>; pc = \<bar>p - c\<bar> in
      if pa \<le> pb \<and> pa \<le> pc then of_int a
      else if pb \<le> pc then of_int b
      else of_int c)"

text \<open>What is subtracted from a byte of the first pixel, and of the others: left, above, above left.\<close>

definition first_prediction :: "nat \<Rightarrow> byte \<Rightarrow> byte" where
  "first_prediction type up =
     (if type = 2 then up
      else if type = 3 then drop_bit 1 up
      else if type = 4 then stbiw__paeth 0 (uint up) 0
      else 0)"

definition prediction :: "nat \<Rightarrow> byte \<Rightarrow> byte \<Rightarrow> byte \<Rightarrow> byte" where
  "prediction type left up upleft =
     (if type = 1 then left
      else if type = 2 then up
      else if type = 3 then of_int ((uint left + uint up) div 2)
      else if type = 4 then stbiw__paeth (uint left) (uint up) (uint upleft)
      else if type = 5 then drop_bit 1 left
      else stbiw__paeth (uint left) 0 0)"

definition stbiw__encode_png_line ::
  "bool \<Rightarrow> byte list \<Rightarrow> nat \<Rightarrow> nat \<Rightarrow> nat \<Rightarrow> nat \<Rightarrow> nat \<Rightarrow> nat \<Rightarrow> byte list" where
  "stbiw__encode_png_line flip pixels stride_bytes width height y n filter_type =
     (let type = (if y \<noteq> 0 then [0, 1, 2, 3, 4] else [0, 1, 0, 5, 6]) ! filter_type;
          z = stride_bytes * (if flip then height - 1 - y else y);
          here = (\<lambda>i. pixels ! (z + i));
          above = (\<lambda>i. pixels ! (if flip then z + i + stride_bytes else z + i - stride_bytes))
      in if type = 0 then take (width * n) (drop z pixels)
         else map (\<lambda>i. here i - first_prediction type (above i)) [0..<n] @
              map (\<lambda>i. here i - prediction type (here (i - n)) (above i) (above (i - n))) [n..<width * n])"

text \<open>The estimate of a line, and the first filter with the least.\<close>

definition line_estimate :: "byte list \<Rightarrow> int" where
  "line_estimate l = fold (\<lambda>b est. c_int (est + \<bar>sint b\<bar>)) l 0"

definition best_filter :: "(nat \<Rightarrow> byte list) \<Rightarrow> nat" where
  "best_filter enc =
     fst (fold (\<lambda>ft (best, val). let est = line_estimate (enc ft) in if est < val then (ft, est) else (best, val))
            [0..<5] (0, 2 ^ 31 - 1))"

text \<open>
  The globals of the writer: \<open>stbi__flip_vertically_on_write\<close>, \<open>stbi_write_force_png_filter\<close> and
  \<open>stbi_write_png_compression_level\<close>, with the values no client changes.
\<close>

record stbiw_opts =
  flip_on_write :: bool
  force_png_filter :: int
  png_compression_level :: int

definition stbiw_defaults :: stbiw_opts where
  "stbiw_defaults = \<lparr>flip_on_write = False, force_png_filter = -1, png_compression_level = 8\<rparr>"

definition png_line :: "stbiw_opts \<Rightarrow> byte list \<Rightarrow> nat \<Rightarrow> nat \<Rightarrow> nat \<Rightarrow> nat \<Rightarrow> nat \<Rightarrow> byte list" where
  "png_line opts pixels stride_bytes x y n j =
     (let enc = stbiw__encode_png_line (flip_on_write opts) pixels stride_bytes x y j n;
          force = (if force_png_filter opts \<ge> 5 then -1 else force_png_filter opts);
          filter_type = (if force > -1 then nat force else best_filter enc)
      in of_nat filter_type # enc filter_type)"

definition png_lines :: "stbiw_opts \<Rightarrow> byte list \<Rightarrow> nat \<Rightarrow> nat \<Rightarrow> nat \<Rightarrow> nat \<Rightarrow> byte list" where
  "png_lines opts pixels stride_bytes x y n = concat (map (png_line opts pixels stride_bytes x y n) [0..<y])"

section \<open>The reader\<close>

definition stbi__paeth :: "int \<Rightarrow> int \<Rightarrow> int \<Rightarrow> int" where
  "stbi__paeth a b c =
     (let thresh = c * 3 - (a + b);
          lo = (if a < b then a else b);
          hi = (if a < b then b else a);
          t0 = (if hi \<le> thresh then lo else c);
          t1 = (if thresh \<le> lo then hi else t0)
      in t1)"

datatype png_filter = STBI__F_none | STBI__F_sub | STBI__F_up | STBI__F_avg | STBI__F_paeth | STBI__F_avg_first

definition first_row_filter :: "png_filter list" where
  "first_row_filter = [STBI__F_none, STBI__F_sub, STBI__F_none, STBI__F_avg_first, STBI__F_sub]"

definition later_row_filter :: "png_filter list" where
  "later_row_filter = [STBI__F_none, STBI__F_sub, STBI__F_up, STBI__F_avg, STBI__F_paeth]"

text \<open>\<open>for (k = a; k < b; ++k) cur[k] = raw[k] + pred;\<close> where the prediction looks at \<open>cur\<close> so far.\<close>

definition unfilter_loop :: "(nat \<Rightarrow> byte list \<Rightarrow> byte) \<Rightarrow> byte list \<Rightarrow> nat list \<Rightarrow> byte list \<Rightarrow> byte list" where
  "unfilter_loop pred raw ks cur = fold (\<lambda>k cur. cur @ [raw ! k + pred k cur]) ks cur"

fun unfilter_line :: "png_filter \<Rightarrow> nat \<Rightarrow> nat \<Rightarrow> byte list \<Rightarrow> byte list \<Rightarrow> byte list" where
  "unfilter_line STBI__F_none fb nk raw prior = take nk raw"
| "unfilter_line STBI__F_sub fb nk raw prior =
     unfilter_loop (\<lambda>k cur. cur ! (k - fb)) raw [fb..<nk] (take fb raw)"
| "unfilter_line STBI__F_up fb nk raw prior =
     unfilter_loop (\<lambda>k cur. prior ! k) raw [0..<nk] []"
| "unfilter_line STBI__F_avg fb nk raw prior =
     unfilter_loop (\<lambda>k cur. of_int ((uint (prior ! k) + uint (cur ! (k - fb))) div 2)) raw [fb..<nk]
       (unfilter_loop (\<lambda>k cur. drop_bit 1 (prior ! k)) raw [0..<fb] [])"
| "unfilter_line STBI__F_paeth fb nk raw prior =
     unfilter_loop (\<lambda>k cur. of_int (stbi__paeth (uint (cur ! (k - fb))) (uint (prior ! k)) (uint (prior ! (k - fb))))) raw [fb..<nk]
       (unfilter_loop (\<lambda>k cur. prior ! k) raw [0..<fb] [])"
| "unfilter_line STBI__F_avg_first fb nk raw prior =
     unfilter_loop (\<lambda>k cur. drop_bit 1 (cur ! (k - fb))) raw [fb..<nk] (take fb raw)"

section \<open>The predictors\<close>

lemma paeth_zero: "stbiw__paeth a 0 0 = of_int a" "stbiw__paeth 0 b 0 = of_int b"
  by (auto simp: stbiw__paeth_def Let_def)

lemma paeth_rule: "of_int (stbi__paeth a b c) = stbiw__paeth a b c"
proof -
  have "stbi__paeth a b c =
     (if \<bar>b - c\<bar> \<le> \<bar>a - c\<bar> \<and> \<bar>b - c\<bar> \<le> \<bar>a + b - 2 * c\<bar> then a
      else if \<bar>a - c\<bar> \<le> \<bar>a + b - 2 * c\<bar> then b else c)"
    unfolding stbi__paeth_def Let_def by (cases "a < b"; cases "b < c"; cases "a < c") (simp_all, linarith+)
  then show ?thesis by (simp add: stbiw__paeth_def Let_def algebra_simps)
qed

text \<open>
  The branch-free Paeth predictor of the reader is the predictor of the writer, which is the
  one of the PNG specification: the nearest of left, above and above left to their linear
  combination, in this order of preference.
\<close>

theorem paeth_agrees: "of_int (stbi__paeth a b c) = stbiw__paeth a b c"
  by (rule paeth_rule)

section \<open>Undoing a filter\<close>

lemma unfilter_loop_inverts:
  assumes "a \<le> b" and "b \<le> length xs" and "\<And>k. a \<le> k \<Longrightarrow> k < b \<Longrightarrow> raw ! k + pred k (take k xs) = xs ! k"
  shows "unfilter_loop pred raw [a..<b] (take a xs) = take b xs"
  using assms
proof (induction b)
  case (Suc b)
  show ?case
  proof (cases "a = Suc b")
    case False
    then have ab: "a \<le> b" using Suc(2) by simp
    have "unfilter_loop pred raw [a..<b] (take a xs) = take b xs"
      using Suc(3) by (intro Suc(1) ab Suc(4)) simp_all
    then show ?thesis
      using ab Suc(3) Suc(4) [OF ab] by (simp add: unfilter_loop_def take_Suc_conv_app_nth)
  qed (simp add: unfilter_loop_def)
qed (simp add: unfilter_loop_def)

lemmas unfilter_from_start = unfilter_loop_inverts [of 0, simplified]

text \<open>A filtered line over the line itself and the one above.\<close>

definition filtered :: "nat \<Rightarrow> nat \<Rightarrow> byte list \<Rightarrow> byte list \<Rightarrow> byte list" where
  "filtered type n xs ys =
     (if type = 0 then xs
      else map (\<lambda>i. xs ! i - first_prediction type (ys ! i)) [0..<n] @
           map (\<lambda>i. xs ! i - prediction type (xs ! (i - n)) (ys ! i) (ys ! (i - n))) [n..<length xs])"

lemma length_filtered [simp]: "n \<le> length xs \<Longrightarrow> length (filtered type n xs ys) = length xs"
  by (simp add: filtered_def)

lemma filtered_nth:
  assumes "type \<noteq> 0" and "k < length xs" and "n \<le> length xs"
  shows "filtered type n xs ys ! k = xs ! k -
     (if k < n then first_prediction type (ys ! k) else prediction type (xs ! (k - n)) (ys ! k) (ys ! (k - n)))"
proof (cases "k < n")
  case False
  then have "[n..<length xs] ! (k - n) = k" "k - n < length xs - n" using assms(2) by auto
  then show ?thesis using assms False by (simp add: filtered_def nth_append)
qed (use assms in \<open>simp add: filtered_def nth_append\<close>)

lemma take_filtered:
  assumes "type \<in> {1, 5, 6}" and "n \<le> length xs"
  shows "take n (filtered type n xs ys) = take n xs"
proof -
  have "map (\<lambda>i. xs ! i) [0..<n] = take n xs" using assms(2) by (intro nth_equalityI) simp_all
  then show ?thesis using assms by (auto simp: filtered_def first_prediction_def)
qed

lemma unfilter_first_line:
  assumes "ft < 5" and "0 < n" and "n \<le> length xs"
  shows "unfilter_line (first_row_filter ! ft) n (length xs) (filtered ([0, 1, 0, 5, 6] ! ft) n xs ys @ rest) prior = xs"
proof -
  let ?r = "\<lambda>t. filtered t n xs ys @ rest"
  have loop: "unfilter_loop (\<lambda>k cur. p (cur ! (k - n))) (?r t) [n..<length xs] (take n (?r t)) = xs"
    if t: "t \<in> {1, 5, 6}" and p: "\<And>l u v. prediction t l u v = p l" for t p
  proof -
    have nth: "?r t ! k = xs ! k - p (xs ! (k - n))" if "n \<le> k" "k < length xs" for k
      using that t assms(3) p by (auto simp: nth_append filtered_nth)
    have "unfilter_loop (\<lambda>k cur. p (cur ! (k - n))) (?r t) [n..<length xs] (take n xs) = take (length xs) xs"
      using assms(2,3) nth by (intro unfilter_loop_inverts) simp_all
    then show ?thesis using take_filtered [OF t assms(3)] assms(3) by simp
  qed
  have "ft \<in> {0, 1, 2, 3, 4}" using assms(1) by auto
  then show ?thesis
    using loop [of 1 "\<lambda>l. l"] loop [of 6 "\<lambda>l. l"] loop [of 5 "\<lambda>l. drop_bit 1 l"]
    by (auto simp: first_row_filter_def prediction_def paeth_zero filtered_def)
qed

lemma unfilter_later_line:
  assumes "ft < 5" and "0 < n" and "n \<le> length xs"
  shows "unfilter_line (later_row_filter ! ft) n (length xs) (filtered ft n xs ys @ rest) ys = xs"
proof -
  let ?r = "filtered ft n xs ys @ rest"
  have nth: "?r ! k = xs ! k - (if k < n then first_prediction ft (ys ! k) else prediction ft (xs ! (k - n)) (ys ! k) (ys ! (k - n)))"
    if "ft \<noteq> 0" "k < length xs" for k
    using that assms(3) by (simp add: nth_append filtered_nth)
  have main: "unfilter_loop q ?r [n..<length xs] (take n xs) = xs"
    if "ft \<noteq> 0" "\<And>k. n \<le> k \<Longrightarrow> q k (take k xs) = prediction ft (xs ! (k - n)) (ys ! k) (ys ! (k - n))" for q
    using unfilter_loop_inverts [of n "length xs" xs ?r q] assms(3) nth that by simp
  have start: "unfilter_loop (\<lambda>k cur. p (ys ! k)) ?r [0..<n] [] = take n xs"
    if "ft \<noteq> 0" "\<And>u. first_prediction ft u = p u" for p
    using unfilter_from_start [of n xs ?r "\<lambda>k cur. p (ys ! k)"] assms(3) nth that by simp
  have up: "unfilter_loop (\<lambda>k cur. ys ! k) ?r [0..<length xs] [] = xs" if "ft = 2"
    using unfilter_from_start [of "length xs" xs ?r "\<lambda>k cur. ys ! k"] nth that
    by (auto simp: first_prediction_def prediction_def)
  have "ft \<in> {0, 1, 2, 3, 4}" using assms(1) by auto
  then consider "ft = 0" | "ft = 1" | "ft = 2" | "ft = 3" | "ft = 4" by auto
  then show ?thesis
  proof cases
    case 2
    then show ?thesis
      using main [of "\<lambda>k cur. cur ! (k - n)"] assms take_filtered [of 1 n xs ys]
      by (simp add: later_row_filter_def prediction_def)
  next
    case 4
    then show ?thesis
      using main [of "\<lambda>k cur. of_int ((uint (ys ! k) + uint (cur ! (k - n))) div 2)"] start [of "drop_bit 1"] assms
      by (simp add: later_row_filter_def prediction_def first_prediction_def numeral_3_eq_3 [symmetric] add.commute)
  next
    case 5
    then show ?thesis
      using main [of "\<lambda>k cur. of_int (stbi__paeth (uint (cur ! (k - n))) (uint (ys ! k)) (uint (ys ! (k - n))))"]
        start [of "\<lambda>u. u"] assms
      by (simp add: later_row_filter_def prediction_def first_prediction_def paeth_zero paeth_rule)
  qed (use up in \<open>simp_all add: later_row_filter_def filtered_def\<close>)
qed

section \<open>The lines of a picture\<close>

definition picture_row :: "bool \<Rightarrow> byte list \<Rightarrow> nat \<Rightarrow> nat \<Rightarrow> nat \<Rightarrow> nat \<Rightarrow> byte list" where
  "picture_row flip pixels stride_bytes len height y =
     take len (drop (stride_bytes * (if flip then height - 1 - y else y)) pixels)"

lemma row_start: "y < height \<Longrightarrow> stride_bytes * (if flip then height - 1 - y else y) \<le> stride_bytes * (height - 1)" for stride_bytes :: nat
  by auto

lemma picture_row_nth:
  assumes "stride_bytes * (height - 1) + len \<le> length pixels" and "y < height" and "i < len"
  shows "picture_row flip pixels stride_bytes len height y ! i =
     pixels ! (stride_bytes * (if flip then height - 1 - y else y) + i)"
proof -
  define z where "z = stride_bytes * (if flip then height - 1 - y else y)"
  have "z + len \<le> length pixels" using assms(1) row_start [OF assms(2), of stride_bytes flip] unfolding z_def by linarith
  then show ?thesis using assms(3) unfolding picture_row_def z_def [symmetric] by simp
qed

lemma length_picture_row:
  assumes "stride_bytes * (height - 1) + len \<le> length pixels" and "y < height"
  shows "length (picture_row flip pixels stride_bytes len height y) = len"
proof -
  define z where "z = stride_bytes * (if flip then height - 1 - y else y)"
  have "z + len \<le> length pixels" using assms(1) row_start [OF assms(2), of stride_bytes flip] unfolding z_def by linarith
  then show ?thesis unfolding picture_row_def z_def [symmetric] by simp
qed

lemma encode_line_filtered:
  assumes "stride_bytes * (height - 1) + width * n \<le> length pixels" and "y < height" and "0 < width" and "ft < 5"
  shows "stbiw__encode_png_line flip pixels stride_bytes width height y n ft =
     filtered ((if y \<noteq> 0 then [0, 1, 2, 3, 4] else [0, 1, 0, 5, 6]) ! ft) n
       (picture_row flip pixels stride_bytes (width * n) height y)
       (if y = 0 then [] else picture_row flip pixels stride_bytes (width * n) height (y - 1))"
proof -
  define t :: nat where "t = (if y \<noteq> 0 then [0, 1, 2, 3, 4] else [0, 1, 0, 5, 6]) ! ft"
  define z where "z = stride_bytes * (if flip then height - 1 - y else y)"
  define xs where "xs = picture_row flip pixels stride_bytes (width * n) height y"
  define ys where "ys = (if y = 0 then [] else picture_row flip pixels stride_bytes (width * n) height (y - 1))"
  have len: "length xs = width * n" unfolding xs_def by (rule length_picture_row [OF assms(1,2)])
  have n: "n \<le> width * n" using assms(3) by simp
  have here: "pixels ! (z + i) = xs ! i" if "i < width * n" for i
    using picture_row_nth [OF assms(1,2) that, of flip] by (simp add: xs_def z_def)
  have above: "pixels ! (if flip then z + i + stride_bytes else z + i - stride_bytes) = ys ! i"
    if "i < width * n" "y \<noteq> 0" for i
  proof -
    have "stride_bytes * (if flip then height - 1 - (y - 1) else y - 1) + i = (if flip then z + i + stride_bytes else z + i - stride_bytes)"
    proof (cases flip)
      case True
      have "height - 1 - (y - 1) = Suc (height - 1 - y)" using assms(2) that(2) by simp
      then show ?thesis using True unfolding z_def by (simp only: if_True mult_Suc_right ac_simps)
    next
      case False
      then show ?thesis using that(2) by (cases y) (simp_all add: z_def)
    qed
    then show ?thesis using picture_row_nth [OF assms(1) _ that(1), of "y - 1" flip] assms(2) that(2) by (simp add: ys_def)
  qed
  have small: "t \<in> {0, 1, 5, 6}" if "y = 0"
    using that assms(4) by (auto simp: t_def less_Suc_eq numeral_eq_Suc)
  define up where "up = (\<lambda>i. pixels ! (if flip then z + i + stride_bytes else z + i - stride_bytes))"
  have up: "up i = ys ! i" if "i < width * n" "y \<noteq> 0" for i using above [OF that] by (simp add: up_def)
  have first: "first_prediction t (up i) = first_prediction t (ys ! i)" if "t \<noteq> 0" "i < n" for i
    using up [of i] n small that by (cases "y = 0") (auto simp: first_prediction_def)
  have later: "prediction t l (up i) (up (i - n)) = prediction t l (ys ! i) (ys ! (i - n))" if "t \<noteq> 0" "i < width * n" for i l
    using up [of i] up [of "i - n"] small that by (cases "y = 0") (auto simp: prediction_def)
  have zero: "take (width * n) (drop z pixels) = xs" by (simp add: xs_def z_def picture_row_def)
  have "t \<noteq> 0 \<Longrightarrow> map (\<lambda>i. pixels ! (z + i) - first_prediction t (up i)) [0..<n] = map (\<lambda>i. xs ! i - first_prediction t (ys ! i)) [0..<n]"
    using here [OF less_le_trans [OF _ n]] first by (intro map_cong) simp_all
  moreover have "t \<noteq> 0 \<Longrightarrow> map (\<lambda>i. pixels ! (z + i) - prediction t (pixels ! (z + (i - n))) (up i) (up (i - n))) [n..<width * n] =
      map (\<lambda>i. xs ! i - prediction t (xs ! (i - n)) (ys ! i) (ys ! (i - n))) [n..<width * n]"
    using here later by (intro map_cong) (simp_all add: here less_imp_diff_less del: Nat.add_diff_assoc Nat.diff_add_assoc)
  ultimately show ?thesis
    unfolding stbiw__encode_png_line_def Let_def t_def [symmetric] z_def [symmetric] xs_def [symmetric]
      ys_def [symmetric] filtered_def len zero by (simp add: up_def)
qed

lemma line_roundtrip:
  assumes "stride_bytes * (height - 1) + width * n \<le> length pixels" and "y < height" and "0 < width" and "0 < n" and "ft < 5"
    and "0 < y \<Longrightarrow> prior = picture_row flip pixels stride_bytes (width * n) height (y - 1)"
  shows "unfilter_line ((if y = 0 then first_row_filter else later_row_filter) ! ft) n (width * n)
     (stbiw__encode_png_line flip pixels stride_bytes width height y n ft @ rest) prior =
     picture_row flip pixels stride_bytes (width * n) height y"
proof -
  let ?xs = "picture_row flip pixels stride_bytes (width * n) height y"
  have len: "length ?xs = width * n" by (rule length_picture_row [OF assms(1,2)])
  have n: "n \<le> length ?xs" using assms(3) len by simp
  show ?thesis
  proof (cases "y = 0")
    case True
    then show ?thesis
      using unfilter_first_line [OF assms(5,4) n, of "[]" rest prior] encode_line_filtered [OF assms(1-3,5), of flip] len by simp
  next
    case False
    have "[0, 1, 2, 3, 4] ! ft = ft" using assms(5) by (auto simp: less_Suc_eq numeral_eq_Suc)
    then show ?thesis
      using False unfilter_later_line [OF assms(5,4) n, of prior rest] encode_line_filtered [OF assms(1-3,5), of flip] len assms(6) by simp
  qed
qed

lemma best_filter_less: "best_filter enc < 5"
proof -
  define step where "step = (\<lambda>ft (best, val). let est = line_estimate (enc ft) in if est < val then (ft, est) else (best, val))"
  have step: "fst (step a b) = a \<or> fst (step a b) = fst b" for a b by (cases b) (simp add: step_def Let_def)
  have "fst (fold step l b) \<in> insert (fst b) (set l)" for l b
  proof (induction l arbitrary: b)
    case (Cons a l)
    show ?case using Cons [of "step a b"] step [of a b] by auto
  qed simp
  from this [of "[0..<5]" "(0, 2 ^ 31 - 1)"] show ?thesis unfolding best_filter_def step_def by auto
qed

lemma png_line_shape:
  assumes "stride_bytes * (y - 1) + x * n \<le> length pixels" and "j < y" and "0 < x" and "-1 \<le> force_png_filter opts"
  obtains ft where "ft < 5" "png_line opts pixels stride_bytes x y n j =
     of_nat ft # stbiw__encode_png_line (flip_on_write opts) pixels stride_bytes x y j n ft"
proof -
  let ?enc = "stbiw__encode_png_line (flip_on_write opts) pixels stride_bytes x y j n"
  show ?thesis
    using that [of "best_filter ?enc"] that [of "nat (force_png_filter opts)"] best_filter_less [of ?enc]
    unfolding png_line_def Let_def by (cases "force_png_filter opts \<ge> 5"; cases "force_png_filter opts > -1") auto
qed

end
