(* ===== verification/ZlibRead.thy ===== *)
theory ZlibRead
  imports Prelude
begin

text \<open>
  The zlib decoder of \<open>src/common/stb_image.h\<close>: Huffman tables, the bit buffer, the three kinds of
  blocks and the growing output. A table of \<open>stbi__zhuffman\<close> is a function of its index; entries
  that were never written are those of a stale table given from outside. \<open>zb_in\<close> is what lies
  between \<open>zbuffer\<close> and \<open>zbuffer_end\<close>, \<open>zb_out\<close> what lies between \<open>zout_start\<close> and \<open>zout\<close>, and
  \<open>zb_limit\<close> the size of the output block. A return value of 0 is an inner \<open>None\<close>; the outer
  \<open>None\<close> is a loop that does not end. \<open>num_bits\<close> is a natural number: \<open>zreceive\<close> and the decoder
  never take more bits than there are (\<open>receive_takes\<close>, \<open>decode_takes\<close> of \<open>ZlibBits\<close>).
\<close>

section \<open>Huffman tables\<close>

definition STBI__ZFAST_BITS :: nat where "STBI__ZFAST_BITS = 9"
definition STBI__ZNSYMS :: nat where "STBI__ZNSYMS = 288"

record stbi__zhuffman =
  zh_fast :: "nat \<Rightarrow> nat"
  zh_firstcode :: "nat \<Rightarrow> nat"
  zh_maxcode :: "nat \<Rightarrow> nat"
  zh_firstsymbol :: "nat \<Rightarrow> nat"
  zh_size :: "nat \<Rightarrow> nat"
  zh_value :: "nat \<Rightarrow> nat"

definition stbi__bitreverse16 :: "u32 \<Rightarrow> u32" where
  "stbi__bitreverse16 n =
     (let n = drop_bit 1 (n AND 0xAAAA) OR push_bit 1 (n AND 0x5555);
          n = drop_bit 2 (n AND 0xCCCC) OR push_bit 2 (n AND 0x3333);
          n = drop_bit 4 (n AND 0xF0F0) OR push_bit 4 (n AND 0x0F0F)
      in drop_bit 8 (n AND 0xFF00) OR push_bit 8 (n AND 0x00FF))"

definition stbi__bit_reverse :: "u32 \<Rightarrow> nat \<Rightarrow> u32" where
  "stbi__bit_reverse v bits = drop_bit (16 - bits) (stbi__bitreverse16 v)"

text \<open>The number of codes of each size, then the first code and symbol of each size.\<close>

definition zcount :: "nat list \<Rightarrow> nat \<Rightarrow> nat" where
  "zcount sizelist = (fold (\<lambda>s sizes. sizes(s := sizes s + 1)) sizelist (\<lambda>_. 0))(0 := 0)"

fun zfirst_codes ::
  "nat list \<Rightarrow> (nat \<Rightarrow> nat) \<Rightarrow> nat \<Rightarrow> nat \<Rightarrow> (nat \<Rightarrow> nat) \<Rightarrow> stbi__zhuffman \<Rightarrow> ((nat \<Rightarrow> nat) \<times> stbi__zhuffman) option" where
  "zfirst_codes [] sizes code k next_code z = Some (next_code, z)"
| "zfirst_codes (i # is) sizes code k next_code z =
     (let next_code = next_code(i := code);
          z = z\<lparr>zh_firstcode := (zh_firstcode z)(i := code mod 2 ^ 16), zh_firstsymbol := (zh_firstsymbol z)(i := k mod 2 ^ 16)\<rparr>;
          code = code + sizes i
      in if sizes i \<noteq> 0 \<and> code - 1 \<ge> 2 ^ i then None
         else zfirst_codes is sizes (2 * code) (k + sizes i) next_code
                (z\<lparr>zh_maxcode := (zh_maxcode z)(i := code * 2 ^ (16 - i))\<rparr>))"

function zfill_fast :: "nat \<Rightarrow> nat \<Rightarrow> nat \<Rightarrow> (nat \<Rightarrow> nat) \<Rightarrow> nat \<Rightarrow> nat" where
  "zfill_fast j s fastv fast = (if j < 2 ^ STBI__ZFAST_BITS then zfill_fast (j + 2 ^ s) s fastv (fast(j := fastv)) else fast)"
  by pat_completeness auto
termination by (relation "measure (\<lambda>(j, _). 2 ^ STBI__ZFAST_BITS - j)") (auto intro!: diff_less_mono2)

declare zfill_fast.simps [simp del]

definition zput_symbol :: "nat \<times> nat \<Rightarrow> (nat \<Rightarrow> nat) \<times> stbi__zhuffman \<Rightarrow> (nat \<Rightarrow> nat) \<times> stbi__zhuffman" where
  "zput_symbol = (\<lambda>(i, s) (next_code, z).
     if s = 0 then (next_code, z)
     else
       (let c = next_code s - zh_firstcode z s + zh_firstsymbol z s;
            fastv = (push_bit 9 s OR i) mod 2 ^ 16;
            z = z\<lparr>zh_size := (zh_size z)(c := s mod 2 ^ 8), zh_value := (zh_value z)(c := i mod 2 ^ 16)\<rparr>;
            z = (if s \<le> STBI__ZFAST_BITS
                 then z\<lparr>zh_fast := zfill_fast (unat (stbi__bit_reverse (of_nat (next_code s)) s)) s fastv (zh_fast z)\<rparr>
                 else z)
        in (next_code(s := next_code s + 1), z)))"

definition stbi__zbuild_huffman :: "stbi__zhuffman \<Rightarrow> nat list \<Rightarrow> stbi__zhuffman option" where
  "stbi__zbuild_huffman z sizelist =
     (let sizes = zcount sizelist; z = z\<lparr>zh_fast := (\<lambda>_. 0)\<rparr> in
      if list_ex (\<lambda>i. sizes i > 2 ^ i) [1..<16] then None
      else (case zfirst_codes [1..<16] sizes 0 0 (\<lambda>_. 0) z of
              None \<Rightarrow> None
            | Some (next_code, z) \<Rightarrow>
                (let z = z\<lparr>zh_maxcode := (zh_maxcode z)(16 := 0x10000)\<rparr>
                 in Some (snd (fold zput_symbol (enumerate 0 sizelist) (next_code, z))))))"

section \<open>The bit buffer\<close>

record stbi__zbuf =
  zb_in :: "byte list"
  num_bits :: nat
  hit_zeof_once :: bool
  code_buffer :: u32
  zb_out :: "byte list"
  zb_limit :: nat
  z_expandable :: bool
  z_length :: stbi__zhuffman
  z_distance :: stbi__zhuffman

definition stbi__zeof :: "stbi__zbuf \<Rightarrow> bool" where
  "stbi__zeof z \<longleftrightarrow> zb_in z = []"

definition stbi__zget8 :: "stbi__zbuf \<Rightarrow> byte \<times> stbi__zbuf" where
  "stbi__zget8 z = (case zb_in z of [] \<Rightarrow> (0, z) | b # r \<Rightarrow> (b, z\<lparr>zb_in := r\<rparr>))"

function stbi__fill_bits :: "stbi__zbuf \<Rightarrow> stbi__zbuf" where
  "stbi__fill_bits z =
     (if code_buffer z \<ge> push_bit (num_bits z) 1 then z\<lparr>zb_in := []\<rparr>
      else (let (b, z') = stbi__zget8 z;
                z' = z'\<lparr>code_buffer := code_buffer z OR push_bit (num_bits z) (ucast b), num_bits := num_bits z + 8\<rparr>
            in if num_bits z + 8 \<le> 24 then stbi__fill_bits z' else z'))"
  by pat_completeness auto
termination by (relation "measure (\<lambda>z. 32 - num_bits z)") auto

declare stbi__fill_bits.simps [simp del]

definition stbi__zreceive :: "nat \<Rightarrow> stbi__zbuf \<Rightarrow> nat \<times> stbi__zbuf" where
  "stbi__zreceive n z =
     (let z = (if num_bits z < n then stbi__fill_bits z else z)
      in (unat (code_buffer z AND (push_bit n 1 - 1)), z\<lparr>code_buffer := drop_bit n (code_buffer z), num_bits := num_bits z - n\<rparr>))"

section \<open>Decoding a symbol\<close>

text \<open>
  The sentinel \<open>maxcode[16]\<close> of a built table ends the search for the size of the code.
\<close>

definition stbi__zhuffman_decode_slowpath :: "stbi__zhuffman \<Rightarrow> stbi__zbuf \<Rightarrow> int \<times> stbi__zbuf" where
  "stbi__zhuffman_decode_slowpath z a =
     (let k = unat (stbi__bit_reverse (code_buffer a) 16);
          s = (case find (\<lambda>s. k < zh_maxcode z s) [STBI__ZFAST_BITS + 1..<17] of None \<Rightarrow> 16 | Some s \<Rightarrow> s)
      in if s \<ge> 16 then (-1, a)
         else
           (let b = int (drop_bit (16 - s) k) - int (zh_firstcode z s) + int (zh_firstsymbol z s) in
            if b \<ge> int STBI__ZNSYMS then (-1, a)
            else if zh_size z (nat b) \<noteq> s then (-1, a)
            else (int (zh_value z (nat b)), a\<lparr>code_buffer := drop_bit s (code_buffer a), num_bits := num_bits a - s\<rparr>)))"

definition stbi__zhuffman_decode :: "stbi__zhuffman \<Rightarrow> stbi__zbuf \<Rightarrow> int \<times> stbi__zbuf" where
  "stbi__zhuffman_decode z a =
     (if num_bits a < 16 \<and> stbi__zeof a \<and> hit_zeof_once a then (-1, a)
      else
        (let a = (if num_bits a < 16 then
                    (if stbi__zeof a then a\<lparr>hit_zeof_once := True, num_bits := num_bits a + 16\<rparr> else stbi__fill_bits a)
                  else a);
             b = zh_fast z (unat (code_buffer a AND 511))
         in if b \<noteq> 0 then
              (let s = drop_bit 9 b
               in (int (b AND 511), a\<lparr>code_buffer := drop_bit s (code_buffer a), num_bits := num_bits a - s\<rparr>))
            else stbi__zhuffman_decode_slowpath z a))"

section \<open>The output\<close>

text \<open>Doubling: \<open>None\<close> for a block of size 0, whose size would be doubled for ever.\<close>

function zexpand_limit :: "nat \<Rightarrow> nat \<Rightarrow> nat option option" where
  "zexpand_limit need limit =
     (if need \<le> limit then Some (Some limit)
      else if limit > (2 ^ 32 - 1) div 2 then Some None
      else if limit = 0 then None
      else zexpand_limit need (limit * 2))"
  by pat_completeness auto
termination by (relation "measure (\<lambda>(n, l). n - l)") auto

declare zexpand_limit.simps [simp del]

definition stbi__zexpand :: "(nat \<Rightarrow> bool) \<Rightarrow> nat \<Rightarrow> stbi__zbuf \<Rightarrow> stbi__zbuf option option" where
  "stbi__zexpand alloc n z =
     (if \<not> z_expandable z then Some None
      else if 2 ^ 32 - 1 - length (zb_out z) < n then Some None
      else (case zexpand_limit (length (zb_out z) + n) (zb_limit z) of
              None \<Rightarrow> None
            | Some None \<Rightarrow> Some None
            | Some (Some limit) \<Rightarrow> Some (if alloc limit then Some (z\<lparr>zb_limit := limit\<rparr>) else None)))"

definition zmake_room :: "(nat \<Rightarrow> bool) \<Rightarrow> nat \<Rightarrow> stbi__zbuf \<Rightarrow> stbi__zbuf option option" where
  "zmake_room alloc n z = (if n > zb_limit z - length (zb_out z) then stbi__zexpand alloc n z else Some (Some z))"

fun zcopy :: "nat \<Rightarrow> nat \<Rightarrow> byte list \<Rightarrow> byte list" where
  "zcopy dist 0 out = out"
| "zcopy dist (Suc len) out = zcopy dist len (out @ [out ! (length out - dist)])"

definition zcopy_match :: "nat \<Rightarrow> nat \<Rightarrow> byte list \<Rightarrow> byte list" where
  "zcopy_match dist len out =
     (if dist = 1 then out @ replicate len (out ! (length out - 1)) else zcopy dist len out)"

section \<open>Blocks\<close>

definition stbi__zlength_base :: "nat list" where
  "stbi__zlength_base = [3, 4, 5, 6, 7, 8, 9, 10, 11, 13, 15, 17, 19, 23, 27, 31, 35, 43, 51, 59, 67, 83, 99, 115, 131, 163, 195, 227, 258, 0, 0]"

definition stbi__zlength_extra :: "nat list" where
  "stbi__zlength_extra = [0, 0, 0, 0, 0, 0, 0, 0, 1, 1, 1, 1, 2, 2, 2, 2, 3, 3, 3, 3, 4, 4, 4, 4, 5, 5, 5, 5, 0, 0, 0]"

definition stbi__zdist_base :: "nat list" where
  "stbi__zdist_base = [1, 2, 3, 4, 5, 7, 9, 13, 17, 25, 33, 49, 65, 97, 129, 193, 257, 385, 513, 769, 1025, 1537, 2049, 3073, 4097, 6145,
     8193, 12289, 16385, 24577, 0, 0]"

definition stbi__zdist_extra :: "nat list" where
  "stbi__zdist_extra = [0, 0, 0, 0, 1, 1, 2, 2, 3, 3, 4, 4, 5, 5, 6, 6, 7, 7, 8, 8, 9, 9, 10, 10, 11, 11, 12, 12, 13, 13, 0, 0]"

datatype zstep = ZMore stbi__zbuf | ZDone stbi__zbuf | ZFail | ZStuck

definition zemit :: "(nat \<Rightarrow> bool) \<Rightarrow> nat \<Rightarrow> (byte list \<Rightarrow> byte list) \<Rightarrow> stbi__zbuf \<Rightarrow> zstep" where
  "zemit alloc n f a =
     (case zmake_room alloc n a of
        None \<Rightarrow> ZStuck
      | Some None \<Rightarrow> ZFail
      | Some (Some a) \<Rightarrow> ZMore (a\<lparr>zb_out := f (zb_out a)\<rparr>))"

text \<open>One round of the loop: a literal, the end of the block, or a length and a distance.\<close>

definition zreceive_extra :: "nat \<Rightarrow> nat \<Rightarrow> stbi__zbuf \<Rightarrow> nat \<times> stbi__zbuf" where
  "zreceive_extra base extra a = (if extra \<noteq> 0 then (let (k, a) = stbi__zreceive extra a in (base + k, a)) else (base, a))"

definition zblock_step :: "(nat \<Rightarrow> bool) \<Rightarrow> stbi__zbuf \<Rightarrow> zstep" where
  "zblock_step alloc a =
     (let (z, a) = stbi__zhuffman_decode (z_length a) a in
      if z < 0 then ZFail
      else if z < 256 then zemit alloc 1 (\<lambda>out. out @ [of_int z]) a
      else if z = 256 then (if hit_zeof_once a \<and> num_bits a < 16 then ZFail else ZDone a)
      else if z \<ge> 286 then ZFail
      else
        (let n = nat (z - 257);
             (len, a) = zreceive_extra (stbi__zlength_base ! n) (stbi__zlength_extra ! n) a;
             (z, a) = stbi__zhuffman_decode (z_distance a) a
         in if z < 0 \<or> z \<ge> 30 then ZFail
            else
              (let (dist, a) = zreceive_extra (stbi__zdist_base ! nat z) (stbi__zdist_extra ! nat z) a in
               if length (zb_out a) < dist then ZFail else zemit alloc len (zcopy_match dist len) a)))"

partial_function (option) stbi__parse_huffman_block :: "(nat \<Rightarrow> bool) \<Rightarrow> stbi__zbuf \<Rightarrow> stbi__zbuf option option" where
  "stbi__parse_huffman_block alloc a =
     (case zblock_step alloc a of
        ZMore a \<Rightarrow> stbi__parse_huffman_block alloc a
      | ZDone a \<Rightarrow> Some (Some a)
      | ZFail \<Rightarrow> Some None
      | ZStuck \<Rightarrow> None)"

declare stbi__parse_huffman_block.simps [code]

definition length_dezigzag :: "nat list" where
  "length_dezigzag = [16, 17, 18, 0, 8, 7, 9, 6, 10, 5, 11, 4, 12, 3, 13, 2, 14, 1, 15]"

definition zread_codelength :: "nat \<Rightarrow> nat list \<times> stbi__zbuf \<Rightarrow> nat list \<times> stbi__zbuf" where
  "zread_codelength i = (\<lambda>(sizes, a). let (s, a) = stbi__zreceive 3 a in (sizes[length_dezigzag ! i := s], a))"

text \<open>The run of a repeated length: its value and its number, or failure.\<close>

definition zrun :: "int \<Rightarrow> nat list \<Rightarrow> stbi__zbuf \<Rightarrow> (nat \<times> nat \<times> stbi__zbuf) option" where
  "zrun c lencodes a =
     (if c = 16 then
        (let (k, a) = stbi__zreceive 2 a in if lencodes = [] then None else Some (last lencodes, k + 3, a))
      else if c = 17 then (let (k, a) = stbi__zreceive 3 a in Some (0, k + 3, a))
      else (let (k, a) = stbi__zreceive 7 a in Some (0, k + 11, a)))"

lemma zrun_positive: "zrun c l a = Some (v, n, a') \<Longrightarrow> 0 < n"
  by (auto simp: zrun_def split: prod.splits if_splits)

function zread_lencodes :: "nat \<Rightarrow> stbi__zhuffman \<Rightarrow> nat list \<Rightarrow> stbi__zbuf \<Rightarrow> (nat list \<times> stbi__zbuf) option" where
  "zread_lencodes ntot zc lencodes a =
     (if length lencodes < ntot then
        (let (c, a) = stbi__zhuffman_decode zc a in
         if c < 0 \<or> c \<ge> 19 then None
         else if c < 16 then zread_lencodes ntot zc (lencodes @ [nat c]) a
         else (case zrun c lencodes a of
                 None \<Rightarrow> None
               | Some (fill, n, a) \<Rightarrow>
                   if ntot - length lencodes < n then None
                   else zread_lencodes ntot zc (lencodes @ replicate n fill) a))
      else Some (lencodes, a))"
  by pat_completeness auto
termination
  by (relation "measure (\<lambda>(ntot, _, l, _). ntot - length l)") (auto dest!: zrun_positive intro: diff_less_mono2)

declare zread_lencodes.simps [simp del]

definition stbi__compute_huffman_codes :: "stbi__zhuffman \<Rightarrow> stbi__zbuf \<Rightarrow> stbi__zbuf option" where
  "stbi__compute_huffman_codes stale a =
     (let (k, a) = stbi__zreceive 5 a; hlit = k + 257;
          (k, a) = stbi__zreceive 5 a; hdist = k + 1;
          (k, a) = stbi__zreceive 4 a; hclen = k + 4;
          ntot = hlit + hdist;
          (codelength_sizes, a) = fold zread_codelength [0..<hclen] (replicate 19 0, a)
      in case stbi__zbuild_huffman stale codelength_sizes of
           None \<Rightarrow> None
         | Some z_codelength \<Rightarrow>
             (case zread_lencodes ntot z_codelength [] a of
                None \<Rightarrow> None
              | Some (lencodes, a) \<Rightarrow>
                  if length lencodes \<noteq> ntot then None
                  else (case stbi__zbuild_huffman (z_length a) (take hlit lencodes) of
                          None \<Rightarrow> None
                        | Some zl \<Rightarrow>
                            (case stbi__zbuild_huffman (z_distance a) (drop hlit lencodes) of
                               None \<Rightarrow> None
                             | Some zd \<Rightarrow> Some (a\<lparr>z_length := zl, z_distance := zd\<rparr>)))))"

text \<open>
  A stored block: what is left of the last byte is dropped, the bytes still in the bit buffer
  are the first of the header, the rest is read from the input.
\<close>

function zdrain :: "byte list \<Rightarrow> stbi__zbuf \<Rightarrow> byte list \<times> stbi__zbuf" where
  "zdrain header a =
     (if num_bits a > 0
      then zdrain (header @ [ucast (code_buffer a AND 255)]) (a\<lparr>code_buffer := drop_bit 8 (code_buffer a), num_bits := num_bits a - 8\<rparr>)
      else (header, a))"
  by pat_completeness auto
termination by (relation "measure (\<lambda>(_, a). num_bits a)") auto

declare zdrain.simps [simp del]

function zread_header :: "byte list \<Rightarrow> stbi__zbuf \<Rightarrow> byte list \<times> stbi__zbuf" where
  "zread_header header a =
     (if length header < 4 then (let (b, a) = stbi__zget8 a in zread_header (header @ [b]) a) else (header, a))"
  by pat_completeness auto
termination by (relation "measure (\<lambda>(h, _). 4 - length h)") auto

declare zread_header.simps [simp del]

definition stbi__parse_uncompressed_block :: "(nat \<Rightarrow> bool) \<Rightarrow> stbi__zbuf \<Rightarrow> stbi__zbuf option option" where
  "stbi__parse_uncompressed_block alloc a =
     (let a = (if num_bits a mod 8 \<noteq> 0 then snd (stbi__zreceive (num_bits a mod 8) a) else a);
          (header, a) = zdrain [] a;
          (header, a) = zread_header header a;
          len = unat (header ! 1) * 256 + unat (header ! 0);
          nlen = unat (header ! 3) * 256 + unat (header ! 2)
      in if nlen \<noteq> len XOR 0xffff then Some None
         else if len > length (zb_in a) then Some None
         else (case zmake_room alloc len a of
                 None \<Rightarrow> None
               | Some None \<Rightarrow> Some None
               | Some (Some a) \<Rightarrow> Some (Some (a\<lparr>zb_out := zb_out a @ take len (zb_in a), zb_in := drop len (zb_in a)\<rparr>))))"

definition stbi__parse_zlib_header :: "stbi__zbuf \<Rightarrow> stbi__zbuf option" where
  "stbi__parse_zlib_header a =
     (let (cmf, a) = stbi__zget8 a; (flg, a) = stbi__zget8 a in
      if stbi__zeof a then None
      else if (unat cmf * 256 + unat flg) mod 31 \<noteq> 0 then None
      else if flg AND 32 \<noteq> 0 then None
      else if cmf AND 15 \<noteq> 8 then None
      else Some a)"

definition stbi__zdefault_length :: "nat list" where
  "stbi__zdefault_length = replicate 144 8 @ replicate 112 9 @ replicate 24 7 @ replicate 8 8"

definition stbi__zdefault_distance :: "nat list" where
  "stbi__zdefault_distance = replicate 32 5"

definition zfixed_codes :: "stbi__zbuf \<Rightarrow> stbi__zbuf option" where
  "zfixed_codes a =
     (case stbi__zbuild_huffman (z_length a) stbi__zdefault_length of
        None \<Rightarrow> None
      | Some zl \<Rightarrow>
          (case stbi__zbuild_huffman (z_distance a) stbi__zdefault_distance of
             None \<Rightarrow> None
           | Some zd \<Rightarrow> Some (a\<lparr>z_length := zl, z_distance := zd\<rparr>)))"

text \<open>One block: whether it is the last one, and the state behind it.\<close>

definition zparse_block :: "(nat \<Rightarrow> bool) \<Rightarrow> stbi__zhuffman \<Rightarrow> stbi__zbuf \<Rightarrow> (bool \<times> stbi__zbuf) option option" where
  "zparse_block alloc stale a =
     (let (final, a) = stbi__zreceive 1 a; (type, a) = stbi__zreceive 2 a;
          coded = (if type = 1 then zfixed_codes a else stbi__compute_huffman_codes stale a)
      in map_option (map_option (Pair (final \<noteq> 0)))
           (if type = 0 then stbi__parse_uncompressed_block alloc a
            else if type = 3 then Some None
            else (case coded of None \<Rightarrow> Some None | Some a \<Rightarrow> stbi__parse_huffman_block alloc a)))"

partial_function (option) zparse_blocks :: "(nat \<Rightarrow> bool) \<Rightarrow> stbi__zhuffman \<Rightarrow> stbi__zbuf \<Rightarrow> stbi__zbuf option option" where
  "zparse_blocks alloc stale a =
     (case zparse_block alloc stale a of
        None \<Rightarrow> None
      | Some None \<Rightarrow> Some None
      | Some (Some (final, a)) \<Rightarrow> if final then Some (Some a) else zparse_blocks alloc stale a)"

declare zparse_blocks.simps [code]

definition stbi__parse_zlib :: "(nat \<Rightarrow> bool) \<Rightarrow> stbi__zhuffman \<Rightarrow> bool \<Rightarrow> stbi__zbuf \<Rightarrow> stbi__zbuf option option" where
  "stbi__parse_zlib alloc stale parse_header a =
     (case (if parse_header then stbi__parse_zlib_header a else Some a) of
        None \<Rightarrow> Some None
      | Some a \<Rightarrow> zparse_blocks alloc stale (a\<lparr>num_bits := 0, code_buffer := 0, hit_zeof_once := False\<rparr>))"

definition stbi_zlib_decode_malloc_guesssize_headerflag ::
  "(nat \<Rightarrow> bool) \<Rightarrow> stbi__zhuffman \<Rightarrow> byte list \<Rightarrow> nat \<Rightarrow> bool \<Rightarrow> byte list option option" where
  "stbi_zlib_decode_malloc_guesssize_headerflag alloc stale buffer initial_size parse_header =
     (if \<not> alloc initial_size then Some None
      else map_option (map_option zb_out)
             (stbi__parse_zlib alloc stale parse_header
                \<lparr>zb_in = buffer, num_bits = 0, hit_zeof_once = False, code_buffer = 0, zb_out = [], zb_limit = initial_size,
                  z_expandable = True, z_length = stale, z_distance = stale\<rparr>))"

end
