(* ===== verification/PngRead.thy ===== *)
theory PngRead
  imports StbContext PngFilter ZlibRead
begin

text \<open>
  The PNG loader of \<open>src/common/stb_image.h\<close>: chunks, palette and transparency, lines of 1 to 16
  bits, interlaced pictures, the formats of the iPhone. The locals of \<open>stbi__parse_png_file\<close> and
  the struct \<open>stbi__png\<close> are one record; its \<open>palette\<close> starts with what the stack holds. Samples of
  8 and of 16 bits are the two cases of \<open>stb_samples\<close>. An inner \<open>None\<close> is the return value 0; the
  outer one stands for a loop that does not end.
\<close>

section \<open>Surroundings and state\<close>

record png_env =
  pe_alloc :: "nat \<Rightarrow> bool"
  pe_tables :: stbi__zhuffman
  pe_stack :: "byte list"
  pe_heap :: "nat \<Rightarrow> byte"

text \<open>The globals of the loader; no client sets them.\<close>

record stbi_opts =
  flip_on_load :: bool
  unpremultiply_on_load :: bool
  de_iphone_flag :: bool

definition stbi_defaults :: stbi_opts where
  "stbi_defaults = \<lparr>flip_on_load = False, unpremultiply_on_load = False, de_iphone_flag = False\<rparr>"

datatype stb_samples = S8 "byte list" | S16 "nat list"

datatype stbi_scan = STBI__SCAN_load | STBI__SCAN_type | STBI__SCAN_header

record stbi__png =
  pz_s :: stbi__context
  pz_idata :: "byte list option"
  pz_idata_limit :: nat
  pz_out :: stb_samples
  pz_depth :: nat
  pz_palette :: "byte list"
  pz_pal_img_n :: nat
  pz_pal_len :: nat
  pz_has_trans :: bool
  pz_tc :: "byte list"
  pz_tc16 :: "nat list"
  pz_first :: bool
  pz_interlace :: bool
  pz_color :: nat
  pz_is_iphone :: bool

record stbi__pngchunk =
  chunk_length :: nat
  chunk_type :: nat

definition stbi__get_chunk_header :: "stbi__context \<Rightarrow> stbi__pngchunk \<times> stbi__context" where
  "stbi__get_chunk_header s =
     (let (len, s) = stbi__get32be s; (type, s) = stbi__get32be s in (\<lparr>chunk_length = len, chunk_type = type\<rparr>, s))"

fun stbi__get8s :: "nat \<Rightarrow> stbi__context \<Rightarrow> byte list \<times> stbi__context" where
  "stbi__get8s 0 s = ([], s)"
| "stbi__get8s (Suc n) s = (let (b, s) = stbi__get8 s; (bs, s) = stbi__get8s n s in (b # bs, s))"

fun stbi__get16bes :: "nat \<Rightarrow> stbi__context \<Rightarrow> nat list \<times> stbi__context" where
  "stbi__get16bes 0 s = ([], s)"
| "stbi__get16bes (Suc n) s = (let (b, s) = stbi__get16be s; (bs, s) = stbi__get16bes n s in (b # bs, s))"

fun check_sig :: "byte list \<Rightarrow> stbi__context \<Rightarrow> bool \<times> stbi__context" where
  "check_sig [] s = (True, s)"
| "check_sig (c # cs) s = (let (b, s) = stbi__get8 s in if b \<noteq> c then (False, s) else check_sig cs s)"

definition stbi__check_png_header :: "stbi__context \<Rightarrow> bool \<times> stbi__context" where
  "stbi__check_png_header s = check_sig [137, 80, 78, 71, 13, 10, 26, 10] s"

section \<open>Lines and pixel_groups\<close>

definition stbi__depth_scale_table :: "byte list" where
  "stbi__depth_scale_table = [0, 0xff, 0x55, 0, 0x11, 0, 0, 0, 0x01]"

definition stbi__create_png_alpha_expand8 :: "byte list \<Rightarrow> nat \<Rightarrow> nat \<Rightarrow> byte list" where
  "stbi__create_png_alpha_expand8 src x nch = concat (map (\<lambda>p. p @ [255]) (pixel_groups nch x src))"

text \<open>The samples of a line of less than 8 bits: \<open>inb\<close> is shifted left after every sample.\<close>

definition unpack_bits :: "nat \<Rightarrow> byte \<Rightarrow> nat \<Rightarrow> byte list \<Rightarrow> byte list" where
  "unpack_bits depth scale nsmp cur =
     map (\<lambda>i. scale * drop_bit (8 - depth) (push_bit (depth * (i mod (8 div depth))) (cur ! (i div (8 div depth))))) [0..<nsmp]"

definition png_row8 :: "nat \<Rightarrow> nat \<Rightarrow> nat \<Rightarrow> nat \<Rightarrow> nat \<Rightarrow> byte list \<Rightarrow> byte list" where
  "png_row8 depth color nch out_n x cur =
     (let dest = (if depth < 8
                  then unpack_bits depth (if color = 0 then stbi__depth_scale_table ! depth else 1) (x * nch) cur
                  else take (x * nch) cur)
      in if nch \<noteq> out_n then stbi__create_png_alpha_expand8 dest x nch else dest)"

definition png_row16 :: "nat \<Rightarrow> nat \<Rightarrow> nat \<Rightarrow> byte list \<Rightarrow> nat list" where
  "png_row16 nch out_n x cur =
     (let dest = map (\<lambda>i. unat (cur ! (2 * i)) * 2 ^ 8 + unat (cur ! (2 * i + 1))) [0..<x * nch]
      in if nch = out_n then dest else concat (map (\<lambda>p. p @ [0xffff]) (pixel_groups nch x dest)))"

text \<open>The loop over the lines: filter byte, filtered line.\<close>

fun png_rows :: "nat \<Rightarrow> nat \<Rightarrow> nat \<Rightarrow> bool \<Rightarrow> byte list \<Rightarrow> byte list \<Rightarrow> byte list list option" where
  "png_rows fb nk 0 first raw prior = Some []"
| "png_rows fb nk (Suc y) first raw prior =
     (if unat (hd raw) > 4 then None
      else
        (let cur = unfilter_line ((if first then first_row_filter else later_row_filter) ! unat (hd raw)) fb nk (tl raw) prior
         in map_option (Cons cur) (png_rows fb nk y False (drop nk (tl raw)) cur)))"

definition png_width_bytes :: "nat \<Rightarrow> nat \<Rightarrow> nat \<Rightarrow> nat" where
  "png_width_bytes nch x depth = (nch * x * depth + 7) div 8"

definition stbi__create_png_image_raw ::
  "(nat \<Rightarrow> bool) \<Rightarrow> (nat \<Rightarrow> byte list \<Rightarrow> 'a list) \<Rightarrow> nat \<Rightarrow> byte list \<Rightarrow> nat \<Rightarrow> nat \<Rightarrow> nat \<Rightarrow> nat \<Rightarrow> 'a list option" where
  "stbi__create_png_image_raw alloc row nch raw out_n x y depth =
     (let bytes = (if depth = 16 then 2 else 1);
          img_width_bytes = png_width_bytes nch x depth;
          filter_bytes = (if depth < 8 then 1 else nch * bytes)
      in if \<not> stbi__malloc_mad3 alloc (int x) (int y) (int (out_n * bytes)) 0 then None
         else if \<not> stbi__mad3sizes_valid (int nch) (int x) (int depth) 7 then None
         else if \<not> stbi__mad2sizes_valid (int img_width_bytes) (int y) (int img_width_bytes) then None
         else if length raw < (img_width_bytes + 1) * y then None
         else if \<not> stbi__malloc_mad2 alloc (int img_width_bytes) 2 0 then None
         else map_option (\<lambda>rows. concat (map (row x) rows)) (png_rows filter_bytes img_width_bytes y True raw []))"

section \<open>Interlaced pictures\<close>

definition put_samples :: "nat \<Rightarrow> 'a list \<Rightarrow> 'a list \<Rightarrow> 'a list" where
  "put_samples off p l = take off l @ p @ drop (off + length p) l"

definition adam7 :: "(nat \<times> nat \<times> nat \<times> nat) list" where
  "adam7 = [(0, 0, 8, 8), (4, 0, 8, 8), (0, 4, 4, 8), (2, 0, 4, 4), (0, 2, 2, 4), (1, 0, 2, 2), (0, 1, 1, 2)]"

definition spread_pass :: "nat \<Rightarrow> nat \<Rightarrow> nat \<Rightarrow> nat \<Rightarrow> nat \<Rightarrow> nat \<Rightarrow> nat \<Rightarrow> nat \<Rightarrow> 'a list \<Rightarrow> 'a list \<Rightarrow> 'a list" where
  "spread_pass width out_n xorig yorig xspc yspc x y out final =
     fold (\<lambda>j. fold (\<lambda>i. put_samples (((j * yspc + yorig) * width + (i * xspc + xorig)) * out_n)
                           (take out_n (drop ((j * x + i) * out_n) out))) [0..<x]) [0..<y] final"

fun png_passes ::
  "(byte list \<Rightarrow> nat \<Rightarrow> nat \<Rightarrow> 'a list option) \<Rightarrow> (nat \<Rightarrow> nat) \<Rightarrow> nat \<Rightarrow> nat \<Rightarrow> nat \<Rightarrow> (nat \<times> nat \<times> nat \<times> nat) list \<Rightarrow> byte list \<Rightarrow> 'a list \<Rightarrow> 'a list option" where
  "png_passes raw_image line_len width height out_n [] image_data final = Some final"
| "png_passes raw_image line_len width height out_n ((xorig, yorig, xspc, yspc) # ps) image_data final =
     (let x = (width + xspc - 1 - xorig) div xspc; y = (height + yspc - 1 - yorig) div yspc in
      if x \<noteq> 0 \<and> y \<noteq> 0 then
        (case raw_image image_data x y of
           None \<Rightarrow> None
         | Some out \<Rightarrow>
             png_passes raw_image line_len width height out_n ps (drop ((line_len x + 1) * y) image_data)
               (spread_pass width out_n xorig yorig xspc yspc x y out final))
      else png_passes raw_image line_len width height out_n ps image_data final)"

definition png_image ::
  "(nat \<Rightarrow> bool) \<Rightarrow> (nat \<Rightarrow> byte list \<Rightarrow> 'a list) \<Rightarrow> (nat \<Rightarrow> 'a) \<Rightarrow> stbi__context \<Rightarrow> byte list \<Rightarrow> nat \<Rightarrow> nat \<Rightarrow> bool \<Rightarrow> 'a list option" where
  "png_image alloc row fresh s image_data out_n depth interlaced =
     (let raw_image = (\<lambda>d x y. stbi__create_png_image_raw alloc row (img_n s) d out_n x y depth) in
      if \<not> interlaced then raw_image image_data (img_x s) (img_y s)
      else if \<not> stbi__malloc_mad3 alloc (int (img_x s)) (int (img_y s)) (int (out_n * (if depth = 16 then 2 else 1))) 0 then None
      else png_passes raw_image (\<lambda>x. png_width_bytes (img_n s) x depth) (img_x s) (img_y s) out_n adam7 image_data
             (map fresh [0..<img_x s * img_y s * out_n]))"

definition stbi__create_png_image ::
  "png_env \<Rightarrow> stbi__context \<Rightarrow> byte list \<Rightarrow> nat \<Rightarrow> nat \<Rightarrow> nat \<Rightarrow> bool \<Rightarrow> stb_samples option" where
  "stbi__create_png_image env s image_data out_n depth color interlaced =
     (if depth = 16
      then map_option S16 (png_image (pe_alloc env) (png_row16 (img_n s) out_n)
             (\<lambda>i. unat (pe_heap env (2 * i)) + unat (pe_heap env (2 * i + 1)) * 2 ^ 8) s image_data out_n depth interlaced)
      else map_option S8 (png_image (pe_alloc env) (png_row8 depth color (img_n s) out_n) (pe_heap env) s image_data out_n depth interlaced))"

section \<open>Transparency, palettes, iPhone pictures\<close>

definition transparent_pixel :: "'a \<Rightarrow> 'a list \<Rightarrow> nat \<Rightarrow> 'a::zero list \<Rightarrow> 'a list" where
  "transparent_pixel opaque tc out_n p =
     (if out_n = 2 then [p ! 0, if p ! 0 = tc ! 0 then 0 else opaque]
      else if p ! 0 = tc ! 0 \<and> p ! 1 = tc ! 1 \<and> p ! 2 = tc ! 2 then p[3 := 0]
      else p)"

definition stbi__compute_transparency :: "nat \<Rightarrow> byte list \<Rightarrow> nat \<Rightarrow> byte list \<Rightarrow> byte list" where
  "stbi__compute_transparency pixel_count tc out_n out =
     concat (map (transparent_pixel 255 tc out_n) (pixel_groups out_n pixel_count out))"

definition stbi__compute_transparency16 :: "nat \<Rightarrow> nat list \<Rightarrow> nat \<Rightarrow> nat list \<Rightarrow> nat list" where
  "stbi__compute_transparency16 pixel_count tc out_n out =
     concat (map (transparent_pixel 65535 tc out_n) (pixel_groups out_n pixel_count out))"

definition stbi__expand_png_palette :: "(nat \<Rightarrow> bool) \<Rightarrow> nat \<Rightarrow> byte list \<Rightarrow> nat \<Rightarrow> byte list \<Rightarrow> byte list option" where
  "stbi__expand_png_palette alloc pixel_count palette pal_img_n orig =
     (if \<not> stbi__malloc_mad2 alloc (int pixel_count) (int pal_img_n) 0 then None
      else Some (concat (map (\<lambda>v. take (if pal_img_n = 3 then 3 else 4) (drop (unat v * 4) palette)) (take pixel_count orig))))"

definition iphone_pixel :: "bool \<Rightarrow> nat \<Rightarrow> byte list \<Rightarrow> byte list" where
  "iphone_pixel unpremultiply out_n p =
     (if out_n = 3 then [p ! 2, p ! 1, p ! 0]
      else if unpremultiply \<and> p ! 3 \<noteq> 0 then
        (let a = unat (p ! 3); half = a div 2; f = (\<lambda>c. of_nat ((unat c * 255 + half) div a)) in [f (p ! 2), f (p ! 1), f (p ! 0), p ! 3])
      else [p ! 2, p ! 1, p ! 0, p ! 3])"

definition stbi__de_iphone :: "stbi_opts \<Rightarrow> nat \<Rightarrow> nat \<Rightarrow> byte list \<Rightarrow> byte list" where
  "stbi__de_iphone opts pixel_count out_n out =
     concat (map (iphone_pixel (unpremultiply_on_load opts) out_n) (pixel_groups out_n pixel_count out)) @ drop (out_n * pixel_count) out"

text \<open>The routine is written for bytes; samples of 16 bits are seen as their bytes.\<close>

definition samples_bytes :: "nat list \<Rightarrow> byte list" where
  "samples_bytes l = concat (map (\<lambda>v. [of_nat v, of_nat (v div 2 ^ 8)]) l)"

definition bytes_samples :: "byte list \<Rightarrow> nat list" where
  "bytes_samples l = map (\<lambda>p. unat (p ! 0) + unat (p ! 1) * 2 ^ 8) (pixel_groups 2 (length l div 2) l)"

definition de_iphone_samples :: "stbi_opts \<Rightarrow> nat \<Rightarrow> nat \<Rightarrow> stb_samples \<Rightarrow> stb_samples" where
  "de_iphone_samples opts pixel_count out_n out =
     (case out of
        S8 l \<Rightarrow> S8 (stbi__de_iphone opts pixel_count out_n l)
      | S16 l \<Rightarrow> S16 (bytes_samples (stbi__de_iphone opts pixel_count out_n (samples_bytes l))))"

section \<open>Chunks\<close>

definition STBI__PNG_TYPE :: "char \<Rightarrow> char \<Rightarrow> char \<Rightarrow> char \<Rightarrow> nat" where
  "STBI__PNG_TYPE a b c d = of_char a * 2 ^ 24 + of_char b * 2 ^ 16 + of_char c * 2 ^ 8 + of_char d"

definition png_type :: "string \<Rightarrow> nat" where
  "png_type t = STBI__PNG_TYPE (t ! 0) (t ! 1) (t ! 2) (t ! 3)"

datatype png_step = PngNext stbi__png | PngDone stbi__png | PngFail | PngStuck

definition png_ihdr :: "nat \<Rightarrow> stbi__png \<Rightarrow> png_step" where
  "png_ihdr len z =
     (if \<not> pz_first z then PngFail
      else if len \<noteq> 13 then PngFail
      else
        (let (x, s) = stbi__get32be (pz_s z); (y, s) = stbi__get32be s;
             (depth, s) = stbi__get8 s; (color, s) = stbi__get8 s;
             (comp, s) = stbi__get8 s; (filter, s) = stbi__get8 s; (interlace, s) = stbi__get8 s;
             pal_img_n = (if color = 3 then 3 else 0);
             nch = (if color = 3 then 1 else (if bit color 1 then 3 else 1) + (if bit color 2 then 1 else 0))
         in if y > STBI_MAX_DIMENSIONS then PngFail
            else if x > STBI_MAX_DIMENSIONS then PngFail
            else if depth \<noteq> 1 \<and> depth \<noteq> 2 \<and> depth \<noteq> 4 \<and> depth \<noteq> 8 \<and> depth \<noteq> 16 then PngFail
            else if color > 6 then PngFail
            else if color = 3 \<and> depth = 16 then PngFail
            else if color \<noteq> 3 \<and> bit color 0 then PngFail
            else if comp \<noteq> 0 then PngFail
            else if filter \<noteq> 0 then PngFail
            else if interlace > 1 then PngFail
            else if x = 0 \<or> y = 0 then PngFail
            else if 2 ^ 30 div x div (if color = 3 then 4 else nch) < y then PngFail
            else PngNext (z\<lparr>pz_first := False, pz_s := s\<lparr>img_x := x, img_y := y, img_n := nch\<rparr>, pz_depth := unat depth,
                   pz_color := unat color, pz_pal_img_n := pal_img_n, pz_interlace := (interlace \<noteq> 0)\<rparr>)))"

definition png_plte :: "nat \<Rightarrow> stbi__png \<Rightarrow> png_step" where
  "png_plte len z =
     (if pz_first z then PngFail
      else if len > 256 * 3 then PngFail
      else if len div 3 * 3 \<noteq> len then PngFail
      else
        (let pal_len = len div 3;
             (bs, s) = stbi__get8s (pal_len * 3) (pz_s z);
             palette = fold (\<lambda>i p. p[i * 4 := bs ! (3 * i), i * 4 + 1 := bs ! (3 * i + 1), i * 4 + 2 := bs ! (3 * i + 2), i * 4 + 3 := 255])
                         [0..<pal_len] (pz_palette z)
         in PngNext (z\<lparr>pz_s := s, pz_pal_len := pal_len, pz_palette := palette\<rparr>)))"

definition png_trns :: "stbi_scan \<Rightarrow> nat \<Rightarrow> stbi__png \<Rightarrow> png_step" where
  "png_trns scan len z =
     (if pz_first z then PngFail
      else if pz_idata z \<noteq> None then PngFail
      else if pz_pal_img_n z \<noteq> 0 then
        (if scan = STBI__SCAN_header then PngDone (z\<lparr>pz_s := (pz_s z)\<lparr>img_n := 4\<rparr>\<rparr>)
         else if pz_pal_len z = 0 then PngFail
         else if len > pz_pal_len z then PngFail
         else
           (let (bs, s) = stbi__get8s len (pz_s z)
            in PngNext (z\<lparr>pz_s := s, pz_pal_img_n := 4, pz_palette := fold (\<lambda>i p. p[i * 4 + 3 := bs ! i]) [0..<len] (pz_palette z)\<rparr>)))
      else
        (let nch = img_n (pz_s z) in
         if even nch then PngFail
         else if len \<noteq> nch * 2 then PngFail
         else if scan = STBI__SCAN_header then PngDone (z\<lparr>pz_has_trans := True, pz_s := (pz_s z)\<lparr>img_n := nch + 1\<rparr>\<rparr>)
         else
           (let (vs, s) = stbi__get16bes (min nch 3) (pz_s z); z = z\<lparr>pz_has_trans := True, pz_s := s\<rparr>
            in if pz_depth z = 16 then PngNext (z\<lparr>pz_tc16 := vs @ drop (length vs) (pz_tc16 z)\<rparr>)
               else PngNext (z\<lparr>pz_tc := map (\<lambda>v. of_nat v * stbi__depth_scale_table ! pz_depth z) vs @ drop (length vs) (pz_tc z)\<rparr>))))"

function idata_grow :: "nat \<Rightarrow> nat \<Rightarrow> nat" where
  "idata_grow need limit = (if need > limit \<and> limit > 0 then idata_grow need (limit * 2) else limit)"
  by pat_completeness auto
termination by (relation "measure (\<lambda>(n, l). n - l)") auto

declare idata_grow.simps [simp del]

definition png_idat :: "(nat \<Rightarrow> bool) \<Rightarrow> stbi_scan \<Rightarrow> nat \<Rightarrow> stbi__png \<Rightarrow> png_step" where
  "png_idat alloc scan len z =
     (let old = (case pz_idata z of None \<Rightarrow> [] | Some d \<Rightarrow> d); ioff = length old; s = pz_s z in
      if pz_first z then PngFail
      else if pz_pal_img_n z \<noteq> 0 \<and> pz_pal_len z = 0 then PngFail
      else if scan = STBI__SCAN_header then
        PngDone (if pz_pal_img_n z \<noteq> 0 then z\<lparr>pz_s := s\<lparr>img_n := pz_pal_img_n z\<rparr>\<rparr> else z)
      else if len > 2 ^ 30 then PngFail
      else if c_int (int (ioff + len)) < c_int (int ioff) then PngFail
      else
        (let grow = (ioff + len > pz_idata_limit z);
             limit = (if pz_idata_limit z = 0 then (if len > 4096 then len else 4096) else pz_idata_limit z);
             limit = (if grow then idata_grow (ioff + len) limit else pz_idata_limit z)
         in if grow \<and> \<not> alloc limit then PngFail
            else
              (case stbi__getn len s of
                 None \<Rightarrow> PngFail
               | Some (bs, s) \<Rightarrow>
                   PngNext (z\<lparr>pz_s := s, pz_idata_limit := limit,
                     pz_idata := (if grow \<or> pz_idata z \<noteq> None then Some (old @ bs) else None)\<rparr>))))"

text \<open>\<open>stbi__malloc\<close> gets a \<open>size_t\<close> from the \<open>int\<close> a 32-bit length was passed in.\<close>

definition size_of_u32 :: "nat \<Rightarrow> nat" where
  "size_of_u32 n = (if n < 2 ^ 31 then n else n + 2 ^ 64 - 2 ^ 32)"

definition png_finish :: "png_env \<Rightarrow> stbi_opts \<Rightarrow> nat \<Rightarrow> byte list \<Rightarrow> stbi__png \<Rightarrow> stbi__png option" where
  "png_finish env opts req_comp expanded z =
     (let s = pz_s z; nch = img_n s; pixel_count = img_x s * img_y s;
          out_n = (if (req_comp = nch + 1 \<and> req_comp \<noteq> 3 \<and> pz_pal_img_n z = 0) \<or> pz_has_trans z then nch + 1 else nch)
      in case stbi__create_png_image env s expanded out_n (pz_depth z) (pz_color z) (pz_interlace z) of
           None \<Rightarrow> None
         | Some out \<Rightarrow>
             (let out = (if pz_has_trans z then
                           (case out of
                              S8 l \<Rightarrow> S8 (stbi__compute_transparency pixel_count (pz_tc z) out_n l)
                            | S16 l \<Rightarrow> S16 (stbi__compute_transparency16 pixel_count (pz_tc16 z) out_n l))
                         else out);
                  out = (if pz_is_iphone z \<and> de_iphone_flag opts \<and> out_n > 2 then de_iphone_samples opts pixel_count out_n out else out);
                  pal_out_n = (if req_comp \<ge> 3 then req_comp else pz_pal_img_n z)
              in if pz_pal_img_n z \<noteq> 0 then
                   (case out of
                      S8 l \<Rightarrow> map_option (\<lambda>l. z\<lparr>pz_out := S8 l, pz_s := s\<lparr>img_n := pz_pal_img_n z, img_out_n := pal_out_n\<rparr>\<rparr>)
                                (stbi__expand_png_palette (pe_alloc env) pixel_count (pz_palette z) pal_out_n l)
                    | S16 l \<Rightarrow> None)
                 else Some (z\<lparr>pz_out := out, pz_s := s\<lparr>img_n := (if pz_has_trans z then nch + 1 else nch), img_out_n := out_n\<rparr>\<rparr>)))"

definition png_iend :: "png_env \<Rightarrow> stbi_opts \<Rightarrow> stbi_scan \<Rightarrow> nat \<Rightarrow> stbi__png \<Rightarrow> png_step" where
  "png_iend env opts scan req_comp z =
     (if pz_first z then PngFail
      else if scan \<noteq> STBI__SCAN_load then PngDone z
      else
        (case pz_idata z of
           None \<Rightarrow> PngFail
         | Some idata \<Rightarrow>
             (let s = pz_s z; bpl = (img_x s * pz_depth z + 7) div 8;
                  raw_len = bpl * img_y s * img_n s + img_y s
              in case stbi_zlib_decode_malloc_guesssize_headerflag (pe_alloc env) (pe_tables env) idata (size_of_u32 raw_len) (\<not> pz_is_iphone z) of
                   None \<Rightarrow> PngStuck
                 | Some None \<Rightarrow> PngFail
                 | Some (Some expanded) \<Rightarrow>
                     (case png_finish env opts req_comp expanded z of
                        None \<Rightarrow> PngFail
                      | Some z \<Rightarrow> PngDone (z\<lparr>pz_s := snd (stbi__get32be (pz_s z))\<rparr>)))))"

definition png_chunk :: "png_env \<Rightarrow> stbi_opts \<Rightarrow> stbi_scan \<Rightarrow> nat \<Rightarrow> stbi__pngchunk \<Rightarrow> stbi__png \<Rightarrow> png_step" where
  "png_chunk env opts scan req_comp c z =
     (let len = chunk_length c; type = chunk_type c in
      if type = png_type ''CgBI'' then PngNext (z\<lparr>pz_is_iphone := True, pz_s := stbi__skip (c_int (int len)) (pz_s z)\<rparr>)
      else if type = png_type ''IHDR'' then png_ihdr len z
      else if type = png_type ''PLTE'' then png_plte len z
      else if type = png_type ''tRNS'' then png_trns scan len z
      else if type = png_type ''IDAT'' then png_idat (pe_alloc env) scan len z
      else if type = png_type ''IEND'' then png_iend env opts scan req_comp z
      else if pz_first z then PngFail
      else if \<not> bit type 29 then PngFail
      else PngNext (z\<lparr>pz_s := stbi__skip (c_int (int len)) (pz_s z)\<rparr>))"

definition png_next_chunk :: "png_env \<Rightarrow> stbi_opts \<Rightarrow> stbi_scan \<Rightarrow> nat \<Rightarrow> stbi__png \<Rightarrow> png_step" where
  "png_next_chunk env opts scan req_comp z =
     (let (c, s) = stbi__get_chunk_header (pz_s z) in
      case png_chunk env opts scan req_comp c (z\<lparr>pz_s := s\<rparr>) of
        PngNext z \<Rightarrow> PngNext (z\<lparr>pz_s := snd (stbi__get32be (pz_s z))\<rparr>)
      | r \<Rightarrow> r)"

partial_function (option) png_chunks :: "png_env \<Rightarrow> stbi_opts \<Rightarrow> stbi_scan \<Rightarrow> nat \<Rightarrow> stbi__png \<Rightarrow> stbi__png option option" where
  "png_chunks env opts scan req_comp z =
     (case png_next_chunk env opts scan req_comp z of
        PngNext z \<Rightarrow> png_chunks env opts scan req_comp z
      | PngDone z \<Rightarrow> Some (Some z)
      | PngFail \<Rightarrow> Some None
      | PngStuck \<Rightarrow> None)"

declare png_chunks.simps [code]

definition png_start :: "png_env \<Rightarrow> stbi__context \<Rightarrow> stbi__png" where
  "png_start env s =
     \<lparr>pz_s = s, pz_idata = None, pz_idata_limit = 0, pz_out = S8 [], pz_depth = 0, pz_palette = pe_stack env, pz_pal_img_n = 0,
       pz_pal_len = 0, pz_has_trans = False, pz_tc = [0, 0, 0], pz_tc16 = [0, 0, 0], pz_first = True, pz_interlace = False,
       pz_color = 0, pz_is_iphone = False\<rparr>"

definition stbi__parse_png_file :: "png_env \<Rightarrow> stbi_opts \<Rightarrow> stbi_scan \<Rightarrow> nat \<Rightarrow> stbi__context \<Rightarrow> stbi__png option option" where
  "stbi__parse_png_file env opts scan req_comp s =
     (let (ok, s) = stbi__check_png_header s; z = png_start env s in
      if \<not> ok then Some None
      else if scan = STBI__SCAN_type then Some (Some z)
      else png_chunks env opts scan req_comp z)"

text \<open>A loaded picture: width, height, channels of the file, samples.\<close>

definition stbi__do_png :: "png_env \<Rightarrow> stbi_opts \<Rightarrow> nat \<Rightarrow> stbi__context \<Rightarrow> (nat \<times> nat \<times> nat \<times> stb_samples) option option" where
  "stbi__do_png env opts req_comp s =
     (if req_comp > 4 then Some None
      else
        (case stbi__parse_png_file env opts STBI__SCAN_load req_comp s of
           None \<Rightarrow> None
         | Some None \<Rightarrow> Some None
         | Some (Some z) \<Rightarrow>
             (let s = pz_s z;
                  result = (if req_comp \<noteq> 0 \<and> req_comp \<noteq> img_out_n s then
                              (case pz_out z of
                                 S8 l \<Rightarrow> map_option S8 (stbi__convert_format (pe_alloc env) l (img_out_n s) req_comp (img_x s) (img_y s))
                               | S16 l \<Rightarrow> map_option S16 (stbi__convert_format16 (pe_alloc env) l (img_out_n s) req_comp (img_x s) (img_y s)))
                            else Some (pz_out z))
              in Some (map_option (\<lambda>d. (img_x s, img_y s, img_n s, d)) result))))"

definition stbi__png_test :: "stbi__context \<Rightarrow> bool" where
  "stbi__png_test s = fst (stbi__check_png_header s)"

end
