(* ===== verification/ZlibWrite.thy ===== *)
theory ZlibWrite
  imports Prelude
begin

text \<open>
  The zlib compressor of \<open>src/common/stb_image_write.h\<close>: the stretchy buffer, the bit writer, the
  fixed Huffman codes, the search for matches with its hash table, the fall-back to stored
  blocks and the Adler-32 trailer. Pointers into the data are positions; a chain of the hash
  table is the list of its positions, NULL being the empty one. A stretchy buffer is its items
  and its capacity \<open>sb_m\<close>, 0 for NULL; a \<open>realloc\<close> that fails ends the program
  (\<open>STBIW_ASSERT\<close>) and is not modelled. \<open>None\<close> is a write behind the capacity.
\<close>

section \<open>Stretchy buffers\<close>

record sbuf =
  sb_items :: "byte list"
  sb_m :: nat

definition sb_null :: sbuf where "sb_null = \<lparr>sb_items = [], sb_m = 0\<rparr>"

definition stbiw__sbgrowf :: "nat \<Rightarrow> sbuf \<Rightarrow> sbuf" where
  "stbiw__sbgrowf increment a = a\<lparr>sb_m := (if sb_m a \<noteq> 0 then 2 * sb_m a + increment else increment + 1)\<rparr>"

definition stbiw__sbpush :: "byte \<Rightarrow> sbuf \<Rightarrow> sbuf" where
  "stbiw__sbpush v a =
     (let a = (if sb_m a = 0 \<or> length (sb_items a) + 1 \<ge> sb_m a then stbiw__sbgrowf 1 a else a)
      in a\<lparr>sb_items := sb_items a @ [v]\<rparr>)"

section \<open>Bits\<close>

record zwriter =
  zw_out :: sbuf
  zw_bitbuf :: u32
  zw_bitcount :: nat

function stbiw__zlib_flushf :: "zwriter \<Rightarrow> zwriter" where
  "stbiw__zlib_flushf w =
     (if zw_bitcount w \<ge> 8
      then stbiw__zlib_flushf (w\<lparr>zw_out := stbiw__sbpush (ucast (zw_bitbuf w)) (zw_out w),
             zw_bitbuf := drop_bit 8 (zw_bitbuf w), zw_bitcount := zw_bitcount w - 8\<rparr>)
      else w)"
  by pat_completeness auto
termination by (relation "measure zw_bitcount") auto

declare stbiw__zlib_flushf.simps [simp del]

definition stbiw__zlib_add :: "nat \<Rightarrow> nat \<Rightarrow> zwriter \<Rightarrow> zwriter" where
  "stbiw__zlib_add code codebits w =
     stbiw__zlib_flushf (w\<lparr>zw_bitbuf := zw_bitbuf w OR push_bit (zw_bitcount w) (of_nat code),
       zw_bitcount := zw_bitcount w + codebits\<rparr>)"

fun bitrev_loop :: "nat \<Rightarrow> nat \<Rightarrow> nat \<Rightarrow> nat" where
  "bitrev_loop res code 0 = res"
| "bitrev_loop res code (Suc codebits) = bitrev_loop (push_bit 1 res OR (code AND 1)) (drop_bit 1 code) codebits"

definition stbiw__zlib_bitrev :: "nat \<Rightarrow> nat \<Rightarrow> nat" where
  "stbiw__zlib_bitrev code codebits = bitrev_loop 0 code codebits"

text \<open>The fixed codes of literals, of the end of a block and of lengths.\<close>

definition stbiw__zlib_huffa :: "nat \<Rightarrow> nat \<Rightarrow> zwriter \<Rightarrow> zwriter" where
  "stbiw__zlib_huffa b c = stbiw__zlib_add (stbiw__zlib_bitrev b c) c"

definition stbiw__zlib_huff :: "nat \<Rightarrow> zwriter \<Rightarrow> zwriter" where
  "stbiw__zlib_huff n =
     (if n \<le> 143 then stbiw__zlib_huffa (0x30 + n) 8
      else if n \<le> 255 then stbiw__zlib_huffa (0x190 + n - 144) 9
      else if n \<le> 279 then stbiw__zlib_huffa (0 + n - 256) 7
      else stbiw__zlib_huffa (0xc0 + n - 280) 8)"

definition stbiw__zlib_huffb :: "nat \<Rightarrow> zwriter \<Rightarrow> zwriter" where
  "stbiw__zlib_huffb n =
     (if n \<le> 143 then stbiw__zlib_huffa (0x30 + n) 8 else stbiw__zlib_huffa (0x190 + n - 144) 9)"

section \<open>Matches\<close>

function stbiw__zlib_countm :: "byte list \<Rightarrow> nat \<Rightarrow> nat \<Rightarrow> nat \<Rightarrow> nat \<Rightarrow> nat" where
  "stbiw__zlib_countm data a b limit i =
     (if i < limit \<and> i < 258 \<and> data ! (a + i) = data ! (b + i) then stbiw__zlib_countm data a b limit (Suc i) else i)"
  by pat_completeness auto
termination by (relation "measure (\<lambda>(_, _, _, _, i). 258 - i)") auto

declare stbiw__zlib_countm.simps [simp del]

definition stbiw__ZHASH :: nat where "stbiw__ZHASH = 16384"

definition stbiw__zhash :: "byte list \<Rightarrow> nat \<Rightarrow> u32" where
  "stbiw__zhash data i =
     (let hash = ucast (data ! i) + push_bit 8 (ucast (data ! (i + 1))) + push_bit 16 (ucast (data ! (i + 2)));
          hash = hash XOR push_bit 3 hash;
          hash = hash + drop_bit 5 hash;
          hash = hash XOR push_bit 4 hash;
          hash = hash + drop_bit 17 hash;
          hash = hash XOR push_bit 25 hash;
          hash = hash + drop_bit 6 hash
      in hash)"

definition zlib_bucket :: "byte list \<Rightarrow> nat \<Rightarrow> nat" where
  "zlib_bucket data i = unat (stbiw__zhash data i AND of_nat (stbiw__ZHASH - 1))"

text \<open>The last of the longest matches of at least three bytes inside the window.\<close>

definition zlib_search :: "byte list \<Rightarrow> nat \<Rightarrow> nat list \<Rightarrow> nat \<times> nat option" where
  "zlib_search data i hlist =
     fold (\<lambda>p (best, bestloc).
             if int p > int i - 32768 then
               (let d = stbiw__zlib_countm data p i (length data - i) 0
                in if d \<ge> best then (d, Some p) else (best, bestloc))
             else (best, bestloc)) hlist (3, None)"

text \<open>"Lazy matching": is there a better match one byte later?\<close>

definition zlib_better_next :: "byte list \<Rightarrow> nat \<Rightarrow> nat \<Rightarrow> nat list \<Rightarrow> bool" where
  "zlib_better_next data i best hlist =
     list_ex (\<lambda>p. int p > int i - 32767 \<and> stbiw__zlib_countm data p (i + 1) (length data - i - 1) 0 > best) hlist"

text \<open>A chain that has become too long loses its older half.\<close>

definition zlib_insert :: "nat \<Rightarrow> nat \<Rightarrow> nat \<Rightarrow> (nat \<Rightarrow> nat list) \<Rightarrow> nat \<Rightarrow> nat list" where
  "zlib_insert quality h i ht =
     (let hl = ht h; hl = (if length hl = 2 * quality then take quality (drop quality hl) else hl)
      in ht(h := hl @ [i]))"

definition lengthc :: "nat list" where
  "lengthc = [3, 4, 5, 6, 7, 8, 9, 10, 11, 13, 15, 17, 19, 23, 27, 31, 35, 43, 51, 59, 67, 83, 99, 115, 131, 163, 195, 227, 258, 259]"

definition lengtheb :: "nat list" where
  "lengtheb = [0, 0, 0, 0, 0, 0, 0, 0, 1, 1, 1, 1, 2, 2, 2, 2, 3, 3, 3, 3, 4, 4, 4, 4, 5, 5, 5, 5, 0]"

definition distc :: "nat list" where
  "distc = [1, 2, 3, 4, 5, 7, 9, 13, 17, 25, 33, 49, 65, 97, 129, 193, 257, 385, 513, 769, 1025, 1537, 2049, 3073, 4097, 6145, 8193,
     12289, 16385, 24577, 32768]"

definition disteb :: "nat list" where
  "disteb = [0, 0, 0, 0, 1, 1, 2, 2, 3, 3, 4, 4, 5, 5, 6, 6, 7, 7, 8, 8, 9, 9, 10, 10, 11, 11, 12, 12, 13, 13]"

text \<open>\<open>for (j=0; v > table[j+1]-1; ++j);\<close>\<close>

fun code_index :: "nat list \<Rightarrow> nat \<Rightarrow> nat" where
  "code_index (a # b # r) v = (if v > b - 1 then Suc (code_index (b # r) v) else 0)"
| "code_index _ v = 0"

definition zlib_put_match :: "nat \<Rightarrow> nat \<Rightarrow> zwriter \<Rightarrow> zwriter" where
  "zlib_put_match best d w =
     (let j = code_index lengthc best;
          w = stbiw__zlib_huff (j + 257) w;
          w = (if lengtheb ! j \<noteq> 0 then stbiw__zlib_add (best - lengthc ! j) (lengtheb ! j) w else w);
          j = code_index distc d;
          w = stbiw__zlib_add (stbiw__zlib_bitrev j 5) 5 w
      in if disteb ! j \<noteq> 0 then stbiw__zlib_add (d - distc ! j) (disteb ! j) w else w)"

lemma zlib_search_best:
  "zlib_search data i hlist = (best, loc) \<Longrightarrow>
     3 \<le> best \<and> (\<forall>p. loc = Some p \<longrightarrow> p \<in> set hlist \<and> int p > int i - 32768 \<and> best = stbiw__zlib_countm data p i (length data - i) 0)"
  unfolding zlib_search_def
proof (induction hlist arbitrary: best loc rule: rev_induct)
  case (snoc p hl)
  then show ?case by (auto simp: Let_def split: prod.splits if_splits)
qed simp

function zlib_loop :: "nat \<Rightarrow> byte list \<Rightarrow> nat \<Rightarrow> (nat \<Rightarrow> nat list) \<Rightarrow> zwriter \<Rightarrow> nat \<times> zwriter" where
  "zlib_loop quality data i ht w =
     (if i + 3 < length data then
        (let h = zlib_bucket data i;
             (best, bestloc) = zlib_search data i (ht h);
             ht = zlib_insert quality h i ht;
             bestloc = (if bestloc \<noteq> None \<and> zlib_better_next data i best (ht (zlib_bucket data (i + 1))) then None else bestloc)
         in case bestloc of
              Some p \<Rightarrow> zlib_loop quality data (i + best) ht (zlib_put_match best (i - p) w)
            | None \<Rightarrow> zlib_loop quality data (i + 1) ht (stbiw__zlib_huffb (unat (data ! i)) w))
      else (i, w))"
  by pat_completeness auto
termination
  by (relation "measure (\<lambda>(_, data, i, _, _). length data - i)")
    (auto split: if_splits dest!: zlib_search_best [OF sym])

declare zlib_loop.simps [simp del]

section \<open>The end of the stream\<close>

lemma flush_bitcount: "zw_bitcount (stbiw__zlib_flushf w) = zw_bitcount w mod 8"
  by (induction w rule: stbiw__zlib_flushf.induct) (subst stbiw__zlib_flushf.simps, auto simp: le_mod_geq)

function zlib_pad :: "zwriter \<Rightarrow> zwriter" where
  "zlib_pad w = (if zw_bitcount w \<noteq> 0 then zlib_pad (stbiw__zlib_add 0 1 w) else w)"
  by pat_completeness auto
termination
proof (relation "measure (\<lambda>w. if zw_bitcount w = 0 then 0 else if zw_bitcount w < 8 then 8 - zw_bitcount w else 8)")
  fix w :: zwriter
  assume "zw_bitcount w \<noteq> 0"
  moreover have "zw_bitcount (stbiw__zlib_add 0 1 w) = (zw_bitcount w + 1) mod 8" by (simp add: stbiw__zlib_add_def flush_bitcount)
  moreover have "(zw_bitcount w + 1) mod 8 < 8" by simp
  moreover have "zw_bitcount w < 7 \<Longrightarrow> (zw_bitcount w + 1) mod 8 = zw_bitcount w + 1" by simp
  moreover have "zw_bitcount w = 7 \<Longrightarrow> (zw_bitcount w + 1) mod 8 = 0" by simp
  ultimately show "(stbiw__zlib_add 0 1 w, w) \<in> measure (\<lambda>w. if zw_bitcount w = 0 then 0 else if zw_bitcount w < 8 then 8 - zw_bitcount w else 8)"
    by (cases "zw_bitcount w < 7"; cases "zw_bitcount w = 7") auto
qed auto

declare zlib_pad.simps [simp del]

section \<open>Stored blocks\<close>

definition stored_header :: "bool \<Rightarrow> nat \<Rightarrow> sbuf \<Rightarrow> sbuf" where
  "stored_header final blocklen out =
     (let bl = of_nat blocklen :: u32;
          out = stbiw__sbpush (if final then 1 else 0) out;
          out = stbiw__sbpush (ucast bl) out;
          out = stbiw__sbpush (ucast (drop_bit 8 bl)) out;
          out = stbiw__sbpush (ucast (NOT bl)) out
      in stbiw__sbpush (ucast (drop_bit 8 (NOT bl))) out)"

function zlib_stored :: "byte list \<Rightarrow> nat \<Rightarrow> sbuf \<Rightarrow> sbuf option" where
  "zlib_stored data j out =
     (if j < length data then
        (let blocklen = (if length data - j > 32767 then 32767 else length data - j);
             out = stored_header (length data - j = blocklen) blocklen out
         in if length (sb_items out) + blocklen > sb_m out then None
            else zlib_stored data (j + blocklen) (out\<lparr>sb_items := sb_items out @ take blocklen (drop j data)\<rparr>))
      else Some out)"
  by pat_completeness auto
termination by (relation "measure (\<lambda>(data, j, _). length data - j)") auto

declare zlib_stored.simps [simp del]

section \<open>Adler-32\<close>

definition adler_sums :: "byte list \<Rightarrow> u32 \<times> u32 \<Rightarrow> u32 \<times> u32" where
  "adler_sums bs s = fold (\<lambda>b (s1, s2). (s1 + ucast b, s2 + (s1 + ucast b))) bs s"

function adler_loop :: "nat \<Rightarrow> byte list \<Rightarrow> u32 \<times> u32 \<Rightarrow> u32 \<times> u32" where
  "adler_loop blocklen rest s =
     (if rest = [] then s
      else (let (s1, s2) = adler_sums (take blocklen rest) s
            in adler_loop 5552 (drop blocklen rest) (s1 mod 65521, s2 mod 65521)))"
  by pat_completeness auto
termination
proof (relation "measure (\<lambda>(b, r, _). 2 * length r + (if b = 0 then 1 else 0))")
  fix blocklen and rest :: "byte list" and s :: "u32 \<times> u32" and x s1 s2
  assume "rest \<noteq> []"
  then have "0 < length rest" by simp
  then show "((5552, drop blocklen rest, s1 mod 65521, s2 mod 65521), blocklen, rest, s)
      \<in> measure (\<lambda>(b, r, _). 2 * length r + (if b = 0 then 1 else 0))" by auto
qed simp

declare adler_loop.simps [simp del]

definition stbiw_adler32 :: "byte list \<Rightarrow> u32 \<times> u32" where
  "stbiw_adler32 data = adler_loop (length data mod 5552) data (1, 0)"

definition stbi_zlib_compress :: "(nat \<Rightarrow> bool) \<Rightarrow> byte list \<Rightarrow> int \<Rightarrow> byte list option option" where
  "stbi_zlib_compress alloc data quality =
     (if \<not> alloc (stbiw__ZHASH * 8) then Some None
      else
        (let quality = nat (if quality < 5 then 5 else quality);
             out = stbiw__sbpush 0x5e (stbiw__sbpush 0x78 sb_null);
             w = \<lparr>zw_out = out, zw_bitbuf = 0, zw_bitcount = 0\<rparr>;
             w = stbiw__zlib_add 1 2 (stbiw__zlib_add 1 1 w);
             (i, w) = zlib_loop quality data 0 (\<lambda>_. []) w;
             w = fold (\<lambda>i. stbiw__zlib_huffb (unat (data ! i))) [i..<length data] w;
             w = zlib_pad (stbiw__zlib_huff 256 w);
             out = zw_out w;
             fallback = (if length (sb_items out) > length data + 2 + (length data + 32766) div 32767 * 5
                         then zlib_stored data 0 (out\<lparr>sb_items := take 2 (sb_items out)\<rparr>) else Some out)
         in case fallback of
              None \<Rightarrow> None
            | Some out \<Rightarrow>
                (let (s1, s2) = stbiw_adler32 data;
                     out = stbiw__sbpush (ucast (drop_bit 8 s2)) out;
                     out = stbiw__sbpush (ucast s2) out;
                     out = stbiw__sbpush (ucast (drop_bit 8 s1)) out;
                     out = stbiw__sbpush (ucast s1) out
                 in Some (Some (sb_items out)))))"

end
