(* ===== verification/PngWrite.thy ===== *)
theory PngWrite
  imports PngFilter ZlibWrite
begin

text \<open>
  The PNG writer of \<open>src/common/stb_image_write.h\<close>: the CRC with its table, the big-endian fields
  and \<open>stbi_write_png_to_mem\<close>. The outer \<open>None\<close> is an overflow of the \<open>int\<close> in which the size of the
  filtered picture is computed, or of the compressor; the inner one is the return value NULL.
  The CRC by table is the CRC bit by bit.
\<close>

section \<open>Checksums\<close>

definition crc_table :: "u32 list" where
  "crc_table =
    [0x00000000, 0x77073096, 0xEE0E612C, 0x990951BA, 0x076DC419, 0x706AF48F, 0xE963A535, 0x9E6495A3,
     0x0eDB8832, 0x79DCB8A4, 0xE0D5E91E, 0x97D2D988, 0x09B64C2B, 0x7EB17CBD, 0xE7B82D07, 0x90BF1D91,
     0x1DB71064, 0x6AB020F2, 0xF3B97148, 0x84BE41DE, 0x1ADAD47D, 0x6DDDE4EB, 0xF4D4B551, 0x83D385C7,
     0x136C9856, 0x646BA8C0, 0xFD62F97A, 0x8A65C9EC, 0x14015C4F, 0x63066CD9, 0xFA0F3D63, 0x8D080DF5,
     0x3B6E20C8, 0x4C69105E, 0xD56041E4, 0xA2677172, 0x3C03E4D1, 0x4B04D447, 0xD20D85FD, 0xA50AB56B,
     0x35B5A8FA, 0x42B2986C, 0xDBBBC9D6, 0xACBCF940, 0x32D86CE3, 0x45DF5C75, 0xDCD60DCF, 0xABD13D59,
     0x26D930AC, 0x51DE003A, 0xC8D75180, 0xBFD06116, 0x21B4F4B5, 0x56B3C423, 0xCFBA9599, 0xB8BDA50F,
     0x2802B89E, 0x5F058808, 0xC60CD9B2, 0xB10BE924, 0x2F6F7C87, 0x58684C11, 0xC1611DAB, 0xB6662D3D,
     0x76DC4190, 0x01DB7106, 0x98D220BC, 0xEFD5102A, 0x71B18589, 0x06B6B51F, 0x9FBFE4A5, 0xE8B8D433,
     0x7807C9A2, 0x0F00F934, 0x9609A88E, 0xE10E9818, 0x7F6A0DBB, 0x086D3D2D, 0x91646C97, 0xE6635C01,
     0x6B6B51F4, 0x1C6C6162, 0x856530D8, 0xF262004E, 0x6C0695ED, 0x1B01A57B, 0x8208F4C1, 0xF50FC457,
     0x65B0D9C6, 0x12B7E950, 0x8BBEB8EA, 0xFCB9887C, 0x62DD1DDF, 0x15DA2D49, 0x8CD37CF3, 0xFBD44C65,
     0x4DB26158, 0x3AB551CE, 0xA3BC0074, 0xD4BB30E2, 0x4ADFA541, 0x3DD895D7, 0xA4D1C46D, 0xD3D6F4FB,
     0x4369E96A, 0x346ED9FC, 0xAD678846, 0xDA60B8D0, 0x44042D73, 0x33031DE5, 0xAA0A4C5F, 0xDD0D7CC9,
     0x5005713C, 0x270241AA, 0xBE0B1010, 0xC90C2086, 0x5768B525, 0x206F85B3, 0xB966D409, 0xCE61E49F,
     0x5EDEF90E, 0x29D9C998, 0xB0D09822, 0xC7D7A8B4, 0x59B33D17, 0x2EB40D81, 0xB7BD5C3B, 0xC0BA6CAD,
     0xEDB88320, 0x9ABFB3B6, 0x03B6E20C, 0x74B1D29A, 0xEAD54739, 0x9DD277AF, 0x04DB2615, 0x73DC1683,
     0xE3630B12, 0x94643B84, 0x0D6D6A3E, 0x7A6A5AA8, 0xE40ECF0B, 0x9309FF9D, 0x0A00AE27, 0x7D079EB1,
     0xF00F9344, 0x8708A3D2, 0x1E01F268, 0x6906C2FE, 0xF762575D, 0x806567CB, 0x196C3671, 0x6E6B06E7,
     0xFED41B76, 0x89D32BE0, 0x10DA7A5A, 0x67DD4ACC, 0xF9B9DF6F, 0x8EBEEFF9, 0x17B7BE43, 0x60B08ED5,
     0xD6D6A3E8, 0xA1D1937E, 0x38D8C2C4, 0x4FDFF252, 0xD1BB67F1, 0xA6BC5767, 0x3FB506DD, 0x48B2364B,
     0xD80D2BDA, 0xAF0A1B4C, 0x36034AF6, 0x41047A60, 0xDF60EFC3, 0xA867DF55, 0x316E8EEF, 0x4669BE79,
     0xCB61B38C, 0xBC66831A, 0x256FD2A0, 0x5268E236, 0xCC0C7795, 0xBB0B4703, 0x220216B9, 0x5505262F,
     0xC5BA3BBE, 0xB2BD0B28, 0x2BB45A92, 0x5CB36A04, 0xC2D7FFA7, 0xB5D0CF31, 0x2CD99E8B, 0x5BDEAE1D,
     0x9B64C2B0, 0xEC63F226, 0x756AA39C, 0x026D930A, 0x9C0906A9, 0xEB0E363F, 0x72076785, 0x05005713,
     0x95BF4A82, 0xE2B87A14, 0x7BB12BAE, 0x0CB61B38, 0x92D28E9B, 0xE5D5BE0D, 0x7CDCEFB7, 0x0BDBDF21,
     0x86D3D2D4, 0xF1D4E242, 0x68DDB3F8, 0x1FDA836E, 0x81BE16CD, 0xF6B9265B, 0x6FB077E1, 0x18B74777,
     0x88085AE6, 0xFF0F6A70, 0x66063BCA, 0x11010B5C, 0x8F659EFF, 0xF862AE69, 0x616BFFD3, 0x166CCF45,
     0xA00AE278, 0xD70DD2EE, 0x4E048354, 0x3903B3C2, 0xA7672661, 0xD06016F7, 0x4969474D, 0x3E6E77DB,
     0xAED16A4A, 0xD9D65ADC, 0x40DF0B66, 0x37D83BF0, 0xA9BCAE53, 0xDEBB9EC5, 0x47B2CF7F, 0x30B5FFE9,
     0xBDBDF21C, 0xCABAC28A, 0x53B39330, 0x24B4A3A6, 0xBAD03605, 0xCDD70693, 0x54DE5729, 0x23D967BF,
     0xB3667A2E, 0xC4614AB8, 0x5D681B02, 0x2A6F2B94, 0xB40BBE37, 0xC30C8EA1, 0x5A05DF1B, 0x2D02EF8D]"

definition stbiw__crc32 :: "byte list \<Rightarrow> u32" where
  "stbiw__crc32 buffer =
     NOT (fold (\<lambda>b crc. drop_bit 8 crc XOR crc_table ! unat (ucast b XOR (crc AND 0xff))) buffer (NOT 0))"

section \<open>The file\<close>

definition stbiw__wpng4 :: "byte \<Rightarrow> byte \<Rightarrow> byte \<Rightarrow> byte \<Rightarrow> byte list" where
  "stbiw__wpng4 a b c d = [a, b, c, d]"

definition stbiw__wp32 :: "u32 \<Rightarrow> byte list" where
  "stbiw__wp32 v = stbiw__wpng4 (ucast (drop_bit 24 v)) (ucast (drop_bit 16 v)) (ucast (drop_bit 8 v)) (ucast v)"

definition stbiw__wptag :: "string \<Rightarrow> byte list" where
  "stbiw__wptag s = (let b = bytes_of_str s in stbiw__wpng4 (b ! 0) (b ! 1) (b ! 2) (b ! 3))"

definition stbiw__wpcrc :: "nat \<Rightarrow> byte list \<Rightarrow> byte list" where
  "stbiw__wpcrc len data = data @ stbiw__wp32 (stbiw__crc32 (drop (length data - len - 4) data))"

definition png_ctype :: "byte list" where
  "png_ctype = [-1, 0, 4, 2, 6]"

definition png_sig :: "byte list" where
  "png_sig = [137, 80, 78, 71, 13, 10, 26, 10]"

definition stbi_write_png_to_mem ::
  "(nat \<Rightarrow> bool) \<Rightarrow> stbiw_opts \<Rightarrow> byte list \<Rightarrow> nat \<Rightarrow> nat \<Rightarrow> nat \<Rightarrow> nat \<Rightarrow> byte list option option" where
  "stbi_write_png_to_mem alloc opts pixels stride_bytes x y n =
     (let stride_bytes = (if stride_bytes = 0 then x * n else stride_bytes) in
      if (x * n + 1) * y > 2 ^ 31 - 1 then None
      else if \<not> alloc ((x * n + 1) * y) then Some None
      else if \<not> alloc (x * n) then Some None
      else
        (case stbi_zlib_compress alloc (png_lines opts pixels stride_bytes x y n) (png_compression_level opts) of
           None \<Rightarrow> None
         | Some None \<Rightarrow> Some None
         | Some (Some zlib) \<Rightarrow>
             (if \<not> alloc (8 + 12 + 13 + 12 + length zlib + 12) then Some None
              else
                (let o1 = png_sig @ stbiw__wp32 13 @ stbiw__wptag ''IHDR'' @ stbiw__wp32 (of_nat x) @ stbiw__wp32 (of_nat y) @
                       [8, png_ctype ! n, 0, 0, 0];
                     o1 = stbiw__wpcrc 13 o1;
                     o1 = o1 @ stbiw__wp32 (of_nat (length zlib)) @ stbiw__wptag ''IDAT'' @ zlib;
                     o1 = stbiw__wpcrc (length zlib) o1;
                     o1 = o1 @ stbiw__wp32 0 @ stbiw__wptag ''IEND''
                 in Some (Some (stbiw__wpcrc 0 o1))))))"

section \<open>The table\<close>

text \<open>One bit of the CRC, with the reflected polynomial of PNG.\<close>

definition crc_bit :: "u32 \<Rightarrow> u32" where
  "crc_bit c = drop_bit 1 c XOR (if bit c 0 then 0xEDB88320 else 0)"

definition crc_bitwise :: "byte list \<Rightarrow> u32" where
  "crc_bitwise buffer = NOT (fold (\<lambda>b crc. (crc_bit ^^ 8) (crc XOR ucast b)) buffer (NOT 0))"

lemma crc_bit_xor: "crc_bit (a XOR b) = crc_bit a XOR crc_bit b"
  unfolding crc_bit_def
  by (cases "bit a 0"; cases "bit b 0") (auto simp: drop_bit_xor bit_xor_iff ac_simps)

lemma crc_bits_xor: "(crc_bit ^^ k) (a XOR b) = (crc_bit ^^ k) a XOR (crc_bit ^^ k) b"
  by (induction k) (simp_all add: crc_bit_xor)

lemma crc_bits_shift: "(\<And>i. i < k \<Longrightarrow> \<not> bit c i) \<Longrightarrow> (crc_bit ^^ k) c = drop_bit k c"
proof (induction k arbitrary: c)
  case (Suc k)
  have "crc_bit c = drop_bit 1 c" using Suc(2) [of 0] by (simp add: crc_bit_def)
  moreover have "(crc_bit ^^ k) (drop_bit 1 c) = drop_bit k (drop_bit 1 c)"
    using Suc(2) by (intro Suc(1)) (simp add: bit_drop_bit_eq)
  ultimately show ?case by (simp only: funpow_Suc_right comp_def drop_bit_drop_bit) simp
qed simp

lemma crc_steps:
  "crc_bit 128 = 64"
  "crc_bit 64 = 32"
  "crc_bit 32 = 16"
  "crc_bit 16 = 8"
  "crc_bit 8 = 4"
  "crc_bit 4 = 2"
  "crc_bit 2 = 1"
  "crc_bit 1 = 0xEDB88320"
  "crc_bit 0xEDB88320 = 0x76DC4190"
  "crc_bit 0x76DC4190 = 0x3B6E20C8"
  "crc_bit 0x3B6E20C8 = 0x1DB71064"
  "crc_bit 0x1DB71064 = 0x0EDB8832"
  "crc_bit 0x0EDB8832 = 0x076DC419"
  "crc_bit 0x076DC419 = 0xEE0E612C"
  "crc_bit 0xEE0E612C = 0x77073096"
  by (simp_all add: crc_bit_def)

lemma crc_eight: "(crc_bit ^^ 8) c = crc_bit (crc_bit (crc_bit (crc_bit (crc_bit (crc_bit (crc_bit (crc_bit c)))))))"
  by (simp add: numeral_eq_Suc)

lemma crc_powers:
  "map (\<lambda>k. (crc_bit ^^ 8) (push_bit k 1)) [0..<8] =
     [0x77073096, 0xEE0E612C, 0x076DC419, 0x0eDB8832, 0x1DB71064, 0x3B6E20C8, 0x76DC4190, 0xEDB88320]"
  by (simp add: crc_steps crc_eight upt_rec push_bit_eq_mult)

text \<open>The table is built by doubling: the entries of the next power of two are those below, changed by its own.\<close>

fun crc_doubled :: "u32 list \<Rightarrow> u32 list \<Rightarrow> u32 list" where
  "crc_doubled [] t = t"
| "crc_doubled (p # ps) t = crc_doubled ps (t @ map (\<lambda>e. p XOR e) t)"

lemma crc_table_doubled: "crc_table = crc_doubled [0x77073096, 0xEE0E612C, 0x076DC419, 0x0eDB8832, 0x1DB71064, 0x3B6E20C8, 0x76DC4190, 0xEDB88320] [0]"
  by (simp add: crc_table_def)


lemma power_plus_xor:
  assumes "i < 2 ^ m"
  shows "(of_nat (2 ^ m + i) :: u32) = push_bit m 1 XOR of_nat i"
proof -
  have "take_bit m i = i" using assms by (simp add: take_bit_nat_eq_self)
  then have b: "bit i k \<Longrightarrow> k < m" for k by (metis bit_take_bit_iff)
  have "push_bit m 1 AND i = 0" by (rule bit_eqI) (auto simp: bit_and_iff bit_push_bit_iff bit_1_iff bit_exp_iff dest: b)
  then have "2 ^ m + i = push_bit m 1 OR i" using disjunctive_add_eq_or [of "push_bit m (1 :: nat)" i] by (simp add: push_bit_eq_mult)
  also have "\<dots> = push_bit m 1 XOR i"
    by (rule bit_eqI) (auto simp: bit_or_iff bit_xor_iff bit_push_bit_iff bit_1_iff bit_exp_iff dest: b)
  finally show ?thesis by (simp add: of_nat_xor_eq push_bit_of_nat [symmetric])
qed

lemma crc_doubled_entries:
  assumes "t = map (\<lambda>i. (crc_bit ^^ 8) (of_nat i)) [0..<2 ^ m]"
  shows "crc_doubled (map (\<lambda>k. (crc_bit ^^ 8) (push_bit k 1)) [m..<m + j]) t = map (\<lambda>i. (crc_bit ^^ 8) (of_nat i)) [0..<2 ^ (m + j)]"
  using assms
proof (induction j arbitrary: m t)
  case (Suc j)
  let ?F = "\<lambda>i. (crc_bit ^^ 8) (of_nat i :: u32)"
  have up: "[0..<2 ^ Suc m] = [0..<2 ^ m] @ map (\<lambda>i. 2 ^ m + i) [0..<2 ^ m]"
    using map_add_upt [of "2 ^ m" "2 ^ m"] upt_add_eq_append [of 0 "2 ^ m" "2 ^ m"] by (simp add: mult_2 add.commute)
  have "t @ map (\<lambda>e. (crc_bit ^^ 8) (push_bit m 1) XOR e) t = map ?F [0..<2 ^ Suc m]"
    unfolding up Suc(2) by (simp add: power_plus_xor crc_bits_xor del: of_nat_add)
  moreover have "[m..<m + Suc j] = m # [Suc m..<Suc m + j]" by (simp add: upt_conv_Cons)
  ultimately show ?case using Suc(1) [of _ "Suc m"] by simp
qed simp

lemma crc_table_entry: "i < 256 \<Longrightarrow> crc_table ! i = (crc_bit ^^ 8) (of_nat i)"
proof -
  assume i: "i < 256"
  have t: "crc_table = map (\<lambda>i. (crc_bit ^^ 8) (of_nat i)) [0..<2 ^ 8]"
    using crc_doubled_entries [of "[0]" 0 8] crc_powers unfolding crc_table_doubled by (simp add: crc_bits_shift)
  have "i < 2 ^ 8 - 0" using i by simp
  then show ?thesis unfolding t by (subst nth_map_upt) simp_all
qed

lemma crc_byte: "drop_bit 8 crc XOR crc_table ! unat (ucast (b :: byte) XOR (crc AND 0xff)) = (crc_bit ^^ 8) (crc XOR ucast b)"
proof -
  let ?x = "crc XOR ucast b"
  have m: "(0xff :: u32) = mask 8" by (simp add: mask_eq_exp_minus_1)
  have low: "ucast b XOR (crc AND 0xff) = ?x AND 0xff"
    unfolding m by (rule bit_word_eqI) (auto simp: bit_xor_iff bit_and_iff bit_mask_iff bit_ucast_iff dest: bit_imp_le_length)
  have "unat (?x AND 0xff) = take_bit 8 (unat ?x)" by (simp only: m take_bit_eq_mask [symmetric] unsigned_take_bit_eq)
  then have "unat (?x AND 0xff) < 256" using take_bit_nat_less_exp [of 8 "unat ?x"] by simp
  then have "crc_table ! unat (?x AND 0xff) = (crc_bit ^^ 8) (?x AND 0xff)" by (simp add: crc_table_entry)
  moreover have "(crc_bit ^^ 8) (?x AND NOT 0xff) = drop_bit 8 (?x AND NOT 0xff)"
    unfolding m by (intro crc_bits_shift) (simp add: bit_and_iff bit_not_iff bit_mask_iff)
  moreover have "drop_bit 8 (?x AND NOT 0xff) = drop_bit 8 crc"
    unfolding m by (rule bit_word_eqI) (auto simp: bit_drop_bit_eq bit_xor_iff bit_and_iff bit_not_iff bit_mask_iff bit_ucast_iff dest: bit_imp_le_length)
  moreover have "?x = (?x AND NOT 0xff) XOR (?x AND 0xff)"
    unfolding m by (rule bit_word_eqI) (auto simp: bit_xor_iff bit_and_iff bit_not_iff)
  ultimately show ?thesis unfolding low by (metis crc_bits_xor)
qed

text \<open>
  C40. The table of the PNG writer has no wrong entry: the checksum that \<open>stbiw__crc32\<close> computes by
  table is the CRC-32 of the PNG specification computed bit by bit, for every buffer.
\<close>

theorem crc32_agrees: "stbiw__crc32 buffer = crc_bitwise buffer"
  by (simp add: stbiw__crc32_def crc_bitwise_def crc_byte)

end
