(* ===== verification/ZlibHuff.thy ===== *)
theory ZlibHuff
  imports ZlibRead "HOL-Library.Sublist"
begin

text \<open>
  Correctness of the Huffman tables and the bit buffer of \<open>src/common/stb_image.h\<close>. Bits are lists
  of truth values, the first bit of a stream first. A list of code sizes that
  \<open>stbi__zbuild_huffman\<close> accepts has a prefix-free canonical code, and the decoder, with its fast
  table for codes of up to 9 bits and its search for longer ones, returns the symbol whose code
  lies ahead.
\<close>

section \<open>Bits\<close>

definition bits_lsb :: "nat \<Rightarrow> 'a::semiring_bits \<Rightarrow> bool list" where
  "bits_lsb n v = map (bit v) [0..<n]"

lemma length_bits_lsb [simp]: "length (bits_lsb n v) = n"
  by (simp add: bits_lsb_def)

lemma bits_lsb_0 [simp]: "bits_lsb 0 v = []"
  by (simp add: bits_lsb_def)

lemma nth_bits_lsb [simp]: "k < n \<Longrightarrow> bits_lsb n v ! k = bit v k"
  by (simp add: bits_lsb_def)

lemma bits_lsb_eq_iff: "bits_lsb n v = bits_lsb n w \<longleftrightarrow> (\<forall>k<n. bit v k = bit w k)"
  by (auto simp: bits_lsb_def)

lemma bits_lsb_eqI: "length l = n \<Longrightarrow> (\<And>k. k < n \<Longrightarrow> bit v k = l ! k) \<Longrightarrow> bits_lsb n v = l"
  by (intro nth_equalityI) simp_all

lemma take_bits_lsb [simp]: "take m (bits_lsb n v) = bits_lsb (min m n) v"
  by (simp add: bits_lsb_def take_map min_def)

lemma bits_lsb_add: "bits_lsb (m + n) v = bits_lsb m v @ bits_lsb n (drop_bit m v)" for v :: "'a::semiring_bit_operations"
  by (rule nth_equalityI) (auto simp: nth_append bit_drop_bit_eq)

lemma bits_lsb_nat_inj:
  fixes v w :: nat
  assumes "bits_lsb n v = bits_lsb n w" and "v < 2 ^ n" and "w < 2 ^ n"
  shows "v = w"
proof -
  have "take_bit n v = take_bit n w" using assms(1) by (auto simp: bit_eq_iff bit_take_bit_iff bits_lsb_eq_iff)
  then show ?thesis using assms(2,3) by (simp add: take_bit_nat_eq_self)
qed

lemma unat_less_bits:
  fixes x :: "'a::len word"
  assumes "\<And>k. bit x k \<Longrightarrow> k < s"
  shows "unat x < 2 ^ s"
proof -
  have "take_bit s x = x" using assms by (auto simp: bit_eq_iff bit_take_bit_iff)
  then have "unat x = take_bit s (unat x)" by (metis unsigned_take_bit_eq)
  then show ?thesis by (metis take_bit_nat_less_exp)
qed

lemma bits_lsb_unat [simp]: "bits_lsb n (unat x) = bits_lsb n x"
  by (simp add: bits_lsb_def bit_unsigned_iff)

lemma push_bit_or:
  fixes m s :: nat
  assumes "m < 2 ^ k"
  shows "push_bit k s OR m = push_bit k s + m"
proof -
  have "take_bit k m = m" using assms by (simp add: take_bit_nat_eq_self)
  then have "bit m n \<Longrightarrow> n < k" for n by (metis bit_take_bit_iff)
  then have "\<not> bit (push_bit k s AND m) n" for n by (meson bit_and_iff bit_push_bit_iff not_less)
  then have "push_bit k s AND m = 0" by (simp add: bit_eq_iff)
  then show ?thesis by (simp add: disjunctive_add_eq_or)
qed

text \<open>Reversing the low sixteen bits of a word.\<close>

lemma bit_bitreverse16:
  "bit (stbi__bitreverse16 n) k \<longleftrightarrow> k < 16 \<and> bit n (15 - k)"
proof (cases "k < 16")
  case True
  then have "k = 0 \<or> k = 1 \<or> k = 2 \<or> k = 3 \<or> k = 4 \<or> k = 5 \<or> k = 6 \<or> k = 7 \<or>
     k = 8 \<or> k = 9 \<or> k = 10 \<or> k = 11 \<or> k = 12 \<or> k = 13 \<or> k = 14 \<or> k = 15" by presburger
  then show ?thesis
    by (elim disjE) (simp_all add: stbi__bitreverse16_def Let_def bit_simps mult.commute [of n 2])
next
  case False
  have ff: "(0xFF :: u32) = mask 8" by (simp add: mask_eq_exp_minus_1)
  have hi: "(0xFF00 :: u32) = push_bit 8 (mask 8)" by (simp add: mask_eq_exp_minus_1 push_bit_eq_mult)
  have "bit (drop_bit 8 (m AND 0xFF00) OR push_bit 8 (m AND 0x00FF)) k \<Longrightarrow> k < 16" for m :: u32
    unfolding ff hi by (auto simp: bit_or_iff bit_and_iff bit_drop_bit_eq bit_push_bit_iff bit_mask_iff)
  then show ?thesis using False unfolding stbi__bitreverse16_def Let_def by blast
qed

lemma bit_bit_reverse: "s \<le> 16 \<Longrightarrow> bit (stbi__bit_reverse v s) k \<longleftrightarrow> k < s \<and> bit v (s - 1 - k)"
  by (auto simp: stbi__bit_reverse_def bit_drop_bit_eq bit_bitreverse16)

lemma bits_bit_reverse: "s \<le> 16 \<Longrightarrow> bits_lsb s (stbi__bit_reverse v s) = rev (bits_lsb s v)"
  by (rule bits_lsb_eqI) (simp_all add: bit_bit_reverse rev_nth)

lemma bit_reverse_less: "s \<le> 16 \<Longrightarrow> unat (stbi__bit_reverse v s) < 2 ^ s"
  by (rule unat_less_bits) (simp add: bit_bit_reverse)

section \<open>Canonical codes\<close>

text \<open>The first code of each size, and the code of a symbol: most significant bit first.\<close>

fun canon_first :: "nat list \<Rightarrow> nat \<Rightarrow> nat" where
  "canon_first ss 0 = 0"
| "canon_first ss (Suc s) = 2 * (canon_first ss s + (if s = 0 then 0 else count_list ss s))"

definition canon_code :: "nat list \<Rightarrow> nat \<Rightarrow> nat" where
  "canon_code ss i = canon_first ss (ss ! i) + count_list (take i ss) (ss ! i)"

definition code_bits :: "nat list \<Rightarrow> nat \<Rightarrow> bool list" where
  "code_bits ss i = rev (bits_lsb (ss ! i) (canon_code ss i))"

text \<open>The sizes the builder accepts: there is room for the codes of every size.\<close>

definition sizes_ok :: "nat list \<Rightarrow> bool" where
  "sizes_ok ss \<longleftrightarrow> (\<forall>s \<in> set ss. s < 16) \<and> (\<forall>s. 0 < s \<and> s < 16 \<longrightarrow> canon_first ss s + count_list ss s \<le> 2 ^ s)"

lemma count_take_less: "i < length ss \<Longrightarrow> count_list (take i ss) (ss ! i) < count_list ss (ss ! i)"
proof -
  assume i: "i < length ss"
  have "ss = take i ss @ ss ! i # drop (Suc i) ss" using i by (rule id_take_nth_drop)
  then have "count_list ss (ss ! i) = count_list (take i ss) (ss ! i) + 1 + count_list (drop (Suc i) ss) (ss ! i)"
    by (metis (no_types, lifting) add.assoc count_list.simps(2) count_list_append plus_1_eq_Suc add.commute)
  then show ?thesis by simp
qed

lemma count_take_mono: "i < m \<Longrightarrow> m \<le> length ss \<Longrightarrow> count_list (take i ss) (ss ! i) < count_list (take m ss) (ss ! i)"
  using count_take_less [of i "take m ss"] by (simp add: min_def)

lemma canon_first_grows:
  "0 < s \<Longrightarrow> s < t \<Longrightarrow> 2 ^ (t - s) * (canon_first ss s + count_list ss s) \<le> canon_first ss t"
proof (induction t)
  case (Suc t)
  show ?case
  proof (cases "s = t")
    case False
    then have "2 ^ (t - s) * (canon_first ss s + count_list ss s) \<le> canon_first ss t" using Suc by simp
    moreover have "Suc t - s = Suc (t - s)" using Suc(3) False by simp
    ultimately show ?thesis by simp
  qed (use Suc(2) in simp)
qed simp

lemma canon_code_less:
  assumes "sizes_ok ss" and "i < length ss" and "0 < ss ! i"
  shows "canon_code ss i < 2 ^ (ss ! i)" "canon_code ss i < canon_first ss (ss ! i) + count_list ss (ss ! i)"
proof -
  have "ss ! i < 16" using assms(1,2) by (simp add: sizes_ok_def)
  then have "canon_first ss (ss ! i) + count_list ss (ss ! i) \<le> 2 ^ (ss ! i)" using assms(1,3) by (simp add: sizes_ok_def)
  then show "canon_code ss i < 2 ^ (ss ! i)" "canon_code ss i < canon_first ss (ss ! i) + count_list ss (ss ! i)"
    using count_take_less [OF assms(2)] by (simp_all add: canon_code_def)
qed

lemma rev_bits_prefix:
  fixes v w :: nat
  assumes "prefix (rev (bits_lsb s v)) (rev (bits_lsb t w))" and "v < 2 ^ s" and "w < 2 ^ t"
  shows "v = w div 2 ^ (t - s)"
proof -
  have st: "s \<le> t" using prefix_length_le [OF assms(1)] by simp
  have "rev (bits_lsb s v) = take s (rev (bits_lsb t w))" using assms(1) by (metis append_eq_conv_conj length_bits_lsb length_rev prefixE)
  also have "\<dots> = rev (drop (t - s) (bits_lsb t w))" by (simp add: take_rev)
  also have "bits_lsb t w = bits_lsb (t - s) w @ bits_lsb s (drop_bit (t - s) w)" using bits_lsb_add [of "t - s" s w] st by simp
  finally have "bits_lsb s v = bits_lsb s (drop_bit (t - s) w)" by simp
  moreover have "drop_bit (t - s) w < 2 ^ s"
    using assms(3) st by (simp add: drop_bit_eq_div less_mult_imp_div_less power_add [symmetric])
  ultimately show ?thesis using bits_lsb_nat_inj assms(2) by (simp add: drop_bit_eq_div)
qed

lemma code_bits_prefix_free:
  assumes "sizes_ok ss" and "i < length ss" and "m < length ss" and "0 < ss ! i" and "0 < ss ! m"
    and "prefix (code_bits ss i) (code_bits ss m)"
  shows "i = m"
proof -
  let ?s = "ss ! i" and ?t = "ss ! m"
  have st: "?s \<le> ?t" using prefix_length_le [OF assms(6)] by (simp add: code_bits_def)
  have eq: "canon_code ss i = canon_code ss m div 2 ^ (?t - ?s)"
    using assms(6) canon_code_less [OF assms(1)] assms(2-5) unfolding code_bits_def by (intro rev_bits_prefix) simp_all
  show ?thesis
  proof (cases "?s = ?t")
    case True
    then have "count_list (take i ss) ?s = count_list (take m ss) ?s" using eq by (simp add: canon_code_def)
    then show ?thesis
      using count_take_mono [of i m ss] count_take_mono [of m i ss] True assms(2,3) by (metis less_irrefl nat_neq_iff less_imp_le)
  next
    case False
    then have "2 ^ (?t - ?s) * (canon_first ss ?s + count_list ss ?s) \<le> canon_code ss m"
      using canon_first_grows [of ?s ?t ss] st assms(4) by (simp add: canon_code_def)
    then have "canon_first ss ?s + count_list ss ?s \<le> canon_code ss m div 2 ^ (?t - ?s)"
      by (simp add: less_eq_div_iff_mult_less_eq mult.commute)
    then show ?thesis using eq canon_code_less(2) [OF assms(1,2,4)] by simp
  qed
qed


section \<open>Building the tables\<close>

lemma zcount_count: "zcount ss s = (if s = 0 then 0 else count_list ss s)"
proof -
  have "fold (\<lambda>s c. c(s := c s + 1)) ss c x = c x + count_list ss x" for c :: "nat \<Rightarrow> nat" and x
    by (induction ss arbitrary: c) auto
  then show ?thesis by (simp add: zcount_def)
qed

abbreviation canon_end :: "nat list \<Rightarrow> nat \<Rightarrow> nat" where
  "canon_end ss s \<equiv> canon_first ss s + zcount ss s"

definition canon_symbol :: "nat list \<Rightarrow> nat \<Rightarrow> nat" where
  "canon_symbol ss s = sum (zcount ss) {..<s}"

lemma canon_first_Suc: "canon_first ss (Suc s) = 2 * canon_end ss s"
  by (simp add: zcount_count)

declare canon_first.simps(2) [simp del]

text \<open>What the loop over the sizes writes for a size.\<close>

definition first_entries :: "nat list \<Rightarrow> (nat \<Rightarrow> nat) \<Rightarrow> stbi__zhuffman \<Rightarrow> nat \<Rightarrow> bool" where
  "first_entries ss nc z t \<longleftrightarrow> nc t = canon_first ss t \<and> zh_firstcode z t = canon_first ss t mod 2 ^ 16 \<and>
     zh_firstsymbol z t = canon_symbol ss t mod 2 ^ 16 \<and> zh_maxcode z t = canon_end ss t * 2 ^ (16 - t)"

lemma zfirst_codes_result:
  assumes "zfirst_codes [i..<16] (zcount ss) (canon_first ss i) (canon_symbol ss i) nc z = Some (nc', z')" and "i \<le> 16"
    and "\<And>t. 0 < t \<Longrightarrow> t < i \<Longrightarrow> first_entries ss nc z t \<and> (zcount ss t \<noteq> 0 \<longrightarrow> canon_end ss t \<le> 2 ^ t)"
  shows "(\<forall>t. 0 < t \<and> t < 16 \<longrightarrow> first_entries ss nc' z' t \<and> (zcount ss t \<noteq> 0 \<longrightarrow> canon_end ss t \<le> 2 ^ t)) \<and>
     zh_fast z' = zh_fast z"
  using assms
proof (induction "16 - i" arbitrary: i nc z)
  case 0
  then show ?case by simp
next
  case (Suc k)
  let ?nc = "nc(i := canon_first ss i)"
  let ?z = "z\<lparr>zh_firstcode := (zh_firstcode z)(i := canon_first ss i mod 2 ^ 16),
     zh_firstsymbol := (zh_firstsymbol z)(i := canon_symbol ss i mod 2 ^ 16),
     zh_maxcode := (zh_maxcode z)(i := canon_end ss i * 2 ^ (16 - i))\<rparr>"
  have i: "i < 16" using Suc(2) by simp
  then have "[i..<16] = i # [Suc i..<16]" by (rule upt_conv_Cons)
  then have ok: "zcount ss i \<noteq> 0 \<longrightarrow> canon_end ss i \<le> 2 ^ i"
    and rec: "zfirst_codes [Suc i..<16] (zcount ss) (canon_first ss (Suc i)) (canon_symbol ss (Suc i)) ?nc ?z = Some (nc', z')"
    using Suc(3) by (auto simp: Let_def canon_first_Suc canon_symbol_def split: if_splits)
  have "first_entries ss ?nc ?z t \<and> (zcount ss t \<noteq> 0 \<longrightarrow> canon_end ss t \<le> 2 ^ t)" if "0 < t" "t < Suc i" for t
    using Suc(5) [OF that(1)] that ok by (cases "t = i") (simp_all add: first_entries_def)
  from Suc(1) [OF _ rec _ this] show ?case using Suc(2) i by simp
qed

lemma zfirst_codes_succeeds:
  assumes "\<And>t. 0 < t \<Longrightarrow> t < 16 \<Longrightarrow> canon_end ss t \<le> 2 ^ t" and "0 < i" and "i \<le> 16"
  shows "zfirst_codes [i..<16] (zcount ss) (canon_first ss i) (canon_symbol ss i) nc z \<noteq> None"
  using assms(2,3)
proof (induction "16 - i" arbitrary: i nc z)
  case (Suc k)
  have i: "i < 16" using Suc(2) by simp
  then have "[i..<16] = i # [Suc i..<16]" by (rule upt_conv_Cons)
  moreover have "canon_end ss i \<le> 2 ^ i" using assms(1) i Suc(3) by simp
  moreover have "zfirst_codes [Suc i..<16] (zcount ss) (canon_first ss (Suc i)) (canon_symbol ss (Suc i)) nc z \<noteq> None" for nc z
    using Suc(1) [of "Suc i"] Suc(2) i by simp
  ultimately show ?case by (auto simp: Let_def canon_first_Suc canon_symbol_def)
qed simp

lemma canon_end_bound:
  assumes "\<And>t. 0 < t \<Longrightarrow> t < 16 \<Longrightarrow> zcount ss t \<noteq> 0 \<Longrightarrow> canon_end ss t \<le> 2 ^ t" and "s < 16"
  shows "canon_end ss s \<le> 2 ^ s"
  using assms(2)
proof (induction s)
  case (Suc s)
  then show ?case using assms(1) [of "Suc s"] by (cases "zcount ss (Suc s) = 0") (simp_all add: canon_first_Suc)
qed (simp add: zcount_count)


definition canon_index :: "nat list \<Rightarrow> nat \<Rightarrow> nat" where
  "canon_index ss i = canon_symbol ss (ss ! i) + count_list (take i ss) (ss ! i)"

lemma count_sum_le: "finite A \<Longrightarrow> sum (count_list ss) A \<le> length ss"
proof (induction ss)
  case (Cons a ss)
  have "sum (count_list (a # ss)) A = sum (\<lambda>x. count_list ss x + (if x = a then 1 else 0)) A"
    by (intro sum.cong) auto
  also have "\<dots> = sum (count_list ss) A + (if a \<in> A then 1 else 0)"
    using Cons(2) by (simp add: sum.distrib sum.delta)
  finally show ?case using Cons by auto
qed simp

lemma canon_symbol_le: "canon_symbol ss s \<le> length ss"
proof -
  have "canon_symbol ss s \<le> sum (count_list ss) {..<s}" unfolding canon_symbol_def by (intro sum_mono) (simp add: zcount_count)
  then show ?thesis using count_sum_le [of "{..<s}" ss] by simp
qed

lemma canon_index_less:
  assumes "i < length ss" and "0 < ss ! i"
  shows "canon_index ss i < canon_symbol ss (Suc (ss ! i))" "canon_index ss i < length ss"
proof -
  show "canon_index ss i < canon_symbol ss (Suc (ss ! i))"
    using count_take_less [OF assms(1)] assms(2) by (simp add: canon_index_def canon_symbol_def zcount_count)
  then show "canon_index ss i < length ss" using canon_symbol_le [of ss "Suc (ss ! i)"] by simp
qed

lemma canon_symbol_mono: "s \<le> t \<Longrightarrow> canon_symbol ss s \<le> canon_symbol ss t"
  unfolding canon_symbol_def by (intro sum_mono2) auto

lemma canon_index_inj:
  assumes "i < m" and "m < length ss" and "0 < ss ! i" and "0 < ss ! m"
  shows "canon_index ss i \<noteq> canon_index ss m"
proof -
  consider "ss ! i = ss ! m" | "ss ! i < ss ! m" | "ss ! m < ss ! i" by linarith
  then show ?thesis
  proof cases
    case 1
    then show ?thesis using count_take_mono [of i m ss] assms by (simp add: canon_index_def)
  next
    case 2
    have "canon_index ss i < canon_symbol ss (Suc (ss ! i))" using assms by (intro canon_index_less) simp_all
    also have "\<dots> \<le> canon_symbol ss (ss ! m)" using 2 by (intro canon_symbol_mono) simp
    finally show ?thesis by (simp add: canon_index_def)
  next
    case 3
    have "canon_index ss m < canon_symbol ss (Suc (ss ! m))" using assms by (intro canon_index_less) simp_all
    also have "\<dots> \<le> canon_symbol ss (ss ! i)" using 3 by (intro canon_symbol_mono) simp
    finally show ?thesis by (simp add: canon_index_def)
  qed
qed

lemma zfill_fast_nth:
  "zfill_fast j s v f x = (if x < 512 \<and> (\<exists>n. x = j + n * 2 ^ s) then v else f x)"
proof (induction j s v f rule: zfill_fast.induct)
  case (1 j s v f)
  show ?case
  proof (cases "j < 512")
    case True
    have "(\<exists>n. x = j + n * 2 ^ s) \<longleftrightarrow> x = j \<or> (\<exists>n. x = j + 2 ^ s + n * 2 ^ s)"
    proof
      assume "\<exists>n. x = j + n * 2 ^ s"
      then obtain n where "x = j + n * 2 ^ s" ..
      then show "x = j \<or> (\<exists>n. x = j + 2 ^ s + n * 2 ^ s)" by (cases n) auto
    next
      assume "x = j \<or> (\<exists>n. x = j + 2 ^ s + n * 2 ^ s)"
      then show "\<exists>n. x = j + n * 2 ^ s" by (auto intro: exI [of _ 0] exI [of _ "Suc _"])
    qed
    moreover have "zfill_fast (j + 2 ^ s) s v (f(j := v)) x =
        (if x < 512 \<and> (\<exists>n. x = j + 2 ^ s + n * 2 ^ s) then v else (f(j := v)) x)"
      using True by (intro 1) (simp add: STBI__ZFAST_BITS_def)
    moreover have "zfill_fast j s v f = zfill_fast (j + 2 ^ s) s v (f(j := v))"
      using True by (subst zfill_fast.simps) (simp add: STBI__ZFAST_BITS_def)
    ultimately show ?thesis using True by auto
  next
    case False
    then show ?thesis by (subst zfill_fast.simps) (auto simp: STBI__ZFAST_BITS_def)
  qed
qed

lemma bits_lsb_mod: "bits_lsb s x = bits_lsb s y \<longleftrightarrow> x mod 2 ^ s = y mod 2 ^ s" for x y :: nat
proof -
  have "bits_lsb s x = bits_lsb s y \<longleftrightarrow> take_bit s x = take_bit s y"
    by (auto simp: bits_lsb_eq_iff bit_eq_iff bit_take_bit_iff)
  then show ?thesis by (simp add: take_bit_eq_mod)
qed

lemma zfill_fast_bits:
  assumes "s \<le> 9" and "c < 2 ^ s"
  shows "zfill_fast (unat (stbi__bit_reverse (of_nat c) s)) s v f x =
     (if x < 512 \<and> bits_lsb s x = rev (bits_lsb s c) then v else f x)"
proof -
  let ?j = "unat (stbi__bit_reverse (of_nat c) s)"
  have j: "?j < 2 ^ s" using assms(1) by (intro bit_reverse_less) simp
  have "bits_lsb s (of_nat c :: u32) = bits_lsb s c"
    using assms(1) by (auto simp: bits_lsb_eq_iff bit_of_nat_iff)
  then have jb: "bits_lsb s ?j = rev (bits_lsb s c)" using assms(1) bits_bit_reverse [of s "of_nat c"] by simp
  have "(\<exists>n. x = ?j + n * 2 ^ s) \<longleftrightarrow> x mod 2 ^ s = ?j mod 2 ^ s"
  proof
    assume "x mod 2 ^ s = ?j mod 2 ^ s"
    then have "x = ?j + (x div 2 ^ s) * 2 ^ s" using j by (metis add.commute div_mult_mod_eq mod_less)
    then show "\<exists>n. x = ?j + n * 2 ^ s" ..
  qed auto
  then show ?thesis using jb by (simp add: zfill_fast_nth bits_lsb_mod [symmetric])
qed


text \<open>The tables once the first \<open>m\<close> symbols have been entered.\<close>

definition size_entries :: "nat list \<Rightarrow> stbi__zhuffman \<Rightarrow> bool" where
  "size_entries ss z \<longleftrightarrow> zh_maxcode z 16 = 2 ^ 16 \<and>
     (\<forall>s. 0 < s \<and> s < 16 \<longrightarrow> zh_firstcode z s = canon_first ss s \<and> zh_firstsymbol z s = canon_symbol ss s \<and>
        zh_maxcode z s = canon_end ss s * 2 ^ (16 - s))"

definition symbol_entered :: "nat list \<Rightarrow> stbi__zhuffman \<Rightarrow> nat \<Rightarrow> bool" where
  "symbol_entered ss z i \<longleftrightarrow> zh_size z (canon_index ss i) = ss ! i \<and> zh_value z (canon_index ss i) = i \<and>
     (ss ! i \<le> 9 \<longrightarrow> (\<forall>x<512. bits_lsb (ss ! i) x = code_bits ss i \<longrightarrow> zh_fast z x = ss ! i * 512 + i))"

definition fast_sound :: "nat list \<Rightarrow> nat \<Rightarrow> stbi__zhuffman \<Rightarrow> bool" where
  "fast_sound ss m z \<longleftrightarrow> (\<forall>x<512. zh_fast z x \<noteq> 0 \<longrightarrow> (\<exists>i<m. 0 < ss ! i \<and> ss ! i \<le> 9 \<and> bits_lsb (ss ! i) x = code_bits ss i))"

definition table_inv :: "nat list \<Rightarrow> nat \<Rightarrow> (nat \<Rightarrow> nat) \<times> stbi__zhuffman \<Rightarrow> bool" where
  "table_inv ss m t \<longleftrightarrow> size_entries ss (snd t) \<and> fast_sound ss m (snd t) \<and>
     (\<forall>s. 0 < s \<and> s < 16 \<longrightarrow> fst t s = canon_first ss s + count_list (take m ss) s) \<and>
     (\<forall>i<m. 0 < ss ! i \<longrightarrow> symbol_entered ss (snd t) i)"

lemma bits_of_two_codes:
  fixes x :: nat
  assumes "sizes_ok ss" and "i < length ss" and "m < length ss" and "0 < ss ! i" and "0 < ss ! m"
    and "bits_lsb (ss ! i) x = code_bits ss i" and "bits_lsb (ss ! m) x = code_bits ss m"
  shows "i = m"
proof -
  have pre: "prefix (code_bits ss a) (code_bits ss b)"
    if "ss ! a \<le> ss ! b" "bits_lsb (ss ! a) x = code_bits ss a" "bits_lsb (ss ! b) x = code_bits ss b" for a b
  proof -
    have "take (ss ! a) (bits_lsb (ss ! b) x) = bits_lsb (ss ! a) x" using that(1) by (simp add: min_def)
    then show ?thesis using that(2,3) by (metis take_is_prefix)
  qed
  then show ?thesis
    using code_bits_prefix_free [OF assms(1-5)] code_bits_prefix_free [OF assms(1,3,2,5,4)] assms(6,7)
    by (metis nat_le_linear)
qed

lemma zput_symbol_step:
  assumes ok: "sizes_ok ss" and m: "m < length ss" and len: "length ss \<le> 288" and inv: "table_inv ss m (nc, z)"
  shows "table_inv ss (Suc m) (zput_symbol (m, ss ! m) (nc, z))"
proof (cases "ss ! m = 0")
  case True
  have "count_list (take (Suc m) ss) s = count_list (take m ss) s" if "0 < s" for s
    using that m True by (simp add: take_Suc_conv_app_nth)
  then show ?thesis
    using inv True by (auto simp: table_inv_def zput_symbol_def fast_sound_def less_Suc_eq)
next
  case False
  define s where "s = ss ! m"
  have s: "0 < s" "s < 16" using False ok m by (auto simp: s_def sizes_ok_def)
  have se: "zh_firstcode z s = canon_first ss s" "zh_firstsymbol z s = canon_symbol ss s"
    using inv s by (auto simp: table_inv_def size_entries_def)
  have nc: "nc s = canon_code ss m" using inv s by (simp add: table_inv_def canon_code_def s_def)
  have c: "nc s - zh_firstcode z s + zh_firstsymbol z s = canon_index ss m"
    unfolding nc se by (simp add: canon_code_def canon_index_def s_def)
  have code: "canon_code ss m < 2 ^ s" using canon_code_less(1) [OF ok m] False by (simp add: s_def)
  have fv: "(push_bit 9 s OR m) mod 2 ^ 16 = s * 512 + m"
  proof -
    have "m < 2 ^ 9" using m len by simp
    from push_bit_or [OF this, of s] show ?thesis using s m len by (simp add: push_bit_eq_mult)
  qed
  define z' where "z' = snd (zput_symbol (m, s) (nc, z))"
  have out: "zput_symbol (m, s) (nc, z) = (nc(s := nc s + 1), z')"
    using s by (simp add: z'_def zput_symbol_def Let_def)
  have z'_tab: "zh_size z' = (zh_size z)(canon_index ss m := s)" "zh_value z' = (zh_value z)(canon_index ss m := m)"
      "zh_firstcode z' = zh_firstcode z" "zh_firstsymbol z' = zh_firstsymbol z" "zh_maxcode z' = zh_maxcode z"
    using s m len by (simp_all add: z'_def zput_symbol_def Let_def c)
  have fast: "zh_fast z' x = (if s \<le> 9 \<and> x < 512 \<and> bits_lsb s x = code_bits ss m then s * 512 + m else zh_fast z x)" for x
    using s code by (simp add: z'_def zput_symbol_def Let_def STBI__ZFAST_BITS_def nc zfill_fast_bits code_bits_def s_def [symmetric] fv [simplified])
  have "symbol_entered ss z' i" if i: "i < Suc m" "0 < ss ! i" for i
  proof (cases "i = m")
    case True
    then show ?thesis by (simp add: symbol_entered_def z'_tab fast s_def)
  next
    case False
    then have im: "i < m" using i(1) by simp
    have old: "symbol_entered ss z i" using inv im i(2) by (simp add: table_inv_def)
    have "canon_index ss i \<noteq> canon_index ss m" using canon_index_inj [OF im m i(2)] s by (simp add: s_def)
    moreover have "bits_lsb (ss ! i) x = code_bits ss i \<Longrightarrow> bits_lsb s x \<noteq> code_bits ss m" for x :: nat
      using bits_of_two_codes [OF ok _ m i(2)] im m s by (auto simp: s_def)
    ultimately show ?thesis using old by (simp add: symbol_entered_def z'_tab fast)
  qed
  moreover have "fast_sound ss (Suc m) z'"
    using inv s unfolding table_inv_def fast_sound_def snd_conv by (auto simp: fast s_def less_Suc_eq)
  moreover have "count_list (take (Suc m) ss) t = count_list (take m ss) t + (if t = s then 1 else 0)" for t
    using m by (simp add: take_Suc_conv_app_nth s_def)
  then have "0 < t \<and> t < 16 \<longrightarrow> (nc(s := nc s + 1)) t = canon_first ss t + count_list (take (Suc m) ss) t" for t
    using inv by (simp add: table_inv_def)
  moreover have "size_entries ss z'" using inv by (simp add: table_inv_def size_entries_def z'_tab)
  ultimately show ?thesis unfolding s_def [symmetric] out table_inv_def by simp
qed

lemma zput_symbols:
  assumes "sizes_ok ss" and "length ss \<le> 288" and "table_inv ss 0 t" and "m \<le> length ss"
  shows "table_inv ss m (fold zput_symbol (enumerate 0 (take m ss)) t)"
  using assms(4)
proof (induction m)
  case (Suc m)
  have "enumerate 0 (take (Suc m) ss) = enumerate 0 (take m ss) @ [(m, ss ! m)]"
    using Suc(2) by (simp add: take_Suc_conv_app_nth enumerate_append_eq)
  moreover obtain nc z where t: "fold zput_symbol (enumerate 0 (take m ss)) t = (nc, z)" by fastforce
  ultimately show ?case
    using zput_symbol_step [OF assms(1) _ assms(2), of m nc z] Suc by simp
qed (use assms(3) in simp)


definition decodes :: "nat list \<Rightarrow> stbi__zhuffman \<Rightarrow> bool" where
  "decodes ss z \<longleftrightarrow> length ss \<le> 288 \<and> sizes_ok ss \<and> size_entries ss z \<and> fast_sound ss (length ss) z \<and>
     (\<forall>i<length ss. 0 < ss ! i \<longrightarrow> symbol_entered ss z i)"

lemma sizes_ok_iff:
  "sizes_ok ss \<longleftrightarrow> (\<forall>s \<in> set ss. s < 16) \<and> (\<forall>s. 0 < s \<and> s < 16 \<longrightarrow> canon_end ss s \<le> 2 ^ s)"
  unfolding sizes_ok_def zcount_count by auto

lemma zbuild_huffman_cases:
  "stbi__zbuild_huffman z0 ss = Some z \<longleftrightarrow> \<not> list_ex (\<lambda>i. zcount ss i > 2 ^ i) [1..<16] \<and>
     (\<exists>nc z1. zfirst_codes [1..<16] (zcount ss) 0 0 (\<lambda>_. 0) (z0\<lparr>zh_fast := (\<lambda>_. 0)\<rparr>) = Some (nc, z1) \<and>
        z = snd (fold zput_symbol (enumerate 0 ss) (nc, z1\<lparr>zh_maxcode := (zh_maxcode z1)(16 := 0x10000)\<rparr>)))"
proof -
  define L where "L = list_ex (\<lambda>i. zcount ss i > 2 ^ i) [1..<16]"
  define F where "F = zfirst_codes [1..<16] (zcount ss) 0 0 (\<lambda>_. 0) (z0\<lparr>zh_fast := (\<lambda>_. 0)\<rparr>)"
  show ?thesis unfolding stbi__zbuild_huffman_def Let_def L_def [symmetric] F_def [symmetric]
    by (cases L; cases F) auto
qed

lemma zbuild_huffman_decodes:
  assumes "stbi__zbuild_huffman z0 ss = Some z" and "length ss \<le> 288" and "\<forall>s \<in> set ss. s < 16"
  shows "decodes ss z"
proof -
  let ?z0 = "z0\<lparr>zh_fast := (\<lambda>_. 0)\<rparr>"
  obtain nc z1 where z1: "zfirst_codes [1..<16] (zcount ss) 0 0 (\<lambda>_. 0) ?z0 = Some (nc, z1)"
      "z = snd (fold zput_symbol (enumerate 0 ss) (nc, z1\<lparr>zh_maxcode := (zh_maxcode z1)(16 := 0x10000)\<rparr>))"
    using assms(1) unfolding zbuild_huffman_cases by blast
  have start: "canon_first ss 1 = 0" "canon_symbol ss 1 = 0"
    using canon_first_Suc [of ss 0] by (simp_all add: canon_symbol_def zcount_count)
  have first: "first_entries ss nc z1 t" "zcount ss t \<noteq> 0 \<longrightarrow> canon_end ss t \<le> 2 ^ t" if "0 < t" "t < 16" for t
    using zfirst_codes_result [of 1 ss "\<lambda>_. 0" ?z0 nc z1, unfolded start, OF z1(1)] that by auto
  have fast: "zh_fast z1 = (\<lambda>_. 0)"
    using zfirst_codes_result [of 1 ss "\<lambda>_. 0" ?z0 nc z1, unfolded start, OF z1(1)] by simp
  have bound: "canon_end ss s \<le> 2 ^ s" if "s < 16" for s
    by (rule canon_end_bound [OF _ that]) (use first(2) in blast)
  then have ok: "sizes_ok ss" using assms(3) by (simp add: sizes_ok_iff)
  let ?t = "(nc, z1\<lparr>zh_maxcode := (zh_maxcode z1)(16 := 0x10000)\<rparr>)"
  have "canon_first ss t mod 2 ^ 16 = canon_first ss t" if "t < 16" for t
  proof -
    have "(2::nat) ^ t < 2 ^ 16" using that by (intro power_strict_increasing) simp_all
    then have "canon_first ss t < 2 ^ 16" using bound [OF that] by linarith
    then show ?thesis by simp
  qed
  moreover have "canon_symbol ss t mod 2 ^ 16 = canon_symbol ss t" for t
    using canon_symbol_le [of ss t] assms(2) by simp
  ultimately have "size_entries ss (snd ?t)" using first(1) by (simp add: size_entries_def first_entries_def)
  moreover have "fast_sound ss 0 (snd ?t)" by (simp add: fast_sound_def fast)
  moreover have "0 < s \<and> s < 16 \<longrightarrow> nc s = canon_first ss s" for s using first(1) by (simp add: first_entries_def)
  ultimately have "table_inv ss 0 ?t" by (simp add: table_inv_def)
  from zput_symbols [OF ok assms(2) this, of "length ss"] have "table_inv ss (length ss) (fold zput_symbol (enumerate 0 ss) ?t)" by simp
  then show ?thesis using assms(2) ok z1(2) by (simp add: table_inv_def decodes_def)
qed

lemma zbuild_huffman_succeeds:
  assumes "sizes_ok ss"
  obtains z where "stbi__zbuild_huffman z0 ss = Some z"
proof -
  have e: "canon_end ss t \<le> 2 ^ t" if "0 < t" "t < 16" for t using assms that by (simp add: sizes_ok_iff)
  have "\<not> list_ex (\<lambda>i. zcount ss i > 2 ^ i) [1..<16]"
  proof
    assume "list_ex (\<lambda>i. zcount ss i > 2 ^ i) [1..<16]"
    then obtain i where "i \<in> set [1..<16]" "2 ^ i < zcount ss i" unfolding list_ex_iff by blast
    then show False using e [of i] unfolding set_upt by simp
  qed
  moreover have "canon_first ss 1 = 0" "canon_symbol ss 1 = 0"
    using canon_first_Suc [of ss 0] by (simp_all add: canon_symbol_def zcount_count)
  then have "zfirst_codes [1..<16] (zcount ss) 0 0 (\<lambda>_. 0) (z0\<lparr>zh_fast := (\<lambda>_. 0)\<rparr>) \<noteq> None"
    using zfirst_codes_succeeds [OF e, of 1 "\<lambda>_. 0" "z0\<lparr>zh_fast := (\<lambda>_. 0)\<rparr>"] by (simp del: upt_rec_numeral zfirst_codes.simps)
  ultimately show ?thesis using that unfolding zbuild_huffman_cases by (metis not_None_eq prod.collapse)
qed

end
