(* ===== verification/ZlibBits.thy ===== *)
theory ZlibBits
  imports ZlibHuff
begin

text \<open>
  The bit buffer of the decoder in \<open>src/common/stb_image.h\<close> as a stream of bits: \<open>rbits\<close> is what is
  still to come, the bits in the buffer before those of the input. Refilling changes nothing but
  zero bits behind the end; receiving takes bits from the front; decoding a symbol takes the
  symbol's code from the front.
\<close>

definition rbits :: "stbi__zbuf \<Rightarrow> bool list" where
  "rbits a = bits_lsb (num_bits a) (code_buffer a) @ concat (map (bits_lsb 8) (zb_in a))"

definition zbuf_ok :: "stbi__zbuf \<Rightarrow> bool" where
  "zbuf_ok a \<longleftrightarrow> num_bits a \<le> 32 \<and> (\<forall>k. bit (code_buffer a) k \<longrightarrow> k < num_bits a)"

definition zframe :: "stbi__zbuf \<Rightarrow> stbi__zbuf \<Rightarrow> bool" where
  "zframe a b \<longleftrightarrow> hit_zeof_once b = hit_zeof_once a \<and> zb_out b = zb_out a \<and> zb_limit b = zb_limit a \<and>
     z_expandable b = z_expandable a \<and> z_length b = z_length a \<and> z_distance b = z_distance a"

lemma zframe_refl [simp]: "zframe a a"
  by (simp add: zframe_def)

lemma zframe_trans: "zframe a b \<Longrightarrow> zframe b c \<Longrightarrow> zframe a c"
  by (simp add: zframe_def)

section \<open>Refilling\<close>

lemma fill_guard: "zbuf_ok a \<Longrightarrow> num_bits a \<le> 24 \<Longrightarrow> \<not> push_bit (num_bits a) 1 \<le> code_buffer a"
proof -
  assume "zbuf_ok a" and n: "num_bits a \<le> 24"
  then have "unat (code_buffer a) < 2 ^ num_bits a" by (intro unat_less_bits) (simp add: zbuf_ok_def)
  moreover have "unat (push_bit (num_bits a) 1 :: u32) = 2 ^ num_bits a"
    using n power_strict_increasing [of "num_bits a" 32 "2::nat"]
    by (simp only: unsigned_push_bit_eq) (simp add: push_bit_eq_mult take_bit_nat_eq_self)
  ultimately show ?thesis by (simp add: word_le_nat_alt)
qed

lemma fill_byte:
  assumes "zbuf_ok a" and "num_bits a \<le> 24"
  shows "bits_lsb (num_bits a + 8) (code_buffer a OR push_bit (num_bits a) (ucast (b :: byte))) = bits_lsb (num_bits a) (code_buffer a) @ bits_lsb 8 b"
    and "bit (code_buffer a OR push_bit (num_bits a) (ucast b)) k \<Longrightarrow> k < num_bits a + 8"
proof -
  have cb: "bit (code_buffer a) k \<Longrightarrow> k < num_bits a" for k using assms(1) by (simp add: zbuf_ok_def)
  have bit: "bit (code_buffer a OR push_bit (num_bits a) (ucast b)) k \<longleftrightarrow>
      (if k < num_bits a then bit (code_buffer a) k else k < 32 \<and> bit b (k - num_bits a))" for k
    using cb [of k] by (auto simp: bit_or_iff bit_push_bit_iff bit_ucast_iff bit_imp_le_length)
  have b: "bit b k \<Longrightarrow> k < 8" for k using bit_imp_le_length [of b k] by simp
  show "bits_lsb (num_bits a + 8) (code_buffer a OR push_bit (num_bits a) (ucast b)) = bits_lsb (num_bits a) (code_buffer a) @ bits_lsb 8 b"
    using assms(2) by (intro bits_lsb_eqI) (auto simp: bit nth_append)
  show "bit (code_buffer a OR push_bit (num_bits a) (ucast b)) k \<Longrightarrow> k < num_bits a + 8"
    using b [of "k - num_bits a"] by (auto simp: bit split: if_splits)
qed

lemma fill_bits_stream:
  assumes "zbuf_ok a" and "num_bits a \<le> 24"
  shows "zbuf_ok (stbi__fill_bits a) \<and> 25 \<le> num_bits (stbi__fill_bits a) \<and>
     (\<exists>k. rbits (stbi__fill_bits a) = rbits a @ replicate k False) \<and> zframe a (stbi__fill_bits a)"
  using assms
proof (induction a rule: stbi__fill_bits.induct)
  case (1 a)
  obtain b a1 where g: "stbi__zget8 a = (b, a1)" by fastforce
  define a2 where "a2 = a1\<lparr>code_buffer := code_buffer a OR push_bit (num_bits a) (ucast b), num_bits := num_bits a + 8\<rparr>"
  have f: "stbi__fill_bits a = (if num_bits a + 8 \<le> 24 then stbi__fill_bits a2 else a2)"
    using fill_guard [OF 1(2,3)] g by (subst stbi__fill_bits.simps) (simp add: a2_def Let_def)
  have ok: "zbuf_ok a2" using fill_byte(2) [OF 1(2,3)] 1(3) by (simp add: zbuf_ok_def a2_def)
  have fr: "zframe a a2" using g by (auto simp: a2_def zframe_def stbi__zget8_def split: list.splits)
  have "bits_lsb 8 (0 :: byte) = replicate 8 False" by (rule bits_lsb_eqI) simp_all
  then have s: "\<exists>k. rbits a2 = rbits a @ replicate k False"
    using g fill_byte(1) [OF 1(2,3), of b] by (auto simp: rbits_def a2_def stbi__zget8_def intro: exI [of _ 0] split: list.splits)
  show ?case
  proof (cases "num_bits a + 8 \<le> 24")
    case True
    have "num_bits a2 \<le> 24" using True by (simp add: a2_def)
    then have ih: "zbuf_ok (stbi__fill_bits a2) \<and> 25 \<le> num_bits (stbi__fill_bits a2) \<and>
        (\<exists>k. rbits (stbi__fill_bits a2) = rbits a2 @ replicate k False) \<and> zframe a2 (stbi__fill_bits a2)"
      using 1(1) [OF fill_guard [OF 1(2,3)] g [symmetric] refl a2_def True] ok by simp
    then show ?thesis using s fr True unfolding f by (auto simp: replicate_add [symmetric] intro: zframe_trans)
  next
    case False
    then show ?thesis using ok s fr 1(3) unfolding f by (simp add: a2_def)
  qed
qed

section \<open>Taking bits\<close>

definition zdrop :: "nat \<Rightarrow> stbi__zbuf \<Rightarrow> stbi__zbuf" where
  "zdrop n a = a\<lparr>code_buffer := drop_bit n (code_buffer a), num_bits := num_bits a - n\<rparr>"

lemma zdrop_stream:
  assumes "zbuf_ok a" and "n \<le> num_bits a"
  shows "zbuf_ok (zdrop n a)" "rbits (zdrop n a) = drop n (rbits a)" "zframe a (zdrop n a)"
proof -
  show "zbuf_ok (zdrop n a)" using assms by (auto simp: zbuf_ok_def zdrop_def bit_drop_bit_eq)
  have "bits_lsb (num_bits a) (code_buffer a) = bits_lsb n (code_buffer a) @ bits_lsb (num_bits a - n) (drop_bit n (code_buffer a))"
    using bits_lsb_add [of n "num_bits a - n" "code_buffer a"] assms(2) by simp
  then show "rbits (zdrop n a) = drop n (rbits a)" by (simp add: rbits_def zdrop_def)
  show "zframe a (zdrop n a)" by (simp add: zframe_def zdrop_def)
qed

lemma buffered_bits:
  assumes "prefix s (rbits a)" and "n \<le> length s" and "n \<le> num_bits a"
  shows "bits_lsb n (code_buffer a) = take n s"
proof -
  obtain r where "rbits a = s @ r" using assms(1) by (auto elim: prefixE)
  then have "take n (rbits a) = take n s" using assms(2) by simp
  moreover have "take n (rbits a) = bits_lsb n (code_buffer a)" using assms(3) by (simp add: rbits_def min_def)
  ultimately show ?thesis by simp
qed

lemma prefix_pad: "prefix s l \<Longrightarrow> prefix s (l @ r)"
  by (auto elim: prefixE intro: prefixI)

lemma prefix_drop: "prefix (p @ s) l \<Longrightarrow> prefix s (drop (length p) l)"
  by (auto elim: prefixE intro: prefixI)

lemma zreceive_bits:
  assumes "zbuf_ok a" and "prefix (bits_lsb n v @ s) (rbits a)" and "v < 2 ^ n" and "n \<le> 24"
  shows "\<exists>a'. stbi__zreceive n a = (v, a') \<and> zbuf_ok a' \<and> prefix s (rbits a') \<and> zframe a a'"
proof -
  define a1 where "a1 = (if num_bits a < n then stbi__fill_bits a else a)"
  have a1: "zbuf_ok a1" "n \<le> num_bits a1" "prefix (bits_lsb n v @ s) (rbits a1)" "zframe a a1"
    using fill_bits_stream [of a] assms by (auto simp: a1_def intro: prefix_pad)
  have "bits_lsb n (code_buffer a1) = bits_lsb n v" using buffered_bits [OF a1(3) _ a1(2)] by simp
  moreover have "(push_bit n 1 - 1 :: u32) = mask n" by (simp add: mask_eq_exp_minus_1 push_bit_eq_mult)
  ultimately have "bits_lsb n (unat (code_buffer a1 AND (push_bit n 1 - 1))) = bits_lsb n v"
    using assms(4) by (simp add: bits_lsb_eq_iff bit_and_iff bit_mask_iff)
  moreover have "unat (code_buffer a1 AND (push_bit n 1 - 1)) < 2 ^ n"
    unfolding \<open>push_bit n 1 - 1 = mask n\<close> by (rule unat_less_bits) (simp add: bit_and_iff bit_mask_iff)
  ultimately have "unat (code_buffer a1 AND (push_bit n 1 - 1)) = v" using bits_lsb_nat_inj assms(3) by blast
  then have "stbi__zreceive n a = (v, zdrop n a1)" by (simp add: stbi__zreceive_def Let_def a1_def [symmetric] zdrop_def)
  then show ?thesis
    using zdrop_stream [OF a1(1,2)] prefix_drop [OF a1(3)] a1(4) by (auto intro: zframe_trans)
qed

section \<open>Decoding\<close>

lemma and_mask_nat: "n AND 511 = n mod 512" for n :: nat
proof -
  have "(511 :: nat) = mask 9" by (simp add: mask_eq_exp_minus_1)
  then show ?thesis by (simp only: take_bit_eq_mask [symmetric]) (simp add: take_bit_eq_mod)
qed

lemma low_bits:
  fixes w :: u32
  shows "s \<le> 9 \<Longrightarrow> bits_lsb s (unat (w AND 511)) = bits_lsb s w" "unat (w AND 511) < 512"
proof -
  have m: "(511 :: u32) = mask 9" by (simp add: mask_eq_exp_minus_1)
  show "s \<le> 9 \<Longrightarrow> bits_lsb s (unat (w AND 511)) = bits_lsb s w"
    unfolding m bits_lsb_unat by (auto simp: bits_lsb_eq_iff bit_and_iff bit_mask_iff)
  show "unat (w AND 511) < 512"
    using unat_less_bits [of "w AND 511" 9] unfolding m by (simp add: bit_and_iff bit_mask_iff)
qed

lemma decode_fast:
  assumes "decodes ss z" and "i < length ss" and "0 < ss ! i" and "ss ! i \<le> 9" and "16 \<le> num_bits a"
    and "prefix (code_bits ss i @ s) (rbits a)"
  shows "zh_fast z (unat (code_buffer a AND 511)) = ss ! i * 512 + i"
proof -
  have len: "length (code_bits ss i) = ss ! i" by (simp add: code_bits_def)
  have "bits_lsb (ss ! i) (code_buffer a) = code_bits ss i"
    using buffered_bits [OF assms(6), of "ss ! i"] assms(4,5) len by simp
  then have "bits_lsb (ss ! i) (unat (code_buffer a AND 511)) = code_bits ss i" using low_bits(1) [OF assms(4)] by simp
  moreover have "unat (code_buffer a AND 511) < 512" by (rule low_bits)
  ultimately show ?thesis using assms(1-4) by (auto simp: decodes_def symbol_entered_def)
qed

lemma decode_not_fast:
  assumes "decodes ss z" and "i < length ss" and "9 < ss ! i" and "16 \<le> num_bits a"
    and "prefix (code_bits ss i @ s) (rbits a)"
  shows "zh_fast z (unat (code_buffer a AND 511)) = 0"
proof (rule ccontr)
  let ?x = "unat (code_buffer a AND 511)"
  assume nz: "zh_fast z ?x \<noteq> 0"
  have x: "?x < 512" by (rule low_bits)
  from nz x obtain j where j: "j < length ss" "0 < ss ! j" "ss ! j \<le> 9" "bits_lsb (ss ! j) ?x = code_bits ss j"
    using assms(1) by (auto simp: decodes_def fast_sound_def)
  have "bits_lsb (ss ! j) ?x = bits_lsb (ss ! j) (code_buffer a)"
    by (rule low_bits(1) [OF j(3)])
  also have "\<dots> = take (ss ! j) (code_bits ss i)"
    using buffered_bits [OF assms(5), of "ss ! j"] assms(3,4) j(3) by (simp add: code_bits_def)
  finally have "prefix (code_bits ss j) (code_bits ss i)" using j(4) by (metis take_is_prefix)
  then have "j = i" using code_bits_prefix_free j(1,2) assms(1-3) unfolding decodes_def by (metis less_trans zero_less_numeral)
  then show False using j(3) assms(3) by simp
qed

lemma slow_code:
  assumes "decodes ss z" and "i < length ss" and "9 < ss ! i" and "16 \<le> num_bits a"
    and "prefix (code_bits ss i @ s) (rbits a)"
  shows "unat (stbi__bit_reverse (code_buffer a) 16) div 2 ^ (16 - ss ! i) = canon_code ss i"
proof -
  let ?s = "ss ! i" and ?k = "unat (stbi__bit_reverse (code_buffer a) 16)"
  have s: "?s < 16" "sizes_ok ss" using assms(1,2) by (auto simp: decodes_def sizes_ok_def)
  have buf: "bits_lsb ?s (code_buffer a) = rev (bits_lsb ?s (canon_code ss i))"
    using buffered_bits [OF assms(5), of ?s] s assms(4) by (simp add: code_bits_def)
  have "bit (canon_code ss i) t = bit ?k (16 - ?s + t)" if "t < ?s" for t
  proof -
    have "bits_lsb ?s (code_buffer a) ! (?s - 1 - t) = rev (bits_lsb ?s (canon_code ss i)) ! (?s - 1 - t)" using buf by simp
    then have "bit (code_buffer a) (?s - 1 - t) = bit (canon_code ss i) t" using that by (simp add: rev_nth)
    moreover have "15 - (16 - ?s + t) = ?s - 1 - t" "16 - ?s + t < 16" using s(1) that by simp_all
    ultimately show ?thesis unfolding bit_unsigned_iff by (simp add: bit_bit_reverse del: Nat.add_diff_assoc2)
  qed
  then have "bits_lsb ?s (canon_code ss i) = bits_lsb ?s (drop_bit (16 - ?s) ?k)" by (simp add: bits_lsb_eq_iff bit_drop_bit_eq)
  moreover have "drop_bit (16 - ?s) ?k < 2 ^ ?s"
    using bit_reverse_less [of 16 "code_buffer a"] s(1) by (simp add: drop_bit_eq_div less_mult_imp_div_less power_add [symmetric])
  moreover have "canon_code ss i < 2 ^ ?s" using canon_code_less(1) [OF s(2) assms(2)] assms(3) by simp
  ultimately show ?thesis using bits_lsb_nat_inj by (metis drop_bit_eq_div)
qed

lemma slow_size:
  assumes "decodes ss z" and "i < length ss" and "9 < ss ! i" and "k div 2 ^ (16 - ss ! i) = canon_code ss i"
  shows "find (\<lambda>s. k < zh_maxcode z s) [STBI__ZFAST_BITS + 1..<17] = Some (ss ! i)"
proof -
  let ?s = "ss ! i"
  have s: "?s < 16" "sizes_ok ss" using assms(1,2) by (auto simp: decodes_def sizes_ok_def)
  have maxcode: "zh_maxcode z t = canon_end ss t * 2 ^ (16 - t)" if "0 < t" "t < 16" for t
    using assms(1) that by (simp add: decodes_def size_entries_def)
  have "canon_code ss i < canon_end ss ?s" using canon_code_less(2) [OF s(2) assms(2)] assms(3) by (simp add: zcount_count)
  then have found: "k < zh_maxcode z ?s"
    using maxcode [of ?s] s(1) assms(3,4) by (simp add: div_less_iff_less_mult [symmetric])
  have "\<not> k < zh_maxcode z t" if "9 < t" "t < ?s" for t
  proof -
    have "2 ^ (?s - t) * canon_end ss t \<le> canon_code ss i"
      using canon_first_grows [of t ?s ss] that by (simp add: canon_code_def zcount_count)
    then have "2 ^ (?s - t) * canon_end ss t * 2 ^ (16 - ?s) \<le> canon_code ss i * 2 ^ (16 - ?s)" by simp
    also have "\<dots> \<le> k" using assms(4) by (metis div_times_less_eq_dividend)
    also have "2 ^ (?s - t) * canon_end ss t * 2 ^ (16 - ?s) = canon_end ss t * (2 ^ (?s - t) * 2 ^ (16 - ?s))" by simp
    also have "(2::nat) ^ (?s - t) * 2 ^ (16 - ?s) = 2 ^ (16 - t)" using that s(1) by (simp add: power_add [symmetric])
    finally show ?thesis using maxcode [of t] that s(1) by simp
  qed
  moreover have "[STBI__ZFAST_BITS + 1..<17] ! (?s - 10) = ?s" "?s - 10 < 7"
    using assms(3) s(1) by (simp_all add: STBI__ZFAST_BITS_def del: upt_rec_numeral)
  ultimately show ?thesis
    unfolding find_Some_iff using found assms(3)
    by (intro exI [of _ "?s - 10"]) (auto simp: STBI__ZFAST_BITS_def simp del: upt_rec_numeral)
qed

lemma decode_slow:
  assumes "decodes ss z" and "i < length ss" and "9 < ss ! i" and "16 \<le> num_bits a"
    and "prefix (code_bits ss i @ s) (rbits a)"
  shows "stbi__zhuffman_decode_slowpath z a = (int i, zdrop (ss ! i) a)"
proof -
  let ?s = "ss ! i" and ?k = "unat (stbi__bit_reverse (code_buffer a) 16)"
  have s: "?s < 16" "sizes_ok ss" "length ss \<le> 288" using assms(1,2) by (auto simp: decodes_def sizes_ok_def)
  have code: "?k div 2 ^ (16 - ?s) = canon_code ss i" by (rule slow_code [OF assms])
  have b: "int (drop_bit (16 - ?s) ?k) - int (zh_firstcode z ?s) + int (zh_firstsymbol z ?s) = int (canon_index ss i)"
    using assms(1,3) s(1) code by (simp add: decodes_def size_entries_def drop_bit_eq_div canon_code_def canon_index_def)
  have "canon_index ss i < 288" using canon_index_less(2) [OF assms(2)] assms(3) s(3) by simp
  moreover have "zh_size z (canon_index ss i) = ?s" "zh_value z (canon_index ss i) = i"
    using assms(1-3) by (auto simp: decodes_def symbol_entered_def)
  ultimately show ?thesis
    unfolding stbi__zhuffman_decode_slowpath_def Let_def slow_size [OF assms(1-3) code]
    using s(1) by (simp add: b STBI__ZNSYMS_def zdrop_def)
qed

text \<open>Decoding a symbol takes its code from the front of the stream, whichever path is taken.\<close>

lemma decode_symbol:
  assumes "decodes ss z" and "i < length ss" and "0 < ss ! i" and "zbuf_ok a" and "prefix (code_bits ss i @ s) (rbits a)"
    and "16 \<le> length (rbits a)"
  shows "\<exists>a'. stbi__zhuffman_decode z a = (int i, a') \<and> zbuf_ok a' \<and> prefix s (rbits a') \<and> zframe a a'"
proof -
  define a1 where "a1 = (if num_bits a < 16 then stbi__fill_bits a else a)"
  have a1: "zbuf_ok a1" "16 \<le> num_bits a1" "prefix (code_bits ss i @ s) (rbits a1)" "zframe a a1"
    using fill_bits_stream [of a] assms(4,5) by (auto simp: a1_def intro: prefix_pad)
  have "\<not> (num_bits a < 16 \<and> stbi__zeof a)" using assms(6) by (auto simp: stbi__zeof_def rbits_def)
  then have dec: "stbi__zhuffman_decode z a =
     (let b = zh_fast z (unat (code_buffer a1 AND 511)) in
      if b \<noteq> 0 then (int (b AND 511), zdrop (drop_bit 9 b) a1) else stbi__zhuffman_decode_slowpath z a1)"
    by (auto simp: stbi__zhuffman_decode_def a1_def zdrop_def Let_def)
  have s: "ss ! i < 16" "length ss \<le> 288" using assms(1,2) by (auto simp: decodes_def sizes_ok_def)
  have "stbi__zhuffman_decode z a = (int i, zdrop (ss ! i) a1)"
  proof (cases "ss ! i \<le> 9")
    case True
    have "drop_bit 9 (ss ! i * 512 + i) = ss ! i" "(ss ! i * 512 + i) AND 511 = i"
      using s(2) assms(2) and_mask_nat [of "ss ! i * 512 + i"] by (simp_all add: drop_bit_eq_div)
    then show ?thesis using decode_fast [OF assms(1-3) True a1(2,3)] assms(3) unfolding dec by (simp add: Let_def)
  next
    case False
    then show ?thesis using decode_not_fast [OF assms(1,2) _ a1(2,3)] decode_slow [OF assms(1,2) _ a1(2,3)] unfolding dec by simp
  qed
  moreover have "length (code_bits ss i) = ss ! i" by (simp add: code_bits_def)
  ultimately show ?thesis
    using zdrop_stream [OF a1(1), of "ss ! i"] a1(2,4) s(1) prefix_drop [OF a1(3)] by (auto intro: zframe_trans)
qed

section \<open>On any data\<close>

text \<open>
  Whatever the data, no more bits are taken than the buffer holds: a built table has codes of at
  most 9 bits in its fast part and of at most 15 in its slow part, and the decoder looks up with 16
  bits or more. So \<open>num_bits\<close> never becomes negative.
\<close>

definition fast_short :: "stbi__zhuffman \<Rightarrow> bool" where
  "fast_short z \<longleftrightarrow> (\<forall>x. drop_bit 9 (zh_fast z x) \<le> 9)"

lemma first_codes_fast: "zfirst_codes is sizes code k nc z = Some (nc', z') \<Longrightarrow> zh_fast z' = zh_fast z"
  by (induction "is" sizes code k nc z rule: zfirst_codes.induct) (auto simp: Let_def split: if_splits)

lemma fast_entry: "i < 512 \<Longrightarrow> s \<le> 9 \<Longrightarrow> drop_bit 9 ((push_bit 9 s OR i) mod 2 ^ 16) = s" for i s :: nat
  using push_bit_or [of i 9 s] by (simp add: push_bit_eq_mult drop_bit_eq_div)

lemma put_symbols_short:
  assumes "\<forall>(i, s) \<in> set is. i < 512" and "fast_short z"
  shows "fast_short (snd (fold zput_symbol is (nc, z)))"
  using assms
proof (induction "is" arbitrary: nc z)
  case (Cons p "is")
  obtain i s where p: "p = (i, s)" by fastforce
  have "fast_short (snd (zput_symbol (i, s) (nc, z)))"
    using Cons(2,3) p by (auto simp: zput_symbol_def fast_short_def Let_def zfill_fast_nth fast_entry [simplified] STBI__ZFAST_BITS_def)
  moreover obtain nc' z' where "zput_symbol (i, s) (nc, z) = (nc', z')" by fastforce
  ultimately show ?case using Cons p by simp
qed simp

lemma built_fast_short:
  assumes "stbi__zbuild_huffman z ss = Some z'" and "length ss \<le> 512"
  shows "fast_short z'"
proof -
  obtain nc z1 where z1: "zfirst_codes [1..<16] (zcount ss) 0 0 (\<lambda>_. 0) (z\<lparr>zh_fast := (\<lambda>_. 0)\<rparr>) = Some (nc, z1)"
      "z' = snd (fold zput_symbol (enumerate 0 ss) (nc, z1\<lparr>zh_maxcode := (zh_maxcode z1)(16 := 0x10000)\<rparr>))"
    using assms(1) by (auto simp: stbi__zbuild_huffman_def Let_def split: if_splits option.splits)
  have "fast_short (z1\<lparr>zh_maxcode := (zh_maxcode z1)(16 := 0x10000)\<rparr>)" using first_codes_fast [OF z1(1)] by (simp add: fast_short_def)
  then show ?thesis unfolding z1(2) using assms(2) by (intro put_symbols_short) (auto simp: in_set_enumerate_eq)
qed

lemma receive_takes:
  assumes "zbuf_ok a" and "n \<le> 24" and "stbi__zreceive n a = (k, b)"
  shows "\<exists>c. zbuf_ok c \<and> n \<le> num_bits c \<and> b = zdrop n c"
proof -
  define c where "c = (if num_bits a < n then stbi__fill_bits a else a)"
  have "zbuf_ok c \<and> n \<le> num_bits c" using fill_bits_stream [of a] assms(1,2) by (auto simp: c_def)
  moreover have "b = zdrop n c" using assms(3) by (simp add: stbi__zreceive_def c_def zdrop_def Let_def)
  ultimately show ?thesis by blast
qed

lemma decode_takes:
  assumes "zbuf_ok a" and "fast_short z" and "stbi__zhuffman_decode z a = (k, b)"
  shows "\<exists>c s. zbuf_ok c \<and> s \<le> num_bits c \<and> b = zdrop s c"
proof (cases "num_bits a < 16 \<and> stbi__zeof a \<and> hit_zeof_once a")
  case True
  then show ?thesis using assms(1,3) by (intro exI [of _ a] exI [of _ 0]) (simp add: stbi__zhuffman_decode_def zdrop_def)
next
  case False
  define c where "c = (if num_bits a < 16 then
      (if stbi__zeof a then a\<lparr>hit_zeof_once := True, num_bits := num_bits a + 16\<rparr> else stbi__fill_bits a) else a)"
  have c: "zbuf_ok c" "16 \<le> num_bits c" using fill_bits_stream [of a] assms(1) by (auto simp: c_def zbuf_ok_def)
  have short: "drop_bit 9 (zh_fast z x) \<le> num_bits c" for x using assms(2) c(2) by (auto simp: fast_short_def intro: order_trans [of _ 9])
  have slow: "\<exists>s. s \<le> num_bits c \<and> b = zdrop s c" if "stbi__zhuffman_decode_slowpath z c = (k, b)"
  proof -
    define s where "s = (case find (\<lambda>s. unat (stbi__bit_reverse (code_buffer c) 16) < zh_maxcode z s) [STBI__ZFAST_BITS + 1..<17] of
        None \<Rightarrow> 16 | Some s \<Rightarrow> s)"
    have "b = zdrop 0 c \<or> s < 16 \<and> b = zdrop s c"
      using that unfolding stbi__zhuffman_decode_slowpath_def Let_def s_def [symmetric] by (auto simp: zdrop_def split: if_splits)
    then show ?thesis using c(2) by (elim disjE conjE) (fastforce intro: exI [of _ s])+
  qed
  show ?thesis
    using assms(3) False short slow c(1) unfolding stbi__zhuffman_decode_def c_def [symmetric] Let_def
    by (auto simp: zdrop_def split: if_splits)
qed

end
