(* ===== verification/ZlibTrip.thy ===== *)
theory ZlibTrip
  imports ZlibBits ZlibWrite
begin

text \<open>
  What the compressor of \<open>src/common/stb_image_write.h\<close> writes, the decoder of
  \<open>src/common/stb_image.h\<close> reads back. Between the two stand tokens, literals and matches: the
  compressor writes the bits of tokens whose expansion is the data, the decoder expands the
  tokens whose bits it finds.
\<close>

section \<open>The bits written\<close>

definition wbits :: "zwriter \<Rightarrow> bool list" where
  "wbits w = concat (map (bits_lsb 8) (sb_items (zw_out w))) @ bits_lsb (zw_bitcount w) (zw_bitbuf w)"

definition sb_wf :: "sbuf \<Rightarrow> bool" where
  "sb_wf a \<longleftrightarrow> length (sb_items a) < sb_m a"

definition wclean :: "zwriter \<Rightarrow> bool" where
  "wclean w \<longleftrightarrow> sb_wf (zw_out w) \<and> (\<forall>k. bit (zw_bitbuf w) k \<longrightarrow> k < zw_bitcount w)"

definition winv :: "zwriter \<Rightarrow> bool" where
  "winv w \<longleftrightarrow> wclean w \<and> zw_bitcount w < 8"

lemma sb_items_push [simp]: "sb_items (stbiw__sbpush v a) = sb_items a @ [v]"
  by (simp add: stbiw__sbpush_def stbiw__sbgrowf_def Let_def)

lemma sb_wf_push: "sb_wf a \<Longrightarrow> sb_wf (stbiw__sbpush v a)" "sb_m a \<le> sb_m (stbiw__sbpush v a)"
  by (auto simp: sb_wf_def stbiw__sbpush_def stbiw__sbgrowf_def Let_def)

lemma flush_bits:
  assumes "wclean w" and "zw_bitcount w \<le> 32"
  shows "wbits (stbiw__zlib_flushf w) = wbits w \<and> winv (stbiw__zlib_flushf w)"
  using assms
proof (induction w rule: stbiw__zlib_flushf.induct)
  case (1 w)
  show ?case
  proof (cases "zw_bitcount w \<ge> 8")
    case True
    let ?w = "w\<lparr>zw_out := stbiw__sbpush (ucast (zw_bitbuf w)) (zw_out w), zw_bitbuf := drop_bit 8 (zw_bitbuf w), zw_bitcount := zw_bitcount w - 8\<rparr>"
    have "bits_lsb 8 (ucast (zw_bitbuf w) :: byte) = bits_lsb 8 (zw_bitbuf w)"
      by (rule bits_lsb_eqI) (simp_all add: bit_ucast_iff)
    then have "wbits ?w = wbits w"
      using bits_lsb_add [of 8 "zw_bitcount w - 8" "zw_bitbuf w"] True by (simp add: wbits_def)
    moreover have "wclean ?w" using 1(2) by (auto simp: wclean_def bit_drop_bit_eq sb_wf_push)
    moreover have "stbiw__zlib_flushf w = stbiw__zlib_flushf ?w" using True by (subst stbiw__zlib_flushf.simps) simp
    ultimately show ?thesis using 1(1) [OF True] 1(3) by simp
  next
    case False
    then have "stbiw__zlib_flushf w = w" by (subst stbiw__zlib_flushf.simps) simp
    then show ?thesis using False 1(2) by (simp add: winv_def)
  qed
qed

lemma add_bits:
  assumes "winv w" and "code < 2 ^ n" and "n \<le> 24"
  shows "wbits (stbiw__zlib_add code n w) = wbits w @ bits_lsb n code" "winv (stbiw__zlib_add code n w)"
proof -
  let ?w = "w\<lparr>zw_bitbuf := zw_bitbuf w OR push_bit (zw_bitcount w) (of_nat code), zw_bitcount := zw_bitcount w + n\<rparr>"
  have "take_bit n code = code" using assms(2) by (simp add: take_bit_nat_eq_self)
  then have c: "bit code k \<Longrightarrow> k < n" for k by (metis bit_take_bit_iff)
  have b: "bit (zw_bitbuf w) k \<Longrightarrow> k < zw_bitcount w" for k using assms(1) by (simp add: winv_def wclean_def)
  have bit: "bit (zw_bitbuf w OR push_bit (zw_bitcount w) (word_of_nat code)) k \<longleftrightarrow> (if k < zw_bitcount w then bit (zw_bitbuf w) k else k < 32 \<and> bit code (k - zw_bitcount w))" for k
    using b [of k] by (auto simp: bit_or_iff bit_push_bit_iff bit_of_nat_iff)
  have "wclean ?w" unfolding wclean_def using c b bit assms(1) [unfolded winv_def wclean_def] by (auto split: if_splits) (metis add.commute less_diff_conv2 not_less)
  moreover have "wbits ?w = wbits w @ bits_lsb n code"
  proof -
    have "bits_lsb (zw_bitcount w + n) (zw_bitbuf ?w) = bits_lsb (zw_bitcount w) (zw_bitbuf w) @ bits_lsb n code"
      using assms(1,3) by (intro bits_lsb_eqI) (auto simp: bit nth_append winv_def)
    then show ?thesis by (simp add: wbits_def)
  qed
  moreover have "zw_bitcount ?w \<le> 32" using assms(1,3) by (simp add: winv_def)
  ultimately show "wbits (stbiw__zlib_add code n w) = wbits w @ bits_lsb n code" "winv (stbiw__zlib_add code n w)"
    using flush_bits [of ?w] by (simp_all add: stbiw__zlib_add_def)
qed

lemma bit_bitrev_loop: "bit (bitrev_loop res code n) t \<longleftrightarrow> (if t < n then bit code (n - 1 - t) else bit res (t - n))"
proof (induction n arbitrary: res code)
  case (Suc n)
  have "bit (push_bit 1 res OR (code AND 1)) k \<longleftrightarrow> (if k = 0 then bit code 0 else bit res (k - 1))" for k
    by (cases "k = 0") (simp_all add: bit_or_iff bit_and_iff bit_1_iff bit_0 bit_double_iff even_or_iff mult.commute [of res 2])
  then show ?case using Suc by (auto simp: bit_drop_bit_eq less_Suc_eq Suc_diff_Suc not_less_eq)
qed simp

lemma bitrev_bits: "bits_lsb n (stbiw__zlib_bitrev code n) = rev (bits_lsb n code)" "stbiw__zlib_bitrev code n < 2 ^ n"
proof -
  show "bits_lsb n (stbiw__zlib_bitrev code n) = rev (bits_lsb n code)"
    by (rule bits_lsb_eqI) (simp_all add: stbiw__zlib_bitrev_def bit_bitrev_loop rev_nth)
  have "take_bit n (stbiw__zlib_bitrev code n) = stbiw__zlib_bitrev code n"
    by (auto simp: bit_eq_iff bit_take_bit_iff stbiw__zlib_bitrev_def bit_bitrev_loop)
  then show "stbiw__zlib_bitrev code n < 2 ^ n" by (metis take_bit_nat_less_exp)
qed

lemma huffa_bits:
  assumes "winv w" and "n \<le> 24"
  shows "wbits (stbiw__zlib_huffa b n w) = wbits w @ rev (bits_lsb n b)" "winv (stbiw__zlib_huffa b n w)"
  using add_bits [OF assms(1) bitrev_bits(2) assms(2)] bitrev_bits(1) by (simp_all add: stbiw__zlib_huffa_def)

lemma pad_bits:
  assumes "winv w"
  shows "\<exists>k. wbits (zlib_pad w) = wbits w @ replicate k False \<and> zw_bitcount (zlib_pad w) = 0 \<and> winv (zlib_pad w)"
  using assms
proof (induction w rule: zlib_pad.induct)
  case (1 w)
  show ?case
  proof (cases "zw_bitcount w = 0")
    case False
    have "bits_lsb 1 (0 :: nat) = [False]" by (rule bits_lsb_eqI) simp_all
    then have "wbits (stbiw__zlib_add 0 1 w) = wbits w @ [False]" "winv (stbiw__zlib_add 0 1 w)"
      using add_bits [OF 1(2), of 0 1] by simp_all
    moreover have "zlib_pad w = zlib_pad (stbiw__zlib_add 0 1 w)" using False by (subst zlib_pad.simps) simp
    ultimately show ?thesis using 1(1) [OF False] by (metis append_Cons append_Nil append_assoc replicate_Suc)
  next
    case True
    then have "zlib_pad w = w" by (subst zlib_pad.simps) simp
    then show ?thesis using True 1(2) by (auto intro: exI [of _ 0])
  qed
qed


section \<open>The fixed codes\<close>

lemma count_list_replicate: "count_list (replicate n x) y = (if x = y then n else 0)"
  by (induction n) auto

abbreviation fixed_lengths :: "nat list" where "fixed_lengths \<equiv> stbi__zdefault_length"
abbreviation fixed_distances :: "nat list" where "fixed_distances \<equiv> stbi__zdefault_distance"

lemma length_fixed [simp]: "length fixed_lengths = 288" "length fixed_distances = 32"
  by (simp_all add: stbi__zdefault_length_def stbi__zdefault_distance_def)

lemma count_fixed_lengths:
  "count_list (take i fixed_lengths) s =
     (if s = 8 then min i 144 + min (i - 280) 8 else if s = 9 then min (i - 144) 112 else if s = 7 then min (i - 256) 24 else 0)"
  by (auto simp: stbi__zdefault_length_def count_list_append count_list_replicate)

lemma count_all_fixed_lengths: "count_list fixed_lengths s = (if s = 8 then 152 else if s = 9 then 112 else if s = 7 then 24 else 0)"
  using count_fixed_lengths [of 288 s] by simp

lemma fixed_lengths_nth:
  "i < 288 \<Longrightarrow> fixed_lengths ! i = (if i \<le> 143 then 8 else if i \<le> 255 then 9 else if i \<le> 279 then 7 else 8)"
  by (auto simp: stbi__zdefault_length_def nth_append)

lemma canon_first_step: "canon_first ss (Suc s) = 2 * (canon_first ss s + (if s = 0 then 0 else count_list ss s))"
  by (simp add: canon_first_Suc zcount_count)

lemma canon_first_zero: "(\<And>t. t < s \<Longrightarrow> 0 < t \<Longrightarrow> count_list ss t = 0) \<Longrightarrow> canon_first ss s = 0"
  by (induction s) (simp_all add: canon_first_step)

lemma canon_first_double:
  assumes "\<And>t. s \<le> t \<Longrightarrow> count_list ss t = 0" and "0 < s" and "canon_first ss s = 2 ^ s" and "s \<le> t"
  shows "canon_first ss t = 2 ^ t"
  using assms(4)
proof (induction t rule: dec_induct)
  case (step t)
  then show ?case using assms(1,2) by (simp add: canon_first_step)
qed (use assms(3) in simp)

lemma canon_fixed_lengths:
  "s \<le> 7 \<Longrightarrow> canon_first fixed_lengths s = 0" "canon_first fixed_lengths 8 = 48" "canon_first fixed_lengths 9 = 400"
  "10 \<le> s \<Longrightarrow> canon_first fixed_lengths s = 2 ^ s"
proof -
  show c7: "canon_first fixed_lengths s = 0" if "s \<le> 7" for s
    using that by (intro canon_first_zero) (simp add: count_all_fixed_lengths)
  show c8: "canon_first fixed_lengths 8 = 48" using canon_first_step [of fixed_lengths 7] c7 [of 7] by (simp add: count_all_fixed_lengths)
  show c9: "canon_first fixed_lengths 9 = 400" using canon_first_step [of fixed_lengths 8] c8 by (simp add: count_all_fixed_lengths)
  have c10: "canon_first fixed_lengths 10 = 2 ^ 10" using canon_first_step [of fixed_lengths 9] c9 by (simp add: count_all_fixed_lengths)
  show "canon_first fixed_lengths s = 2 ^ s" if "10 \<le> s"
    by (rule canon_first_double [OF _ _ c10 that]) (simp_all add: count_all_fixed_lengths)
qed

lemma sizes_ok_lengths: "sizes_ok fixed_lengths"
  unfolding sizes_ok_def
proof (intro conjI ballI allI impI)
  fix s assume "0 < s \<and> s < (16::nat)"
  consider "s \<le> 6" | "s = 7" | "s = 8" | "s = 9" | "10 \<le> s" by linarith
  then show "canon_first fixed_lengths s + count_list fixed_lengths s \<le> 2 ^ s"
    by cases (simp_all add: canon_fixed_lengths count_all_fixed_lengths)
qed (auto simp: stbi__zdefault_length_def)

lemma count_fixed_distances: "count_list (take i fixed_distances) s = (if s = 5 then min i 32 else 0)"
  "count_list fixed_distances s = (if s = 5 then 32 else 0)"
  unfolding stbi__zdefault_distance_def by (simp_all only: take_replicate count_list_replicate) auto

lemma canon_fixed_distances: "s \<le> 5 \<Longrightarrow> canon_first fixed_distances s = 0" "6 \<le> s \<Longrightarrow> canon_first fixed_distances s = 2 ^ s"
proof -
  show c5: "canon_first fixed_distances s = 0" if "s \<le> 5" for s
    using that by (intro canon_first_zero) (simp add: count_fixed_distances)
  have c6: "canon_first fixed_distances 6 = 2 ^ 6" using canon_first_step [of fixed_distances 5] c5 [of 5] by (simp add: count_fixed_distances)
  show "canon_first fixed_distances s = 2 ^ s" if "6 \<le> s"
    by (rule canon_first_double [OF _ _ c6 that]) (simp_all add: count_fixed_distances)
qed

lemma sizes_ok_distances: "sizes_ok fixed_distances"
  unfolding sizes_ok_def
proof (intro conjI ballI allI impI)
  fix s assume "0 < s \<and> s < (16::nat)"
  consider "s \<le> 4" | "s = 5" | "6 \<le> s" by linarith
  then show "canon_first fixed_distances s + count_list fixed_distances s \<le> 2 ^ s"
    by cases (simp_all add: canon_fixed_distances count_fixed_distances)
next
  fix s assume "s \<in> set fixed_distances"
  then show "s < 16" unfolding stbi__zdefault_distance_def by simp
qed

lemma huff_bits:
  assumes "winv w" and "n < 288"
  shows "wbits (stbiw__zlib_huff n w) = wbits w @ code_bits fixed_lengths n" "winv (stbiw__zlib_huff n w)"
proof -
  have c: "code_bits fixed_lengths n =
     (if n \<le> 143 then rev (bits_lsb 8 (0x30 + n)) else if n \<le> 255 then rev (bits_lsb 9 (0x190 + n - 144))
      else if n \<le> 279 then rev (bits_lsb 7 (0 + n - 256)) else rev (bits_lsb 8 (0xc0 + n - 280)))"
    using assms(2) by (simp add: code_bits_def canon_code_def fixed_lengths_nth canon_fixed_lengths count_fixed_lengths)
  show "wbits (stbiw__zlib_huff n w) = wbits w @ code_bits fixed_lengths n" "winv (stbiw__zlib_huff n w)"
    unfolding c stbiw__zlib_huff_def using huffa_bits [OF assms(1)] by simp_all
qed

lemma huffb_eq: "n < 256 \<Longrightarrow> stbiw__zlib_huffb n = stbiw__zlib_huff n"
  by (auto simp: stbiw__zlib_huffb_def stbiw__zlib_huff_def)

lemma distance_bits: "j < 32 \<Longrightarrow> code_bits fixed_distances j = rev (bits_lsb 5 j)"
proof -
  assume j: "j < 32"
  then have "fixed_distances ! j = 5" unfolding stbi__zdefault_distance_def by (simp only: nth_replicate)
  then show ?thesis using j by (simp add: code_bits_def canon_code_def canon_fixed_distances count_fixed_distances)
qed

section \<open>Tokens\<close>

datatype ztoken = ZLit byte | ZMatch nat nat

fun token_bits :: "ztoken \<Rightarrow> bool list" where
  "token_bits (ZLit b) = code_bits fixed_lengths (unat b)"
| "token_bits (ZMatch len d) =
     code_bits fixed_lengths (257 + code_index lengthc len) @
     bits_lsb (lengtheb ! code_index lengthc len) (len - lengthc ! code_index lengthc len) @
     code_bits fixed_distances (code_index distc d) @
     bits_lsb (disteb ! code_index distc d) (d - distc ! code_index distc d)"

fun expand :: "ztoken \<Rightarrow> byte list \<Rightarrow> byte list" where
  "expand (ZLit b) out = out @ [b]"
| "expand (ZMatch len d) out = zcopy_match d len out"

fun token_ok :: "ztoken \<Rightarrow> byte list \<Rightarrow> bool" where
  "token_ok (ZLit b) out = True"
| "token_ok (ZMatch len d) out = (3 \<le> len \<and> len \<le> 258 \<and> 1 \<le> d \<and> d \<le> 32767 \<and> d \<le> length out)"

lemma code_index_bounds:
  assumes "2 \<le> length t" and "hd t \<le> v" and "v < last t" and "\<forall>x \<in> set (tl t). 0 < x"
  shows "Suc (code_index t v) < length t \<and> t ! code_index t v \<le> v \<and> v < t ! Suc (code_index t v)"
  using assms
proof (induction t v rule: code_index.induct)
  case (1 a b r v)
  show ?case
  proof (cases "v > b - 1")
    case True
    then have b: "b \<le> v" using 1(5) by simp
    then have "r \<noteq> []" using 1(4) by auto
    then have "2 \<le> length (b # r)" by (cases r) auto
    then show ?thesis using 1(1) [OF True] b 1(4,5) True by auto
  next
    case False
    moreover have "0 < b" using 1(5) by simp
    ultimately have "v < b" by linarith
    then show ?thesis using False 1(3) by simp
  qed
qed simp_all

lemma small_difference:
  "list_all (\<lambda>j. t ! Suc j - t ! j \<le> 2 ^ (e ! j)) [0..<n] \<Longrightarrow> j < n \<Longrightarrow> t ! j \<le> v \<Longrightarrow> v < t ! Suc j \<Longrightarrow> v - t ! j < 2 ^ (e ! j)"
  for t :: "nat list"
proof -
  assume "list_all (\<lambda>j. t ! Suc j - t ! j \<le> 2 ^ (e ! j)) [0..<n]" "j < n" "t ! j \<le> v" "v < t ! Suc j"
  then have "t ! Suc j - t ! j \<le> 2 ^ (e ! j)" "v - t ! j < t ! Suc j - t ! j" by (auto simp: list_all_iff)
  then show ?thesis by simp
qed

lemma length_code:
  assumes "3 \<le> v" and "v \<le> 258"
  shows "code_index lengthc v < 29" "lengthc ! code_index lengthc v \<le> v"
    "v - lengthc ! code_index lengthc v < 2 ^ (lengtheb ! code_index lengthc v)"
proof -
  have b: "Suc (code_index lengthc v) < 30 \<and> lengthc ! code_index lengthc v \<le> v \<and> v < lengthc ! Suc (code_index lengthc v)"
    using code_index_bounds [of lengthc v] assms by (simp add: lengthc_def)
  have d: "list_all (\<lambda>j. lengthc ! Suc j - lengthc ! j \<le> 2 ^ (lengtheb ! j)) [0..<29]" by code_simp
  show "code_index lengthc v < 29" "lengthc ! code_index lengthc v \<le> v" using b by auto
  show "v - lengthc ! code_index lengthc v < 2 ^ (lengtheb ! code_index lengthc v)"
    using b by (intro small_difference [OF d]) auto
qed

lemma distance_code:
  assumes "1 \<le> v" and "v \<le> 32767"
  shows "code_index distc v < 30" "distc ! code_index distc v \<le> v"
    "v - distc ! code_index distc v < 2 ^ (disteb ! code_index distc v)"
proof -
  have b: "Suc (code_index distc v) < 31 \<and> distc ! code_index distc v \<le> v \<and> v < distc ! Suc (code_index distc v)"
    using code_index_bounds [of distc v] assms by (simp add: distc_def)
  have d: "list_all (\<lambda>j. distc ! Suc j - distc ! j \<le> 2 ^ (disteb ! j)) [0..<30]" by (simp add: distc_def disteb_def upt_rec)
  show "code_index distc v < 30" "distc ! code_index distc v \<le> v" using b by auto
  show "v - distc ! code_index distc v < 2 ^ (disteb ! code_index distc v)"
    using b by (intro small_difference [OF d]) auto
qed

lemma extra_small: "j < 29 \<Longrightarrow> lengtheb ! j \<le> 13" "j < 30 \<Longrightarrow> disteb ! j \<le> 13"
proof -
  have "list_all (\<lambda>j. lengtheb ! j \<le> 13) [0..<29]" "list_all (\<lambda>j. disteb ! j \<le> 13) [0..<30]" by code_simp+
  then show "j < 29 \<Longrightarrow> lengtheb ! j \<le> 13" "j < 30 \<Longrightarrow> disteb ! j \<le> 13" by (auto simp: list_all_iff)
qed

lemma put_extra_bits:
  assumes "winv w" and "v - base < 2 ^ n" and "n \<le> 13"
  defines "w' \<equiv> (if n \<noteq> 0 then stbiw__zlib_add (v - base) n w else w)"
  shows "wbits w' = wbits w @ bits_lsb n (v - base)" "winv w'"
  using add_bits [OF assms(1,2)] assms(1,3) by (simp_all add: w'_def)

lemma put_match_bits:
  assumes "winv w" and "3 \<le> len" and "len \<le> 258" and "1 \<le> d" and "d \<le> 32767"
  shows "wbits (zlib_put_match len d w) = wbits w @ token_bits (ZMatch len d)" "winv (zlib_put_match len d w)"
proof -
  let ?l = "code_index lengthc len" and ?d = "code_index distc d"
  note lc = length_code [OF assms(2,3)] and dc = distance_code [OF assms(4,5)]
  define w1 where "w1 = stbiw__zlib_huff (?l + 257) w"
  define w2 where "w2 = (if lengtheb ! ?l \<noteq> 0 then stbiw__zlib_add (len - lengthc ! ?l) (lengtheb ! ?l) w1 else w1)"
  define w3 where "w3 = stbiw__zlib_add (stbiw__zlib_bitrev ?d 5) 5 w2"
  define w4 where "w4 = (if disteb ! ?d \<noteq> 0 then stbiw__zlib_add (d - distc ! ?d) (disteb ! ?d) w3 else w3)"
  have w1: "wbits w1 = wbits w @ code_bits fixed_lengths (257 + ?l)" "winv w1"
    using huff_bits [OF assms(1), of "?l + 257"] lc(1) by (simp_all add: w1_def add.commute)
  note w2 = put_extra_bits [OF w1(2) lc(3) extra_small(1) [OF lc(1)], folded w2_def]
  have w3: "wbits w3 = wbits w2 @ code_bits fixed_distances ?d" "winv w3"
    using huffa_bits [OF w2(2), of 5 ?d] dc(1) by (simp_all add: w3_def stbiw__zlib_huffa_def distance_bits)
  note w4 = put_extra_bits [OF w3(2) dc(3) extra_small(2) [OF dc(1)], folded w4_def]
  have "zlib_put_match len d w = w4" unfolding w4_def w3_def w2_def w1_def zlib_put_match_def Let_def ..
  then show "wbits (zlib_put_match len d w) = wbits w @ token_bits (ZMatch len d)" "winv (zlib_put_match len d w)"
    using w1 w2 w3 w4 by simp_all
qed


section \<open>The compressor writes tokens of the data\<close>

fun expands :: "ztoken list \<Rightarrow> byte list \<Rightarrow> byte list option" where
  "expands [] out = Some out"
| "expands (t # ts) out = (if token_ok t out then expands ts (expand t out) else None)"

lemma expands_append: "expands (ts @ us) out = (case expands ts out of None \<Rightarrow> None | Some out \<Rightarrow> expands us out)"
  by (induction ts arbitrary: out) auto

lemma countm_result:
  fixes data :: "byte list" and a b :: nat
  assumes "i \<le> limit" and "i \<le> 258"
  defines "n \<equiv> stbiw__zlib_countm data a b limit i"
  shows "i \<le> n \<and> n \<le> limit \<and> n \<le> 258 \<and> (\<forall>t. i \<le> t \<and> t < n \<longrightarrow> data ! (a + t) = data ! (b + t))"
  using assms(1,2) unfolding n_def
proof (induction data a b limit i rule: stbiw__zlib_countm.induct)
  case (1 data a b limit i)
  show ?case
  proof (cases "i < limit \<and> i < 258 \<and> data ! (a + i) = data ! (b + i)")
    case True
    have "stbiw__zlib_countm data a b limit i = stbiw__zlib_countm data a b limit (Suc i)"
      using True by (subst stbiw__zlib_countm.simps) simp
    moreover have "Suc i \<le> stbiw__zlib_countm data a b limit (Suc i) \<and> stbiw__zlib_countm data a b limit (Suc i) \<le> limit \<and>
        stbiw__zlib_countm data a b limit (Suc i) \<le> 258 \<and>
        (\<forall>t. Suc i \<le> t \<and> t < stbiw__zlib_countm data a b limit (Suc i) \<longrightarrow> data ! (a + t) = data ! (b + t))"
      using True by (intro 1(1)) auto
    ultimately show ?thesis using True by (metis Suc_leD Suc_leI le_neq_implies_less)
  next
    case False
    then have "stbiw__zlib_countm data a b limit i = i" by (subst stbiw__zlib_countm.simps) auto
    then show ?thesis using 1(2,3) by auto
  qed
qed

lemma zcopy_data:
  assumes "i + len \<le> length data" and "0 < d" and "d \<le> i" and "\<And>t. t < len \<Longrightarrow> data ! (i - d + t) = data ! (i + t)"
  shows "zcopy d len (take i data) = take (i + len) data"
  using assms(1,3,4)
proof (induction len arbitrary: i)
  case (Suc len)
  have i: "i < length data" using Suc(2) by simp
  have "take i data ! (i - d) = data ! i" using Suc(4) [of 0] Suc(3) assms(2) i by simp
  then have "take i data @ [take i data ! (length (take i data) - d)] = take (Suc i) data"
    using i by (simp add: take_Suc_conv_app_nth)
  moreover have "zcopy d len (take (Suc i) data) = take (Suc i + len) data"
  proof (rule Suc(1))
    fix t assume "t < len"
    then show "data ! (Suc i - d + t) = data ! (Suc i + t)" using Suc(4) [of "Suc t"] Suc(3) by (simp add: Suc_diff_le)
  qed (use Suc(2,3) in simp_all)
  ultimately show ?case by simp
qed simp

lemma zcopy_run: "out \<noteq> [] \<Longrightarrow> zcopy 1 len out = out @ replicate len (out ! (length out - 1))"
proof (induction len arbitrary: out)
  case (Suc len)
  have "zcopy 1 (Suc len) out = zcopy 1 len (out @ [out ! (length out - 1)])" by simp
  also have "\<dots> = (out @ [out ! (length out - 1)]) @ replicate len (out ! (length out - 1))"
    using Suc(1) [of "out @ [out ! (length out - 1)]"] by simp
  finally show ?case by simp
qed simp

lemma zcopy_match_eq: "d \<le> length out \<Longrightarrow> 0 < d \<Longrightarrow> zcopy_match d len out = zcopy d len out"
  using zcopy_run [of out len] by (cases "d = 1"; cases "out = []") (simp_all add: zcopy_match_def)

lemma match_token:
  assumes "p < i" and "int p > int i - 32768" and "n = stbiw__zlib_countm data p i (length data - i) 0" and "3 \<le> n" and "i \<le> length data"
  shows "token_ok (ZMatch n (i - p)) (take i data)" "expand (ZMatch n (i - p)) (take i data) = take (i + n) data" "i + n \<le> length data"
proof -
  have n: "n \<le> length data - i" "n \<le> 258" "\<And>t. t < n \<Longrightarrow> data ! (p + t) = data ! (i + t)"
    using countm_result [of 0 "length data - i" data p i] assms(3) by auto
  show "i + n \<le> length data" using n(1) assms(5) by simp
  show "token_ok (ZMatch n (i - p)) (take i data)" using n assms by auto
  have "zcopy (i - p) n (take i data) = take (i + n) data"
    using n assms(1,5) by (intro zcopy_data) auto
  then show "expand (ZMatch n (i - p)) (take i data) = take (i + n) data"
    using assms(1,5) by (simp add: zcopy_match_eq)
qed

lemma insert_positions:
  assumes "\<And>h p. p \<in> set (ht h) \<Longrightarrow> p < i" and "p \<in> set (zlib_insert q h i ht h')"
  shows "p \<le> i"
  using assms by (auto simp: zlib_insert_def Let_def split: if_splits dest!: in_set_takeD in_set_dropD less_imp_le)

lemma zlib_loop_tokens:
  assumes "zlib_loop q data i ht w = (i', w')" and "winv w" and "i \<le> length data" and "\<And>h p. p \<in> set (ht h) \<Longrightarrow> p < i"
  shows "\<exists>ts. expands ts (take i data) = Some (take i' data) \<and> wbits w' = wbits w @ concat (map token_bits ts) \<and> winv w' \<and> i' \<le> length data"
  using assms
proof (induction q data i ht w rule: zlib_loop.induct)
  case (1 q data i ht w)
  show ?case
  proof (cases "i + 3 < length data")
    case False
    then have "zlib_loop q data i ht w = (i, w)" by (subst zlib_loop.simps) simp
    then have "i' = i" "w' = w" using 1(3) by simp_all
    then show ?thesis using 1(4,5) by (intro exI [of _ "[]"]) simp
  next
    case True
    let ?h = "zlib_bucket data i"
    obtain best loc where s: "zlib_search data i (ht ?h) = (best, loc)" by fastforce
    define ht' where "ht' = zlib_insert q ?h i ht"
    define loc' where "loc' = (if loc \<noteq> None \<and> zlib_better_next data i best (ht' (zlib_bucket data (i + 1))) then None else loc)"
    have pos: "p < j" if "i < j" "p \<in> set (ht' h)" for p h j
    proof -
      have "p \<le> i" by (rule insert_positions [OF 1(6) that(2) [unfolded ht'_def]])
      then show ?thesis using that(1) by simp
    qed
    have step: "zlib_loop q data i ht w = (case loc' of
        Some p \<Rightarrow> zlib_loop q data (i + best) ht' (zlib_put_match best (i - p) w)
      | None \<Rightarrow> zlib_loop q data (i + 1) ht' (stbiw__zlib_huffb (unat (data ! i)) w))"
      using True s by (subst zlib_loop.simps) (simp add: Let_def ht'_def loc'_def split: option.split)
    note ih = 1(1,2) [OF True refl s [symmetric] refl ht'_def loc'_def]
    show ?thesis
    proof (cases loc')
      case None
      let ?w = "stbiw__zlib_huffb (unat (data ! i)) w"
      have u: "unat (data ! i) < 256" using unsigned_less [of "data ! i"] by simp
      then have w: "wbits ?w = wbits w @ token_bits (ZLit (data ! i))" "winv ?w"
        using huff_bits [OF 1(4), of "unat (data ! i)"] by (simp_all add: huffb_eq)
      have "zlib_loop q data (i + 1) ht' ?w = (i', w')" using 1(3) step None by simp
      then obtain ts where ts: "expands ts (take (i + 1) data) = Some (take i' data)" "wbits w' = wbits ?w @ concat (map token_bits ts)"
          "winv w'" "i' \<le> length data"
        using ih(1) [OF None _ w(2)] True pos [of "i + 1"] by auto
      have "take (i + 1) data = take i data @ [data ! i]" using True by (simp add: take_Suc_conv_app_nth)
      then show ?thesis using ts w by (intro exI [of _ "ZLit (data ! i) # ts"]) simp
    next
      case (Some p)
      then have "loc = Some p" by (auto simp: loc'_def split: if_splits)
      then have p: "p \<in> set (ht ?h)" "int p > int i - 32768" "best = stbiw__zlib_countm data p i (length data - i) 0" "3 \<le> best"
        using zlib_search_best [OF s] by auto
      have pi: "p < i" using 1(6) p(1) .
      note tok = match_token [OF pi p(2,3,4) 1(5)]
      let ?w = "zlib_put_match best (i - p) w"
      have w: "wbits ?w = wbits w @ token_bits (ZMatch best (i - p))" "winv ?w"
        using put_match_bits [OF 1(4), of best "i - p"] tok(1) by simp_all
      have "zlib_loop q data (i + best) ht' ?w = (i', w')" using 1(3) step Some by simp
      then obtain ts where ts: "expands ts (take (i + best) data) = Some (take i' data)" "wbits w' = wbits ?w @ concat (map token_bits ts)"
          "winv w'" "i' \<le> length data"
        using ih(2) [OF Some _ w(2) tok(3)] pos [of "i + best"] p(4) by auto
      then show ?thesis using tok(1,2) w by (intro exI [of _ "ZMatch best (i - p) # ts"]) simp
    qed
  qed
qed

lemma tail_tokens:
  assumes "winv w" and "i \<le> length data"
  defines "w' \<equiv> fold (\<lambda>i. stbiw__zlib_huffb (unat (data ! i))) [i..<length data] w"
  shows "\<exists>ts. expands ts (take i data) = Some data \<and> wbits w' = wbits w @ concat (map token_bits ts) \<and> winv w'"
  using assms(1,2) unfolding w'_def
proof (induction "length data - i" arbitrary: i w)
  case 0
  then show ?case by (intro exI [of _ "[]"]) simp
next
  case (Suc n)
  let ?w = "stbiw__zlib_huffb (unat (data ! i)) w"
  have i: "i < length data" using Suc(2) by simp
  have u: "unat (data ! i) < 256" using unsigned_less [of "data ! i"] by simp
  then have w: "wbits ?w = wbits w @ token_bits (ZLit (data ! i))" "winv ?w"
    using huff_bits [OF Suc(3), of "unat (data ! i)"] by (simp_all add: huffb_eq)
  obtain ts where ts: "expands ts (take (Suc i) data) = Some data"
      "wbits (fold (\<lambda>i. stbiw__zlib_huffb (unat (data ! i))) [Suc i..<length data] ?w) = wbits ?w @ concat (map token_bits ts)"
      "winv (fold (\<lambda>i. stbiw__zlib_huffb (unat (data ! i))) [Suc i..<length data] ?w)"
  proof -
    have "n = length data - Suc i" using Suc(2) by simp
    from Suc(1) [OF this w(2) Suc_leI [OF i]] that show ?thesis by blast
  qed
  have "take (Suc i) data = take i data @ [data ! i]" using i by (simp add: take_Suc_conv_app_nth)
  then show ?case using ts w i by (intro exI [of _ "ZLit (data ! i) # ts"]) (simp add: upt_conv_Cons)
qed

end
