(* ===== verification/ZlibCodec.thy ===== *)
theory ZlibCodec
  imports ZlibTrip
begin

text \<open>
  The decoder of \<open>src/common/stb_image.h\<close> on what the compressor of
  \<open>src/common/stb_image_write.h\<close> wrote: one fixed block of tokens, or stored blocks.
\<close>

section \<open>Room for the output\<close>

lemma zexpand_limit_ok:
  assumes "0 < limit" and "need \<le> 2 ^ 31"
  shows "\<exists>l. zexpand_limit need limit = Some (Some l) \<and> 0 < l"
  using assms
proof (induction need limit rule: zexpand_limit.induct)
  case (1 need limit)
  show ?case
  proof (cases "need \<le> limit")
    case True
    then have "zexpand_limit need limit = Some (Some limit)" by (subst zexpand_limit.simps) simp
    then show ?thesis using 1(2) by simp
  next
    case False
    then have l: "\<not> limit > (2 ^ 32 - 1) div 2" "limit \<noteq> 0" using 1(2,3) by simp_all
    then have "zexpand_limit need limit = zexpand_limit need (limit * 2)" using False by (subst zexpand_limit.simps) simp
    then show ?thesis using 1(1) [OF False l] 1(2,3) by simp
  qed
qed

definition zready :: "stbi__zbuf \<Rightarrow> bool" where
  "zready a \<longleftrightarrow> zbuf_ok a \<and> 0 < zb_limit a \<and> z_expandable a \<and> \<not> hit_zeof_once a"

definition zfixed :: "stbi__zbuf \<Rightarrow> bool" where
  "zfixed a \<longleftrightarrow> decodes fixed_lengths (z_length a) \<and> decodes fixed_distances (z_distance a)"

lemma zframe_ready: "zframe a b \<Longrightarrow> zbuf_ok b \<Longrightarrow> zready a \<Longrightarrow> zready b"
  by (simp add: zframe_def zready_def)

lemma zframe_fixed: "zframe a b \<Longrightarrow> zfixed a \<Longrightarrow> zfixed b"
  by (simp add: zframe_def zfixed_def)

lemma zframe_out: "zframe a b \<Longrightarrow> zb_out b = zb_out a"
  by (simp add: zframe_def)

lemma zmake_room_ok:
  assumes "zready a" and "length (zb_out a) + n \<le> 2 ^ 31"
  shows "\<exists>l > 0. zmake_room (\<lambda>_. True) n a = Some (Some (a\<lparr>zb_limit := l\<rparr>))"
proof (cases "n > zb_limit a - length (zb_out a)")
  case True
  obtain l where "zexpand_limit (length (zb_out a) + n) (zb_limit a) = Some (Some l)" "0 < l"
    using zexpand_limit_ok [of "zb_limit a" "length (zb_out a) + n"] assms by (auto simp: zready_def)
  then show ?thesis using True assms by (intro exI [of _ l]) (simp add: zmake_room_def stbi__zexpand_def zready_def)
next
  case False
  then show ?thesis using assms(1) by (intro exI [of _ "zb_limit a"]) (simp add: zmake_room_def zready_def)
qed

lemma zemit_ok:
  assumes "zready a" and "length (zb_out a) + n \<le> 2 ^ 31" and "zfixed a"
  shows "\<exists>a'. zemit (\<lambda>_. True) n f a = ZMore a' \<and> zready a' \<and> zfixed a' \<and> zb_out a' = f (zb_out a) \<and> rbits a' = rbits a"
proof -
  obtain l where "0 < l" "zmake_room (\<lambda>_. True) n a = Some (Some (a\<lparr>zb_limit := l\<rparr>))" using zmake_room_ok [OF assms(1,2)] by blast
  then show ?thesis using assms(1,3) by (simp add: zemit_def zready_def zfixed_def zbuf_ok_def rbits_def)
qed

section \<open>One token\<close>

lemma tables_agree:
  "j < 29 \<Longrightarrow> stbi__zlength_base ! j = lengthc ! j" "j < 29 \<Longrightarrow> stbi__zlength_extra ! j = lengtheb ! j"
  "j < 30 \<Longrightarrow> stbi__zdist_base ! j = distc ! j" "j < 30 \<Longrightarrow> stbi__zdist_extra ! j = disteb ! j"
proof -
  have "take 29 stbi__zlength_base = take 29 lengthc" "take 29 stbi__zlength_extra = take 29 lengtheb"
    "take 30 stbi__zdist_base = take 30 distc" "take 30 stbi__zdist_extra = take 30 disteb"
    by (simp_all only: stbi__zlength_base_def lengthc_def stbi__zlength_extra_def lengtheb_def
        stbi__zdist_base_def distc_def stbi__zdist_extra_def disteb_def) simp_all
  then show "j < 29 \<Longrightarrow> stbi__zlength_base ! j = lengthc ! j" "j < 29 \<Longrightarrow> stbi__zlength_extra ! j = lengtheb ! j"
    "j < 30 \<Longrightarrow> stbi__zdist_base ! j = distc ! j" "j < 30 \<Longrightarrow> stbi__zdist_extra ! j = disteb ! j"
    by (metis nth_take)+
qed

lemma zreceive_extra_bits:
  assumes "zbuf_ok a" and "prefix (bits_lsb e (v - base) @ s) (rbits a)" and "base \<le> v" and "v - base < 2 ^ e" and "e \<le> 13"
  shows "\<exists>a'. zreceive_extra base e a = (v, a') \<and> zbuf_ok a' \<and> prefix s (rbits a') \<and> zframe a a'"
proof (cases "e = 0")
  case True
  then show ?thesis using assms by (simp add: zreceive_extra_def)
next
  case False
  obtain a' where "stbi__zreceive e a = (v - base, a')" "zbuf_ok a'" "prefix s (rbits a')" "zframe a a'"
    using zreceive_bits [OF assms(1,2,4)] assms(5) by auto
  then show ?thesis using False assms(3) by (simp add: zreceive_extra_def)
qed

lemma enough_bits: "prefix (p @ s) l \<Longrightarrow> 16 \<le> length s \<Longrightarrow> 16 \<le> length l"
  using prefix_length_le [of "p @ s" l] by simp

lemma decode_length:
  assumes "zfixed a" and "n < 288" and "zbuf_ok a" and "prefix (code_bits fixed_lengths n @ s) (rbits a)" and "16 \<le> length s"
  shows "\<exists>a'. stbi__zhuffman_decode (z_length a) a = (int n, a') \<and> zbuf_ok a' \<and> prefix s (rbits a') \<and> zframe a a'"
proof -
  have "0 < fixed_lengths ! n" using assms(2) by (simp add: fixed_lengths_nth)
  then show ?thesis
    using assms by (intro decode_symbol [of fixed_lengths]) (auto simp: zfixed_def intro: enough_bits)
qed

lemma decode_distance:
  assumes "zfixed a" and "n < 32" and "zbuf_ok a" and "prefix (code_bits fixed_distances n @ s) (rbits a)" and "16 \<le> length s"
  shows "\<exists>a'. stbi__zhuffman_decode (z_distance a) a = (int n, a') \<and> zbuf_ok a' \<and> prefix s (rbits a') \<and> zframe a a'"
proof -
  have "0 < fixed_distances ! n" using assms(2) unfolding stbi__zdefault_distance_def by (simp only: nth_replicate)
  then show ?thesis
    using assms by (intro decode_symbol [of fixed_distances]) (auto simp: zfixed_def intro: enough_bits)
qed

lemma literal_step:
  assumes "zready a" and "zfixed a" and "prefix (token_bits (ZLit b) @ s) (rbits a)" and "16 \<le> length s" and "length (zb_out a) < 2 ^ 31"
  shows "\<exists>a'. zblock_step (\<lambda>_. True) a = ZMore a' \<and> zready a' \<and> zfixed a' \<and> zb_out a' = zb_out a @ [b] \<and> prefix s (rbits a')"
proof -
  define n where "n = unat b"
  have b: "n < 256" "of_int (int n) = b" using unsigned_less [of b] by (simp_all add: n_def)
  then obtain a1 where a1: "stbi__zhuffman_decode (z_length a) a = (int n, a1)" "zbuf_ok a1" "prefix s (rbits a1)" "zframe a a1"
    using decode_length [OF assms(2), of n s] assms(1,3,4) by (auto simp: zready_def n_def)
  have r: "zready a1" "zfixed a1" "zb_out a1 = zb_out a"
    using a1 assms(1,2) by (simp_all add: zframe_ready zframe_fixed zframe_out)
  obtain a2 where a2: "zemit (\<lambda>_. True) 1 (\<lambda>out. out @ [of_int (int n)]) a1 = ZMore a2" "zready a2" "zfixed a2"
      "zb_out a2 = zb_out a1 @ [b]" "rbits a2 = rbits a1"
    using zemit_ok [OF r(1) _ r(2), of 1] assms(5) r(3) b(2) by fastforce
  have "zblock_step (\<lambda>_. True) a = ZMore a2" using a1(1) a2(1) b(1) by (simp add: zblock_step_def del: of_int_of_nat_eq)
  then show ?thesis using a1(3) a2 r by simp
qed


lemma length_zcopy_match: "length (zcopy_match d len out) = length out + len"
proof -
  have "length (zcopy d len out) = length out + len" by (induction len arbitrary: out) simp_all
  then show ?thesis by (simp add: zcopy_match_def)
qed

lemma match_step:
  assumes "zready a" and "zfixed a" and "token_ok (ZMatch len d) (zb_out a)" and "prefix (token_bits (ZMatch len d) @ s) (rbits a)"
    and "16 \<le> length s" and "length (zb_out a) + len \<le> 2 ^ 31"
  shows "\<exists>a'. zblock_step (\<lambda>_. True) a = ZMore a' \<and> zready a' \<and> zfixed a' \<and> zb_out a' = zcopy_match d len (zb_out a) \<and> prefix s (rbits a')"
proof -
  let ?l = "code_index lengthc len" and ?d = "code_index distc d"
  let ?lb = "bits_lsb (lengtheb ! ?l) (len - lengthc ! ?l)" and ?db = "bits_lsb (disteb ! ?d) (d - distc ! ?d)"
  have ok: "3 \<le> len" "len \<le> 258" "1 \<le> d" "d \<le> 32767" "d \<le> length (zb_out a)" using assms(3) by simp_all
  note lc = length_code [OF ok(1,2)] and dc = distance_code [OF ok(3,4)]
  have p: "prefix (code_bits fixed_lengths (257 + ?l) @ ?lb @ code_bits fixed_distances ?d @ ?db @ s) (rbits a)" using assms(4) by simp
  obtain a1 where a1: "stbi__zhuffman_decode (z_length a) a = (int (257 + ?l), a1)" "zbuf_ok a1"
      "prefix (?lb @ code_bits fixed_distances ?d @ ?db @ s) (rbits a1)" "zframe a a1"
    using decode_length [OF assms(2) _ _ p] assms(1,5) lc(1) by (auto simp: zready_def)
  obtain a2 where a2: "zreceive_extra (lengthc ! ?l) (lengtheb ! ?l) a1 = (len, a2)" "zbuf_ok a2"
      "prefix (code_bits fixed_distances ?d @ ?db @ s) (rbits a2)" "zframe a1 a2"
    using zreceive_extra_bits [OF a1(2,3) lc(2,3)] extra_small(1) [OF lc(1)] by blast
  have f2: "zframe a a2" using a1(4) a2(4) by (rule zframe_trans)
  obtain a3 where a3: "stbi__zhuffman_decode (z_distance a2) a2 = (int ?d, a3)" "zbuf_ok a3" "prefix (?db @ s) (rbits a3)" "zframe a2 a3"
    using decode_distance [OF zframe_fixed [OF f2 assms(2)] _ a2(2,3)] assms(5) dc(1) by auto
  obtain a4 where a4: "zreceive_extra (distc ! ?d) (disteb ! ?d) a3 = (d, a4)" "zbuf_ok a4" "prefix s (rbits a4)" "zframe a3 a4"
    using zreceive_extra_bits [OF a3(2,3) dc(2,3)] extra_small(2) [OF dc(1)] by blast
  have f4: "zframe a a4" using f2 a3(4) a4(4) by (blast intro: zframe_trans)
  have r: "zready a4" "zfixed a4" "zb_out a4 = zb_out a"
    using f4 a4(2) assms(1,2) by (simp_all add: zframe_ready zframe_fixed zframe_out)
  obtain a5 where a5: "zemit (\<lambda>_. True) len (zcopy_match d len) a4 = ZMore a5" "zready a5" "zfixed a5"
      "zb_out a5 = zcopy_match d len (zb_out a)" "rbits a5 = rbits a4"
    using zemit_ok [OF r(1) _ r(2), of len] assms(6) r(3) by fastforce
  have "zblock_step (\<lambda>_. True) a = ZMore a5"
    using a1(1) a2(1) a3(1) a4(1) a5(1) lc(1) dc(1) ok(5) r(3) by (simp add: zblock_step_def tables_agree Let_def)
  then show ?thesis using a4(3) a5 by simp
qed

lemma token_step:
  assumes "zready a" and "zfixed a" and "token_ok t (zb_out a)" and "prefix (token_bits t @ s) (rbits a)" and "16 \<le> length s"
    and "length (expand t (zb_out a)) \<le> 2 ^ 31"
  shows "\<exists>a'. zblock_step (\<lambda>_. True) a = ZMore a' \<and> zready a' \<and> zfixed a' \<and> zb_out a' = expand t (zb_out a) \<and> prefix s (rbits a')"
proof (cases t)
  case (ZLit b)
  then show ?thesis using literal_step [of a b s] assms by simp
next
  case (ZMatch len d)
  then show ?thesis using match_step [of a len d s] assms by (simp add: length_zcopy_match)
qed

section \<open>A fixed block\<close>

lemma expands_grows: "expands ts out = Some out' \<Longrightarrow> length out \<le> length out'"
proof (induction ts arbitrary: out)
  case (Cons t ts)
  then have "expands ts (expand t out) = Some out'" by (auto split: if_splits)
  moreover have "length out \<le> length (expand t out)" by (cases t) (simp_all add: length_zcopy_match)
  ultimately show ?case using Cons(1) by fastforce
qed simp

lemma end_step:
  assumes "zready a" and "zfixed a" and "prefix (code_bits fixed_lengths 256 @ s) (rbits a)" and "16 \<le> length s"
  shows "\<exists>a'. zblock_step (\<lambda>_. True) a = ZDone a' \<and> zb_out a' = zb_out a"
proof -
  obtain a' where a': "stbi__zhuffman_decode (z_length a) a = (int 256, a')" "zframe a a'"
    using decode_length [OF assms(2) _ _ assms(3,4)] assms(1) by (auto simp: zready_def)
  then have "\<not> hit_zeof_once a'" using assms(1) by (simp add: zframe_def zready_def)
  then have "zblock_step (\<lambda>_. True) a = ZDone a'" using a'(1) by (simp add: zblock_step_def)
  then show ?thesis using a'(2) by (simp add: zframe_out)
qed

lemma parse_huffman_block_tokens:
  assumes "zready a" and "zfixed a" and "expands ts (zb_out a) = Some out" and "length out \<le> 2 ^ 31" and "16 \<le> length s"
    and "prefix (concat (map token_bits ts) @ code_bits fixed_lengths 256 @ s) (rbits a)"
  shows "\<exists>a'. stbi__parse_huffman_block (\<lambda>_. True) a = Some (Some a') \<and> zb_out a' = out"
  using assms(1,2,3,6)
proof (induction ts arbitrary: a)
  case Nil
  then obtain a' where "zblock_step (\<lambda>_. True) a = ZDone a'" "zb_out a' = zb_out a" using end_step assms(5) by fastforce
  then show ?case using Nil(3) by (subst stbi__parse_huffman_block.simps) simp
next
  case (Cons t ts)
  have t: "token_ok t (zb_out a)" "expands ts (expand t (zb_out a)) = Some out" using Cons(4) by (auto split: if_splits)
  have "length (expand t (zb_out a)) \<le> 2 ^ 31" using expands_grows [OF t(2)] assms(4) by simp
  then obtain a1 where a1: "zblock_step (\<lambda>_. True) a = ZMore a1" "zready a1" "zfixed a1" "zb_out a1 = expand t (zb_out a)"
      "prefix (concat (map token_bits ts) @ code_bits fixed_lengths 256 @ s) (rbits a1)"
    using token_step [OF Cons(2,3) t(1), of "concat (map token_bits ts) @ code_bits fixed_lengths 256 @ s"] Cons(5) assms(5) by auto
  then obtain a' where "stbi__parse_huffman_block (\<lambda>_. True) a1 = Some (Some a')" "zb_out a' = out"
    using Cons(1) [of a1] t(2) by auto
  then show ?case using a1(1) by (subst stbi__parse_huffman_block.simps) simp
qed


lemma zfixed_codes_ok:
  assumes "zready a"
  shows "\<exists>a'. zfixed_codes a = Some a' \<and> zready a' \<and> zfixed a' \<and> zb_out a' = zb_out a \<and> rbits a' = rbits a"
proof -
  obtain zl where zl: "stbi__zbuild_huffman (z_length a) fixed_lengths = Some zl"
    using zbuild_huffman_succeeds [OF sizes_ok_lengths] by blast
  obtain zd where zd: "stbi__zbuild_huffman (z_distance a) fixed_distances = Some zd"
    using zbuild_huffman_succeeds [OF sizes_ok_distances] by blast
  have "decodes fixed_lengths zl" "decodes fixed_distances zd"
    using zbuild_huffman_decodes [OF zl] zbuild_huffman_decodes [OF zd] sizes_ok_lengths sizes_ok_distances
    by (simp_all add: sizes_ok_def)
  then show ?thesis using zl zd assms by (simp add: zfixed_codes_def zready_def zfixed_def zbuf_ok_def rbits_def)
qed

lemma fixed_block:
  assumes "zready a" and "expands ts (zb_out a) = Some out" and "length out \<le> 2 ^ 31" and "16 \<le> length s"
    and "prefix (bits_lsb 1 (1 :: nat) @ bits_lsb 2 (1 :: nat) @ concat (map token_bits ts) @ code_bits fixed_lengths 256 @ s) (rbits a)"
  shows "\<exists>a'. zparse_block (\<lambda>_. True) stale a = Some (Some (True, a')) \<and> zb_out a' = out"
proof -
  let ?t = "concat (map token_bits ts) @ code_bits fixed_lengths 256 @ s"
  obtain a1 where a1: "stbi__zreceive 1 a = (1, a1)" "zbuf_ok a1" "prefix (bits_lsb 2 (1 :: nat) @ ?t) (rbits a1)" "zframe a a1"
    using zreceive_bits [OF _ assms(5)] assms(1) by (auto simp: zready_def)
  obtain a2 where a2: "stbi__zreceive 2 a1 = (1, a2)" "zbuf_ok a2" "prefix ?t (rbits a2)" "zframe a1 a2"
    using zreceive_bits [OF a1(2,3)] by auto
  have f: "zframe a a2" using a1(4) a2(4) by (rule zframe_trans)
  then have "zready a2" using a2(2) assms(1) by (rule zframe_ready)
  then obtain a3 where a3: "zfixed_codes a2 = Some a3" "zready a3" "zfixed a3" "zb_out a3 = zb_out a2" "rbits a3 = rbits a2"
    using zfixed_codes_ok by blast
  obtain a4 where "stbi__parse_huffman_block (\<lambda>_. True) a3 = Some (Some a4)" "zb_out a4 = out"
    using parse_huffman_block_tokens [OF a3(2,3) _ assms(3,4), of ts] assms(2) a2(3) a3(4,5) zframe_out [OF f] by auto
  then show ?thesis using a1(1) a2(1) a3(1) by (simp add: zparse_block_def)
qed

section \<open>What the compressor wrote\<close>

lemma bits_byte_inj: "bits_lsb 8 b = bits_lsb 8 c \<longleftrightarrow> b = c" for b c :: byte
  by (auto simp: bits_lsb_eq_iff bit_eq_iff dest: bit_imp_le_length)

lemma first_byte:
  fixes bs :: "byte list"
  assumes "concat (map (bits_lsb 8) bs) = bits_lsb 8 b @ r"
  shows "\<exists>bs'. bs = b # bs' \<and> concat (map (bits_lsb 8) bs') = r"
proof (cases bs)
  case Nil
  then have "length (bits_lsb 8 b @ r) = 0" using assms by simp
  then show ?thesis by (simp only: length_append length_bits_lsb)
next
  case (Cons c bs')
  then show ?thesis using assms by (simp add: bits_byte_inj)
qed

lemma compressed_bits:
  assumes "zlib_loop q data 0 (\<lambda>_. []) (stbiw__zlib_add 1 2 (stbiw__zlib_add 1 1
      \<lparr>zw_out = stbiw__sbpush 0x5e (stbiw__sbpush 0x78 sb_null), zw_bitbuf = 0, zw_bitcount = 0\<rparr>)) = (i, w)"
  defines "w' \<equiv> zlib_pad (stbiw__zlib_huff 256 (fold (\<lambda>i. stbiw__zlib_huffb (unat (data ! i))) [i..<length data] w))"
  shows "\<exists>ts k rest. expands ts [] = Some data \<and> sb_items (zw_out w') = 0x78 # 0x5e # rest \<and> sb_wf (zw_out w') \<and>
    concat (map (bits_lsb 8) rest) =
      bits_lsb 1 (1 :: nat) @ bits_lsb 2 (1 :: nat) @ concat (map token_bits ts) @ code_bits fixed_lengths 256 @ replicate k False"
proof -
  let ?w0 = "\<lparr>zw_out = stbiw__sbpush 0x5e (stbiw__sbpush 0x78 sb_null), zw_bitbuf = 0, zw_bitcount = 0\<rparr>"
  define w1 where "w1 = stbiw__zlib_add 1 2 (stbiw__zlib_add 1 1 ?w0)"
  have w0: "winv ?w0" "wbits ?w0 = bits_lsb 8 (0x78 :: byte) @ bits_lsb 8 (0x5e :: byte)"
    by (simp_all add: winv_def wclean_def sb_wf_def wbits_def sb_null_def stbiw__sbpush_def stbiw__sbgrowf_def)
  have w1: "winv w1" "wbits w1 = wbits ?w0 @ bits_lsb 1 (1 :: nat) @ bits_lsb 2 (1 :: nat)"
    using add_bits [OF w0(1), of 1 1] add_bits [of "stbiw__zlib_add 1 1 ?w0" 1 2] by (simp_all add: w1_def)
  obtain ts where ts: "expands ts [] = Some (take i data)" "wbits w = wbits w1 @ concat (map token_bits ts)" "winv w" "i \<le> length data"
    using zlib_loop_tokens [OF assms(1) [folded w1_def] w1(1)] by auto
  define w2 where "w2 = fold (\<lambda>i. stbiw__zlib_huffb (unat (data ! i))) [i..<length data] w"
  obtain us where us: "expands us (take i data) = Some data" "wbits w2 = wbits w @ concat (map token_bits us)" "winv w2"
    using tail_tokens [OF ts(3,4)] by (auto simp: w2_def)
  have w3: "wbits (stbiw__zlib_huff 256 w2) = wbits w2 @ code_bits fixed_lengths 256" "winv (stbiw__zlib_huff 256 w2)"
    using huff_bits [OF us(3), of 256] by simp_all
  have w': "w' = zlib_pad (stbiw__zlib_huff 256 w2)" by (simp add: w'_def w2_def)
  obtain k where k: "wbits w' = wbits (stbiw__zlib_huff 256 w2) @ replicate k False" "zw_bitcount w' = 0" "winv w'"
    using pad_bits [OF w3(2)] unfolding w' by blast
  let ?r = "bits_lsb 1 (1 :: nat) @ bits_lsb 2 (1 :: nat) @ concat (map token_bits (ts @ us)) @ code_bits fixed_lengths 256 @ replicate k False"
  have "concat (map (bits_lsb 8) (sb_items (zw_out w'))) = bits_lsb 8 (0x78 :: byte) @ bits_lsb 8 (0x5e :: byte) @ ?r"
    using k w3 us ts w1 w0 by (simp add: wbits_def)
  then obtain rest where "sb_items (zw_out w') = 0x78 # 0x5e # rest" "concat (map (bits_lsb 8) rest) = ?r"
    using first_byte by metis
  moreover have "expands (ts @ us) [] = Some data" using ts(1) us(1) by (simp add: expands_append)
  moreover have "sb_wf (zw_out w')" using k(3) by (simp add: winv_def wclean_def)
  ultimately show ?thesis by blast
qed


section \<open>Stored blocks, written\<close>

definition stored_bytes :: "bool \<Rightarrow> nat \<Rightarrow> byte list" where
  "stored_bytes final n =
     (let bl = of_nat n :: u32
      in [if final then 1 else 0, ucast bl, ucast (drop_bit 8 bl), ucast (NOT bl), ucast (drop_bit 8 (NOT bl))])"

function stored_stream :: "byte list \<Rightarrow> byte list" where
  "stored_stream d =
     (if d = [] then []
      else if length d \<le> 32767 then stored_bytes True (length d) @ d
      else stored_bytes False 32767 @ take 32767 d @ stored_stream (drop 32767 d))"
  by pat_completeness auto
termination by (relation "measure length") auto

declare stored_stream.simps [simp del]

lemma length_stored_bytes [simp]: "length (stored_bytes final n) = 5"
  by (simp add: stored_bytes_def Let_def)

lemma stored_header_items: "sb_items (stored_header final n out) = sb_items out @ stored_bytes final n"
  by (simp add: stored_header_def stored_bytes_def Let_def)

lemma stored_header_room: "sb_m out \<le> sb_m (stored_header final n out)"
  unfolding stored_header_def Let_def by (meson order_trans sb_wf_push(2))

lemma length_stored_stream: "length (stored_stream d) = length d + (length d + 32766) div 32767 * 5"
proof (induction d rule: stored_stream.induct)
  case (1 d)
  consider "d = []" | "d \<noteq> []" "length d \<le> 32767" | "\<not> length d \<le> 32767" by auto
  then show ?case
  proof cases
    case 2
    then have "1 \<le> length d" by (cases d) simp_all
    then have "(length d + 32766) div 32767 = 1" using 2(2) by (intro div_nat_eqI) simp_all
    then show ?thesis using 2 by (subst stored_stream.simps) simp
  next
    case 3
    then have "length d + 32766 = (length (drop 32767 d) + 32766) + 32767" by simp
    then have "(length d + 32766) div 32767 = (length (drop 32767 d) + 32766) div 32767 + 1" by simp
    then show ?thesis using 3 1 [OF _ 3] by (subst stored_stream.simps) auto
  qed (simp add: stored_stream.simps)
qed

lemma zlib_stored_stream:
  assumes "length (sb_items out) + length (stored_stream (drop j data)) \<le> sb_m out"
  shows "\<exists>out'. zlib_stored data j out = Some out' \<and> sb_items out' = sb_items out @ stored_stream (drop j data)"
  using assms
proof (induction data j out rule: zlib_stored.induct)
  case (1 data j out)
  let ?d = "drop j data"
  show ?case
  proof (cases "j < length data")
    case False
    then have "zlib_stored data j out = Some out" by (subst zlib_stored.simps) simp
    then show ?thesis using False by (simp add: stored_stream.simps)
  next
    case True
    define n where "n = (if length data - j > 32767 then 32767 else length data - j)"
    define h where "h = stored_header (length data - j = n) n out"
    have n: "n \<le> length ?d" "0 < n" using True by (simp_all add: n_def)
    have s: "stored_stream ?d = stored_bytes (length data - j = n) n @ take n ?d @ stored_stream (drop (j + n) data)"
      using True by (subst stored_stream.simps) (auto simp: n_def stored_stream.simps [of "[]"] add.commute)
    have "length (sb_items h) + n + length (stored_stream (drop (j + n) data)) \<le> sb_m h"
      using 1(2) n stored_header_room [of out "length data - j = n" n] by (simp add: s h_def stored_header_items)
    moreover from this have fits: "\<not> length (sb_items h) + n > sb_m h" by simp
    moreover have "zlib_stored data j out = zlib_stored data (j + n) (h\<lparr>sb_items := sb_items h @ take n ?d\<rparr>)"
      using True fits by (subst zlib_stored.simps) (simp add: Let_def n_def [symmetric] h_def [symmetric])
    ultimately show ?thesis
      using 1(1) [OF True n_def h_def fits] n by (simp add: s h_def stored_header_items)
  qed
qed


section \<open>Stored blocks, read\<close>

lemma fill_step:
  assumes "zbuf_ok a" and "num_bits a \<le> 24" and "zb_in a = b # r"
  shows "\<exists>a'. stbi__fill_bits a = (if num_bits a \<le> 16 then stbi__fill_bits a' else a') \<and> zbuf_ok a' \<and> num_bits a' = num_bits a + 8 \<and>
    zb_in a' = r \<and> bits_lsb (num_bits a') (code_buffer a') = bits_lsb (num_bits a) (code_buffer a) @ bits_lsb 8 b \<and> zframe a a'"
proof -
  let ?a = "a\<lparr>zb_in := r, code_buffer := code_buffer a OR push_bit (num_bits a) (ucast b), num_bits := num_bits a + 8\<rparr>"
  have "stbi__fill_bits a = (if num_bits a \<le> 16 then stbi__fill_bits ?a else ?a)"
    using fill_guard [OF assms(1,2)] assms(3) by (subst stbi__fill_bits.simps) (simp add: stbi__zget8_def Let_def)
  moreover have "zbuf_ok ?a" using fill_byte(2) [OF assms(1,2)] assms(2) by (simp add: zbuf_ok_def)
  ultimately show ?thesis using fill_byte(1) [OF assms(1,2), of b] by (intro exI [of _ ?a]) (simp add: zframe_def)
qed

lemma fill_four:
  assumes "zbuf_ok a" and "num_bits a = 0" and "zb_in a = b0 # b1 # b2 # b3 # r"
  shows "\<exists>a'. stbi__fill_bits a = a' \<and> zbuf_ok a' \<and> num_bits a' = 32 \<and> zb_in a' = r \<and>
    bits_lsb 32 (code_buffer a') = concat (map (bits_lsb 8) [b0, b1, b2, b3]) \<and> zframe a a'"
proof -
  obtain a1 where a1: "stbi__fill_bits a = stbi__fill_bits a1" "zbuf_ok a1" "num_bits a1 = 8" "zb_in a1 = b1 # b2 # b3 # r"
      "bits_lsb 8 (code_buffer a1) = bits_lsb 8 b0" "zframe a a1"
    using fill_step [OF assms(1) _ assms(3)] assms(2) by auto
  obtain a2 where a2: "stbi__fill_bits a1 = stbi__fill_bits a2" "zbuf_ok a2" "num_bits a2 = 16" "zb_in a2 = b2 # b3 # r"
      "bits_lsb 16 (code_buffer a2) = bits_lsb 8 b0 @ bits_lsb 8 b1" "zframe a1 a2"
    using fill_step [OF a1(2) _ a1(4)] a1(3,5) by auto
  obtain a3 where a3: "stbi__fill_bits a2 = stbi__fill_bits a3" "zbuf_ok a3" "num_bits a3 = 24" "zb_in a3 = b3 # r"
      "bits_lsb 24 (code_buffer a3) = bits_lsb 8 b0 @ bits_lsb 8 b1 @ bits_lsb 8 b2" "zframe a2 a3"
    using fill_step [OF a2(2) _ a2(4)] a2(3,5) by auto
  obtain a4 where a4: "stbi__fill_bits a3 = a4" "zbuf_ok a4" "num_bits a4 = 32" "zb_in a4 = r"
      "bits_lsb 32 (code_buffer a4) = bits_lsb 8 b0 @ bits_lsb 8 b1 @ bits_lsb 8 b2 @ bits_lsb 8 b3" "zframe a3 a4"
    using fill_step [OF a3(2) _ a3(4)] a3(3,5) by auto
  have "zframe a a4" using a1(6) a2(6) a3(6) a4(6) by (blast intro: zframe_trans)
  then show ?thesis using a1(1) a2(1) a3(1) a4 by (intro exI [of _ a4]) simp
qed

lemma zreceive_buffered: "n \<le> num_bits a \<Longrightarrow> snd (stbi__zreceive n a) = zdrop n a"
  by (simp add: stbi__zreceive_def zdrop_def)

lemma zdrop_zdrop: "zdrop m (zdrop n a) = zdrop (n + m) a"
  by (simp add: zdrop_def add.commute)

lemma zdrop_bits:
  assumes "bits_lsb (num_bits a) (code_buffer a) = p @ s" and "length p = n"
  shows "bits_lsb (num_bits (zdrop n a)) (code_buffer (zdrop n a)) = s"
proof -
  have n: "num_bits a = n + length s" using assms by (metis length_append length_bits_lsb)
  then have "bits_lsb n (code_buffer a) @ bits_lsb (length s) (drop_bit n (code_buffer a)) = p @ s"
    using assms(1) by (simp add: bits_lsb_add)
  then show ?thesis using assms(2) n by (simp add: zdrop_def)
qed

lemma zdrain_bytes:
  assumes "zbuf_ok a" and "bits_lsb (num_bits a) (code_buffer a) = concat (map (bits_lsb 8) bs)"
  shows "zdrain h a = (h @ bs, a\<lparr>code_buffer := 0, num_bits := 0\<rparr>)"
  using assms
proof (induction bs arbitrary: a h)
  case Nil
  then have n: "num_bits a = 0" by (metis concat.simps(1) length_bits_lsb list.map(1) list.size(3))
  then have "code_buffer a = 0" using Nil(1) by (intro bit_eqI) (simp add: zbuf_ok_def)
  then show ?case using n by (subst zdrain.simps) simp
next
  case (Cons b bs)
  have n: "8 \<le> num_bits a"
    using arg_cong [OF Cons(3), of length] by simp
  have "bits_lsb 8 (code_buffer a) = take 8 (bits_lsb (num_bits a) (code_buffer a))" using n by (simp add: min_def)
  also have "\<dots> = bits_lsb 8 b" using Cons(3) by simp
  finally have b8: "bits_lsb 8 (code_buffer a) = bits_lsb 8 b" .
  have m: "(255 :: u32) = mask 8" by (simp add: mask_eq_exp_minus_1)
  have "bits_lsb 8 (ucast (code_buffer a AND 255) :: byte) = bits_lsb 8 b"
    using b8 unfolding m by (simp add: bits_lsb_eq_iff bit_ucast_iff bit_and_iff bit_mask_iff)
  then have b: "ucast (code_buffer a AND 255) = b" by (simp add: bits_byte_inj)
  have "zdrain h a = zdrain (h @ [b]) (zdrop 8 a)" using n b by (subst zdrain.simps) (simp add: zdrop_def)
  moreover have "bits_lsb (num_bits (zdrop 8 a)) (code_buffer (zdrop 8 a)) = concat (map (bits_lsb 8) bs)"
    using Cons(3) by (intro zdrop_bits [where p = "bits_lsb 8 b"]) simp_all
  ultimately show ?case using Cons(1) [of "zdrop 8 a" "h @ [b]"] zdrop_stream(1) [OF Cons(2) n] by (simp add: zdrop_def)
qed

lemma two_bytes:
  fixes x :: u32
  shows "unat (ucast (drop_bit 8 x) :: byte) * 256 + unat (ucast x :: byte) = take_bit 16 (unat x)"
proof -
  let ?h = "unat (ucast (drop_bit 8 x) :: byte)" and ?l = "unat (ucast x :: byte)"
  have "?l < 2 ^ 8" using unsigned_less [of "ucast x :: byte"] by simp
  then have "?h * 256 + ?l = push_bit 8 ?h OR ?l" using push_bit_or [of ?l 8 ?h] by (simp add: push_bit_eq_mult)
  also have "\<dots> = take_bit 16 (unat x)"
    by (auto simp: bit_eq_iff bit_or_iff bit_push_bit_iff bit_take_bit_iff bit_unsigned_iff bit_ucast_iff bit_drop_bit_eq)
  finally show ?thesis .
qed


lemma stored_lengths:
  assumes "n \<le> 32767" and "stored_bytes final n = [f, l0, l1, m0, m1]"
  shows "unat l1 * 256 + unat l0 = n" "unat m1 * 256 + unat m0 = n XOR 0xffff"
proof -
  have e: "l0 = ucast (of_nat n :: u32)" "l1 = ucast (drop_bit 8 (of_nat n :: u32))"
    "m0 = ucast (NOT (of_nat n) :: u32)" "m1 = ucast (drop_bit 8 (NOT (of_nat n) :: u32))"
    using assms(2) by (simp_all add: stored_bytes_def Let_def)
  have n: "take_bit 16 n = n" using assms(1) by (simp add: take_bit_nat_eq_self)
  then have bn: "bit n k \<Longrightarrow> k < 16" for k by (metis bit_take_bit_iff)
  have un: "unat (of_nat n :: u32) = n" using assms(1) by (simp add: unsigned_of_nat take_bit_nat_eq_self)
  show "unat l1 * 256 + unat l0 = n" using two_bytes [of "of_nat n"] n un e by simp
  have m: "(0xffff :: nat) = mask 16" by (simp add: mask_eq_exp_minus_1)
  have "take_bit 16 (unat (NOT (of_nat n) :: u32)) = n XOR mask 16"
    by (rule bit_eqI) (auto simp: bit_take_bit_iff bit_unsigned_iff bit_not_iff bit_of_nat_iff bit_xor_iff bit_mask_iff dest: bn)
  then show "unat m1 * 256 + unat m0 = n XOR 0xffff" using two_bytes [of "NOT (of_nat n)"] e unfolding m by simp
qed

lemma stored_first_byte: "bits_lsb 8 (if final then 1 else 0 :: byte) =
   bits_lsb 1 (if final then 1 else 0 :: nat) @ bits_lsb 2 (0 :: nat) @ replicate 5 False"
  by (intro bits_lsb_eqI) (auto simp: nth_append bit_1_iff bit_Suc_0_iff less_Suc_eq numeral_eq_Suc)

text \<open>A stored block that starts with an empty bit buffer ends with one.\<close>

lemma stored_block:
  assumes "zready a" and "num_bits a = 0" and "zb_in a = stored_bytes final n @ d @ r" and "length d = n" and "n \<le> 32767"
    and "length (zb_out a) + n \<le> 2 ^ 31"
  shows "\<exists>a'. zparse_block (\<lambda>_. True) stale a = Some (Some (final, a')) \<and> zready a' \<and> num_bits a' = 0 \<and> zb_in a' = r \<and> zb_out a' = zb_out a @ d"
proof -
  define f :: byte where "f = (if final then 1 else 0)"
  define v :: nat where "v = (if final then 1 else 0)"
  obtain l0 l1 m0 m1 where b: "stored_bytes final n = [f, l0, l1, m0, m1]" by (simp add: stored_bytes_def f_def Let_def)
  note lens = stored_lengths [OF assms(5) b]
  have ok: "zbuf_ok a" using assms(1) by (simp add: zready_def)
  obtain a1 where a1: "stbi__fill_bits a = a1" "zbuf_ok a1" "num_bits a1 = 32" "zb_in a1 = m1 # d @ r"
      "bits_lsb 32 (code_buffer a1) = concat (map (bits_lsb 8) [f, l0, l1, m0])" "zframe a a1"
    using fill_four [OF ok assms(2), of f l0 l1 m0 "m1 # d @ r"] assms(3) b by auto
  have f8: "bits_lsb 8 f = bits_lsb 1 v @ bits_lsb 2 (0 :: nat) @ replicate 5 False"
    unfolding f_def v_def by (rule stored_first_byte)
  have "stbi__zreceive 1 a = stbi__zreceive 1 a1" using a1(1,3) assms(2) by (simp add: stbi__zreceive_def)
  moreover have p1: "prefix (bits_lsb 1 v @ bits_lsb 2 (0 :: nat)) (rbits a1)" using a1(3,5) f8 by (simp add: rbits_def)
  ultimately have r1: "stbi__zreceive 1 a = (v, zdrop 1 a1)"
    using zreceive_bits [OF a1(2) p1] zreceive_buffered [of 1 a1] a1(3) by (auto simp: v_def)
  have d1: "zbuf_ok (zdrop 1 a1)" "prefix (bits_lsb 2 (0 :: nat) @ []) (rbits (zdrop 1 a1))"
    using zdrop_stream [OF a1(2), of 1] a1(3) prefix_drop [OF p1] by simp_all
  have r2: "stbi__zreceive 2 (zdrop 1 a1) = (0, zdrop 3 a1)"
    using zreceive_bits [OF d1] zreceive_buffered [of 2 "zdrop 1 a1"] a1(3) by (auto simp: zdrop_def)
  have r3: "snd (stbi__zreceive 5 (zdrop 3 a1)) = zdrop 8 a1" "num_bits (zdrop 3 a1) = 29"
    using zreceive_buffered [of 5 "zdrop 3 a1"] a1(3) by (simp_all add: zdrop_zdrop) (simp_all add: zdrop_def)
  define a2 where "a2 = (zdrop 8 a1)\<lparr>code_buffer := 0, num_bits := 0\<rparr>"
  have r4: "zdrain [] (zdrop 8 a1) = ([l0, l1, m0], a2)"
    using zdrain_bytes [of "zdrop 8 a1" "[l0, l1, m0]" "[]"] zdrop_stream(1) [OF a1(2), of 8] zdrop_bits [of a1 "bits_lsb 8 f" _ 8] a1(3,5)
    by (simp add: a2_def)
  define a3 where "a3 = a2\<lparr>zb_in := d @ r\<rparr>"
  have r5: "zread_header [l0, l1, m0] a2 = ([l0, l1, m0, m1], a3)"
    using a1(4) by (simp add: zread_header.simps stbi__zget8_def a2_def a3_def zdrop_def)
  have a3: "zready a3" "zb_out a3 = zb_out a" "zb_in a3 = d @ r" "num_bits a3 = 0"
    using assms(1) a1(6) by (simp_all add: a3_def a2_def zdrop_def zready_def zframe_def zbuf_ok_def)
  obtain l where l: "0 < l" "zmake_room (\<lambda>_. True) n a3 = Some (Some (a3\<lparr>zb_limit := l\<rparr>))"
    using zmake_room_ok [OF a3(1), of n] a3(2) assms(6) by auto
  let ?a = "a3\<lparr>zb_limit := l, zb_out := zb_out a @ d, zb_in := r\<rparr>"
  have "stbi__parse_uncompressed_block (\<lambda>_. True) (zdrop 3 a1) = Some (Some ?a)"
    using r3 r4 r5 lens l(2) a3(2,3) assms(4) by (simp add: stbi__parse_uncompressed_block_def Let_def)
  then have "zparse_block (\<lambda>_. True) stale a = Some (Some (final, ?a))" using r1 r2 by (simp add: zparse_block_def v_def)
  moreover have "zready ?a" using a3(1) l(1) by (simp add: zready_def zbuf_ok_def)
  ultimately show ?thesis using a3(4) by simp
qed


lemma zparse_blocks_final: "zparse_block alloc stale a = Some (Some (True, a')) \<Longrightarrow> zparse_blocks alloc stale a = Some (Some a')"
  by (subst zparse_blocks.simps) simp

lemma zparse_blocks_more:
  "zparse_block alloc stale a = Some (Some (False, a')) \<Longrightarrow> zparse_blocks alloc stale a = zparse_blocks alloc stale a'"
  by (subst zparse_blocks.simps) simp

lemma stored_blocks:
  assumes "zready a" and "num_bits a = 0" and "zb_in a = stored_stream d @ r" and "d \<noteq> []" and "length (zb_out a) + length d \<le> 2 ^ 31"
  shows "\<exists>a'. zparse_blocks (\<lambda>_. True) stale a = Some (Some a') \<and> zb_out a' = zb_out a @ d"
  using assms
proof (induction d arbitrary: a rule: stored_stream.induct)
  case (1 d)
  show ?case
  proof (cases "length d \<le> 32767")
    case True
    have "zb_in a = stored_bytes True (length d) @ d @ r" using 1(4,5) True by (simp add: stored_stream.simps [of d])
    then obtain a' where "zparse_block (\<lambda>_. True) stale a = Some (Some (True, a'))" "zb_out a' = zb_out a @ d"
      using stored_block [OF 1(2,3) _ refl True 1(6)] by blast
    then show ?thesis using zparse_blocks_final by blast
  next
    case False
    let ?h = "take 32767 d" and ?t = "drop 32767 d"
    have h: "length ?h = 32767" and t: "?t \<noteq> []" using False by simp_all
    have "zb_in a = stored_bytes False 32767 @ ?h @ stored_stream ?t @ r" using 1(4,5) False by (simp add: stored_stream.simps [of d])
    moreover have "length (zb_out a) + 32767 \<le> 2 ^ 31" using 1(6) False by simp
    ultimately obtain a1 where a1: "zparse_block (\<lambda>_. True) stale a = Some (Some (False, a1))" "zready a1" "num_bits a1 = 0"
        "zb_in a1 = stored_stream ?t @ r" "zb_out a1 = zb_out a @ ?h"
      using stored_block [OF 1(2,3) _ h order_refl] by blast
    have "length (zb_out a1) + length ?t \<le> 2 ^ 31" using 1(6) a1(5) False by simp
    then obtain a' where "zparse_blocks (\<lambda>_. True) stale a1 = Some (Some a')" "zb_out a' = zb_out a1 @ ?t"
      using 1(1) [OF 1(5) False a1(2-4) t] by blast
    then show ?thesis using zparse_blocks_more [OF a1(1)] a1(5) by simp
  qed
qed

section \<open>The round trip\<close>

lemma parse_zlib_header:
  "r \<noteq> [] \<Longrightarrow> stbi__parse_zlib_header (a\<lparr>zb_in := 0x78 # 0x5e # r\<rparr>) = Some (a\<lparr>zb_in := r\<rparr>)"
  by (simp add: stbi__parse_zlib_header_def stbi__zget8_def stbi__zeof_def)

lemma decode_bytes:
  assumes "0 < n0" and "r \<noteq> []"
    and "\<And>a. zready a \<Longrightarrow> num_bits a = 0 \<Longrightarrow> code_buffer a = 0 \<Longrightarrow> zb_in a = r \<Longrightarrow> zb_out a = [] \<Longrightarrow>
       \<exists>a'. zparse_blocks (\<lambda>_. True) stale a = Some (Some a') \<and> zb_out a' = data"
  shows "stbi_zlib_decode_malloc_guesssize_headerflag (\<lambda>_. True) stale (0x78 # 0x5e # r) n0 True = Some (Some data)"
proof -
  let ?a = "\<lparr>zb_in = r, num_bits = 0, hit_zeof_once = False, code_buffer = 0, zb_out = [], zb_limit = n0,
              z_expandable = True, z_length = stale, z_distance = stale\<rparr>"
  have "zready ?a" using assms(1) by (simp add: zready_def zbuf_ok_def)
  then obtain a' where "zparse_blocks (\<lambda>_. True) stale ?a = Some (Some a')" "zb_out a' = data"
    using assms(3) [of ?a] by auto
  then show ?thesis
    using parse_zlib_header [OF assms(2), of ?a] by (simp add: stbi_zlib_decode_malloc_guesssize_headerflag_def stbi__parse_zlib_def)
qed

lemma compress_decode:
  assumes "data \<noteq> []" and "length data < 2 ^ 31" and "0 < n0"
  shows "\<exists>bytes. stbi_zlib_compress (\<lambda>_. True) data q = Some (Some bytes) \<and>
     length bytes \<le> length data + 6 + (length data + 32766) div 32767 * 5 \<and>
     stbi_zlib_decode_malloc_guesssize_headerflag (\<lambda>_. True) stale bytes n0 True = Some (Some data)"
proof -
  define q' where "q' = nat (if q < 5 then 5 else q)"
  define w0 where "w0 = stbiw__zlib_add 1 2 (stbiw__zlib_add 1 1
      \<lparr>zw_out = stbiw__sbpush 0x5e (stbiw__sbpush 0x78 sb_null), zw_bitbuf = 0, zw_bitcount = 0\<rparr>)"
  obtain i w where loop: "zlib_loop q' data 0 (\<lambda>_. []) w0 = (i, w)" by fastforce
  define out where "out = zw_out (zlib_pad (stbiw__zlib_huff 256 (fold (\<lambda>i. stbiw__zlib_huffb (unat (data ! i))) [i..<length data] w)))"
  obtain ts k rest where c: "expands ts [] = Some data" "sb_items out = 0x78 # 0x5e # rest" "sb_wf out"
      "concat (map (bits_lsb 8) rest) =
         bits_lsb 1 (1 :: nat) @ bits_lsb 2 (1 :: nat) @ concat (map token_bits ts) @ code_bits fixed_lengths 256 @ replicate k False"
    using compressed_bits [OF loop [unfolded w0_def]] unfolding out_def by blast
  obtain s1 s2 where adler: "stbiw_adler32 data = (s1, s2)" by fastforce
  define tail :: "byte list" where "tail = [ucast (drop_bit 8 s2), ucast s2, ucast (drop_bit 8 s1), ucast s1]"
  define fallback where "fallback = (if length (sb_items out) > length data + 2 + (length data + 32766) div 32767 * 5
      then zlib_stored data 0 (out\<lparr>sb_items := take 2 (sb_items out)\<rparr>) else Some out)"
  have compress: "stbi_zlib_compress (\<lambda>_. True) data q = (case fallback of None \<Rightarrow> None | Some out \<Rightarrow> Some (Some (sb_items out @ tail)))"
    using loop adler unfolding stbi_zlib_compress_def Let_def q'_def [symmetric] w0_def [symmetric]
    by (auto simp: Let_def out_def [symmetric] fallback_def tail_def split: option.split)
  show ?thesis
  proof (cases "length (sb_items out) > length data + 2 + (length data + 32766) div 32767 * 5")
    case True
    obtain out' where out': "fallback = Some out'" "sb_items out' = 0x78 # 0x5e # stored_stream data"
      using zlib_stored_stream [of "out\<lparr>sb_items := take 2 (sb_items out)\<rparr>" 0 data] True c(2,3)
      by (auto simp: fallback_def length_stored_stream sb_wf_def)
    have "stbi_zlib_decode_malloc_guesssize_headerflag (\<lambda>_. True) stale (0x78 # 0x5e # stored_stream data @ tail) n0 True = Some (Some data)"
    proof (rule decode_bytes [OF assms(3)])
      show "\<exists>a'. zparse_blocks (\<lambda>_. True) stale a = Some (Some a') \<and> zb_out a' = data"
        if "zready a" "num_bits a = 0" "zb_in a = stored_stream data @ tail" "zb_out a = []" for a
        using stored_blocks [OF that(1-3) assms(1)] that(4) assms(2) by simp
    qed (simp add: tail_def)
    then show ?thesis using compress out' by (simp add: length_stored_stream tail_def)
  next
    case False
    have "stbi_zlib_decode_malloc_guesssize_headerflag (\<lambda>_. True) stale (0x78 # 0x5e # rest @ tail) n0 True = Some (Some data)"
    proof (rule decode_bytes [OF assms(3)])
      fix a assume a: "zready a" "num_bits a = 0" "zb_in a = rest @ tail" "zb_out a = []"
      have "16 \<le> length (replicate k False @ concat (map (bits_lsb 8) tail))" by (simp add: tail_def)
      moreover have "prefix (bits_lsb 1 (1 :: nat) @ bits_lsb 2 (1 :: nat) @ concat (map token_bits ts) @ code_bits fixed_lengths 256 @
          replicate k False @ concat (map (bits_lsb 8) tail)) (rbits a)" using a(2,3) c(4) by (simp add: rbits_def)
      ultimately show "\<exists>a'. zparse_blocks (\<lambda>_. True) stale a = Some (Some a') \<and> zb_out a' = data"
        using fixed_block [OF a(1), of ts data] a(4) c(1) assms(2) zparse_blocks_final by (metis less_imp_le_nat)
    qed (simp add: tail_def)
    then show ?thesis using compress False c(2) by (simp add: fallback_def tail_def)
  qed
qed

text \<open>
  C9. What \<open>stbi_zlib_compress\<close> writes, as one block of fixed codes or as stored blocks, is at most
  eleven bytes and five for every further 32767 bytes longer than the data, and the decoder of
  \<open>stb_image.h\<close> returns the data exactly, for every quality and every first size of its output
  block. (Empty data is written without any block and is not decoded.)
\<close>

theorem zlib_roundtrip:
  assumes "data \<noteq> []" and "length data < 2 ^ 31" and "0 < n0"
  shows "\<exists>bytes. stbi_zlib_compress (\<lambda>_. True) data q = Some (Some bytes) \<and>
     length bytes \<le> length data + 6 + (length data + 32766) div 32767 * 5 \<and>
     stbi_zlib_decode_malloc_guesssize_headerflag (\<lambda>_. True) stale bytes n0 True = Some (Some data)"
  by (rule compress_decode [OF assms])

definition blank_huffman :: stbi__zhuffman where
  "blank_huffman = \<lparr>zh_fast = (\<lambda>_. 0), zh_firstcode = (\<lambda>_. 0), zh_maxcode = (\<lambda>_. 0), zh_firstsymbol = (\<lambda>_. 0),
     zh_size = (\<lambda>_. 0), zh_value = (\<lambda>_. 0)\<rparr>"

theorem zlib_roundtrip_witness:
  "\<exists>bytes. stbi_zlib_compress (\<lambda>_. True) [1, 2, 3, 1, 2, 3, 1, 2, 3, 7] 8 = Some (Some bytes) \<and> length bytes \<le> 21 \<and>
     stbi_zlib_decode_malloc_guesssize_headerflag (\<lambda>_. True) blank_huffman bytes 4 True = Some (Some [1, 2, 3, 1, 2, 3, 1, 2, 3, 7])"
  using zlib_roundtrip [of "[1, 2, 3, 1, 2, 3, 1, 2, 3, 7]" 4 8 blank_huffman] by simp

end
