(* ===== verification/PngTrip.thy ===== *)
theory PngTrip
  imports PngRead PngWrite ZlibCodec
begin

text \<open>
  A picture written by \<open>stbi_write_png_to_mem\<close> of \<open>src/common/stb_image_write.h\<close> is loaded by the PNG
  loader of \<open>src/common/stb_image.h\<close> with its size, its channels and its pixels.
\<close>

section \<open>Lines\<close>

lemma length_encode_line:
  assumes "stride_bytes * (height - 1) + width * n \<le> length pixels" and "y < height" and "0 < width" and "ft < 5"
  shows "length (stbiw__encode_png_line flip pixels stride_bytes width height y n ft) = width * n"
  using encode_line_filtered [OF assms] length_picture_row [OF assms(1,2)] assms(3) by simp

lemma png_line_bytes:
  assumes "stride_bytes * (y - 1) + x * n \<le> length pixels" and "j < y" and "0 < x" and "-1 \<le> force_png_filter opts"
  shows "length (png_line opts pixels stride_bytes x y n j) = x * n + 1"
proof -
  obtain ft where "ft < 5" "png_line opts pixels stride_bytes x y n j =
      of_nat ft # stbiw__encode_png_line (flip_on_write opts) pixels stride_bytes x y j n ft"
    using png_line_shape [OF assms] .
  then show ?thesis using length_encode_line [OF assms(1-3)] by simp
qed

lemma length_concat_const: "(\<And>a. a \<in> set l \<Longrightarrow> length (f a) = k) \<Longrightarrow> length (concat (map f l)) = length l * k"
  by (induction l) simp_all

lemma length_png_lines:
  assumes "stride_bytes * (y - 1) + x * n \<le> length pixels" and "0 < x" and "-1 \<le> force_png_filter opts"
  shows "length (png_lines opts pixels stride_bytes x y n) = (x * n + 1) * y"
  unfolding png_lines_def using png_line_bytes [OF assms(1) _ assms(2,3)]
  by (subst length_concat_const [where k = "x * n + 1"]) (simp_all add: mult.commute)

lemma png_rows_lines:
  assumes "stride_bytes * (y - 1) + x * n \<le> length pixels" and "0 < x" and "0 < n" and "-1 \<le> force_png_filter opts"
    and "j \<le> y" and "0 < j \<Longrightarrow> prior = picture_row (flip_on_write opts) pixels stride_bytes (x * n) y (j - 1)"
  shows "png_rows n (x * n) (y - j) (j = 0) (concat (map (png_line opts pixels stride_bytes x y n) [j..<y])) prior =
     Some (map (picture_row (flip_on_write opts) pixels stride_bytes (x * n) y) [j..<y])"
  using assms(5,6)
proof (induction "y - j" arbitrary: j prior)
  case (Suc k)
  let ?row = "picture_row (flip_on_write opts) pixels stride_bytes (x * n) y"
  let ?rest = "concat (map (png_line opts pixels stride_bytes x y n) [Suc j..<y])"
  have j: "j < y" using Suc(2) by simp
  obtain ft where ft: "ft < 5" "png_line opts pixels stride_bytes x y n j =
      of_nat ft # stbiw__encode_png_line (flip_on_write opts) pixels stride_bytes x y j n ft"
    using png_line_shape [OF assms(1) j assms(2,4)] .
  let ?enc = "stbiw__encode_png_line (flip_on_write opts) pixels stride_bytes x y j n ft"
  have u: "unat (of_nat ft :: byte) = ft" using ft(1) by (simp add: unsigned_of_nat take_bit_nat_eq_self)
  have cur: "unfilter_line ((if j = 0 then first_row_filter else later_row_filter) ! ft) n (x * n) (?enc @ ?rest) prior = ?row j"
    using line_roundtrip [OF assms(1) j assms(2,3) ft(1), of prior "flip_on_write opts" ?rest] Suc(4) by simp
  have "png_rows n (x * n) (y - Suc j) (Suc j = 0) ?rest (?row j) = Some (map ?row [Suc j..<y])"
    using Suc(2) j by (intro Suc(1)) simp_all
  moreover have "y - j = Suc (y - Suc j)" "[j..<y] = j # [Suc j..<y]" using j by (simp_all add: upt_conv_Cons)
  ultimately show ?case
    using ft u cur length_encode_line [OF assms(1) j assms(2) ft(1), of "flip_on_write opts"] by simp
qed simp

section \<open>Fields\<close>

lemma length_wp32 [simp]: "length (stbiw__wp32 v) = 4"
  by (simp add: stbiw__wp32_def stbiw__wpng4_def)

lemma wp32_value: "stbiw__wp32 v = [a, b, c, d] \<Longrightarrow> (unat a * 2 ^ 8 + unat b) * 2 ^ 16 + (unat c * 2 ^ 8 + unat d) = unat v"
proof -
  assume "stbiw__wp32 v = [a, b, c, d]"
  then have e: "a = ucast (drop_bit 8 (drop_bit 16 v))" "b = ucast (drop_bit 16 v)" "c = ucast (drop_bit 8 v)" "d = ucast v"
    by (simp_all add: stbiw__wp32_def stbiw__wpng4_def)
  have lo: "unat c * 2 ^ 8 + unat d = take_bit 16 (unat v)" using two_bytes [of v] e by simp
  have hi: "unat a * 2 ^ 8 + unat b = take_bit 16 (unat (drop_bit 16 v))" using two_bytes [of "drop_bit 16 v"] e by simp
  have "unat (drop_bit 16 v) = drop_bit 16 (unat v)" by (rule bit_eqI) (simp add: bit_unsigned_iff bit_drop_bit_eq)
  then have "unat (drop_bit 16 v) = unat v div 2 ^ 16" by (simp only: drop_bit_eq_div)
  moreover have "unat v < 2 ^ 32" using unsigned_less [of v] by simp
  ultimately show ?thesis unfolding lo hi by (simp add: take_bit_eq_mod)
qed

abbreviation ctx :: "nat \<Rightarrow> nat \<Rightarrow> nat \<Rightarrow> nat \<Rightarrow> byte list \<Rightarrow> byte list \<Rightarrow> stbi__context" where
  "ctx x y n m buf orig \<equiv> \<lparr>img_x = x, img_y = y, img_n = n, img_out_n = m, img_buffer = buf, img_buffer_original = orig\<rparr>"

lemma get32be_wp32: "stbi__get32be (ctx x y n m (stbiw__wp32 v @ r) orig) = (unat v, ctx x y n m r orig)"
proof -
  obtain a b c d where e: "stbiw__wp32 v = [a, b, c, d]" by (simp add: stbiw__wp32_def stbiw__wpng4_def)
  then show ?thesis using wp32_value [OF e] get32be_Cons [of "ctx x y n m (stbiw__wp32 v @ r) orig" a b c d r] by simp
qed

lemma get32be_last: "stbi__get32be (ctx x y n m (stbiw__wp32 v) orig) = (unat v, ctx x y n m [] orig)"
  using get32be_wp32 [of x y n m v "[]"] by simp

lemma get8_byte: "stbi__get8 (ctx x y n m (b # r) orig) = (b, ctx x y n m r orig)"
  by (simp add: stbi__get8_def)

lemma tag_bytes:
  "stbiw__wptag ''IHDR'' = [73, 72, 68, 82]" "stbiw__wptag ''IDAT'' = [73, 68, 65, 84]" "stbiw__wptag ''IEND'' = [73, 69, 78, 68]"
  by (simp_all add: stbiw__wptag_def stbiw__wpng4_def bytes_of_str_def Let_def)

lemma get_tag:
  "stbi__get32be (ctx x y n m (stbiw__wptag ''IHDR'' @ r) orig) = (0x49484452, ctx x y n m r orig)"
  "stbi__get32be (ctx x y n m (stbiw__wptag ''IDAT'' @ r) orig) = (0x49444154, ctx x y n m r orig)"
  "stbi__get32be (ctx x y n m (stbiw__wptag ''IEND'' @ r) orig) = (0x49454E44, ctx x y n m r orig)"
  by (simp_all add: tag_bytes stbi__get32be_def stbi__get16be_def stbi__get8_def)

lemma type_values:
  "png_type ''CgBI'' = 0x43674249" "png_type ''IHDR'' = 0x49484452" "png_type ''PLTE'' = 0x504C5445"
  "png_type ''tRNS'' = 0x74524E53" "png_type ''IDAT'' = 0x49444154" "png_type ''IEND'' = 0x49454E44"
  by (simp_all add: png_type_def STBI__PNG_TYPE_def)


section \<open>Chunks\<close>

lemma image_fits:
  fixes x y n :: nat
  assumes "0 < x" and "0 < n" and "x * n * y \<le> 2 ^ 30"
  shows "\<not> 2 ^ 30 div x div n < y"
proof -
  have "0 < x * n" using assms by simp
  then have "y \<le> 2 ^ 30 div (x * n)" using assms(3) by (simp add: less_eq_div_iff_mult_less_eq mult.commute)
  then show ?thesis by (simp add: div_mult2_eq)
qed

lemma colour_type:
  assumes "n \<in> {1, 2, 3, 4}"
  shows "\<not> bit (png_ctype ! n) 0" "png_ctype ! n \<noteq> 3" "\<not> 6 < png_ctype ! n"
    "(if bit (png_ctype ! n) 1 then 3 else 1) + (if bit (png_ctype ! n) 2 then 1 else 0) = n"
  using assms by (auto simp: png_ctype_def)

lemma next_ihdr:
  assumes "n \<in> {1, 2, 3, 4}" and "0 < x" and "x \<le> 2 ^ 24" and "0 < y" and "y \<le> 2 ^ 24" and "x * n * y \<le> 2 ^ 30" and "pz_first z"
    and "pz_s z = ctx a b c d (stbiw__wp32 13 @ stbiw__wptag ''IHDR'' @ stbiw__wp32 (of_nat x) @ stbiw__wp32 (of_nat y) @
       8 # png_ctype ! n # 0 # 0 # 0 # stbiw__wp32 crc @ r) orig"
  shows "png_next_chunk env opts scan req z = PngNext (z\<lparr>pz_first := False, pz_s := ctx x y n d r orig, pz_depth := 8,
     pz_color := unat (png_ctype ! n), pz_pal_img_n := 0, pz_interlace := False\<rparr>)"
proof -
  have u: "unat (of_nat x :: u32) = x" "unat (of_nat y :: u32) = y" using assms(3,5) by (simp_all add: unsigned_of_nat take_bit_nat_eq_self)
  have d: "\<not> STBI_MAX_DIMENSIONS < x" "\<not> STBI_MAX_DIMENSIONS < y" using assms(3,5) by (simp_all add: STBI_MAX_DIMENSIONS_def)
  have n: "0 < n" using assms(1) by auto
  note c = colour_type [OF assms(1)] and f = image_fits [OF assms(2) n assms(6)]
  have "png_ihdr 13 (z\<lparr>pz_s := ctx a b c d (stbiw__wp32 (of_nat x) @ stbiw__wp32 (of_nat y) @ 8 # png_ctype ! n # 0 # 0 # 0 # stbiw__wp32 crc @ r) orig\<rparr>) =
      PngNext (z\<lparr>pz_first := False, pz_s := ctx x y n d (stbiw__wp32 crc @ r) orig, pz_depth := 8,
        pz_color := unat (png_ctype ! n), pz_pal_img_n := 0, pz_interlace := False\<rparr>)"
    using assms(2,4,7) c d f unfolding png_ihdr_def by (simp add: get32be_wp32 get8_byte u)
  then show ?thesis
    by (simp add: png_next_chunk_def stbi__get_chunk_header_def assms(8) get32be_wp32 get_tag png_chunk_def type_values)
qed

lemma next_idat:
  assumes "\<not> pz_first z" and "pz_pal_img_n z = 0" and "pz_idata z = None" and "pz_idata_limit z = 0" and "pe_alloc env = (\<lambda>_. True)"
    and "0 < length zlib" and "length zlib \<le> 2 ^ 30"
    and "pz_s z = ctx x y n d (stbiw__wp32 (of_nat (length zlib)) @ stbiw__wptag ''IDAT'' @ zlib @ stbiw__wp32 crc @ r) orig"
  shows "\<exists>l. png_next_chunk env opts STBI__SCAN_load req z =
    PngNext (z\<lparr>pz_idata_limit := l, pz_idata := Some zlib, pz_s := ctx x y n d r orig\<rparr>)"
proof -
  have u: "unat (of_nat (length zlib) :: u32) = length zlib" using assms(7) by (simp add: unsigned_of_nat take_bit_nat_eq_self)
  have i: "c_int (int (length zlib)) = int (length zlib)" "c_int 0 = 0" using assms(7) by (simp_all add: c_int_id)
  have "\<exists>l. png_idat (pe_alloc env) STBI__SCAN_load (length zlib) (z\<lparr>pz_s := ctx x y n d (zlib @ stbiw__wp32 crc @ r) orig\<rparr>) =
      PngNext (z\<lparr>pz_s := ctx x y n d (stbiw__wp32 crc @ r) orig, pz_idata_limit := l, pz_idata := Some zlib\<rparr>)"
    using assms(1-7) i by (auto simp: png_idat_def stbi__getn_def Let_def)
  then show ?thesis
    by (auto simp: png_next_chunk_def stbi__get_chunk_header_def assms(8) get32be_wp32 get_tag png_chunk_def type_values u)
qed


lemma mul2_valid: "a * b < 2 ^ 31 \<Longrightarrow> stbi__mul2sizes_valid (int a) (int b)"
proof -
  assume ab: "a * b < 2 ^ 31"
  have "a \<le> (2 ^ 31 - 1) div b" if "0 < b" using ab that by (simp add: less_eq_div_iff_mult_less_eq)
  then have "int a \<le> int ((2 ^ 31 - 1) div b)" if "0 < b" using that by simp
  then show ?thesis by (cases "b = 0") (simp_all add: stbi__mul2sizes_valid_def zdiv_int)
qed

lemma mad2_valid: "a * b + c < 2 ^ 31 \<Longrightarrow> stbi__mad2sizes_valid (int a) (int b) (int c)"
proof -
  assume abc: "a * b + c < 2 ^ 31"
  then have "int (a * b + c) < int (2 ^ 31)" by (simp only: of_nat_less_iff)
  moreover have "a * b < 2 ^ 31" using abc by linarith
  ultimately show ?thesis using mul2_valid [of a b] by (simp add: stbi__mad2sizes_valid_def stbi__addsizes_valid_def)
qed

lemma mad3_valid:
  assumes "a * b * c + d < 2 ^ 31" and "0 < c"
  shows "stbi__mad3sizes_valid (int a) (int b) (int c) (int d)"
proof -
  have "a * b \<le> a * b * c" using assms(2) by simp
  then have "a * b < 2 ^ 31" using assms(1) by linarith
  then show ?thesis
    using mul2_valid [of a b] mad2_valid [of "a * b" c d] assms(1)
    by (simp add: stbi__mad3sizes_valid_def stbi__mad2sizes_valid_def)
qed

lemma raw_image_lines:
  assumes "n \<in> {1, 2, 3, 4}" and "0 < x" and "x \<le> 2 ^ 24" and "0 < y" and "x * n * y \<le> 2 ^ 30"
    and "stride_bytes * (y - 1) + x * n \<le> length px" and "-1 \<le> force_png_filter opts"
  shows "stbi__create_png_image_raw (\<lambda>_. True) (png_row8 8 color n n) n (png_lines opts px stride_bytes x y n) n x y 8 =
    Some (concat (map (picture_row (flip_on_write opts) px stride_bytes (x * n) y) [0..<y]))"
proof -
  let ?rows = "map (picture_row (flip_on_write opts) px stride_bytes (x * n) y) [0..<y]"
  have n: "0 < n" "n \<le> 4" using assms(1) by auto
  have w: "png_width_bytes n x 8 = x * n" by (simp add: png_width_bytes_def mult.commute)
  have xn: "x * n \<le> 2 ^ 26" using mult_le_mono [OF assms(3) n(2)] by simp
  have "png_rows n (x * n) y True (png_lines opts px stride_bytes x y n) [] = Some ?rows"
    using png_rows_lines [OF assms(6,2) n(1) assms(7), of 0 "[]"] by (simp add: png_lines_def)
  moreover have "concat (map (png_row8 8 color n n x) ?rows) = concat ?rows"
    using length_picture_row [OF assms(6)] by (intro arg_cong [where f = concat] map_idI) (auto simp: png_row8_def)
  moreover have "length (png_lines opts px stride_bytes x y n) = (x * n + 1) * y" by (rule length_png_lines [OF assms(6,2,7)])
  moreover have "stbi__malloc_mad3 (\<lambda>_. True) (int x) (int y) (int (n * 1)) 0"
    using mad3_valid [of x y n 0] assms(5) n(1) by (simp add: stbi__malloc_mad3_def ac_simps)
  moreover have "stbi__mad3sizes_valid (int n) (int x) 8 7"
    using mad3_valid [of n x 8 7] xn by (simp add: mult.commute)
  moreover have "stbi__mad2sizes_valid (int (x * n)) (int y) (int (x * n))"
    using xn assms(5) by (intro mad2_valid) simp
  moreover have "stbi__malloc_mad2 (\<lambda>_. True) (int (x * n)) 2 0"
    using mad2_valid [of "x * n" 2 0] xn by (simp add: stbi__malloc_mad2_def mult.commute [of n x])
  ultimately show ?thesis unfolding stbi__create_png_image_raw_def Let_def w by simp
qed


lemma next_iend:
  assumes "\<not> pz_first z" and "pz_pal_img_n z = 0" and "\<not> pz_has_trans z" and "\<not> pz_is_iphone z" and "\<not> pz_interlace z" and "pz_depth z = 8"
    and "pz_idata z = Some zlib" and "pe_alloc env = (\<lambda>_. True)" and "req = 0 \<or> req = n"
    and "pz_s z = ctx x y n d (stbiw__wp32 0 @ stbiw__wptag ''IEND'' @ stbiw__wp32 crc) orig"
    and "0 < x" and "0 < y" and "0 < n" and "(x * n + 1) * y < 2 ^ 31"
    and "stbi_zlib_decode_malloc_guesssize_headerflag (\<lambda>_. True) (pe_tables env) zlib ((x * n + 1) * y) True = Some (Some lines)"
    and "stbi__create_png_image_raw (\<lambda>_. True) (png_row8 8 (pz_color z) n n) n lines n x y 8 = Some out"
  shows "\<exists>z'. png_next_chunk env opts STBI__SCAN_load req z = PngDone z' \<and> pz_out z' = S8 out \<and> pz_s z' = ctx x y n n [] orig"
proof -
  let ?z = "z\<lparr>pz_s := ctx x y n d (stbiw__wp32 crc) orig\<rparr>"
  have "size_of_u32 (x * y * n + y) = (x * n + 1) * y" using assms(14) by (simp add: size_of_u32_def algebra_simps)
  moreover have "png_finish env opts req lines ?z = Some (?z\<lparr>pz_out := S8 out, pz_s := ctx x y n n (stbiw__wp32 crc) orig\<rparr>)"
    using assms(2-6,8,9,16) by (auto simp: png_finish_def stbi__create_png_image_def png_image_def Let_def)
  ultimately have "png_iend env opts STBI__SCAN_load req ?z = PngDone (?z\<lparr>pz_out := S8 out, pz_s := ctx x y n n [] orig\<rparr>)"
    using assms(1,4,6,7,8,15) by (simp add: png_iend_def get32be_last)
  then have "png_next_chunk env opts STBI__SCAN_load req z = PngDone (?z\<lparr>pz_out := S8 out, pz_s := ctx x y n n [] orig\<rparr>)"
    by (simp add: png_next_chunk_def stbi__get_chunk_header_def assms(10) get32be_wp32 get_tag png_chunk_def type_values)
  then show ?thesis by simp
qed

section \<open>The round trip\<close>

lemma check_signature: "stbi__check_png_header (ctx x y n m (png_sig @ r) orig) = (True, ctx x y n m r orig)"
  by (simp add: stbi__check_png_header_def png_sig_def get8_byte)

text \<open>The file the writer produces around its compressed lines.\<close>

definition png_file :: "nat \<Rightarrow> nat \<Rightarrow> nat \<Rightarrow> byte list \<Rightarrow> byte list" where
  "png_file x y n zlib =
     (let h = png_sig @ stbiw__wp32 13 @ stbiw__wptag ''IHDR'' @ stbiw__wp32 (of_nat x) @ stbiw__wp32 (of_nat y) @ [8, png_ctype ! n, 0, 0, 0];
          h = stbiw__wpcrc 13 h;
          h = stbiw__wpcrc (length zlib) (h @ stbiw__wp32 (of_nat (length zlib)) @ stbiw__wptag ''IDAT'' @ zlib)
      in stbiw__wpcrc 0 (h @ stbiw__wp32 0 @ stbiw__wptag ''IEND''))"

lemma png_file_chunks:
  obtains c1 c2 c3 where "png_file x y n zlib =
     png_sig @ stbiw__wp32 13 @ stbiw__wptag ''IHDR'' @ stbiw__wp32 (of_nat x) @ stbiw__wp32 (of_nat y) @
     8 # png_ctype ! n # 0 # 0 # 0 # stbiw__wp32 c1 @
     stbiw__wp32 (of_nat (length zlib)) @ stbiw__wptag ''IDAT'' @ zlib @ stbiw__wp32 c2 @
     stbiw__wp32 0 @ stbiw__wptag ''IEND'' @ stbiw__wp32 c3"
proof -
  have crc: "\<exists>c. stbiw__wpcrc len d = d @ stbiw__wp32 c" for len d by (auto simp: stbiw__wpcrc_def)
  let ?h = "png_sig @ stbiw__wp32 13 @ stbiw__wptag ''IHDR'' @ stbiw__wp32 (of_nat x) @ stbiw__wp32 (of_nat y) @ [8, png_ctype ! n, 0, 0, 0]"
  obtain c1 where c1: "stbiw__wpcrc 13 ?h = ?h @ stbiw__wp32 c1" using crc by blast
  let ?i = "(?h @ stbiw__wp32 c1) @ stbiw__wp32 (of_nat (length zlib)) @ stbiw__wptag ''IDAT'' @ zlib"
  obtain c2 where c2: "stbiw__wpcrc (length zlib) ?i = ?i @ stbiw__wp32 c2" using crc by blast
  let ?j = "(?i @ stbiw__wp32 c2) @ stbiw__wp32 0 @ stbiw__wptag ''IEND''"
  obtain c3 where c3: "stbiw__wpcrc 0 ?j = ?j @ stbiw__wp32 c3" using crc by blast
  have "png_file x y n zlib = ?j @ stbiw__wp32 c3" unfolding png_file_def Let_def c1 c2 c3 ..
  then show ?thesis by (intro that [of c1 c2 c3]) (simp only: append_assoc append_Cons append_Nil)
qed

lemma parse_png_file_written:
  assumes "n \<in> {1, 2, 3, 4}" and "0 < x" and "x \<le> 2 ^ 24" and "0 < y" and "y \<le> 2 ^ 24" and "x * n * y \<le> 2 ^ 30"
    and "pe_alloc env = (\<lambda>_. True)" and "req = 0 \<or> req = n" and "0 < length zlib" and "length zlib \<le> 2 ^ 30"
    and "stbi_zlib_decode_malloc_guesssize_headerflag (\<lambda>_. True) (pe_tables env) zlib ((x * n + 1) * y) True = Some (Some lines)"
    and "\<And>color. stbi__create_png_image_raw (\<lambda>_. True) (png_row8 8 color n n) n lines n x y 8 = Some out"
  shows "\<exists>z orig. stbi__parse_png_file env opts STBI__SCAN_load req (stbi__start_mem (png_file x y n zlib)) = Some (Some z) \<and>
     pz_out z = S8 out \<and> pz_s z = ctx x y n n [] orig"
proof -
  obtain c1 c2 c3 where f: "png_file x y n zlib =
     png_sig @ stbiw__wp32 13 @ stbiw__wptag ''IHDR'' @ stbiw__wp32 (of_nat x) @ stbiw__wp32 (of_nat y) @
     8 # png_ctype ! n # 0 # 0 # 0 # stbiw__wp32 c1 @
     stbiw__wp32 (of_nat (length zlib)) @ stbiw__wptag ''IDAT'' @ zlib @ stbiw__wp32 c2 @
     stbiw__wp32 0 @ stbiw__wptag ''IEND'' @ stbiw__wp32 c3" by (rule png_file_chunks)
  define orig where "orig = png_file x y n zlib"
  define r2 where "r2 = stbiw__wp32 0 @ stbiw__wptag ''IEND'' @ stbiw__wp32 c3"
  define r1 where "r1 = stbiw__wp32 (of_nat (length zlib)) @ stbiw__wptag ''IDAT'' @ zlib @ stbiw__wp32 c2 @ r2"
  define s0 where "s0 = ctx 0 0 0 0 (stbiw__wp32 13 @ stbiw__wptag ''IHDR'' @ stbiw__wp32 (of_nat x) @ stbiw__wp32 (of_nat y) @
      8 # png_ctype ! n # 0 # 0 # 0 # stbiw__wp32 c1 @ r1) orig"
  define z1 where "z1 = (png_start env s0)\<lparr>pz_first := False, pz_s := ctx x y n 0 r1 orig, pz_depth := 8,
     pz_color := unat (png_ctype ! n), pz_pal_img_n := 0, pz_interlace := False\<rparr>"
  have start: "stbi__check_png_header (stbi__start_mem (png_file x y n zlib)) = (True, s0)"
    using check_signature unfolding stbi__start_mem_def orig_def [symmetric] by (simp add: orig_def f s0_def r1_def r2_def)
  have n: "0 < n" "n \<le> 4" using assms(1) by auto
  have first: "png_next_chunk env opts STBI__SCAN_load req (png_start env s0) = PngNext z1"
    unfolding z1_def using assms(1-6) by (intro next_ihdr [where crc = c1 and a = 0 and b = 0 and c = 0]) (simp_all add: png_start_def s0_def)
  obtain l where second: "png_next_chunk env opts STBI__SCAN_load req z1 =
      PngNext (z1\<lparr>pz_idata_limit := l, pz_idata := Some zlib, pz_s := ctx x y n 0 r2 orig\<rparr>)" (is "_ = PngNext ?z2")
    using next_idat [of z1 env zlib x y n 0 c2 r2 orig opts req] assms(7,9,10) by (auto simp: z1_def png_start_def r1_def)
  have "x \<le> x * n * y" using n(1) assms(4) by simp
  have "y \<le> x * n * y" using n(1) assms(2) by simp
  then have "(x * n + 1) * y < 2 ^ 31" using assms(5,6) by simp
  then obtain z where third: "png_next_chunk env opts STBI__SCAN_load req ?z2 = PngDone z" "pz_out z = S8 out" "pz_s z = ctx x y n n [] orig"
    using next_iend [of ?z2 zlib env req n x y 0 c3 orig lines out opts] assms(2,4,7,8,11,12) n(1) by (auto simp: z1_def png_start_def r2_def)
  have "png_chunks env opts STBI__SCAN_load req (png_start env s0) = Some (Some z)"
    using first second third(1) by (simp add: png_chunks.simps [of _ _ _ _ "png_start env s0"] png_chunks.simps [of _ _ _ _ z1] png_chunks.simps [of _ _ _ _ ?z2])
  then show ?thesis using start third(2,3) by (auto simp: stbi__parse_png_file_def)
qed


lemma decode_nothing: "stbi_zlib_decode_malloc_guesssize_headerflag alloc stale [] n0 True = Some None"
  by (simp add: stbi_zlib_decode_malloc_guesssize_headerflag_def stbi__parse_zlib_def stbi__parse_zlib_header_def stbi__zget8_def stbi__zeof_def)

lemma write_png_file:
  assumes "(x * n + 1) * y < 2 ^ 31" and "stbi_zlib_compress (\<lambda>_. True) (png_lines opts px (if stride_bytes = 0 then x * n else stride_bytes) x y n)
      (png_compression_level opts) = Some (Some zlib)"
  shows "stbi_write_png_to_mem (\<lambda>_. True) opts px stride_bytes x y n = Some (Some (png_file x y n zlib))"
proof -
  have "\<not> (x * n + 1) * y > 2 ^ 31 - 1" using assms(1) by simp
  then show ?thesis using assms(2) unfolding stbi_write_png_to_mem_def Let_def png_file_def by (simp only: if_True if_False not_True_eq_False option.case append_assoc)
qed

text \<open>The picture the writer is given: its lines in the order they are written.\<close>

definition picture_bytes :: "stbiw_opts \<Rightarrow> byte list \<Rightarrow> nat \<Rightarrow> nat \<Rightarrow> nat \<Rightarrow> nat \<Rightarrow> byte list" where
  "picture_bytes opts px stride_bytes x y n =
     concat (map (picture_row (flip_on_write opts) px (if stride_bytes = 0 then x * n else stride_bytes) (x * n) y) [0..<y])"

lemma compressed_size: "l \<le> m + 6 + (m + 32766) div 32767 * 5 \<Longrightarrow> l \<le> 2 * m + 20" for l m :: nat
proof -
  assume l: "l \<le> m + 6 + (m + 32766) div 32767 * 5"
  have "(m + 32766) div 32767 * 32767 \<le> m + 32766" by (rule div_times_less_eq_dividend)
  then show ?thesis using l by linarith
qed

lemma png_trip:
  assumes "n \<in> {1, 2, 3, 4}" and "0 < x" and "x \<le> 2 ^ 24" and "0 < y" and "y \<le> 2 ^ 24" and "(x * n + 1) * y \<le> 2 ^ 28"
    and "(if stride_bytes = 0 then x * n else stride_bytes) * (y - 1) + x * n \<le> length px" and "-1 \<le> force_png_filter wopts"
    and "pe_alloc env = (\<lambda>_. True)" and "req = 0 \<or> req = n"
  shows "\<exists>png. stbi_write_png_to_mem (\<lambda>_. True) wopts px stride_bytes x y n = Some (Some png) \<and> take 8 png = png_sig \<and>
     length png \<le> 2 * (x * n + 1) * y + 128 \<and>
     stbi__do_png env opts req (stbi__start_mem png) = Some (Some (x, y, n, S8 (picture_bytes wopts px stride_bytes x y n)))"
proof -
  define st where "st = (if stride_bytes = 0 then x * n else stride_bytes)"
  define lines where "lines = png_lines wopts px st x y n"
  have len: "length lines = (x * n + 1) * y" unfolding lines_def st_def by (rule length_png_lines [OF assms(7,2,8)])
  have pos: "0 < (x * n + 1) * y" using assms(4) by simp
  then have ne: "lines \<noteq> []" using len by force
  obtain zlib where z: "stbi_zlib_compress (\<lambda>_. True) lines (png_compression_level wopts) = Some (Some zlib)"
      "length zlib \<le> length lines + 6 + (length lines + 32766) div 32767 * 5"
      "stbi_zlib_decode_malloc_guesssize_headerflag (\<lambda>_. True) (pe_tables env) zlib ((x * n + 1) * y) True = Some (Some lines)"
    using compress_decode [OF ne _ pos, of "png_compression_level wopts" "pe_tables env"] len assms(6) by auto
  have zs: "length zlib \<le> 2 * ((x * n + 1) * y) + 20" using compressed_size [OF z(2)] len by simp
  then have small: "length zlib \<le> 2 ^ 30" "length zlib \<le> 2 * (x * n + 1) * y + 20" using assms(6) by (simp_all add: algebra_simps)
  have zne: "0 < length zlib" using z(3) decode_nothing by (cases zlib) auto
  have area: "x * n * y \<le> 2 ^ 30" using assms(6) by simp
  have raw: "stbi__create_png_image_raw (\<lambda>_. True) (png_row8 8 color n n) n lines n x y 8 = Some (picture_bytes wopts px stride_bytes x y n)" for color
    using raw_image_lines [OF assms(1-4) area assms(7,8), of color] by (simp add: lines_def picture_bytes_def st_def)
  obtain zz orig where zz: "stbi__parse_png_file env opts STBI__SCAN_load req (stbi__start_mem (png_file x y n zlib)) = Some (Some zz)"
      "pz_out zz = S8 (picture_bytes wopts px stride_bytes x y n)" "pz_s zz = ctx x y n n [] orig"
    using parse_png_file_written [OF assms(1-5) area assms(9,10) zne small(1) z(3) raw] by blast
  have "stbi_write_png_to_mem (\<lambda>_. True) wopts px stride_bytes x y n = Some (Some (png_file x y n zlib))"
    using write_png_file [of x n y wopts px stride_bytes zlib] z(1) assms(6) by (simp add: lines_def st_def)
  moreover have "\<not> req > 4" "req \<noteq> 0 \<and> req \<noteq> n \<longleftrightarrow> False" using assms(1,10) by auto
  then have "stbi__do_png env opts req (stbi__start_mem (png_file x y n zlib)) = Some (Some (x, y, n, S8 (picture_bytes wopts px stride_bytes x y n)))"
    using zz by (auto simp: stbi__do_png_def Let_def)
  moreover have "take 8 (png_file x y n zlib) = png_sig" "length (png_file x y n zlib) = length zlib + 57"
  proof -
    obtain r where "png_file x y n zlib = png_sig @ r" "length r = length zlib + 49"
      by (rule png_file_chunks [of x y n zlib]) (auto simp: tag_bytes)
    then show "take 8 (png_file x y n zlib) = png_sig" "length (png_file x y n zlib) = length zlib + 57" by (simp_all add: png_sig_def)
  qed
  ultimately show ?thesis using small(2) by auto
qed


lemma concat_rows: "k * m \<le> length l \<Longrightarrow> concat (map (\<lambda>j. take k (drop (k * j) l)) [0..<m]) = take (k * m) l"
proof (induction m)
  case (Suc m)
  then have "concat (map (\<lambda>j. take k (drop (k * j) l)) [0..<m]) = take (k * m) l" by simp
  then show ?case by (simp add: take_add [symmetric] add.commute)
qed simp

lemma picture_bytes_whole:
  assumes "length px = x * n * y" and "\<not> flip_on_write opts" and "stride_bytes = 0 \<or> stride_bytes = x * n"
  shows "picture_bytes opts px stride_bytes x y n = px"
proof -
  have "picture_row False px (x * n) (x * n) y = (\<lambda>j. take (x * n) (drop (x * n * j) px))"
    by (rule ext) (simp add: picture_row_def)
  then have "picture_bytes opts px stride_bytes x y n = concat (map (\<lambda>j. take (x * n) (drop (x * n * j) px)) [0..<y])"
    using assms(2,3) unfolding picture_bytes_def by (cases "stride_bytes = 0") (simp_all only: if_True if_False HOL.simp_thms)
  then show ?thesis using concat_rows [of "x * n" y px] assms(1) by simp
qed

end
