(* ===== verification/BmpRead.thy ===== *)
theory BmpRead
  imports StbContext
begin

text \<open>
  The BMP loader of \<open>src/common/stb_image.h\<close>: headers of all accepted versions, palettes of 1, 4 and
  8 bits, 24-bit pixels, 16- and 32-bit pixels with their masks, alpha and the order of the lines.
  An \<open>int\<close> read from the file is \<open>c_int\<close> of the 32 bits. The array \<open>pal\<close> starts with what the stack
  holds (\<open>stack\<close>).
\<close>

section \<open>Headers\<close>

definition bmp_sizes :: "int \<Rightarrow> bool" where
  "bmp_sizes sz \<longleftrightarrow> sz = 12 \<or> sz = 40 \<or> sz = 56 \<or> sz = 108 \<or> sz = 124"

definition stbi__get32i :: "stbi__context \<Rightarrow> int \<times> stbi__context" where
  "stbi__get32i s = (let (v, s) = stbi__get32le s in (c_int (int v), s))"

definition discard32 :: "nat \<Rightarrow> stbi__context \<Rightarrow> stbi__context" where
  "discard32 k s = ((\<lambda>s. snd (stbi__get32le s)) ^^ k) s"

definition stbi__bmp_test :: "stbi__context \<Rightarrow> bool" where
  "stbi__bmp_test s =
     (let (b, s) = stbi__get8 s in
      if b \<noteq> 0x42 then False
      else
        (let (m, s) = stbi__get8 s in
         if m \<noteq> 0x4D then False
         else
           (let s = discard32 1 s; (_, s) = stbi__get16le s; (_, s) = stbi__get16le s; s = discard32 1 s;
                (sz, s) = stbi__get32i s
            in bmp_sizes sz)))"

record stbi__bmp_data =
  bd_bpp :: nat
  bd_offset :: int
  bd_hsz :: int
  bd_mr :: u32
  bd_mg :: u32
  bd_mb :: u32
  bd_ma :: u32
  bd_all_a :: u32
  bd_extra_read :: int

definition stbi__bmp_set_mask_defaults :: "int \<Rightarrow> stbi__bmp_data \<Rightarrow> stbi__bmp_data" where
  "stbi__bmp_set_mask_defaults compress info =
     (if compress = 3 then info
      else if compress = 0 then
        (if bd_bpp info = 16 then info\<lparr>bd_mr := push_bit 10 31, bd_mg := push_bit 5 31, bd_mb := 31\<rparr>
         else if bd_bpp info = 32
         then info\<lparr>bd_mr := push_bit 16 0xff, bd_mg := push_bit 8 0xff, bd_mb := 0xff, bd_ma := push_bit 24 0xff, bd_all_a := 0\<rparr>
         else info\<lparr>bd_mr := 0, bd_mg := 0, bd_mb := 0, bd_ma := 0\<rparr>)
      else info)"

definition get_mask :: "stbi__context \<Rightarrow> u32 \<times> stbi__context" where
  "get_mask s = (let (v, s) = stbi__get32le s in (of_nat v, s))"

text \<open>What follows the size, planes, bits and compression of a header that is not the 12-byte one.\<close>

definition bmp_masks_info :: "int \<Rightarrow> stbi__bmp_data \<Rightarrow> stbi__context \<Rightarrow> (stbi__bmp_data \<times> stbi__context) option" where
  "bmp_masks_info compress info s =
     (let s = (if bd_hsz info = 56 then discard32 4 s else s) in
      if bd_bpp info = 16 \<or> bd_bpp info = 32 then
        (if compress = 0 then Some (stbi__bmp_set_mask_defaults compress info, s)
         else if compress = 3 then
           (let (mr, s) = get_mask s; (mg, s) = get_mask s; (mb, s) = get_mask s
            in if mr = mg \<and> mg = mb then None
               else Some (info\<lparr>bd_mr := mr, bd_mg := mg, bd_mb := mb, bd_extra_read := bd_extra_read info + 12\<rparr>, s))
         else None)
      else Some (info, s))"

definition bmp_masks_v4 :: "int \<Rightarrow> stbi__bmp_data \<Rightarrow> stbi__context \<Rightarrow> (stbi__bmp_data \<times> stbi__context) option" where
  "bmp_masks_v4 compress info s =
     (if bd_hsz info \<noteq> 108 \<and> bd_hsz info \<noteq> 124 then None
      else
        (let (mr, s) = get_mask s; (mg, s) = get_mask s; (mb, s) = get_mask s; (ma, s) = get_mask s;
             info = info\<lparr>bd_mr := mr, bd_mg := mg, bd_mb := mb, bd_ma := ma\<rparr>;
             info = (if compress \<noteq> 3 then stbi__bmp_set_mask_defaults compress info else info);
             s = discard32 13 s
         in Some (info, if bd_hsz info = 124 then discard32 4 s else s)))"

definition stbi__bmp_parse_header :: "stbi__context \<Rightarrow> (stbi__bmp_data \<times> stbi__context) option" where
  "stbi__bmp_parse_header s =
     (let (b, s) = stbi__get8 s in
      if b \<noteq> 0x42 then None
      else
        (let (m, s) = stbi__get8 s in
         if m \<noteq> 0x4D then None
         else
           (let s = discard32 1 s; (_, s) = stbi__get16le s; (_, s) = stbi__get16le s;
                (offset, s) = stbi__get32i s; (hsz, s) = stbi__get32i s
            in if offset < 0 then None
               else if \<not> bmp_sizes hsz then None
               else
                 (let (x, s) = (if hsz = 12 then stbi__get16le s else stbi__get32le s);
                      (y, s) = (if hsz = 12 then stbi__get16le s else stbi__get32le s);
                      s = s\<lparr>img_x := x, img_y := y\<rparr>;
                      (planes, s) = stbi__get16le s
                  in if planes \<noteq> 1 then None
                     else
                       (let (bpp, s) = stbi__get16le s;
                            info = \<lparr>bd_bpp = bpp, bd_offset = offset, bd_hsz = hsz, bd_mr = 0, bd_mg = 0, bd_mb = 0, bd_ma = 0,
                                     bd_all_a = 255, bd_extra_read = 14\<rparr>
                        in if hsz = 12 then Some (info, s)
                           else
                             (let (compress, s) = stbi__get32i s in
                              if compress = 1 \<or> compress = 2 then None
                              else if compress \<ge> 4 then None
                              else if compress = 3 \<and> bpp \<noteq> 16 \<and> bpp \<noteq> 32 then None
                              else if hsz = 40 \<or> hsz = 56 then bmp_masks_info compress info (discard32 5 s)
                              else bmp_masks_v4 compress info (discard32 5 s)))))))"

section \<open>Colours from masks\<close>

definition stbi__high_bit :: "u32 \<Rightarrow> int" where
  "stbi__high_bit z =
     (if z = 0 then -1
      else
        (let (n, z) = (0, z);
             (n, z) = (if z \<ge> 0x10000 then (n + 16, drop_bit 16 z) else (n, z));
             (n, z) = (if z \<ge> 0x00100 then (n + 8, drop_bit 8 z) else (n, z));
             (n, z) = (if z \<ge> 0x00010 then (n + 4, drop_bit 4 z) else (n, z));
             (n, z) = (if z \<ge> 0x00004 then (n + 2, drop_bit 2 z) else (n, z))
         in if z \<ge> 0x00002 then n + 1 else n))"

definition stbi__bitcount :: "u32 \<Rightarrow> nat" where
  "stbi__bitcount a =
     (let a = (a AND 0x55555555) + (drop_bit 1 a AND 0x55555555);
          a = (a AND 0x33333333) + (drop_bit 2 a AND 0x33333333);
          a = (a + drop_bit 4 a) AND 0x0f0f0f0f;
          a = a + drop_bit 8 a;
          a = a + drop_bit 16 a
      in unat (a AND 0xff))"

definition stbi__shiftsigned :: "u32 \<Rightarrow> int \<Rightarrow> nat \<Rightarrow> byte" where
  "stbi__shiftsigned v shift bits =
     (let v = (if shift < 0 then push_bit (nat (- shift)) v else drop_bit (nat shift) v);
          v = drop_bit (8 - bits) v;
          mul = [0, 0xff, 0x55, 0x49, 0x11, 0x21, 0x41, 0x81, 0x01] ! bits;
          sh = [0, 0, 0, 1, 0, 2, 4, 6, 0] ! bits
      in ucast (drop_bit sh (v * mul)))"

section \<open>Pixels\<close>

definition bmp_colour :: "byte list \<Rightarrow> nat \<Rightarrow> nat \<Rightarrow> byte list" where
  "bmp_colour pal target v = take 3 (drop (4 * v) pal) @ (if target = 4 then [255] else [])"

fun bmp_row1 :: "byte list \<Rightarrow> nat \<Rightarrow> byte \<Rightarrow> nat \<Rightarrow> nat \<Rightarrow> stbi__context \<Rightarrow> byte list \<times> stbi__context" where
  "bmp_row1 pal target v bit_offset 0 s = ([], s)"
| "bmp_row1 pal target v bit_offset (Suc k) s =
     (let px = bmp_colour pal target (unat (drop_bit bit_offset v AND 1)) in
      if k = 0 then (px, s)
      else
        (let (v, bit_offset, s) = (if bit_offset = 0 then (let (v, s) = stbi__get8 s in (v, 7, s)) else (v, bit_offset - 1, s));
             (r, s) = bmp_row1 pal target v bit_offset k s
         in (px @ r, s)))"

fun bmp_row8 :: "byte list \<Rightarrow> nat \<Rightarrow> nat \<Rightarrow> nat \<Rightarrow> stbi__context \<Rightarrow> byte list \<times> stbi__context" where
  "bmp_row8 pal target bpp 0 s = ([], s)"
| "bmp_row8 pal target bpp (Suc 0) s =
     (let (v, s) = stbi__get8 s; v = (if bpp = 4 then drop_bit 4 v else v) in (bmp_colour pal target (unat v), s))"
| "bmp_row8 pal target bpp (Suc (Suc k)) s =
     (let (b, s) = stbi__get8 s;
          v = (if bpp = 4 then drop_bit 4 b else b);
          (w, s) = (if bpp = 8 then stbi__get8 s else (if bpp = 4 then b AND 15 else 0, s));
          (r, s) = bmp_row8 pal target bpp k s
      in (bmp_colour pal target (unat v) @ bmp_colour pal target (unat w) @ r, s))"

text \<open>A pixel of 24 bits or of 32 with the usual masks: its bytes, and the alpha seen so far.\<close>

fun bmp_row_easy :: "nat \<Rightarrow> nat \<Rightarrow> nat \<Rightarrow> u32 \<times> stbi__context \<Rightarrow> byte list \<times> u32 \<times> stbi__context" where
  "bmp_row_easy easy target 0 (all_a, s) = ([], all_a, s)"
| "bmp_row_easy easy target (Suc k) (all_a, s) =
     (let (b, s) = stbi__get8 s; (g, s) = stbi__get8 s; (r, s) = stbi__get8 s;
          (a, s) = (if easy = 2 then stbi__get8 s else (255, s));
          (rest, all_a, s) = bmp_row_easy easy target k (all_a OR ucast a, s)
      in ([r, g, b] @ (if target = 4 then [a] else []) @ rest, all_a, s))"

fun bmp_row_masks :: "stbi__bmp_data \<Rightarrow> nat \<Rightarrow> nat \<Rightarrow> u32 \<times> stbi__context \<Rightarrow> byte list \<times> u32 \<times> stbi__context" where
  "bmp_row_masks info target 0 (all_a, s) = ([], all_a, s)"
| "bmp_row_masks info target (Suc k) (all_a, s) =
     (let (n, s) = (if bd_bpp info = 16 then stbi__get16le s else stbi__get32le s);
          v = of_nat n :: u32;
          channel = (\<lambda>m. stbi__shiftsigned (v AND m) (stbi__high_bit m - 7) (stbi__bitcount m));
          a = (if bd_ma info \<noteq> 0 then channel (bd_ma info) else 255);
          (rest, all_a, s) = bmp_row_masks info target k (all_a OR ucast a, s)
      in ([channel (bd_mr info), channel (bd_mg info), channel (bd_mb info)] @ (if target = 4 then [a] else []) @ rest, all_a, s))"

text \<open>The loop over the lines: a line, then the padding.\<close>

fun bmp_rows :: "('s \<times> stbi__context \<Rightarrow> byte list \<times> 's \<times> stbi__context) \<Rightarrow> int \<Rightarrow> nat \<Rightarrow> 's \<times> stbi__context \<Rightarrow> byte list \<times> 's \<times> stbi__context" where
  "bmp_rows row pad 0 (t, s) = ([], t, s)"
| "bmp_rows row pad (Suc y) (t, s) =
     (let (line, t, s) = row (t, s); (rest, t, s) = bmp_rows row pad y (t, stbi__skip pad s) in (line @ rest, t, s))"

definition bmp_pad :: "nat \<Rightarrow> int" where
  "bmp_pad width = int ((4 - width mod 4) mod 4)"

text \<open>\<open>swap p1[i], p2[i]\<close> for the lines of the upper half with those of the lower.\<close>

definition swap_lines :: "nat \<Rightarrow> nat \<Rightarrow> byte list \<Rightarrow> byte list" where
  "swap_lines len y out =
     concat (fold (\<lambda>j rows. rows[j := rows ! (y - 1 - j), y - 1 - j := rows ! j]) [0..<y div 2] (pixel_groups len y out))"

section \<open>The loader\<close>

definition bmp_psize :: "stbi__bmp_data \<Rightarrow> int" where
  "bmp_psize info =
     (if bd_hsz info = 12
      then (if bd_bpp info < 24
            then (let d = bd_offset info - bd_extra_read info - 24 in if d \<ge> 0 then d div 3 else - ((- d) div 3))
            else 0)
      else (if bd_bpp info < 16 then (bd_offset info - bd_extra_read info - bd_hsz info) div 4 else 0))"

definition bmp_to_pixels :: "stbi__bmp_data \<Rightarrow> int \<Rightarrow> stbi__context \<Rightarrow> stbi__context option" where
  "bmp_to_pixels info psize s =
     (if psize = 0 then
        (let bytes_read_so_far = int (length (img_buffer_original s)) - int (length (img_buffer s)) in
         if bytes_read_so_far \<le> 0 \<or> bytes_read_so_far > 1024 then None
         else if bd_offset info < bytes_read_so_far \<or> bd_offset info - bytes_read_so_far > 256 * 4 then None
         else Some (stbi__skip (bd_offset info - bytes_read_so_far) s))
      else Some s)"

fun bmp_palette :: "bool \<Rightarrow> nat list \<Rightarrow> byte list \<Rightarrow> stbi__context \<Rightarrow> byte list \<times> stbi__context" where
  "bmp_palette fourth [] pal s = (pal, s)"
| "bmp_palette fourth (i # is) pal s =
     (let (b, s) = stbi__get8 s; (g, s) = stbi__get8 s; (r, s) = stbi__get8 s; s = (if fourth then snd (stbi__get8 s) else s)
      in bmp_palette fourth is (pal[4 * i := r, 4 * i + 1 := g, 4 * i + 2 := b, 4 * i + 3 := 255]) s)"

definition bmp_indexed :: "byte list \<Rightarrow> stbi__bmp_data \<Rightarrow> int \<Rightarrow> nat \<Rightarrow> stbi__context \<Rightarrow> byte list option" where
  "bmp_indexed stack info psize target s =
     (if psize = 0 \<or> psize > 256 then None
      else
        (let (pal, s) = bmp_palette (bd_hsz info \<noteq> 12) [0..<nat psize] stack s;
             s = stbi__skip (bd_offset info - bd_extra_read info - bd_hsz info - psize * (if bd_hsz info = 12 then 3 else 4)) s;
             bpp = bd_bpp info; x = img_x s; y = img_y s
         in if bpp = 1 then
              Some (fst (bmp_rows (\<lambda>(t, s). let (v, s) = stbi__get8 s; (l, s) = bmp_row1 pal target v 7 x s in (l, t, s))
                           (bmp_pad ((x + 7) div 8)) y ((), s)))
            else if bpp = 4 \<or> bpp = 8 then
              Some (fst (bmp_rows (\<lambda>(t, s). let (l, s) = bmp_row8 pal target bpp x s in (l, t, s))
                           (bmp_pad (if bpp = 4 then (x + 1) div 2 else x)) y ((), s)))
            else None))"

definition bmp_direct :: "stbi__bmp_data \<Rightarrow> nat \<Rightarrow> stbi__context \<Rightarrow> (byte list \<times> u32) option" where
  "bmp_direct info target s =
     (let s = stbi__skip (bd_offset info - bd_extra_read info - bd_hsz info) s;
          bpp = bd_bpp info; x = img_x s; y = img_y s;
          pad = bmp_pad (if bpp = 24 then 3 * x else if bpp = 16 then 2 * x else 0);
          easy = (if bpp = 24 then 1
                  else if bpp = 32 \<and> bd_mb info = 0xff \<and> bd_mg info = 0xff00 \<and> bd_mr info = 0x00ff0000 \<and> bd_ma info = 0xff000000 then 2
                  else 0 :: nat);
          counts = map stbi__bitcount [bd_mr info, bd_mg info, bd_mb info, bd_ma info]
      in if easy = 0 \<and> (bd_mr info = 0 \<or> bd_mg info = 0 \<or> bd_mb info = 0) then None
         else if easy = 0 \<and> list_ex (\<lambda>c. c > 8) counts then None
         else
           (let (out, all_a, s) = bmp_rows (if easy \<noteq> 0 then bmp_row_easy easy target x else bmp_row_masks info target x) pad y (bd_all_a info, s)
            in Some (out, all_a)))"

definition opaque_if_blank :: "nat \<Rightarrow> u32 \<Rightarrow> nat \<Rightarrow> byte list \<Rightarrow> byte list" where
  "opaque_if_blank target all_a count out =
     (if target = 4 \<and> all_a = 0 then concat (map (\<lambda>p. p[3 := 255]) (pixel_groups 4 count out)) else out)"

definition stbi__bmp_load :: "(nat \<Rightarrow> bool) \<Rightarrow> byte list \<Rightarrow> nat \<Rightarrow> stbi__context \<Rightarrow> (nat \<times> nat \<times> nat \<times> byte list) option" where
  "stbi__bmp_load alloc stack req_comp s =
     (case stbi__bmp_parse_header s of
        None \<Rightarrow> None
      | Some (info, s) \<Rightarrow>
          (let flip_vertically = (c_int (int (img_y s)) > 0);
               s = s\<lparr>img_y := nat \<bar>c_int (int (img_y s))\<bar>\<rparr>;
               psize = bmp_psize info
           in if img_y s > STBI_MAX_DIMENSIONS then None
              else if img_x s > STBI_MAX_DIMENSIONS then None
              else
                (case bmp_to_pixels info psize s of
                   None \<Rightarrow> None
                 | Some s \<Rightarrow>
                     (let nch = (if bd_bpp info = 24 \<and> bd_ma info = 0xff000000 then 3 else if bd_ma info \<noteq> 0 then 4 else 3);
                          target = (if req_comp \<ge> 3 then req_comp else nch);
                          x = img_x s; y = img_y s;
                          drawn = (if bd_bpp info < 16 then map_option (\<lambda>out. (out, bd_all_a info)) (bmp_indexed stack info psize target s)
                                   else bmp_direct info target s)
                      in if \<not> stbi__malloc_mad3 alloc (int target) (int x) (int y) 0 then None
                         else
                           (case drawn of
                              None \<Rightarrow> None
                            | Some (out, all_a) \<Rightarrow>
                                (let out = opaque_if_blank target all_a (x * y) out;
                                     out = (if flip_vertically then swap_lines (x * target) y out else out)
                                 in map_option (\<lambda>out. (x, y, nch, out))
                                      (if req_comp \<noteq> 0 \<and> req_comp \<noteq> target then stbi__convert_format alloc out target req_comp x y
                                       else Some out)))))))"

end
