(* ===== verification/ImageLoad.thy ===== *)
theory ImageLoad
  imports PngTrip BmpRead
begin

text \<open>
  \<open>stbi_load_from_memory\<close> of \<open>src/common/stb_image.h\<close>: the choice of the loader, the reduction to 8
  bits and the flip. The loaders of GIF, PSD, PIC, JPEG, PNM, HDR and TGA are one parameter
  (\<open>other\<close>), asked when the data is neither PNG nor BMP.
\<close>

type_synonym stb_picture = "nat \<times> nat \<times> nat \<times> stb_samples"

definition stbi__load_main ::
  "png_env \<Rightarrow> stbi_opts \<Rightarrow> (byte list \<Rightarrow> nat \<Rightarrow> stb_picture option option) \<Rightarrow> nat \<Rightarrow> stbi__context \<Rightarrow> stb_picture option option" where
  "stbi__load_main env opts other req_comp s =
     (if stbi__png_test s then stbi__do_png env opts req_comp s
      else if stbi__bmp_test s then
        Some (map_option (\<lambda>(x, y, n, d). (x, y, n, S8 d)) (stbi__bmp_load (pe_alloc env) (pe_stack env) req_comp s))
      else other (img_buffer s) req_comp)"

definition stbi__vertical_flip :: "nat \<Rightarrow> nat \<Rightarrow> nat \<Rightarrow> byte list \<Rightarrow> byte list" where
  "stbi__vertical_flip w h bytes_per_pixel img = swap_lines (w * bytes_per_pixel) h img"

definition stbi__load_and_postprocess_8bit ::
  "png_env \<Rightarrow> stbi_opts \<Rightarrow> (byte list \<Rightarrow> nat \<Rightarrow> stb_picture option option) \<Rightarrow> nat \<Rightarrow> stbi__context \<Rightarrow> (nat \<times> nat \<times> nat \<times> byte list) option option" where
  "stbi__load_and_postprocess_8bit env opts other req_comp s =
     (case stbi__load_main env opts other req_comp s of
        None \<Rightarrow> None
      | Some None \<Rightarrow> Some None
      | Some (Some (x, y, nch, d)) \<Rightarrow>
          (let channels = (if req_comp = 0 then nch else req_comp);
               result = (case d of S8 l \<Rightarrow> Some l | S16 l \<Rightarrow> stbi__convert_16_to_8 (pe_alloc env) l x y channels)
           in Some (map_option (\<lambda>l. (x, y, nch, if flip_on_load opts then stbi__vertical_flip x y channels l else l)) result)))"

definition stbi_load_from_memory ::
  "png_env \<Rightarrow> stbi_opts \<Rightarrow> (byte list \<Rightarrow> nat \<Rightarrow> stb_picture option option) \<Rightarrow> byte list \<Rightarrow> int \<Rightarrow> nat \<Rightarrow> (nat \<times> nat \<times> nat \<times> byte list) option option" where
  "stbi_load_from_memory env opts other buffer len req_comp =
     stbi__load_and_postprocess_8bit env opts other req_comp (stbi__start_mem (take (nat len) buffer))"

section \<open>Written pictures are loaded\<close>

lemma png_sig_test:
  assumes "take 8 png = png_sig"
  shows "stbi__png_test (stbi__start_mem png)"
proof -
  have "png = png_sig @ drop 8 png" using assms by (metis append_take_drop_id)
  then show ?thesis using check_signature [of 0 0 0 0 "drop 8 png" png] by (simp add: stbi__png_test_def stbi__start_mem_def)
qed

lemma png_loaded:
  assumes "n \<in> {1, 2, 3, 4}" and "0 < x" and "x \<le> 2 ^ 24" and "0 < y" and "y \<le> 2 ^ 24" and "(x * n + 1) * y \<le> 2 ^ 28"
    and "(if stride_bytes = 0 then x * n else stride_bytes) * (y - 1) + x * n \<le> length px" and "-1 \<le> force_png_filter wopts"
    and "pe_alloc env = (\<lambda>_. True)" and "req = 0 \<or> req = n" and "\<not> flip_on_load opts"
  shows "\<exists>png. stbi_write_png_to_mem (\<lambda>_. True) wopts px stride_bytes x y n = Some (Some png) \<and> take 8 png = png_sig \<and>
     length png \<le> 2 ^ 30 \<and>
     stbi_load_from_memory env opts other png (int (length png)) req = Some (Some (x, y, n, picture_bytes wopts px stride_bytes x y n))"
proof -
  obtain png where png: "stbi_write_png_to_mem (\<lambda>_. True) wopts px stride_bytes x y n = Some (Some png)" "take 8 png = png_sig"
      "length png \<le> 2 * (x * n + 1) * y + 128"
      "stbi__do_png env opts req (stbi__start_mem png) = Some (Some (x, y, n, S8 (picture_bytes wopts px stride_bytes x y n)))"
    using png_trip [OF assms(1-10)] by blast
  have "stbi_load_from_memory env opts other png (int (length png)) req = Some (Some (x, y, n, picture_bytes wopts px stride_bytes x y n))"
    using png(4) png_sig_test [OF png(2)] assms(11)
    by (simp add: stbi_load_from_memory_def stbi__load_and_postprocess_8bit_def stbi__load_main_def)
  moreover have "length png \<le> 2 ^ 30" using png(3) assms(6) by (simp add: algebra_simps)
  ultimately show ?thesis using png(1,2) by blast
qed

text \<open>
  C7. A picture of 1 to 4 channels whose filtered lines take up to 256 MB, written by
  \<open>stbi_write_png_to_mem\<close> with any of its options (filter, compression level, line distance,
  upside down), is loaded by \<open>stbi_load_from_memory\<close> with the same width, height, channels and
  pixels, whatever the uninitialised memory of the loader holds.
\<close>

theorem png_roundtrip:
  assumes "n \<in> {1, 2, 3, 4}" and "0 < x" and "x \<le> 2 ^ 24" and "0 < y" and "y \<le> 2 ^ 24" and "(x * n + 1) * y \<le> 2 ^ 28"
    and "(if stride_bytes = 0 then x * n else stride_bytes) * (y - 1) + x * n \<le> length px" and "-1 \<le> force_png_filter wopts"
    and "pe_alloc env = (\<lambda>_. True)" and "req = 0 \<or> req = n" and "\<not> flip_on_load opts"
  shows "\<exists>png. stbi_write_png_to_mem (\<lambda>_. True) wopts px stride_bytes x y n = Some (Some png) \<and>
     stbi_load_from_memory env opts other png (int (length png)) req = Some (Some (x, y, n, picture_bytes wopts px stride_bytes x y n))"
  using png_loaded [OF assms] by blast

definition blank_env :: png_env where
  "blank_env = \<lparr>pe_alloc = (\<lambda>_. True), pe_tables = blank_huffman, pe_stack = replicate 1024 0, pe_heap = (\<lambda>_. 0)\<rparr>"

theorem png_roundtrip_witness:
  "\<exists>png. stbi_write_png_to_mem (\<lambda>_. True) stbiw_defaults [1, 2, 3, 4, 5, 6, 7, 8] 4 1 2 4 = Some (Some png) \<and>
     stbi_load_from_memory blank_env stbi_defaults (\<lambda>_ _. Some None) png (int (length png)) 4 = Some (Some (1, 2, 4, [1, 2, 3, 4, 5, 6, 7, 8]))"
proof -
  have "picture_bytes stbiw_defaults [1, 2, 3, 4, 5, 6, 7, 8] 4 1 2 4 = [1, 2, 3, 4, 5, 6, 7, 8]"
    by (rule picture_bytes_whole) (simp_all add: stbiw_defaults_def)
  then show ?thesis
    using png_roundtrip [of 4 1 2 4 "[1, 2, 3, 4, 5, 6, 7, 8]" stbiw_defaults blank_env 4 stbi_defaults "\<lambda>_ _. Some None"]
    by (simp add: stbiw_defaults_def stbi_defaults_def blank_env_def)
qed


section \<open>What the clients call\<close>

text \<open>
  The clients load with four channels and write with the default options. \<open>stb_host\<close> is what the
  codec finds in memory it has not written yet, and the loaders of the other formats.
\<close>

record stb_host =
  sh_tables :: stbi__zhuffman
  sh_stack :: "byte list"
  sh_heap :: "nat \<Rightarrow> byte"
  sh_other :: "byte list \<Rightarrow> nat \<Rightarrow> stb_picture option option"

definition stb_env :: "(nat \<Rightarrow> bool) \<Rightarrow> stb_host \<Rightarrow> png_env" where
  "stb_env alloc sh = \<lparr>pe_alloc = alloc, pe_tables = sh_tables sh, pe_stack = sh_stack sh, pe_heap = sh_heap sh\<rparr>"

definition stbi_load4 :: "(nat \<Rightarrow> bool) \<Rightarrow> stb_host \<Rightarrow> byte list \<Rightarrow> int \<Rightarrow> (nat \<times> nat \<times> byte list) option option" where
  "stbi_load4 alloc sh buffer len =
     map_option (map_option (\<lambda>(x, y, n, d). (x, y, d)))
       (stbi_load_from_memory (stb_env alloc sh) stbi_defaults (sh_other sh) buffer len 4)"

text \<open>\<open>stbi_write_png_to_func\<close> hands the whole file to its callback in one call.\<close>

definition stbi_write_png_to_func ::
  "(nat \<Rightarrow> bool) \<Rightarrow> (byte list \<Rightarrow> 'b \<Rightarrow> 'b option) \<Rightarrow> 'b \<Rightarrow> nat \<Rightarrow> nat \<Rightarrow> nat \<Rightarrow> byte list \<Rightarrow> nat \<Rightarrow> (int \<times> 'b) option" where
  "stbi_write_png_to_func alloc func context x y n d stride_bytes =
     (case stbi_write_png_to_mem alloc stbiw_defaults d stride_bytes x y n of
        None \<Rightarrow> None
      | Some None \<Rightarrow> Some (0, context)
      | Some (Some png) \<Rightarrow> (case func png context of None \<Rightarrow> None | Some context \<Rightarrow> Some (1, context)))"

definition blank_stb :: stb_host where
  "blank_stb = \<lparr>sh_tables = blank_huffman, sh_stack = replicate 1024 0, sh_heap = (\<lambda>_. 0), sh_other = (\<lambda>_ _. Some None)\<rparr>"

lemma written_picture_loads:
  assumes "0 < wd" and "wd \<le> 2 ^ 24" and "0 < ht" and "ht \<le> 2 ^ 24" and "(wd * 4 + 1) * ht \<le> 2 ^ 28" and "length p = wd * 4 * ht"
  obtains png where "stbi_write_png_to_mem (\<lambda>_. True) stbiw_defaults p (wd * 4) wd ht 4 = Some (Some png)" "take 8 png = png_sig" "length png \<le> 2 ^ 30"
    "stbi_load4 (\<lambda>_. True) sh png (int_of_size (length png)) = Some (Some (wd, ht, p))"
proof -
  have "wd * 4 * (ht - 1) + wd * 4 = wd * 4 * ht" using assms(3) by (cases ht) simp_all
  then have fits: "(if wd * 4 = 0 then wd * 4 else wd * 4) * (ht - 1) + wd * 4 \<le> length p" using assms(6) by simp
  have whole: "picture_bytes stbiw_defaults p (wd * 4) wd ht 4 = p"
    using assms(6) by (intro picture_bytes_whole) (simp_all add: stbiw_defaults_def)
  obtain png where png: "stbi_write_png_to_mem (\<lambda>_. True) stbiw_defaults p (wd * 4) wd ht 4 = Some (Some png)" "take 8 png = png_sig"
      "length png \<le> 2 ^ 30"
      "stbi_load_from_memory (stb_env (\<lambda>_. True) sh) stbi_defaults (sh_other sh) png (int (length png)) 4 = Some (Some (wd, ht, 4, p))"
    using png_loaded [OF _ assms(1-5) fits, of stbiw_defaults "stb_env (\<lambda>_. True) sh" 4 stbi_defaults "sh_other sh"] whole
    by (auto simp: stbiw_defaults_def stb_env_def stbi_defaults_def)
  have "int_of_size (length png) = int (length png)" using png(3) by (simp add: int_of_size_id)
  then show ?thesis using png that by (simp add: stbi_load4_def)
qed

end
