(* ===== verification/LinuxClip.thy ===== *)
theory LinuxClip
  imports Buffers Codec ImageLoad
begin

text \<open>
  The clipboard back ends of \<open>src/linux/main.c\<close>: the command-line tools (xclip, wl-clipboard)
  behind \<open>popen\<close>, the reads through the X11 selection protocol, file addresses and media types.

  What a tool prints is a function of its command line, what it is given is logged with the
  command line. The image codec is that of \<open>ImageLoad\<close>. A selection of the X server is a script of what the waits and property reads see.
  Log lines are left out.
\<close>

section \<open>The outside\<close>

datatype xsel = XNone
  | XValue "byte list option"
  | XIncr "byte list option list"

record desktop =
  popen_out :: "string \<Rightarrow> byte list option"
  popen_w_ok :: "string \<Rightarrow> bool"
  xdisplay :: bool
  xselection :: "string \<Rightarrow> string \<Rightarrow> xsel"
  atom_name :: "byte list \<Rightarrow> string option"
  dt_stb :: stb_host
  alloc_ok :: "nat \<Rightarrow> bool"

text \<open>The commands run with their standard input.\<close>

type_synonym shell = "(string \<times> byte list) list"

definition popen_w :: "desktop \<Rightarrow> string \<Rightarrow> byte list \<Rightarrow> shell \<Rightarrow> shell" where
  "popen_w dt cmd d sh = (if popen_w_ok dt cmd then sh @ [(cmd, d)] else sh)"

definition MAX_CLIPBOARD_SIZE :: nat where "MAX_CLIPBOARD_SIZE = 1024 * 1024"

section \<open>Types and names\<close>

definition clipboard_has_image :: "string \<Rightarrow> bool" where
  "clipboard_has_image types \<longleftrightarrow> contains_str ''image/png'' types \<or> contains_str ''image/jpeg'' types"

definition clipboard_has_file :: "string \<Rightarrow> bool" where
  "clipboard_has_file types \<longleftrightarrow> contains_str ''text/uri-list'' types \<or> contains_str ''x-special/gnome-copied-files'' types"

definition safe_mimes :: "string list" where
  "safe_mimes = [''image/png'', ''image/jpeg'', ''image/bmp'', ''image/gif'', ''image/webp'', ''text/uri-list'',
     ''x-special/gnome-copied-files'', ''TARGETS'']"

definition is_safe_mime :: "string \<Rightarrow> bool" where
  "is_safe_mime mime \<longleftrightarrow> mime \<in> set safe_mimes"

definition mime_from_extension :: "string \<Rightarrow> string" where
  "mime_from_extension filename =
     (case split_last CHR ''.'' filename of
        None \<Rightarrow> ''application/octet-stream''
      | Some (_, ext) \<Rightarrow>
          if strcaseeq ext ''png'' then ''image/png''
          else if strcaseeq ext ''jpg'' \<or> strcaseeq ext ''jpeg'' then ''image/jpeg''
          else if strcaseeq ext ''gif'' then ''image/gif''
          else if strcaseeq ext ''webp'' then ''image/webp''
          else if strcaseeq ext ''bmp'' then ''image/bmp''
          else if strcaseeq ext ''pdf'' then ''application/pdf''
          else if strcaseeq ext ''txt'' then ''text/plain''
          else ''application/octet-stream'')"

text \<open>
  \<open>url_decode_inplace\<close>: the source pointer moves by three behind a recognised escape, however
  many characters \<open>sscanf\<close> used. The result is again a C string.
\<close>

function url_decode :: "string \<Rightarrow> string" where
  "url_decode [] = []"
| "url_decode (c # cs) =
     (if c = CHR ''%'' \<and> 2 \<le> length cs then
        (case sscanf_2x cs of
           Some b \<Rightarrow> char_of (unat b) # url_decode (drop 2 cs)
         | None \<Rightarrow> c # url_decode cs)
      else c # url_decode cs)"
  by pat_completeness auto
termination by (relation "measure length") auto

definition url_decode_inplace :: "string \<Rightarrow> string" where
  "url_decode_inplace s = cstr (url_decode s)"

section \<open>Tools\<close>

text \<open>\<open>get_text\<close>: at most one byte less than the buffer, up to a NUL; nothing read is NULL.\<close>

definition tool_get_text :: "string \<Rightarrow> desktop \<Rightarrow> string option" where
  "tool_get_text cmd dt =
     (case popen_out dt cmd of
        None \<Rightarrow> None
      | Some d \<Rightarrow>
          if \<not> alloc_ok dt MAX_CLIPBOARD_SIZE then None
          else (let got = take (MAX_CLIPBOARD_SIZE - 1) d in
                if got = [] then None else Some (cstr (str_of_bytes got))))"

definition xclip_clipboard_get_text :: "desktop \<Rightarrow> string option" where
  "xclip_clipboard_get_text = tool_get_text ''xclip -selection clipboard -o 2>/dev/null''"

definition wl_clipboard_get_text :: "desktop \<Rightarrow> string option" where
  "wl_clipboard_get_text = tool_get_text ''wl-paste --no-newline 2>/dev/null''"

definition xclip_clipboard_set_text :: "desktop \<Rightarrow> string \<Rightarrow> shell \<Rightarrow> shell" where
  "xclip_clipboard_set_text dt txt sh =
     popen_w dt ''xclip -selection primary -i 2>/dev/null'' (bytes_of_str txt)
       (popen_w dt ''xclip -selection clipboard -i 2>/dev/null'' (bytes_of_str txt) sh)"

definition wl_clipboard_set_text :: "desktop \<Rightarrow> string \<Rightarrow> shell \<Rightarrow> shell" where
  "wl_clipboard_set_text dt txt sh = popen_w dt ''wl-copy 2>/dev/null'' (bytes_of_str txt) sh"

definition tool_refresh_types :: "string \<Rightarrow> desktop \<Rightarrow> nat \<Rightarrow> string" where
  "tool_refresh_types cmd dt buf_size =
     (case popen_out dt cmd of None \<Rightarrow> [] | Some d \<Rightarrow> cstr (str_of_bytes (take (buf_size - 1) d)))"

definition xclip_clipboard_refresh_types :: "desktop \<Rightarrow> nat \<Rightarrow> string" where
  "xclip_clipboard_refresh_types = tool_refresh_types ''xclip -selection clipboard -t TARGETS -o 2>/dev/null''"

definition wl_clipboard_refresh_types :: "desktop \<Rightarrow> nat \<Rightarrow> string" where
  "wl_clipboard_refresh_types = tool_refresh_types ''wl-paste --list-types 2>/dev/null''"

text \<open>\<open>read_type\<close>: \<open>None\<close> is NULL; \<open>read_pipe\<close> never leaves its block.\<close>

definition tool_read :: "string \<Rightarrow> desktop \<Rightarrow> byte list option" where
  "tool_read cmd dt =
     (case popen_out dt cmd of
        None \<Rightarrow> None
      | Some d \<Rightarrow> (case read_pipe (alloc_ok dt) d of None \<Rightarrow> None | Some r \<Rightarrow> r))"

definition xclip_read_cmd :: "string \<Rightarrow> string" where
  "xclip_read_cmd mime = fst (snprintf_c 256 (''xclip -selection clipboard -t '' @ mime @ '' -o 2>/dev/null''))"

definition xclip_clipboard_read_type :: "desktop \<Rightarrow> string \<Rightarrow> byte list option" where
  "xclip_clipboard_read_type dt mime = (if \<not> is_safe_mime mime then None else tool_read (xclip_read_cmd mime) dt)"

definition wl_read_cmd :: "string \<Rightarrow> string" where
  "wl_read_cmd mime = fst (snprintf_c 256 (''wl-paste --type '' @ mime @ '' 2>/dev/null''))"

definition wl_clipboard_read_type :: "desktop \<Rightarrow> string \<Rightarrow> byte list option" where
  "wl_clipboard_read_type dt mime = (if \<not> is_safe_mime mime then None else tool_read (wl_read_cmd mime) dt)"

section \<open>Pictures\<close>

text \<open>\<open>None\<close> outside is a write outside a block, in the codec or through NULL in \<open>dynbuf_write\<close>, \<open>None\<close> inside the NULL result.\<close>

definition bmp_to_png_buf :: "desktop \<Rightarrow> byte list \<Rightarrow> byte list option option" where
  "bmp_to_png_buf dt bmp =
     (case stbi_load4 (alloc_ok dt) (dt_stb dt) bmp (int_of_size (length bmp)) of
        None \<Rightarrow> None
      | Some None \<Rightarrow> Some None
      | Some (Some (wd, ht, pixels)) \<Rightarrow>
          (case stbi_write_png_to_func (alloc_ok dt) (dynbuf_write (alloc_ok dt)) \<lparr>db_data = [], db_len = 0, db_cap = 0\<rparr> wd ht 4 pixels (wd * 4) of
             None \<Rightarrow> None
           | Some (_, buf) \<Rightarrow> Some (if db_len buf = 0 then None else Some (dyn_contents buf))))"

text \<open>The data and the media type that are passed on.\<close>

definition prepare_image :: "desktop \<Rightarrow> byte list \<Rightarrow> string \<Rightarrow> (byte list \<times> string) option" where
  "prepare_image dt d mime0 =
     (let mime = (if mime0 = [] then ''image/png'' else mime0) in
      if mime = ''image/bmp'' \<and> 2 < length d \<and> take 2 d = [0x42, 0x4D] then
        (case bmp_to_png_buf dt d of
           None \<Rightarrow> None
         | Some None \<Rightarrow> Some (d, mime)
         | Some (Some png) \<Rightarrow> Some (png, ''image/png''))
      else Some (d, mime))"

definition xclip_image_cmd :: "string \<Rightarrow> string" where
  "xclip_image_cmd mime = fst (snprintf_c 256 (''xclip -selection clipboard -t '' @ mime @ '' -i 2>/dev/null''))"

definition xclip_clipboard_set_image :: "desktop \<Rightarrow> byte list \<Rightarrow> string \<Rightarrow> shell \<Rightarrow> shell option" where
  "xclip_clipboard_set_image dt d mime sh =
     map_option (\<lambda>(d, mime). popen_w dt (xclip_image_cmd mime) d sh) (prepare_image dt d mime)"

definition wl_image_cmd :: "string \<Rightarrow> string" where
  "wl_image_cmd mime = fst (snprintf_c 256 (''wl-copy --type '' @ mime @ '' 2>/dev/null''))"

definition wl_clipboard_set_image :: "desktop \<Rightarrow> byte list \<Rightarrow> string \<Rightarrow> shell \<Rightarrow> shell option" where
  "wl_clipboard_set_image dt d mime sh =
     map_option (\<lambda>(d, mime). popen_w dt (wl_image_cmd mime) d sh) (prepare_image dt d mime)"

section \<open>Files\<close>

definition xclip_clipboard_set_file :: "desktop \<Rightarrow> string \<Rightarrow> shell \<Rightarrow> shell" where
  "xclip_clipboard_set_file dt filepath sh =
     popen_w dt ''xclip -selection clipboard -t x-special/gnome-copied-files -i 2>/dev/null''
       (bytes_of_str (''copy'' @ [CHR 0x0A] @ ''file://'' @ filepath)) sh"

definition wl_clipboard_set_file :: "desktop \<Rightarrow> string \<Rightarrow> shell \<Rightarrow> shell" where
  "wl_clipboard_set_file dt filepath sh =
     popen_w dt ''wl-copy --type x-special/gnome-copied-files 2>/dev/null''
       (bytes_of_str (''copy'' @ [CHR 0x0A] @ filepath)) sh"

section \<open>The X11 selection protocol\<close>

text \<open>
  An answer to the conversion request: none within a second or a refusal (\<open>XNone\<close>), a property
  (\<open>XValue\<close>; \<open>None\<close> for a missing or empty one), or an incremental transfer (\<open>XIncr\<close>), a list of
  what each wait for the property yields, \<open>None\<close> for a wait of two seconds that sees nothing.
  Items are given as the bytes they take in memory.
\<close>

fun incr_loop :: "(nat \<Rightarrow> bool) \<Rightarrow> byte list option list \<Rightarrow> DynBuf \<Rightarrow> DynBuf option" where
  "incr_loop alloc [] b = Some b"
| "incr_loop alloc (None # evs) b = Some b"
| "incr_loop alloc (Some d # evs) b =
     (if d = [] then Some b
      else (case (if db_len b + length d > db_cap b
                  then (case grow (db_cap b) (db_len b + length d) of
                          None \<Rightarrow> None
                        | Some c \<Rightarrow> if alloc c then Some (b\<lparr>db_data := realloc (db_data b) c, db_cap := c\<rparr>) else None)
                  else Some b) of
              None \<Rightarrow> None
            | Some b \<Rightarrow>
                (case memcpy (db_data b) (db_len b) d of
                   None \<Rightarrow> None
                 | Some x \<Rightarrow> incr_loop alloc evs (b\<lparr>db_data := x, db_len := db_len b + length d\<rparr>))))"

definition x11_read_selection_ex :: "desktop \<Rightarrow> string \<Rightarrow> string \<Rightarrow> byte list option option" where
  "x11_read_selection_ex dt selection target =
     (if \<not> xdisplay dt then Some None
      else (case xselection dt selection target of
              XNone \<Rightarrow> Some None
            | XIncr evs \<Rightarrow>
                if \<not> alloc_ok dt 65536 then Some None
                else (case incr_loop (alloc_ok dt) evs \<lparr>db_data = replicate 65536 None, db_len = 0, db_cap = 65536\<rparr> of
                        None \<Rightarrow> None
                      | Some b \<Rightarrow> Some (if db_len b = 0 then None else Some (dyn_contents b)))
            | XValue None \<Rightarrow> Some None
            | XValue (Some d) \<Rightarrow> Some (if d = [] then None else if alloc_ok dt (length d) then Some d else None)))"

definition x11_read_selection :: "desktop \<Rightarrow> string \<Rightarrow> byte list option option" where
  "x11_read_selection dt target = x11_read_selection_ex dt ''CLIPBOARD'' target"

text \<open>Text from a selection: \<open>UTF8_STRING\<close>, then \<open>STRING\<close>; a NUL is put behind it.\<close>

definition x11_text :: "desktop \<Rightarrow> string \<Rightarrow> string option option" where
  "x11_text dt selection =
     (case x11_read_selection_ex dt selection ''UTF8_STRING'' of
        None \<Rightarrow> None
      | Some r \<Rightarrow>
          (case (if r = None then x11_read_selection_ex dt selection ''STRING'' else Some r) of
             None \<Rightarrow> None
           | Some None \<Rightarrow> Some None
           | Some (Some d) \<Rightarrow>
               Some (if d = [] then None
                     else if alloc_ok dt (length d + 1) then Some (cstr (str_of_bytes d)) else None)))"

definition x11_clipboard_get_text :: "desktop \<Rightarrow> string option option" where
  "x11_clipboard_get_text dt = x11_text dt ''CLIPBOARD''"

definition x11_clipboard_read_type :: "desktop \<Rightarrow> string \<Rightarrow> byte list option option" where
  "x11_clipboard_read_type dt mime =
     (if \<not> xdisplay dt \<or> \<not> is_safe_mime mime then Some None else x11_read_selection dt mime)"

text \<open>
  The names of the targets, one per line; an \<open>Atom\<close> takes 8 bytes. \<open>snprintf\<close> returns the length
  it would have needed, so a name that is cut moves the position behind the buffer and ends the
  loop.
\<close>

fun atoms_of :: "nat \<Rightarrow> byte list \<Rightarrow> byte list list" where
  "atoms_of 0 d = []"
| "atoms_of (Suc n) d = take 8 d # atoms_of n (drop 8 d)"

fun types_loop :: "(byte list \<Rightarrow> string option) \<Rightarrow> nat \<Rightarrow> byte list list \<Rightarrow> nat \<Rightarrow> string \<Rightarrow> string" where
  "types_loop nm buf_size [] pos buf = buf"
| "types_loop nm buf_size (a # as) pos buf =
     (if \<not> pos < buf_size - 64 then buf
      else (case nm a of
              None \<Rightarrow> types_loop nm buf_size as pos buf
            | Some name \<Rightarrow>
                types_loop nm buf_size as (pos + length name + 1)
                  (buf @ fst (snprintf_c (buf_size - pos) (name @ [CHR 0x0A])))))"

definition x11_clipboard_refresh_types :: "desktop \<Rightarrow> nat \<Rightarrow> string option" where
  "x11_clipboard_refresh_types dt buf_size =
     (if \<not> xdisplay dt then Some []
      else (case x11_read_selection dt ''TARGETS'' of
              None \<Rightarrow> None
            | Some None \<Rightarrow> Some []
            | Some (Some d) \<Rightarrow> Some (types_loop (atom_name dt) buf_size (atoms_of (length d div 8) d) 0 [])))"

section \<open>The table of operations\<close>

record ClipboardOps =
  co_get_text :: "desktop \<Rightarrow> string option option"
  co_set_text :: "desktop \<Rightarrow> string \<Rightarrow> shell \<Rightarrow> shell"
  co_refresh_types :: "desktop \<Rightarrow> nat \<Rightarrow> string option"
  co_read_type :: "desktop \<Rightarrow> string \<Rightarrow> byte list option option"
  co_set_image :: "desktop \<Rightarrow> byte list \<Rightarrow> string \<Rightarrow> shell \<Rightarrow> shell option"
  co_set_file :: "desktop \<Rightarrow> string \<Rightarrow> shell \<Rightarrow> shell"

definition xclip_ops :: ClipboardOps where
  "xclip_ops =
     \<lparr>co_get_text = \<lambda>dt. Some (xclip_clipboard_get_text dt), co_set_text = xclip_clipboard_set_text,
      co_refresh_types = \<lambda>dt n. Some (xclip_clipboard_refresh_types dt n),
      co_read_type = \<lambda>dt mime. Some (xclip_clipboard_read_type dt mime),
      co_set_image = xclip_clipboard_set_image, co_set_file = xclip_clipboard_set_file\<rparr>"

definition wl_ops :: ClipboardOps where
  "wl_ops =
     \<lparr>co_get_text = \<lambda>dt. Some (wl_clipboard_get_text dt), co_set_text = wl_clipboard_set_text,
      co_refresh_types = \<lambda>dt n. Some (wl_clipboard_refresh_types dt n),
      co_read_type = \<lambda>dt mime. Some (wl_clipboard_read_type dt mime),
      co_set_image = wl_clipboard_set_image, co_set_file = wl_clipboard_set_file\<rparr>"

text \<open>The monitor thread replaces the reads once it has an X display.\<close>

definition x11_upgrade :: "ClipboardOps \<Rightarrow> ClipboardOps" where
  "x11_upgrade ops =
     ops\<lparr>co_get_text := x11_clipboard_get_text, co_refresh_types := x11_clipboard_refresh_types,
         co_read_type := x11_clipboard_read_type\<rparr>"

text \<open>\<open>main\<close>: the session type, then the tools; wl-clipboard must be installed.\<close>

definition detect_display_server :: "string option \<Rightarrow> bool" where
  "detect_display_server wayland_display = (case wayland_display of None \<Rightarrow> False | Some w \<Rightarrow> w \<noteq> [])"

definition select_ops :: "string option \<Rightarrow> bool \<Rightarrow> bool \<times> ClipboardOps" where
  "select_ops wayland_display wl_paste_found =
     (if detect_display_server wayland_display \<and> wl_paste_found then (True, wl_ops) else (False, xclip_ops))"

section \<open>What was copied\<close>

definition clipboard_get_image :: "ClipboardOps \<Rightarrow> desktop \<Rightarrow> (byte list \<times> string) option option" where
  "clipboard_get_image ops dt =
     (case co_read_type ops dt ''image/png'' of
        None \<Rightarrow> None
      | Some (Some d) \<Rightarrow> Some (Some (d, ''image/png''))
      | Some None \<Rightarrow>
          (case co_read_type ops dt ''image/jpeg'' of
             None \<Rightarrow> None
           | Some (Some d) \<Rightarrow> Some (Some (d, ''image/jpeg''))
           | Some None \<Rightarrow> Some None))"

text \<open>
  The bytes \<open>read_type\<close> returns are not NUL-terminated, but \<open>strchr\<close> is applied to them:
  without a newline or a NUL among them it runs on behind the bytes read (\<open>None\<close>).
\<close>

definition first_line :: "string \<Rightarrow> string option" where
  "first_line s =
     (let t = takeWhile (\<lambda>c. c \<noteq> nul \<and> c \<noteq> CHR 0x0A) s in
      if length t = length s then None else Some (takeWhile (\<lambda>c. c \<noteq> CHR 0x0D) t))"

definition path_of_uri :: "string \<Rightarrow> string option" where
  "path_of_uri s = (if starts_with ''file://'' s then Some (url_decode_inplace (drop 7 s)) else None)"

definition gnome_uri :: "string \<Rightarrow> string option option" where
  "gnome_uri s =
     (let t = takeWhile (\<lambda>c. c \<noteq> nul \<and> c \<noteq> CHR 0x0A) s in
      case drop (length t) s of
        [] \<Rightarrow> None
      | c # r \<Rightarrow>
          if c = nul then Some None
          else (case first_line r of None \<Rightarrow> None | Some l \<Rightarrow> Some (path_of_uri l)))"

definition clipboard_get_file_uri :: "ClipboardOps \<Rightarrow> desktop \<Rightarrow> string option option" where
  "clipboard_get_file_uri ops dt =
     (case co_read_type ops dt ''text/uri-list'' of
        None \<Rightarrow> None
      | Some r \<Rightarrow>
          (case (case r of
                   None \<Rightarrow> Some None
                 | Some d \<Rightarrow> (case first_line (str_of_bytes d) of None \<Rightarrow> None | Some l \<Rightarrow> Some (path_of_uri l))) of
             None \<Rightarrow> None
           | Some (Some p) \<Rightarrow> Some (Some p)
           | Some None \<Rightarrow>
               (case co_read_type ops dt ''x-special/gnome-copied-files'' of
                  None \<Rightarrow> None
                | Some None \<Rightarrow> Some None
                | Some (Some d) \<Rightarrow> gnome_uri (str_of_bytes d))))"

section \<open>Properties\<close>

text \<open>Percent-encoding of a file name: letters and digits as they are, the rest as escapes.\<close>

definition unreserved :: "char \<Rightarrow> bool" where
  "unreserved c \<longleftrightarrow> isdigit c \<or> c \<in> set ''ABCDEFGHIJKLMNOPQRSTUVWXYZabcdefghijklmnopqrstuvwxyz/._-''"

definition url_encode :: "string \<Rightarrow> string" where
  "url_encode s = concat (map (\<lambda>c. if unreserved c then [c] else CHR ''%'' # hex02 (of_char c)) s)"

lemma unreserved_plain: "unreserved c \<Longrightarrow> c \<noteq> CHR ''%'' \<and> c \<noteq> nul \<and> c \<noteq> CHR 0x0A \<and> c \<noteq> CHR 0x0D"
  by (auto simp: unreserved_def isdigit_def nul_def)

lemma sscanf_hex02: "sscanf_2x (hex02 b @ r) = Some (of_nat (unat b))"
  using sscanf_2x_digits [OF hex02_facts [of b], of r] by (simp add: hex02_def)

lemma char_of_escape: "char_of (unat (of_nat (unat (of_char c :: byte)) :: u32)) = c"
proof -
  have "(of_char c :: nat) < 2 ^ 32" by (rule less_le_trans [OF nat_of_char_less_256]) simp
  then have "(of_char c :: nat) mod 2 ^ 32 = of_char c" by (rule mod_less)
  then show ?thesis by (simp add: unat_of_char unat_of_nat)
qed

lemma url_decode_encode: "url_decode (url_encode s) = s"
proof (induction s)
  case (Cons c s)
  show ?case
  proof (cases "unreserved c")
    case True
    then show ?thesis using Cons unreserved_plain [of c] by (simp add: url_encode_def)
  next
    case False
    have "length (hex02 (of_char c)) = 2" by (simp add: hex02_def)
    then show ?thesis
      using Cons False sscanf_hex02 [of "of_char c" "url_encode s"] char_of_escape [of c]
      by (simp add: url_encode_def)
  qed
qed (simp add: url_encode_def)

lemma hex02_plain: "c \<in> set (hex02 b) \<Longrightarrow> c \<noteq> nul \<and> c \<noteq> CHR 0x0A \<and> c \<noteq> CHR 0x0D"
proof -
  assume "c \<in> set (hex02 b)"
  then have "isxdigit c" using xdigits_concat_hex02 [of "[b]"] by simp
  then show ?thesis by (auto simp: isxdigit_def hexval_def nul_def)
qed

lemma url_encode_plain: "c \<in> set (url_encode s) \<Longrightarrow> c \<noteq> nul \<and> c \<noteq> CHR 0x0A \<and> c \<noteq> CHR 0x0D"
  using unreserved_plain hex02_plain by (fastforce simp: url_encode_def nul_def split: if_splits)

lemma takeWhile_until: "\<forall>x \<in> set xs. P x \<Longrightarrow> \<not> P y \<Longrightarrow> takeWhile P (xs @ y # ys) = xs"
  by (induction xs) auto

lemma first_line_crlf:
  assumes "\<forall>c \<in> set l. c \<noteq> nul \<and> c \<noteq> CHR 0x0A \<and> c \<noteq> CHR 0x0D"
  shows "first_line (l @ [CHR 0x0D, CHR 0x0A] @ r) = Some l"
proof -
  have "takeWhile (\<lambda>c. c \<noteq> nul \<and> c \<noteq> CHR 0x0A) ((l @ [CHR 0x0D]) @ CHR 0x0A # r) = l @ [CHR 0x0D]"
    using assms by (intro takeWhile_until) (auto simp: nul_def)
  then show ?thesis using assms by (simp add: first_line_def Let_def takeWhile_tail)
qed

text \<open>
  A copied file is found: when the clipboard offers a URI list whose first line is the
  percent-encoded \<open>file://\<close> address of a path, \<open>clipboard_get_file_uri\<close> returns that path,
  whatever bytes it has (spaces, percent signs, UTF-8).
\<close>

theorem copied_file_path:
  assumes "nul \<notin> set p"
    and "co_read_type ops dt ''text/uri-list'' = Some (Some (bytes_of_str (''file://'' @ url_encode p @ [CHR 0x0D, CHR 0x0A] @ r)))"
  shows "clipboard_get_file_uri ops dt = Some (Some p)"
proof -
  have l: "first_line ((''file://'' @ url_encode p) @ [CHR 0x0D, CHR 0x0A] @ r) = Some (''file://'' @ url_encode p)"
    using url_encode_plain by (intro first_line_crlf) (auto simp: nul_def)
  have "cstr p = p" using assms(1) by (auto simp: cstr_def takeWhile_eq_all_conv)
  then have "path_of_uri (''file://'' @ url_encode p) = Some p"
    by (simp add: path_of_uri_def starts_with_def url_decode_inplace_def url_decode_encode)
  then show ?thesis using assms(2) l by (simp add: clipboard_get_file_uri_def)
qed

definition sample_desktop :: "(string \<Rightarrow> byte list option) \<Rightarrow> desktop" where
  "sample_desktop out = \<lparr>popen_out = out, popen_w_ok = \<lambda>_. True, xdisplay = True, xselection = \<lambda>_ _. XNone,
     atom_name = \<lambda>_. None, dt_stb = blank_stb, alloc_ok = \<lambda>_. True\<rparr>"

definition x11_sample :: "byte list \<Rightarrow> desktop" where
  "x11_sample d = (sample_desktop (\<lambda>_. None))\<lparr>xselection := \<lambda>_ t. if t = ''text/uri-list'' then XValue (Some d) else XNone\<rparr>"

theorem copied_file_path_witness:
  "clipboard_get_file_uri (x11_upgrade xclip_ops) (x11_sample (bytes_of_str (''file:///a%20b'' @ [CHR 0x0D, CHR 0x0A]))) = Some (Some ''/a b'')"
proof -
  have e: "url_encode ''/a b'' = ''/a%20b''" by code_simp
  show ?thesis
    by (rule copied_file_path [where r = "[]"])
      (simp_all add: e x11_upgrade_def xclip_ops_def x11_clipboard_read_type_def x11_sample_def sample_desktop_def
        is_safe_mime_def safe_mimes_def x11_read_selection_def x11_read_selection_ex_def nul_def bytes_of_str_def)
qed

text \<open>What the client itself puts on the clipboard for a file has no byte that stops \<open>strchr\<close>.\<close>

theorem own_file_overread:
  assumes "\<forall>c \<in> set p. c \<noteq> nul \<and> c \<noteq> CHR 0x0A"
  shows "gnome_uri (''copy'' @ [CHR 0x0A] @ ''file://'' @ p) = None"
proof -
  have "takeWhile (\<lambda>c. c \<noteq> nul \<and> c \<noteq> CHR 0x0A) (''file://'' @ p) = ''file://'' @ p"
    using assms by (auto simp: takeWhile_eq_all_conv nul_def)
  then have "first_line (''file://'' @ p) = None" by (simp add: first_line_def)
  then show ?thesis by (simp add: gnome_uri_def nul_def)
qed

text \<open>The media type of a picture reaches the shell as it is.\<close>

theorem image_type_reaches_shell:
  assumes "mime \<noteq> []" and "mime \<noteq> ''image/bmp''" and "length mime < 200" and "popen_w_ok dt (xclip_image_cmd mime)"
  shows "xclip_clipboard_set_image dt d mime sh = Some (sh @ [(''xclip -selection clipboard -t '' @ mime @ '' -i 2>/dev/null'', d)])"
  using assms by (simp add: xclip_clipboard_set_image_def prepare_image_def popen_w_def xclip_image_cmd_def snprintf_c_def Let_def)

section \<open>Incremental transfers\<close>

fun incr_chunks :: "byte list option list \<Rightarrow> byte list list" where
  "incr_chunks (Some d # evs) = (if d = [] then [] else d # incr_chunks evs)"
| "incr_chunks _ = []"

lemma incr_loop_all:
  assumes "dyn_inv b" and "0 < db_cap b"
  shows "\<exists>b'. incr_loop (\<lambda>_. True) evs b = Some b' \<and> dyn_inv b' \<and> dyn_contents b' = dyn_contents b @ concat (incr_chunks evs)"
  using assms
proof (induction evs arbitrary: b rule: incr_chunks.induct)
  case (1 d evs)
  show ?case
  proof (cases "d = []")
    case False
    obtain c where c: "grow (db_cap b) (db_len b + length d) = Some c" "db_len b + length d \<le> c" "db_cap b \<le> c"
      using grow_returns [OF 1(3)] by blast
    define b0 where "b0 = (if db_len b + length d > db_cap b then b\<lparr>db_data := realloc (db_data b) c, db_cap := c\<rparr> else b)"
    have b0: "db_len b0 = db_len b" "dyn_contents b0 = dyn_contents b" "db_cap b0 = length (db_data b0)"
      "db_len b + length d \<le> length (db_data b0)" "0 < db_cap b0"
      using c 1(2,3) by (auto simp: b0_def dyn_contents_def dyn_inv_def filled_realloc)
    obtain x where x: "memcpy (db_data b0) (db_len b0) d = Some x" "length x = length (db_data b0)"
      "filled x (db_len b0 + length d) = filled (db_data b0) (db_len b0) @ d"
      using memcpy_filled [of "db_len b0" d "db_data b0"] b0 by auto
    define b1 where "b1 = b0\<lparr>db_data := x, db_len := db_len b0 + length d\<rparr>"
    have b1: "dyn_inv b1" "0 < db_cap b1" "dyn_contents b1 = dyn_contents b @ d"
      using b0 x by (auto simp: b1_def dyn_inv_def dyn_contents_def)
    have "incr_loop (\<lambda>_. True) (Some d # evs) b = incr_loop (\<lambda>_. True) evs b1"
      using False c(1) x(1) b0(1) by (auto simp: b0_def b1_def)
    then show ?thesis using 1(1) [OF False b1(1,2)] b1(3) False by simp
  qed (use 1 in simp)
qed auto

text \<open>
  A large selection is read completely: an incremental transfer of any number of chunks of
  any sizes gives exactly the chunks in order up to the empty property that ends it, or up to
  the first wait that sees nothing; NULL when there was none.
\<close>

theorem x11_incremental_complete:
  assumes "xdisplay dt" and "alloc_ok dt = (\<lambda>_. True)" and "xselection dt sel target = XIncr evs"
  shows "x11_read_selection_ex dt sel target =
     Some (if incr_chunks evs = [] then None else Some (concat (incr_chunks evs)))"
proof -
  define b where "b = \<lparr>db_data = replicate 65536 (None :: byte option), db_len = 0, db_cap = 65536\<rparr>"
  have b: "dyn_inv b" "0 < db_cap b" "dyn_contents b = []"
    by (simp_all add: b_def dyn_inv_def dyn_contents_def filled_def)
  obtain b' where b': "incr_loop (\<lambda>_. True) evs b = Some b'" "dyn_inv b'" "dyn_contents b' = concat (incr_chunks evs)"
    using incr_loop_all [OF b(1,2), of evs] b(3) by auto
  have ne: "[] \<notin> set (incr_chunks evs)" by (induction evs rule: incr_chunks.induct) auto
  have "(db_len b' = 0) = (dyn_contents b' = [])"
    using b'(2) by (auto simp: dyn_contents_def filled_def dyn_inv_def)
  also have "\<dots> = (incr_chunks evs = [])" using ne b'(3) by (cases "incr_chunks evs") auto
  finally show ?thesis using assms b' by (simp add: x11_read_selection_ex_def b_def [symmetric])
qed

theorem x11_incremental_complete_witness:
  "x11_read_selection_ex ((sample_desktop (\<lambda>_. None))\<lparr>xselection := \<lambda>_ _. XIncr [Some [1, 2], Some [3], Some [], Some [4]]\<rparr>) ''CLIPBOARD'' ''UTF8_STRING''
     = Some (Some [1, 2, 3])"
  by (subst x11_incremental_complete [where evs = "[Some [1, 2], Some [3], Some [], Some [4]]"]) (simp_all add: sample_desktop_def)

end
