(* ===== verification/SendQueue.thy ===== *)
theory SendQueue
  imports Prelude
begin

text \<open>
  The queue of outgoing messages, \<open>g_send_head\<close> and \<open>g_send_tail\<close> of \<open>src/linux/main.c\<close> and
  \<open>src/windows/main.c\<close>: a linked list with head and tail pointers, filled by \<open>queue_send\<close> from
  any thread and emptied by the WebSocket callback, both under \<open>g_send_lock\<close>. The nodes live
  in a heap from addresses to nodes; \<open>malloc\<close> hands out the address \<open>brk\<close> and moves it.
\<close>

section \<open>The linked list\<close>

record SendNode =
  node_msg :: string
  node_next :: "nat option"

record SendQueue =
  sq_heap :: "nat \<rightharpoonup> SendNode"
  g_send_head :: "nat option"
  g_send_tail :: "nat option"
  brk :: nat

definition empty_queue :: SendQueue where
  "empty_queue = \<lparr>sq_heap = (\<lambda>_. None), g_send_head = None, g_send_tail = None, brk = 0\<rparr>"

text \<open>\<open>oom\<close>: \<open>malloc\<close> of the node fails, the message is dropped.\<close>

definition queue_send :: "bool \<Rightarrow> string \<Rightarrow> SendQueue \<Rightarrow> SendQueue" where
  "queue_send oom m q =
     (if oom then q
      else (let node = brk q;
                h = (sq_heap q)(node \<mapsto> \<lparr>node_msg = m, node_next = None\<rparr>)
            in case g_send_tail q of
                 Some t \<Rightarrow>
                   q\<lparr>sq_heap := (case h t of Some n \<Rightarrow> h(t \<mapsto> n\<lparr>node_next := Some node\<rparr>) | None \<Rightarrow> h),
                     g_send_tail := Some node, brk := Suc node\<rparr>
               | None \<Rightarrow> q\<lparr>sq_heap := h, g_send_head := Some node, g_send_tail := Some node, brk := Suc node\<rparr>))"

text \<open>
  The pop of \<open>LWS_CALLBACK_CLIENT_WRITEABLE\<close>: the message, whether there are more, and the
  queue without the node, which is freed.
\<close>

definition queue_pop :: "SendQueue \<Rightarrow> string option \<times> bool \<times> SendQueue" where
  "queue_pop q =
     (case g_send_head q of
        None \<Rightarrow> (None, False, q)
      | Some a \<Rightarrow>
          (case sq_heap q a of
             None \<Rightarrow> (None, False, q)
           | Some n \<Rightarrow>
               (let q' = q\<lparr>g_send_head := node_next n,
                          g_send_tail := (if node_next n = None then None else g_send_tail q),
                          sq_heap := (sq_heap q)(a := None)\<rparr>
                in (Some (node_msg n), g_send_head q' \<noteq> None, q'))))"

section \<open>The contract: first in, first out\<close>

datatype qop = Enq string | Deq

fun run_ops :: "(string \<Rightarrow> 'q \<Rightarrow> 'q) \<Rightarrow> ('q \<Rightarrow> string option \<times> 'q) \<Rightarrow> qop list \<Rightarrow> 'q \<Rightarrow> string list \<times> 'q" where
  "run_ops enq deq [] q = ([], q)"
| "run_ops enq deq (Enq m # ops) q = run_ops enq deq ops (enq m q)"
| "run_ops enq deq (Deq # ops) q =
     (let (r, q1) = deq q; (outs, q2) = run_ops enq deq ops q1
      in ((case r of None \<Rightarrow> [] | Some m \<Rightarrow> [m]) @ outs, q2))"

definition queued :: "qop list \<Rightarrow> string list" where
  "queued ops = concat (map (\<lambda>x. case x of Enq m \<Rightarrow> [m] | Deq \<Rightarrow> []) ops)"

lemma queued_simps [simp]:
  "queued [] = []" "queued (Enq m # ops) = m # queued ops" "queued (Deq # ops) = queued ops"
  by (simp_all add: queued_def)

locale fifo =
  fixes rep :: "'q \<Rightarrow> string list \<Rightarrow> bool"
    and enq :: "string \<Rightarrow> 'q \<Rightarrow> 'q"
    and deq :: "'q \<Rightarrow> string option \<times> 'q"
  assumes enq_rep: "rep q xs \<Longrightarrow> rep (enq m q) (xs @ [m])"
    and deq_empty: "rep q [] \<Longrightarrow> deq q = (None, q)"
    and deq_rep: "rep q (x # xs) \<Longrightarrow> \<exists>q'. deq q = (Some x, q') \<and> rep q' xs"
begin

lemma run_fifo:
  "rep q xs \<Longrightarrow> run_ops enq deq ops q = (outs, q') \<Longrightarrow> \<exists>rest. rep q' rest \<and> xs @ queued ops = outs @ rest"
proof (induction ops arbitrary: q xs outs)
  case (Cons x ops)
  show ?case
  proof (cases x)
    case (Enq m)
    then show ?thesis using Cons(1) [OF enq_rep [OF Cons(2)], of m outs] Cons(3) by simp
  next
    case Deq
    show ?thesis
    proof (cases xs)
      case Nil
      then show ?thesis using Cons(1) [of q "[]" outs] Cons(2,3) Deq deq_empty by (auto simp: Let_def split: prod.splits)
    next
      case (Cons y ys)
      obtain q1 where q1: "deq q = (Some y, q1)" "rep q1 ys" using deq_rep Cons.prems(1) Cons by blast
      obtain outs1 where o: "run_ops enq deq ops q1 = (outs1, q')" "outs = y # outs1"
        using Cons.prems(2) Deq q1(1) by (auto simp: Let_def split: prod.splits)
      show ?thesis using Cons.IH [OF q1(2) o(1)] o(2) Cons Deq by auto
    qed
  qed
qed simp

end

section \<open>The linked list keeps the contract\<close>

text \<open>The nodes from a pointer on, in order, with their messages.\<close>

fun node_path :: "(nat \<rightharpoonup> SendNode) \<Rightarrow> nat option \<Rightarrow> nat list \<Rightarrow> string list \<Rightarrow> bool" where
  "node_path h p [] [] = (p = None)"
| "node_path h p (a # as) (m # ms) = (p = Some a \<and> (\<exists>n. h a = Some \<lparr>node_msg = m, node_next = n\<rparr> \<and> node_path h n as ms))"
| "node_path h p _ _ = False"

definition queue_rep :: "SendQueue \<Rightarrow> string list \<Rightarrow> bool" where
  "queue_rep q ms \<longleftrightarrow>
     (\<exists>as. node_path (sq_heap q) (g_send_head q) as ms \<and> distinct as \<and> dom (sq_heap q) = set as
        \<and> g_send_tail q = (if as = [] then None else Some (last as)) \<and> (\<forall>a \<in> set as. a < brk q))"

lemma path_length: "node_path h p as ms \<Longrightarrow> length as = length ms"
  by (induction h p as ms rule: node_path.induct) auto

lemma path_frame: "node_path h p as ms \<Longrightarrow> a \<notin> set as \<Longrightarrow> node_path (h(a := x)) p as ms"
  by (induction h p as ms rule: node_path.induct) auto

lemma path_in_heap: "node_path h p as ms \<Longrightarrow> a \<in> set as \<Longrightarrow> h a \<noteq> None"
  by (induction h p as ms rule: node_path.induct) auto

lemma path_snoc:
  "node_path h p as ms \<Longrightarrow> distinct as \<Longrightarrow> as \<noteq> [] \<Longrightarrow> b \<notin> set as \<Longrightarrow> h (last as) = Some n \<Longrightarrow>
     node_path (h(b \<mapsto> \<lparr>node_msg = m, node_next = None\<rparr>, last as \<mapsto> n\<lparr>node_next := Some b\<rparr>)) p (as @ [b]) (ms @ [m])"
proof (induction h p as ms rule: node_path.induct)
  case (2 h p a as x ms)
  show ?case
  proof (cases as)
    case Nil
    then show ?thesis using 2 by (cases ms) auto
  next
    case (Cons c cs)
    then show ?thesis using 2 by auto
  qed
qed auto

lemma queue_send_rep:
  assumes "queue_rep q ms"
  shows "queue_rep (queue_send False m q) (ms @ [m])"
proof -
  obtain as where as: "node_path (sq_heap q) (g_send_head q) as ms" "distinct as" "dom (sq_heap q) = set as"
    "g_send_tail q = (if as = [] then None else Some (last as))" "\<forall>a \<in> set as. a < brk q"
    using assms by (auto simp: queue_rep_def)
  have fresh: "brk q \<notin> set as" using as(5) by blast
  show ?thesis
  proof (cases "as = []")
    case True
    then have "ms = []" using path_length [OF as(1)] by simp
    then show ?thesis using as True unfolding queue_rep_def
      by (intro exI [of _ "[brk q]"]) (simp add: queue_send_def Let_def)
  next
    case False
    obtain n where n: "sq_heap q (last as) = Some n" using path_in_heap [OF as(1), of "last as"] False by auto
    have l: "last as \<noteq> brk q" "last as \<in> set as" using fresh last_in_set [OF False] by metis+
    define h where "h = (sq_heap q)(brk q \<mapsto> \<lparr>node_msg = m, node_next = None\<rparr>, last as \<mapsto> n\<lparr>node_next := Some (brk q)\<rparr>)"
    have s: "queue_send False m q = q\<lparr>sq_heap := h, g_send_tail := Some (brk q), brk := Suc (brk q)\<rparr>"
      using as(4) False n l(1) by (simp add: queue_send_def h_def Let_def)
    have "node_path h (g_send_head q) (as @ [brk q]) (ms @ [m])"
      using path_snoc [OF as(1,2) False fresh n] by (simp add: h_def)
    moreover have "dom h = set (as @ [brk q])" using as(3) l(2) by (auto simp: h_def)
    ultimately show ?thesis using s as(2,5) fresh unfolding queue_rep_def
      by (intro exI [of _ "as @ [brk q]"]) auto
  qed
qed

lemma queue_pop_rep:
  assumes "queue_rep q (m # ms)"
  shows "\<exists>q'. queue_pop q = (Some m, ms \<noteq> [], q') \<and> queue_rep q' ms"
proof -
  obtain a as n where as: "g_send_head q = Some a" "sq_heap q a = Some \<lparr>node_msg = m, node_next = n\<rparr>" "node_path (sq_heap q) n as ms"
    "distinct (a # as)" "dom (sq_heap q) = set (a # as)" "g_send_tail q = Some (last (a # as))" "\<forall>a \<in> set (a # as). a < brk q"
  proof -
    obtain bs where bs: "node_path (sq_heap q) (g_send_head q) bs (m # ms)" "distinct bs" "dom (sq_heap q) = set bs"
      "g_send_tail q = (if bs = [] then None else Some (last bs))" "\<forall>a \<in> set bs. a < brk q"
      using assms by (auto simp: queue_rep_def)
    then obtain a as where "bs = a # as" by (cases bs) auto
    then show ?thesis using that bs by auto
  qed
  have e: "(n = None) = (as = [])" "(as = []) = (ms = [])" using as(3) path_length [OF as(3)] by (cases as; cases ms; auto)+
  define q' where "q' = q\<lparr>g_send_head := n, g_send_tail := (if n = None then None else g_send_tail q), sq_heap := (sq_heap q)(a := None)\<rparr>"
  have "queue_pop q = (Some m, ms \<noteq> [], q')" using as(1,2) e by (auto simp: queue_pop_def q'_def Let_def)
  moreover have "queue_rep q' ms"
    unfolding queue_rep_def using as e path_frame [OF as(3), of a None]
    by (intro exI [of _ as]) (auto simp: q'_def)
  ultimately show ?thesis by blast
qed

lemma queue_pop_empty: "queue_rep q [] \<Longrightarrow> queue_pop q = (None, False, q)"
proof -
  assume "queue_rep q []"
  then obtain as where "node_path (sq_heap q) (g_send_head q) as []" by (auto simp: queue_rep_def)
  then show ?thesis by (cases as) (auto simp: queue_pop_def)
qed

lemma empty_queue_rep: "queue_rep empty_queue []"
  by (simp add: queue_rep_def empty_queue_def)

interpretation sendq: fifo queue_rep "queue_send False" "\<lambda>q. (fst (queue_pop q), snd (snd (queue_pop q)))"
proof
  show "queue_rep q xs \<Longrightarrow> queue_rep (queue_send False m q) (xs @ [m])" for q xs m by (rule queue_send_rep)
  show "queue_rep q [] \<Longrightarrow> (fst (queue_pop q), snd (snd (queue_pop q))) = (None, q)" for q by (simp add: queue_pop_empty)
  show "queue_rep q (x # xs) \<Longrightarrow> \<exists>q'. (fst (queue_pop q), snd (snd (queue_pop q))) = (Some x, q') \<and> queue_rep q' xs" for q x xs
    using queue_pop_rep [of q x xs] by auto
qed

text \<open>
  C13. The linked list is a first-in-first-out queue: whatever the order in which messages are
  queued and the connection becomes writable, the messages taken out are those put in, in that
  order, and the ones still waiting are exactly the nodes of the heap, reached from head to
  tail; no node is lost, doubled or leaked.
\<close>

theorem send_queue_refines_fifo:
  assumes "run_ops (queue_send False) (\<lambda>q. (fst (queue_pop q), snd (snd (queue_pop q)))) ops empty_queue = (sent, q')"
  shows "\<exists>waiting. queue_rep q' waiting \<and> queued ops = sent @ waiting"
  using sendq.run_fifo [OF empty_queue_rep assms] by simp

theorem send_queue_refines_fifo_witness:
  "run_ops (queue_send False) (\<lambda>q. (fst (queue_pop q), snd (snd (queue_pop q)))) [Enq ''a'', Enq ''b'', Deq, Deq, Deq, Enq ''c''] empty_queue =
     ([''a'', ''b''], \<lparr>sq_heap = [2 \<mapsto> \<lparr>node_msg = ''c'', node_next = None\<rparr>], g_send_head = Some 2, g_send_tail = Some 2, brk = 3\<rparr>) \<and>
   (\<exists>waiting. queued [Enq ''a'', Enq ''b'', Deq, Deq, Deq, Enq ''c''] = [''a'', ''b''] @ waiting)"
proof
  show r: "run_ops (queue_send False) (\<lambda>q. (fst (queue_pop q), snd (snd (queue_pop q)))) [Enq ''a'', Enq ''b'', Deq, Deq, Deq, Enq ''c''] empty_queue =
     ([''a'', ''b''], \<lparr>sq_heap = [2 \<mapsto> \<lparr>node_msg = ''c'', node_next = None\<rparr>], g_send_head = Some 2, g_send_tail = Some 2, brk = 3\<rparr>)"
    by (simp add: empty_queue_def queue_send_def queue_pop_def Let_def eval_nat_numeral fun_upd_twist)
  show "\<exists>waiting. queued [Enq ''a'', Enq ''b'', Deq, Deq, Deq, Enq ''c''] = [''a'', ''b''] @ waiting"
    using send_queue_refines_fifo [OF r] by blast
qed
end
