(* ===== verification/Json.thy ===== *)
theory Json
  imports Prelude Complex_Main
begin

text \<open>
  The part of \<open>src/common/cJSON.c\<close> the clients use: the tree, its accessors and constructors,
  the unformatted printer and the parser. Children of an array have no name, those of an
  object have one. Allocation failures, \<open>valueint\<close> beyond its use in the printer, raw items,
  references and the formatted printer are left out.

  A \<open>double\<close> is a rational number, an infinity or NaN; how a decimal number is rounded to a
  \<open>double\<close> and what \<open>%1.15g\<close> and \<open>%1.17g\<close> print are operations of the C library, given by a
  record \<open>fp\<close>.
\<close>

section \<open>Numbers\<close>

datatype dbl = NaN | Inf bool | Fin rat

record fp =
  round_d :: "rat \<Rightarrow> dbl"
  print_g :: "nat \<Rightarrow> rat \<Rightarrow> string"

text \<open>Integers of up to 15 digits are doubles and are printed exactly by \<open>%1.15g\<close>.\<close>

definition fp_documented :: "fp \<Rightarrow> bool" where
  "fp_documented m \<longleftrightarrow>
     (\<forall>i :: int. \<bar>i\<bar> < 10 ^ 15 \<longrightarrow> round_d m (of_int i) = Fin (of_int i) \<and> print_g m 15 (of_int i) = dec_of_int i)"

definition INT_MAX :: int where "INT_MAX = 2147483647"
definition INT_MIN :: int where "INT_MIN = - 2147483648"

definition trunc :: "rat \<Rightarrow> int" where
  "trunc r = (if r < 0 then - \<lfloor>- r\<rfloor> else \<lfloor>r\<rfloor>)"

text \<open>\<open>(int)d\<close>, \<open>(long)d\<close> and \<open>(uint64_t)d\<close> where the value fits; else the value an x86-64 client gets.\<close>

definition dbl_to_int :: "dbl \<Rightarrow> int" where
  "dbl_to_int d =
     (case d of Fin r \<Rightarrow> if INT_MIN \<le> trunc r \<and> trunc r \<le> INT_MAX then trunc r else INT_MIN
              | _ \<Rightarrow> INT_MIN)"

definition dbl_to_long :: "dbl \<Rightarrow> int" where
  "dbl_to_long d =
     (case d of Fin r \<Rightarrow> if - (2 ^ 63) \<le> trunc r \<and> trunc r < 2 ^ 63 then trunc r else - (2 ^ 63)
              | _ \<Rightarrow> - (2 ^ 63))"

definition dbl_to_u64 :: "dbl \<Rightarrow> u64" where
  "dbl_to_u64 d =
     (case d of
        Fin r \<Rightarrow> if 2 ^ 64 \<le> trunc r then 0 else if trunc r < - (2 ^ 63) then 2 ^ 63 else of_int (trunc r)
      | Inf pos \<Rightarrow> if pos then 0 else 2 ^ 63
      | NaN \<Rightarrow> 2 ^ 63)"

text \<open>\<open>valueint\<close>: saturating.\<close>

definition valueint :: "rat \<Rightarrow> int" where
  "valueint r = (if of_int INT_MAX \<le> r then INT_MAX else if r \<le> of_int INT_MIN then INT_MIN else trunc r)"

section \<open>The tree\<close>

datatype json = JNull | JFalse | JTrue | JNumber dbl | JString string
  | JArray "json list" | JObject "(string \<times> json) list"

fun lookup_by :: "(string \<Rightarrow> bool) \<Rightarrow> (string \<times> json) list \<Rightarrow> json option" where
  "lookup_by P [] = None"
| "lookup_by P ((k, v) # ms) = (if P k then Some v else lookup_by P ms)"

definition get_object_item :: "bool \<Rightarrow> json option \<Rightarrow> string \<Rightarrow> json option" where
  "get_object_item case_sensitive j name =
     (case j of
        Some (JObject ms) \<Rightarrow> lookup_by (if case_sensitive then (=) name else strcaseeq name) ms
      | _ \<Rightarrow> None)"

definition cJSON_GetObjectItem :: "json option \<Rightarrow> string \<Rightarrow> json option" where
  "cJSON_GetObjectItem = get_object_item False"

definition cJSON_GetObjectItemCaseSensitive :: "json option \<Rightarrow> string \<Rightarrow> json option" where
  "cJSON_GetObjectItemCaseSensitive = get_object_item True"

definition cJSON_IsTrue :: "json option \<Rightarrow> bool" where
  "cJSON_IsTrue j = (case j of Some JTrue \<Rightarrow> True | _ \<Rightarrow> False)"

definition cJSON_IsNumber :: "json option \<Rightarrow> bool" where
  "cJSON_IsNumber j = (case j of Some (JNumber _) \<Rightarrow> True | _ \<Rightarrow> False)"

definition cJSON_IsString :: "json option \<Rightarrow> bool" where
  "cJSON_IsString j = (case j of Some (JString _) \<Rightarrow> True | _ \<Rightarrow> False)"

definition cJSON_IsArray :: "json option \<Rightarrow> bool" where
  "cJSON_IsArray j = (case j of Some (JArray _) \<Rightarrow> True | _ \<Rightarrow> False)"

definition cJSON_GetStringValue :: "json option \<Rightarrow> string option" where
  "cJSON_GetStringValue j = (case j of Some (JString s) \<Rightarrow> Some s | _ \<Rightarrow> None)"

definition cJSON_GetNumberValue :: "json option \<Rightarrow> dbl" where
  "cJSON_GetNumberValue j = (case j of Some (JNumber d) \<Rightarrow> d | _ \<Rightarrow> NaN)"

text \<open>Adding to an object appends; a NULL string adds nothing.\<close>

definition add_item_to_object :: "json \<Rightarrow> string \<Rightarrow> json option \<Rightarrow> json" where
  "add_item_to_object j name item =
     (case (j, item) of (JObject ms, Some v) \<Rightarrow> JObject (ms @ [(name, v)]) | _ \<Rightarrow> j)"

definition cJSON_CreateString :: "string option \<Rightarrow> json option" where
  "cJSON_CreateString s = map_option JString s"

definition cJSON_CreateObject :: json where
  "cJSON_CreateObject = JObject []"

definition cJSON_AddStringToObject :: "json \<Rightarrow> string \<Rightarrow> string option \<Rightarrow> json" where
  "cJSON_AddStringToObject j name s = add_item_to_object j name (cJSON_CreateString s)"

definition cJSON_AddNumberToObject :: "json \<Rightarrow> string \<Rightarrow> dbl \<Rightarrow> json" where
  "cJSON_AddNumberToObject j name d = add_item_to_object j name (Some (JNumber d))"

definition cJSON_AddBoolToObject :: "json \<Rightarrow> string \<Rightarrow> bool \<Rightarrow> json" where
  "cJSON_AddBoolToObject j name b = add_item_to_object j name (Some (if b then JTrue else JFalse))"

definition cJSON_AddItemToObject :: "json \<Rightarrow> string \<Rightarrow> json \<Rightarrow> json" where
  "cJSON_AddItemToObject j name v = add_item_to_object j name (Some v)"

text \<open>The array \<open>cJSON_AddArrayToObject\<close> adds, filled with the strings that are then appended to it.\<close>

definition add_string_array :: "json \<Rightarrow> string \<Rightarrow> string list \<Rightarrow> json" where
  "add_string_array j name ss = add_item_to_object j name (Some (JArray (map JString ss)))"

section \<open>Printing\<close>

definition CJSON_NESTING_LIMIT :: nat where "CJSON_NESTING_LIMIT = 1000"

definition hex04 :: "nat \<Rightarrow> string" where
  "hex04 n = [hexdigit (n div 4096 mod 16), hexdigit (n div 256 mod 16), hexdigit (n div 16 mod 16), hexdigit (n mod 16)]"

definition escape_char :: "char \<Rightarrow> string" where
  "escape_char c =
     (let n = (of_char c :: nat) in
      if 31 < n \<and> c \<noteq> CHR 0x22 \<and> c \<noteq> CHR 0x5C then [c]
      else CHR 0x5C #
        (if c = CHR 0x5C then [CHR 0x5C] else if c = CHR 0x22 then [CHR 0x22]
         else if n = 8 then ''b'' else if n = 12 then ''f'' else if n = 10 then ''n''
         else if n = 13 then ''r'' else if n = 9 then ''t'' else CHR ''u'' # hex04 n))"

definition print_string_ptr :: "string \<Rightarrow> string" where
  "print_string_ptr s = CHR 0x22 # concat (map escape_char s) @ [CHR 0x22]"

text \<open>\<open>compare_double\<close>: equal up to one unit in the last place of the larger one.\<close>

definition compare_double :: "rat \<Rightarrow> rat \<Rightarrow> bool" where
  "compare_double a b \<longleftrightarrow> \<bar>a - b\<bar> \<le> max \<bar>a\<bar> \<bar>b\<bar> / 2 ^ 52"

text \<open>
  \<open>strtod\<close> on a text of digits, signs, \<open>e\<close>, \<open>E\<close> and \<open>.\<close>: the value of its longest numeric prefix
  and the length of that prefix, \<open>None\<close> when there is none.
\<close>

definition strtod_prefix :: "string \<Rightarrow> (rat \<times> nat) option" where
  "strtod_prefix s =
     (let neg = (s \<noteq> [] \<and> hd s = CHR ''-'');
          signed = (s \<noteq> [] \<and> (hd s = CHR ''-'' \<or> hd s = CHR ''+''));
          r = (if signed then tl s else s);
          ip = takeWhile isdigit r; r1 = drop (length ip) r;
          point = (r1 \<noteq> [] \<and> hd r1 = CHR ''.'');
          fr = (if point then takeWhile isdigit (tl r1) else []);
          r2 = (if point then drop (length fr) (tl r1) else r1);
          mant = rat_of_nat (dec_value (ip @ fr) 0) / 10 ^ length fr;
          expo = (r2 \<noteq> [] \<and> (hd r2 = CHR ''e'' \<or> hd r2 = CHR ''E''));
          r3 = (if expo then tl r2 else []);
          eneg = (r3 \<noteq> [] \<and> hd r3 = CHR ''-'');
          r4 = (if r3 \<noteq> [] \<and> (hd r3 = CHR ''-'' \<or> hd r3 = CHR ''+'') then tl r3 else r3);
          ed = takeWhile isdigit r4;
          e = dec_value ed 0;
          v = (if ed = [] then mant else if eneg then mant / 10 ^ e else mant * 10 ^ e);
          used = length s - (if ed = [] then length r2 else length (drop (length ed) r4))
      in if ip = [] \<and> fr = [] then None else Some (if neg then - v else v, used))"

definition print_number :: "fp \<Rightarrow> dbl \<Rightarrow> string" where
  "print_number m d =
     (case d of
        Fin r \<Rightarrow>
          if r = of_int (valueint r) then dec_of_int (valueint r)
          else (let s = print_g m 15 r in
                case strtod_prefix s of
                  Some (t, _) \<Rightarrow>
                    (case round_d m t of
                       Fin t' \<Rightarrow> if compare_double t' r then s else print_g m 17 r
                     | _ \<Rightarrow> print_g m 17 r)
                | None \<Rightarrow> print_g m 17 r)
      | _ \<Rightarrow> ''null'')"

fun print_value :: "fp \<Rightarrow> nat \<Rightarrow> json \<Rightarrow> string option"
  and print_elems :: "fp \<Rightarrow> nat \<Rightarrow> json list \<Rightarrow> string option"
  and print_members :: "fp \<Rightarrow> nat \<Rightarrow> (string \<times> json) list \<Rightarrow> string option" where
  "print_value m depth JNull = Some ''null''"
| "print_value m depth JFalse = Some ''false''"
| "print_value m depth JTrue = Some ''true''"
| "print_value m depth (JNumber d) = Some (print_number m d)"
| "print_value m depth (JString s) = Some (print_string_ptr s)"
| "print_value m depth (JArray xs) =
     (if depth \<ge> CJSON_NESTING_LIMIT then None
      else map_option (\<lambda>s. ''['' @ s @ '']'') (print_elems m (Suc depth) xs))"
| "print_value m depth (JObject ms) =
     (if depth \<ge> CJSON_NESTING_LIMIT then None
      else map_option (\<lambda>s. ''{'' @ s @ ''}'') (print_members m (Suc depth) ms))"
| "print_elems m depth [] = Some []"
| "print_elems m depth (x # xs) =
     (case (print_value m depth x, print_elems m depth xs) of
        (Some a, Some b) \<Rightarrow> Some (a @ (if xs = [] then [] else '','') @ b)
      | _ \<Rightarrow> None)"
| "print_members m depth [] = Some []"
| "print_members m depth ((k, x) # ms) =
     (case (print_value m depth x, print_members m depth ms) of
        (Some a, Some b) \<Rightarrow> Some (print_string_ptr k @ '':'' @ a @ (if ms = [] then [] else '','') @ b)
      | _ \<Rightarrow> None)"

definition cJSON_PrintUnformatted :: "fp \<Rightarrow> json \<Rightarrow> string option" where
  "cJSON_PrintUnformatted m j = print_value m 0 j"

section \<open>Parsing\<close>

text \<open>
  The parse buffer is what is left of the text from the current offset; the text includes its
  terminating NUL. Skipping white space runs over every byte up to 32, the NUL included, and
  steps back to the last byte when it reaches the end.
\<close>

definition skip_ws :: "string \<Rightarrow> string" where
  "skip_ws r =
     (case dropWhile (\<lambda>c. (of_char c :: nat) \<le> 32) r of
        [] \<Rightarrow> if r = [] then [] else [last r]
      | r' \<Rightarrow> r')"

definition skip_utf8_bom :: "string \<Rightarrow> string" where
  "skip_utf8_bom s =
     (if 4 < length s \<and> take 3 s = [CHR 0xEF, CHR 0xBB, CHR 0xBF] then drop 3 s else s)"

text \<open>\<open>parse_hex4\<close>: 0 for anything that is not four hexadecimal digits.\<close>

definition parse_hex4 :: "string \<Rightarrow> nat" where
  "parse_hex4 s =
     (case s of
        a # b # c # d # _ \<Rightarrow>
          (case (hexval a, hexval b, hexval c, hexval d) of
             (Some w, Some x, Some y, Some z) \<Rightarrow> 4096 * w + 256 * x + 16 * y + z
           | _ \<Rightarrow> 0)
      | _ \<Rightarrow> 0)"

definition utf8_encode :: "nat \<Rightarrow> string" where
  "utf8_encode cp =
     (if cp < 0x80 then [char_of cp]
      else if cp < 0x800 then [char_of (192 + cp div 64), char_of (128 + cp mod 64)]
      else if cp < 0x10000 then
        [char_of (224 + cp div 4096), char_of (128 + cp div 64 mod 64), char_of (128 + cp mod 64)]
      else [char_of (240 + cp div 262144), char_of (128 + cp div 4096 mod 64),
            char_of (128 + cp div 64 mod 64), char_of (128 + cp mod 64)])"

text \<open>
  The text behind a backslash starts with \<open>u\<close>; the result is the encoded character and what is
  left, \<open>None\<close> is a sequence length of 0.
\<close>

definition utf16_literal_to_utf8 :: "string \<Rightarrow> (string \<times> string) option" where
  "utf16_literal_to_utf8 s =
     (if length s < 5 then None
      else (let first = parse_hex4 (tl s); r = drop 5 s in
            if 0xDC00 \<le> first \<and> first \<le> 0xDFFF then None
            else if 0xD800 \<le> first \<and> first \<le> 0xDBFF then
              (if length r < 6 \<or> take 2 r \<noteq> [CHR 0x5C, CHR ''u''] then None
               else (let second = parse_hex4 (drop 2 r) in
                     if second < 0xDC00 \<or> 0xDFFF < second then None
                     else Some (utf8_encode (0x10000 + (first - 0xD800) * 1024 + (second - 0xDC00)), drop 6 r)))
            else Some (utf8_encode first, r)))"

lemma utf16_shorter: "utf16_literal_to_utf8 s = Some (a, r) \<Longrightarrow> length r < length s"
  by (auto simp: utf16_literal_to_utf8_def Let_def split: if_splits)

function unescape :: "string \<Rightarrow> string option" where
  "unescape [] = Some []"
| "unescape (c # cs) =
     (if c \<noteq> CHR 0x5C then map_option ((#) c) (unescape cs)
      else (case cs of
              [] \<Rightarrow> None
            | d # ds \<Rightarrow>
                if d = CHR ''b'' then map_option ((#) CHR 0x08) (unescape ds)
                else if d = CHR ''f'' then map_option ((#) CHR 0x0C) (unescape ds)
                else if d = CHR ''n'' then map_option ((#) CHR 0x0A) (unescape ds)
                else if d = CHR ''r'' then map_option ((#) CHR 0x0D) (unescape ds)
                else if d = CHR ''t'' then map_option ((#) CHR 0x09) (unescape ds)
                else if d = CHR 0x22 \<or> d = CHR 0x5C \<or> d = CHR ''/'' then map_option ((#) d) (unescape ds)
                else if d = CHR ''u'' then
                  (case utf16_literal_to_utf8 (d # ds) of
                     None \<Rightarrow> None
                   | Some (out, r) \<Rightarrow> map_option ((@) out) (unescape r))
                else None))"
  by pat_completeness auto
termination by (relation "measure length") (auto dest: utf16_shorter)

text \<open>The first loop of \<open>parse_string\<close>: the raw text up to the closing quote, and what follows it.\<close>

fun string_end :: "string \<Rightarrow> (string \<times> string) option" where
  "string_end [] = None"
| "string_end (c # cs) =
     (if c = CHR 0x22 then Some ([], cs)
      else if c = CHR 0x5C then
        (case cs of
           [] \<Rightarrow> None
         | d # ds \<Rightarrow> map_option (\<lambda>(b, r). (c # d # b, r)) (string_end ds))
      else map_option (\<lambda>(b, r). (c # b, r)) (string_end cs))"

text \<open>The value is a C string: it ends at a NUL that an escape may have put into it.\<close>

definition parse_string :: "string \<Rightarrow> (string \<times> string) option" where
  "parse_string r =
     (case r of
        c # cs \<Rightarrow>
          if c \<noteq> CHR 0x22 then None
          else (case string_end cs of
                  None \<Rightarrow> None
                | Some (raw, rest) \<Rightarrow>
                    (case unescape raw of None \<Rightarrow> None | Some s \<Rightarrow> Some (cstr s, rest)))
      | [] \<Rightarrow> None)"

definition number_char :: "char \<Rightarrow> bool" where
  "number_char c \<longleftrightarrow> isdigit c \<or> c = CHR ''+'' \<or> c = CHR ''-'' \<or> c = CHR ''e'' \<or> c = CHR ''E'' \<or> c = CHR ''.''"

definition parse_number :: "fp \<Rightarrow> string \<Rightarrow> (dbl \<times> string) option" where
  "parse_number m r =
     (case strtod_prefix (takeWhile number_char r) of
        None \<Rightarrow> None
      | Some (v, used) \<Rightarrow> Some (round_d m v, drop used r))"

text \<open>
  \<open>parse_value\<close>, and the loops of \<open>parse_array\<close> and \<open>parse_object\<close> from the first byte of an
  element on. The first argument bounds the number of nested calls; \<open>cJSON_Parse\<close> gives more
  than the length of the text can use up.
\<close>

fun parse_value :: "nat \<Rightarrow> fp \<Rightarrow> nat \<Rightarrow> string \<Rightarrow> (json \<times> string) option"
  and parse_elems :: "nat \<Rightarrow> fp \<Rightarrow> nat \<Rightarrow> string \<Rightarrow> (json list \<times> string) option"
  and parse_members :: "nat \<Rightarrow> fp \<Rightarrow> nat \<Rightarrow> string \<Rightarrow> ((string \<times> json) list \<times> string) option" where
  "parse_value 0 m depth r = None"
| "parse_value (Suc n) m depth r =
     (if starts_with ''null'' r then Some (JNull, drop 4 r)
      else if starts_with ''false'' r then Some (JFalse, drop 5 r)
      else if starts_with ''true'' r then Some (JTrue, drop 4 r)
      else (case r of
              [] \<Rightarrow> None
            | c # cs \<Rightarrow>
                if c = CHR 0x22 then map_option (\<lambda>(s, r'). (JString s, r')) (parse_string r)
                else if c = CHR ''-'' \<or> isdigit c then map_option (\<lambda>(d, r'). (JNumber d, r')) (parse_number m r)
                else if c = CHR ''['' then
                  (if depth \<ge> CJSON_NESTING_LIMIT then None
                   else (let r' = skip_ws cs in
                         if r' = [] then None
                         else if hd r' = CHR '']'' then Some (JArray [], tl r')
                         else map_option (\<lambda>(xs, r''). (JArray xs, r'')) (parse_elems n m (Suc depth) r')))
                else if c = CHR ''{'' then
                  (if depth \<ge> CJSON_NESTING_LIMIT then None
                   else (let r' = skip_ws cs in
                         if r' = [] then None
                         else if hd r' = CHR ''}'' then Some (JObject [], tl r')
                         else map_option (\<lambda>(ms, r''). (JObject ms, r'')) (parse_members n m (Suc depth) r')))
                else None))"
| "parse_elems 0 m depth r = None"
| "parse_elems (Suc n) m depth r =
     (case parse_value n m depth r of
        None \<Rightarrow> None
      | Some (v, r1) \<Rightarrow>
          (let r2 = skip_ws r1 in
           if r2 = [] then None
           else if hd r2 = CHR '','' then
             map_option (\<lambda>(xs, r'). (v # xs, r')) (parse_elems n m depth (skip_ws (tl r2)))
           else if hd r2 = CHR '']'' then Some ([v], tl r2)
           else None))"
| "parse_members 0 m depth r = None"
| "parse_members (Suc n) m depth r =
     (case parse_string r of
        None \<Rightarrow> None
      | Some (k, r1) \<Rightarrow>
          (let r2 = skip_ws r1 in
           if r2 = [] \<or> hd r2 \<noteq> CHR '':'' then None
           else (case parse_value n m depth (skip_ws (tl r2)) of
                   None \<Rightarrow> None
                 | Some (v, r3) \<Rightarrow>
                     (let r4 = skip_ws r3 in
                      if r4 = [] then None
                      else if hd r4 = CHR '','' then
                        (if tl r4 = [] then None
                         else map_option (\<lambda>(ms, r'). ((k, v) # ms, r')) (parse_members n m depth (skip_ws (tl r4))))
                      else if hd r4 = CHR ''}'' then Some ([(k, v)], tl r4)
                      else None))))"

definition cJSON_Parse :: "fp \<Rightarrow> string option \<Rightarrow> json option" where
  "cJSON_Parse m value =
     (case value of
        None \<Rightarrow> None
      | Some s \<Rightarrow>
          (let text = s @ [nul] in
           map_option fst (parse_value (2 * length text + 2) m 0 (skip_ws (skip_utf8_bom text)))))"

section \<open>Strings survive printing and parsing\<close>

lemma char_of_mod: "(of_char (char_of n :: char) :: nat) = n mod 256"
  by simp

lemma control_chars:
  "char_of (8 :: nat) = CHR 0x08" "char_of (12 :: nat) = CHR 0x0C" "char_of (10 :: nat) = CHR 0x0A"
  "char_of (13 :: nat) = CHR 0x0D" "char_of (9 :: nat) = CHR 0x09"
  by code_simp+

lemma parse_hex4_hex04:
  assumes "n < 65536"
  shows "parse_hex4 (hex04 n @ r) = n"
proof -
  have h: "hexval (hexdigit (k mod 16)) = Some (k mod 16)" for k by (rule hexval_hexdigit) simp
  have d: "n = 4096 * (n div 4096) + n mod 4096" "n mod 4096 = 256 * (n mod 4096 div 256) + n mod 4096 mod 256"
    "n mod 256 = 16 * (n mod 256 div 16) + n mod 256 mod 16" by simp_all
  have "n div 4096 < 16" using assms by (intro less_mult_imp_div_less) simp
  moreover have "n mod 4096 div 256 = n div 256 mod 16" "n mod 4096 mod 256 = n mod 256"
    using mod_mult2_eq [of n 256 16] mod_mod_cancel [of 256 4096 n] by simp_all
  moreover have "n mod 256 div 16 = n div 16 mod 16" "n mod 256 mod 16 = n mod 16"
    using mod_mult2_eq [of n 16 16] mod_mod_cancel [of 16 256 n] by simp_all
  ultimately have "4096 * (n div 4096 mod 16) + 256 * (n div 256 mod 16) + 16 * (n div 16 mod 16) + n mod 16 = n"
    using d by (metis add.assoc mod_less)
  then show ?thesis unfolding parse_hex4_def hex04_def by (simp only: append.simps list.case h prod.case option.case)
qed

text \<open>A printed character is itself, or a backslash with a letter and possibly digits.\<close>

lemma escape_char_cases:
  obtains (self) "escape_char c = [c]" "c \<noteq> CHR 0x22" "c \<noteq> CHR 0x5C"
  | (short) d where "escape_char c = [CHR 0x5C, d]" "\<And>r. unescape (CHR 0x5C # d # r) = map_option ((#) c) (unescape r)"
  | (code) n where "escape_char c = CHR 0x5C # CHR ''u'' # hex04 n" "n < 32" "c = char_of n"
proof (cases "31 < (of_char c :: nat) \<and> c \<noteq> CHR 0x22 \<and> c \<noteq> CHR 0x5C")
  case True
  then show ?thesis using self by (simp add: escape_char_def Let_def)
next
  case False
  define n where "n = (of_char c :: nat)"
  have c: "c = char_of n" by (simp add: n_def)
  have small: "n < 32 \<or> c = CHR 0x22 \<or> c = CHR 0x5C" using False by (auto simp: n_def)
  consider "c = CHR 0x22" | "c = CHR 0x5C" | "n = 8" | "n = 12" | "n = 10" | "n = 13" | "n = 9"
    | "n < 32" "n \<notin> {8, 9, 10, 12, 13}" "c \<noteq> CHR 0x22" "c \<noteq> CHR 0x5C"
    using small by auto
  then show ?thesis
  proof cases
    case 1 then show ?thesis by (intro short [of "CHR 0x22"]) (simp_all add: escape_char_def)
  next
    case 2 then show ?thesis by (intro short [of "CHR 0x5C"]) (simp_all add: escape_char_def)
  next
    case 3 then have "c = CHR 0x08" using c by (simp add: control_chars)
    then show ?thesis by (intro short [of "CHR ''b''"]) (simp_all add: escape_char_def)
  next
    case 4 then have "c = CHR 0x0C" using c by (simp add: control_chars)
    then show ?thesis by (intro short [of "CHR ''f''"]) (simp_all add: escape_char_def)
  next
    case 5 then have "c = CHR 0x0A" using c by (simp add: control_chars)
    then show ?thesis by (intro short [of "CHR ''n''"]) (simp_all add: escape_char_def)
  next
    case 6 then have "c = CHR 0x0D" using c by (simp add: control_chars)
    then show ?thesis by (intro short [of "CHR ''r''"]) (simp_all add: escape_char_def)
  next
    case 7 then have "c = CHR 0x09" using c by (simp add: control_chars)
    then show ?thesis by (intro short [of "CHR ''t''"]) (simp_all add: escape_char_def)
  next
    case 8 then show ?thesis by (intro code [of n]) (simp_all add: escape_char_def n_def [symmetric] c [symmetric])
  qed
qed

lemma unescape_escape: "unescape (escape_char c @ r) = map_option ((#) c) (unescape r)"
proof (cases c rule: escape_char_cases)
  case (code n)
  have "length (hex04 n) = 4" by (simp add: hex04_def)
  then have "utf16_literal_to_utf8 (CHR ''u'' # hex04 n @ r) = Some ([c], r)"
    using parse_hex4_hex04 [of n r] code by (simp add: utf16_literal_to_utf8_def utf8_encode_def Let_def)
  moreover have "(@) [c] = (#) c" by (rule ext) simp
  ultimately show ?thesis using code(1) by simp
qed simp_all

lemma unescape_all: "unescape (concat (map escape_char s)) = Some s"
  by (induction s) (simp_all add: unescape_escape)

lemma hex04_plain: "c \<in> set (hex04 n) \<Longrightarrow> c \<noteq> CHR 0x22 \<and> c \<noteq> CHR 0x5C"
proof -
  assume "c \<in> set (hex04 n)"
  then have "isxdigit c" by (auto simp: hex04_def isxdigit_def hexval_hexdigit)
  then show ?thesis by (auto simp: isxdigit_def hexval_def)
qed

lemma string_end_plain:
  "\<forall>c \<in> set b. c \<noteq> CHR 0x22 \<and> c \<noteq> CHR 0x5C \<Longrightarrow>
     string_end (b @ r) = map_option (\<lambda>(x, y). (b @ x, y)) (string_end r)"
  by (cases "string_end r"; induction b) auto

lemma string_end_escape:
  "string_end (escape_char c @ r) = map_option (\<lambda>(x, y). (escape_char c @ x, y)) (string_end r)"
proof (cases c rule: escape_char_cases)
  case (code n)
  then show ?thesis
    using string_end_plain [of "hex04 n" r] hex04_plain by (cases "string_end r") auto
qed (cases "string_end r"; auto)+

lemma string_end_all:
  "string_end (concat (map escape_char s) @ CHR 0x22 # r) = Some (concat (map escape_char s), r)"
  by (induction s) (simp_all add: string_end_escape)

lemma parse_print_string:
  assumes "nul \<notin> set s"
  shows "parse_string (print_string_ptr s @ r) = Some (s, r)"
proof -
  have "cstr s = s" using assms by (auto simp: cstr_def takeWhile_eq_all_conv)
  then show ?thesis
    by (simp add: parse_string_def print_string_ptr_def string_end_all unescape_all)
qed

section \<open>Numbers survive printing and parsing\<close>

lemma dec_of_int_chars: "c \<in> set (dec_of_int i) \<Longrightarrow> isdigit c \<or> c = CHR ''-''"
  using dec_of_nat_digits by (auto simp: dec_of_int_def split: if_splits)

lemma strtod_dec_of_int: "strtod_prefix (dec_of_int i) = Some (of_int i, length (dec_of_int i))"
proof -
  define k where "k = nat \<bar>i\<bar>"
  obtain c cs where s: "dec_of_nat k = c # cs" by (cases "dec_of_nat k") auto
  then have c: "c \<noteq> CHR ''-''" "c \<noteq> CHR ''+''" using dec_of_nat_digits [of k] by (auto simp: isdigit_def)
  have t: "takeWhile isdigit (dec_of_nat k) = dec_of_nat k"
    using dec_of_nat_digits [of k] by (simp add: takeWhile_eq_all_conv)
  have v: "dec_value (dec_of_nat k) 0 = k" by (rule dec_value_dec_of_nat)
  have ne: "dec_of_nat k \<noteq> []" "hd (dec_of_nat k) = c" by (simp_all add: s)
  show ?thesis
  proof (cases "i < 0")
    case True
    then have "dec_of_int i = CHR ''-'' # dec_of_nat k" by (simp add: dec_of_int_def k_def)
    moreover have "rat_of_int i = - rat_of_nat k" using True by (simp add: k_def)
    ultimately show ?thesis by (simp add: strtod_prefix_def Let_def t v)
  next
    case False
    then have "dec_of_int i = dec_of_nat k" by (simp add: dec_of_int_def k_def)
    moreover have "rat_of_int i = rat_of_nat k" using False by (simp add: k_def)
    ultimately show ?thesis by (simp add: strtod_prefix_def Let_def t v ne c)
  qed
qed

lemma print_number_int:
  assumes "fp_documented m" and "\<bar>i\<bar> < 10 ^ 15"
  shows "print_number m (Fin (of_int i)) = dec_of_int i"
proof -
  have d: "round_d m (of_int i) = Fin (of_int i)" "print_g m 15 (of_int i) = dec_of_int i"
    using assms by (auto simp: fp_documented_def)
  have t: "trunc (of_int i) = i" by (simp add: trunc_def)
  show ?thesis
  proof (cases "rat_of_int i = of_int (valueint (of_int i))")
    case True
    then have "valueint (of_int i) = i" by simp
    then show ?thesis by (simp add: print_number_def)
  next
    case False
    then show ?thesis
      by (simp add: print_number_def d strtod_dec_of_int Let_def compare_double_def)
  qed
qed

lemma parse_number_int:
  assumes "fp_documented m" and "\<bar>i\<bar> < 10 ^ 15" and "r = [] \<or> \<not> number_char (hd r)"
  shows "parse_number m (dec_of_int i @ r) = Some (Fin (of_int i), r)"
proof -
  have a: "\<forall>c \<in> set (dec_of_int i). number_char c" using dec_of_int_chars by (auto simp: number_char_def)
  have "takeWhile number_char (dec_of_int i @ r) = dec_of_int i @ takeWhile number_char r"
    using a by (simp add: takeWhile_append)
  then have "takeWhile number_char (dec_of_int i @ r) = dec_of_int i"
    using assms(3) by (cases r) auto
  moreover have "round_d m (of_int i) = Fin (of_int i)" using assms by (auto simp: fp_documented_def)
  ultimately show ?thesis by (simp add: parse_number_def strtod_dec_of_int)
qed

section \<open>Trees survive printing and parsing\<close>

text \<open>
  The trees the clients build: strings are C strings, numbers are integers of at most 15
  digits. Nothing is asked of names: an object may have several members of one name.
\<close>

fun plain :: "json \<Rightarrow> bool" where
  "plain JNull = True"
| "plain JFalse = True"
| "plain JTrue = True"
| "plain (JNumber d) = (case d of Fin r \<Rightarrow> r = of_int \<lfloor>r\<rfloor> \<and> \<bar>\<lfloor>r\<rfloor>\<bar> < 10 ^ 15 | _ \<Rightarrow> False)"
| "plain (JString s) = (nul \<notin> set s)"
| "plain (JArray xs) = (\<forall>x \<in> set xs. plain x)"
| "plain (JObject ms) = (\<forall>(k, x) \<in> set ms. nul \<notin> set k \<and> plain x)"

lemma plain_number:
  assumes "plain (JNumber d)"
  obtains i where "d = Fin (of_int i)" and "\<bar>i\<bar> < 10 ^ 15"
  using assms by (cases d) auto

text \<open>What may follow a value inside a document; such a byte is no white space.\<close>

definition closer :: "string \<Rightarrow> bool" where
  "closer r \<longleftrightarrow> r \<noteq> [] \<and> hd r \<in> {CHR '','', CHR '']'', CHR ''}'', nul}"

lemma closer_not_number: "closer r \<Longrightarrow> r = [] \<or> \<not> number_char (hd r)"
  by (auto simp: closer_def number_char_def isdigit_def nul_def)

lemma skip_ws_solid: "r \<noteq> [] \<Longrightarrow> 32 < (of_char (hd r) :: nat) \<Longrightarrow> skip_ws r = r"
  by (cases r) (auto simp: skip_ws_def)

lemma dec_of_int_first:
  "\<exists>c cs. dec_of_int i = c # cs \<and> (c = CHR ''-'' \<or> isdigit c)"
  using dec_of_int_chars [of _ i] by (cases "dec_of_int i") (auto simp: dec_of_int_def split: if_splits)

lemma print_value_first:
  assumes "print_value m d t = Some s" and "fp_documented m" and "plain t"
  shows "s \<noteq> [] \<and> 32 < (of_char (hd s) :: nat) \<and> (of_char (hd s) :: nat) < 128 \<and> hd s \<noteq> CHR '']'' \<and> hd s \<noteq> CHR ''}''"
proof (cases t)
  case (JNumber x)
  obtain i where "x = Fin (of_int i)" "\<bar>i\<bar> < 10 ^ 15" using assms(3) JNumber plain_number by metis
  then have "s = dec_of_int i" using assms(1,2) JNumber print_number_int by simp
  then show ?thesis using dec_of_int_first [of i] by (auto simp: isdigit_def)
qed (use assms(1) in \<open>auto simp: print_string_ptr_def split: if_splits\<close>)

lemma starts_with_first:
  "starts_with (p # ps) (c # cs) \<Longrightarrow> p = c"
  by (simp add: starts_with_def)

lemma parse_value_dispatch:
  assumes "c \<noteq> CHR ''n''" and "c \<noteq> CHR ''f''" and "c \<noteq> CHR ''t''"
  shows "\<not> starts_with ''null'' (c # cs)" "\<not> starts_with ''false'' (c # cs)" "\<not> starts_with ''true'' (c # cs)"
  using assms starts_with_first by blast+

lemma parse_print_number:
  assumes "fp_documented m" and "plain (JNumber d)" and "closer r"
  shows "parse_value (Suc n) m depth (print_number m d @ r) = Some (JNumber d, r)"
proof -
  obtain i where i: "d = Fin (of_int i)" "\<bar>i\<bar> < 10 ^ 15" using assms(2) plain_number by metis
  have p: "print_number m d = dec_of_int i" using print_number_int [OF assms(1) i(2)] i(1) by simp
  obtain c cs where c: "dec_of_int i = c # cs" "c = CHR ''-'' \<or> isdigit c" using dec_of_int_first [of i] by auto
  have k: "c \<noteq> CHR ''n''" "c \<noteq> CHR ''f''" "c \<noteq> CHR ''t''" "c \<noteq> CHR 0x22" "c \<noteq> CHR ''[''" "c \<noteq> CHR ''{''"
    using c(2) by (auto simp: isdigit_def)
  have "parse_number m (dec_of_int i @ r) = Some (Fin (of_int i), r)"
    using parse_number_int [OF assms(1) i(2) closer_not_number [OF assms(3)]] .
  then show ?thesis
    using parse_value_dispatch [OF k(1-3), of "cs @ r"] k c unfolding p by (simp add: i(1))
qed

lemma print_elems_first:
  assumes "print_elems m d (x # xs) = Some s" and "fp_documented m" and "plain x"
  shows "s \<noteq> [] \<and> 32 < (of_char (hd s) :: nat) \<and> hd s \<noteq> CHR '']''"
proof -
  obtain a b where a: "print_value m d x = Some a" "s = a @ b" using assms(1) by (auto split: option.splits)
  then show ?thesis using print_value_first [OF a(1) assms(2,3)] by (cases a) auto
qed

lemma print_members_first:
  assumes "print_members m d ((k, x) # ms) = Some s"
  shows "s \<noteq> [] \<and> hd s = CHR 0x22"
  using assms by (auto simp: print_string_ptr_def split: option.splits)

text \<open>A value, the elements of an array and the members of an object, with enough fuel.\<close>

lemma parse_print_all:
  assumes "fp_documented m"
  shows "print_value m d t = Some s \<Longrightarrow> plain t \<Longrightarrow> closer r \<Longrightarrow> 2 * length s < n \<Longrightarrow>
           parse_value n m d (s @ r) = Some (t, r)"
    and "print_elems m d xs = Some s \<Longrightarrow> xs \<noteq> [] \<Longrightarrow> \<forall>x \<in> set xs. plain x \<Longrightarrow> 2 * length s + 1 < n \<Longrightarrow>
           parse_elems n m d (s @ CHR '']'' # r) = Some (xs, r)"
    and "print_members m d ms = Some s \<Longrightarrow> ms \<noteq> [] \<Longrightarrow> \<forall>(k, x) \<in> set ms. nul \<notin> set k \<and> plain x \<Longrightarrow>
           2 * length s + 1 < n \<Longrightarrow> parse_members n m d (s @ CHR ''}'' # r) = Some (ms, r)"
  using assms
proof (induction m d t and m d xs and m d ms arbitrary: s r n and s r n and s r n
    rule: print_value_print_elems_print_members.induct)
  case (1 m depth)
  then show ?case by (cases n) (auto simp: starts_with_def)
next
  case (2 m depth)
  then show ?case by (cases n) (auto simp: starts_with_def)
next
  case (3 m depth)
  then show ?case by (cases n) (auto simp: starts_with_def)
next
  case (4 m depth d)
  then show ?case using parse_print_number [of m d r] by (cases n) auto
next
  case (5 m depth t)
  then show ?case
    using parse_print_string [of t r] by (cases n) (auto simp: print_string_ptr_def starts_with_def)
next
  case (6 m depth xs)
  obtain b where b: "print_elems m (Suc depth) xs = Some b" "s = ''['' @ b @ '']''" and d: "\<not> depth \<ge> CJSON_NESTING_LIMIT"
    using 6(2) by (auto split: if_splits)
  obtain n' where n: "n = Suc n'" using 6(5) by (cases n) auto
  show ?case
  proof (cases xs)
    case Nil
    then show ?thesis using b d n by (simp add: starts_with_def skip_ws_solid isdigit_def)
  next
    case (Cons x ys)
    have f: "b \<noteq> []" "32 < (of_char (hd b) :: nat)" "hd b \<noteq> CHR '']''"
      using print_elems_first b(1) Cons 6(3,6) by auto
    have "parse_elems n' m (Suc depth) (b @ CHR '']'' # r) = Some (xs, r)"
      using 6(1) [OF d b(1) _ _ _ 6(6), of n' r] Cons 6(3,5) b(2) n by auto
    moreover have "skip_ws (b @ CHR '']'' # r) = b @ CHR '']'' # r" using f by (intro skip_ws_solid) simp_all
    ultimately show ?thesis using b(2) d n f by (simp add: starts_with_def isdigit_def)
  qed
next
  case (7 m depth ms)
  obtain b where b: "print_members m (Suc depth) ms = Some b" "s = ''{'' @ b @ ''}''" and d: "\<not> depth \<ge> CJSON_NESTING_LIMIT"
    using 7(2) by (auto split: if_splits)
  obtain n' where n: "n = Suc n'" using 7(5) by (cases n) auto
  show ?case
  proof (cases ms)
    case Nil
    then show ?thesis using b d n by (simp add: starts_with_def skip_ws_solid isdigit_def)
  next
    case (Cons x ys)
    have f: "b \<noteq> []" "hd b = CHR 0x22"
      using print_members_first [of m "Suc depth" "fst x" "snd x" ys b] b(1) Cons by auto
    have "parse_members n' m (Suc depth) (b @ CHR ''}'' # r) = Some (ms, r)"
      using 7(1) [OF d b(1) _ _ _ 7(6), of n' r] Cons 7(3,5) b(2) n by auto
    moreover have "skip_ws (b @ CHR ''}'' # r) = b @ CHR ''}'' # r" using f by (intro skip_ws_solid) simp_all
    ultimately show ?thesis using b(2) d n f by (simp add: starts_with_def isdigit_def)
  qed
next
  case (9 m depth x xs)
  obtain a b where a: "print_value m depth x = Some a" "print_elems m depth xs = Some b"
      "s = a @ (if xs = [] then [] else '','') @ b"
    using 9(3) by (auto split: option.splits)
  obtain n' where n: "n = Suc n'" using 9(6) by (cases n) auto
  show ?case
  proof (cases xs)
    case Nil
    have "parse_value n' m depth (a @ CHR '']'' # r) = Some (x, CHR '']'' # r)"
      using 9(1) [OF a(1) _ _ _ 9(7)] 9(5,6) a Nil n by (auto simp: closer_def)
    then show ?thesis using a Nil n by (simp add: skip_ws_solid)
  next
    case (Cons y ys)
    have f: "b \<noteq> []" "32 < (of_char (hd b) :: nat)" using print_elems_first a(2) Cons 9(5,7) by auto
    have v: "parse_value n' m depth (a @ CHR '','' # b @ CHR '']'' # r) = Some (x, CHR '','' # b @ CHR '']'' # r)"
      using 9(1) [OF a(1) _ _ _ 9(7)] 9(5,6) a Cons n by (auto simp: closer_def)
    have e: "parse_elems n' m depth (b @ CHR '']'' # r) = Some (xs, r)"
      using 9(2) [OF a(2) _ _ _ 9(7), of n' r] 9(5,6) a(3) Cons n by auto
    have w: "skip_ws (b @ CHR '']'' # r) = b @ CHR '']'' # r" using f by (intro skip_ws_solid) simp_all
    show ?thesis using a(3) Cons n v e w by (simp add: skip_ws_solid)
  qed
next
  case (11 m depth k x ms)
  obtain a b where a: "print_value m depth x = Some a" "print_members m depth ms = Some b"
      "s = print_string_ptr k @ '':'' @ a @ (if ms = [] then [] else '','') @ b"
    using 11(3) by (auto split: option.splits)
  obtain n' where n: "n = Suc n'" using 11(6) by (cases n) auto
  have k: "parse_string (print_string_ptr k @ r') = Some (k, r')" for r'
    using 11(5) by (intro parse_print_string) auto
  have g: "skip_ws (a @ r') = a @ r'" for r'
    using print_value_first [OF a(1)] 11(5,7) by (intro skip_ws_solid) auto
  show ?case
  proof (cases ms)
    case Nil
    have "parse_value n' m depth (a @ CHR ''}'' # r) = Some (x, CHR ''}'' # r)"
      using 11(1) [OF a(1) _ _ _ 11(7)] 11(5,6) a Nil n by (auto simp: closer_def)
    then show ?thesis using a Nil n k g by (simp add: skip_ws_solid)
  next
    case (Cons y ys)
    have f: "b \<noteq> []" "hd b = CHR 0x22"
      using print_members_first [of m depth "fst y" "snd y" ys b] a(2) Cons by auto
    have v: "parse_value n' m depth (a @ CHR '','' # b @ CHR ''}'' # r) = Some (x, CHR '','' # b @ CHR ''}'' # r)"
      using 11(1) [OF a(1) _ _ _ 11(7)] 11(5,6) a Cons n by (auto simp: closer_def)
    have e: "parse_members n' m depth (b @ CHR ''}'' # r) = Some (ms, r)"
      using 11(2) [OF a(2) _ _ _ 11(7), of n' r] 11(5,6) a(3) Cons n by auto
    have w: "skip_ws (b @ CHR ''}'' # r) = b @ CHR ''}'' # r" using f by (intro skip_ws_solid) simp_all
    show ?thesis using a(3) Cons n v e w k g by (simp add: skip_ws_solid)
  qed
qed auto

section \<open>The parser always consumes, so its fuel is enough\<close>

lemma length_skip_ws [simp]: "length (skip_ws r) \<le> length r"
proof (cases "dropWhile (\<lambda>c. (of_char c :: nat) \<le> 32) r")
  case Nil
  then show ?thesis by (cases r) (simp_all add: skip_ws_def)
next
  case (Cons c cs)
  then have "skip_ws r = dropWhile (\<lambda>c. (of_char c :: nat) \<le> 32) r" by (simp add: skip_ws_def)
  then show ?thesis by (simp add: length_dropWhile_le)
qed

lemma string_end_shorter: "string_end s = Some (b, r) \<Longrightarrow> length r < length s"
  by (induction s arbitrary: b r rule: string_end.induct)
    (fastforce split: if_splits list.splits option.splits)+

lemma parse_string_shorter: "parse_string s = Some (k, r) \<Longrightarrow> length r < length s"
  by (auto simp: parse_string_def split: list.splits if_splits option.splits dest!: string_end_shorter)

lemma strtod_prefix_positive:
  assumes "strtod_prefix s = Some (v, used)"
  shows "0 < used \<and> used \<le> length s"
proof -
  define r where "r = (if s \<noteq> [] \<and> (hd s = CHR ''-'' \<or> hd s = CHR ''+'') then tl s else s)"
  define ip where "ip = takeWhile isdigit r"
  define r1 where "r1 = drop (length ip) r"
  define point where "point = (r1 \<noteq> [] \<and> hd r1 = CHR ''.'')"
  define fr where "fr = (if point then takeWhile isdigit (tl r1) else [])"
  define r2 where "r2 = (if point then drop (length fr) (tl r1) else r1)"
  define r3 where "r3 = (if r2 \<noteq> [] \<and> (hd r2 = CHR ''e'' \<or> hd r2 = CHR ''E'') then tl r2 else [])"
  define r4 where "r4 = (if r3 \<noteq> [] \<and> (hd r3 = CHR ''-'' \<or> hd r3 = CHR ''+'') then tl r3 else r3)"
  define ed where "ed = takeWhile isdigit r4"
  have u: "used = length s - (if ed = [] then length r2 else length (drop (length ed) r4))" "ip \<noteq> [] \<or> fr \<noteq> []"
    using assms unfolding strtod_prefix_def Let_def
      r_def [symmetric] ip_def [symmetric] r1_def [symmetric] point_def [symmetric] fr_def [symmetric]
      r2_def [symmetric] r3_def [symmetric] r4_def [symmetric] ed_def [symmetric]
    by (simp_all split: if_splits)
  have "length r \<le> length s" by (simp add: r_def)
  moreover have "length ip \<le> length r" by (simp add: ip_def length_takeWhile_le)
  moreover have "length fr \<le> length (tl r1)" using length_takeWhile_le [of isdigit "tl r1"] by (simp add: fr_def)
  ultimately have "length r2 < length s"
    using u(2) by (cases ip; cases fr) (auto simp: r2_def r1_def point_def fr_def split: if_splits)
  moreover have "length r4 \<le> length r2" by (simp add: r4_def r3_def)
  ultimately show ?thesis using u(1) by auto
qed

lemma parse_number_shorter:
  assumes "parse_number m s = Some (d, r)"
  shows "length r < length s"
proof -
  obtain v used where u: "strtod_prefix (takeWhile number_char s) = Some (v, used)" "r = drop used s"
    using assms by (auto simp: parse_number_def split: option.splits)
  then show ?thesis
    using strtod_prefix_positive [OF u(1)] length_takeWhile_le [of number_char s] by auto
qed

lemma starts_with_length: "starts_with p s \<Longrightarrow> length p \<le> length s"
  by (metis length_take min.cobounded1 starts_with_def)

lemma parse_shorter:
  "parse_value n m d r = Some (t, r') \<Longrightarrow> length r' < length r"
  "parse_elems n m d r = Some (xs, r') \<Longrightarrow> length r' < length r"
  "parse_members n m d r = Some (ms, r') \<Longrightarrow> length r' < length r"
proof (induction n arbitrary: d r t r' xs ms)
  case 0
  { case 1 then show ?case by simp
  next case 2 then show ?case by simp
  next case 3 then show ?case by simp }
next
  case (Suc n)
  have w: "length y < length (skip_ws x) \<Longrightarrow> length y < length x" for x y :: string
    using length_skip_ws [of x] by linarith
  have tw: "skip_ws x \<noteq> [] \<Longrightarrow> length (tl (skip_ws x)) < length x" for x
    using length_skip_ws [of x] by (cases "skip_ws x") auto
  { case 1
    have "r \<noteq> []" using 1 by (auto simp: starts_with_def)
    then obtain c cs where r: "r = c # cs" by (cases r) auto
    consider (lit) "r' = drop 4 r \<or> r' = drop 5 r" | (str) s where "parse_string r = Some (s, r')"
      | (num) x where "parse_number m r = Some (x, r')"
      | (nil) "skip_ws cs \<noteq> []" "r' = tl (skip_ws cs)"
      | (arr) xs where "parse_elems n m (Suc d) (skip_ws cs) = Some (xs, r')"
      | (obj) ms where "parse_members n m (Suc d) (skip_ws cs) = Some (ms, r')"
      using 1 unfolding r by (auto simp: Let_def split: if_splits)
    then show ?case
    proof cases
      case lit then show ?thesis using r by auto
    next
      case str then show ?thesis by (rule parse_string_shorter)
    next
      case num then show ?thesis by (rule parse_number_shorter)
    next
      case nil then show ?thesis using tw [of cs] r by simp
    next
      case arr then show ?thesis using Suc(2) w [of r' cs] r by fastforce
    next
      case obj then show ?thesis using Suc(3) w [of r' cs] r by fastforce
    qed
  next
    case 2
    then obtain v r1 where v: "parse_value n m d r = Some (v, r1)" by (auto split: option.splits)
    then have l: "length r1 < length r" by (rule Suc(1))
    have ne: "skip_ws r1 \<noteq> []" using 2 v by (auto simp: Let_def)
    consider (more) ys where "parse_elems n m d (skip_ws (tl (skip_ws r1))) = Some (ys, r')" | (last) "r' = tl (skip_ws r1)"
      using 2 v by (auto simp: Let_def split: if_splits)
    then show ?case
    proof cases
      case more then show ?thesis using Suc(2) [OF more] w tw [OF ne] l by fastforce
    next
      case last then show ?thesis using tw [OF ne] l by simp
    qed
  next
    case 3
    then obtain k r1 where k: "parse_string r = Some (k, r1)" by (auto split: option.splits)
    have ne1: "skip_ws r1 \<noteq> []" using 3 k by (auto simp: Let_def)
    obtain v r3 where v: "parse_value n m d (skip_ws (tl (skip_ws r1))) = Some (v, r3)"
      using 3 k by (auto simp: Let_def split: if_splits option.splits)
    have l: "length r3 < length r"
      using Suc(1) [OF v] w tw [OF ne1] parse_string_shorter [OF k] by fastforce
    have ne: "skip_ws r3 \<noteq> []" using 3 k v by (auto simp: Let_def split: if_splits)
    consider (more) ys where "parse_members n m d (skip_ws (tl (skip_ws r3))) = Some (ys, r')" | (last) "r' = tl (skip_ws r3)"
      using 3 k v by (auto simp: Let_def split: if_splits)
    then show ?case
    proof cases
      case more then show ?thesis using Suc(3) [OF more] w tw [OF ne] l by fastforce
    next
      case last then show ?thesis using tw [OF ne] l by simp
    qed }
qed

lemma option_bind_cong:
  "x = y \<Longrightarrow> (\<And>a. y = Some a \<Longrightarrow> f a = g a) \<Longrightarrow>
     (case x of None \<Rightarrow> None | Some a \<Rightarrow> f a) = (case y of None \<Rightarrow> None | Some a \<Rightarrow> g a)"
  by (cases y) auto

lemma parse_more_fuel:
  "2 * length r < n \<Longrightarrow> parse_value (Suc n) m d r = parse_value n m d r"
  "2 * length r + 1 < n \<Longrightarrow> parse_elems (Suc n) m d r = parse_elems n m d r"
  "2 * length r + 1 < n \<Longrightarrow> parse_members (Suc n) m d r = parse_members n m d r"
proof (induction n arbitrary: d r)
  case 0
  { case 1 then show ?case by simp
  next case 2 then show ?case by simp
  next case 3 then show ?case by simp }
next
  case (Suc n)
  have small: "length x < length r \<Longrightarrow> 2 * length r < Suc n \<Longrightarrow> 2 * length (skip_ws x) + 1 < n" for x r :: string
    using length_skip_ws [of x] by linarith
  have tw: "skip_ws x \<noteq> [] \<Longrightarrow> length (tl (skip_ws x)) < length x" for x
    using length_skip_ws [of x] by (cases "skip_ws x") auto
  { case 1
    show ?case
    proof (cases r)
      case Nil then show ?thesis by (simp add: starts_with_def)
    next
      case (Cons c cs)
      have "2 * length (skip_ws cs) + 1 < n" using small [of cs r] 1 Cons by simp
      then show ?thesis using Suc(2,3) [of "skip_ws cs"] unfolding Cons parse_value.simps(2) [of "Suc n"] parse_value.simps(2) [of n]
        by (simp only: list.case Let_def)
    qed
  next
    case 2
    have v: "parse_value (Suc n) m d r = parse_value n m d r" using Suc(1) 2 by simp
    have "parse_elems (Suc n) m d (skip_ws (tl (skip_ws r1))) = parse_elems n m d (skip_ws (tl (skip_ws r1)))"
      if "parse_value n m d r = Some (x, r1)" "skip_ws r1 \<noteq> []" for x r1
      using parse_shorter(1) [OF that(1)] tw [OF that(2)] 2 by (intro Suc(2) small [of _ r]) auto
    then show ?case
      unfolding parse_elems.simps(2) [of "Suc n"] parse_elems.simps(2) [of n] v
      by (intro option_bind_cong) (auto simp: Let_def)
  next
    case 3
    have b: "2 * length r < Suc n" using 3 by simp
    have v: "parse_value (Suc n) m d (skip_ws (tl (skip_ws r1))) = parse_value n m d (skip_ws (tl (skip_ws r1)))"
      if "parse_string r = Some (k, r1)" "skip_ws r1 \<noteq> []" for k r1
      using parse_string_shorter [OF that(1)] tw [OF that(2)] small [OF _ b, of "tl (skip_ws r1)"] by (intro Suc(1)) auto
    have e: "parse_members (Suc n) m d (skip_ws (tl (skip_ws r3))) = parse_members n m d (skip_ws (tl (skip_ws r3)))"
      if "parse_string r = Some (k, r1)" "skip_ws r1 \<noteq> []"
        "parse_value n m d (skip_ws (tl (skip_ws r1))) = Some (x, r3)" "skip_ws r3 \<noteq> []" for k r1 x r3
      using parse_string_shorter [OF that(1)] tw [OF that(2)] parse_shorter(1) [OF that(3)] tw [OF that(4)]
        length_skip_ws [of "tl (skip_ws r1)"]
      by (intro Suc(3) small [OF _ b]) linarith
    show ?case
    proof (cases "parse_string r")
      case (Some kr)
      obtain k r1 where k: "parse_string r = Some (k, r1)" using Some by (cases kr) auto
      show ?thesis
      proof (cases "skip_ws r1 = []")
        case False
        show ?thesis
        proof (cases "parse_value n m d (skip_ws (tl (skip_ws r1)))")
          case None
          then show ?thesis using k v [OF k False]
            by (simp add: Let_def parse_members.simps(2) [of "Suc n"] parse_members.simps(2) [of n] del: parse_members.simps parse_value.simps)
        next
          case (Some xr)
          obtain x r3 where x: "parse_value n m d (skip_ws (tl (skip_ws r1))) = Some (x, r3)" using Some by (cases xr) auto
          show ?thesis using k v [OF k False] x e [OF k False x]
            by (simp add: Let_def parse_members.simps(2) [of "Suc n"] parse_members.simps(2) [of n] del: parse_members.simps parse_value.simps)
        qed
      qed (simp add: k)
    qed simp }
qed

lemma parse_value_fuel:
  assumes "2 * length r < k" and "k \<le> n"
  shows "parse_value n m d r = parse_value k m d r"
  using assms(2)
proof (induction rule: dec_induct)
  case (step n)
  then show ?case using parse_more_fuel(1) [of r n] assms(1) by simp
qed simp

section \<open>What the clients rely on\<close>

lemma parse_print:
  assumes "fp_documented m" and "plain t" and "cJSON_PrintUnformatted m t = Some s"
  shows "cJSON_Parse m (Some s) = Some t"
proof -
  have p: "print_value m 0 t = Some s" using assms(3) by (simp add: cJSON_PrintUnformatted_def)
  have f: "s \<noteq> []" "32 < (of_char (hd s) :: nat)" "(of_char (hd s) :: nat) < 128"
    using print_value_first [OF p assms(1,2)] by auto
  have "hd s \<noteq> CHR 0xEF" using f(3) by auto
  then have "skip_utf8_bom (s @ [nul]) = s @ [nul]" using f(1) by (cases s) (auto simp: skip_utf8_bom_def)
  moreover have "skip_ws (s @ [nul]) = s @ [nul]" using f by (intro skip_ws_solid) simp_all
  moreover have "parse_value (2 * length (s @ [nul]) + 2) m 0 (s @ [nul]) = Some (t, [nul])"
    by (intro parse_print_all(1) [OF assms(1) p assms(2)]) (simp_all add: closer_def)
  ultimately show ?thesis by (simp add: cJSON_Parse_def Let_def del: parse_value.simps)
qed

text \<open>
  C20. Every tree of the kind the clients build (C strings, integers of at most 15 digits, any
  nesting and any member names) that \<open>cJSON_PrintUnformatted\<close> prints is read back by
  \<open>cJSON_Parse\<close> as the same tree, for every C library whose \<open>strtod\<close> and \<open>%1.15g\<close> are exact on
  such integers.
\<close>

theorem json_roundtrip:
  assumes "fp_documented m" and "plain t" and "cJSON_PrintUnformatted m t = Some s"
  shows "cJSON_Parse m (Some s) = Some t"
  using assms by (rule parse_print)

text \<open>A C library: no rounding, and the digits of the integer part.\<close>

definition exact_fp :: fp where
  "exact_fp = \<lparr>round_d = Fin, print_g = \<lambda>_ r. dec_of_int \<lfloor>r\<rfloor>\<rparr>"

lemma exact_fp_documented: "fp_documented exact_fp"
  by (simp add: fp_documented_def exact_fp_def)

definition sample_tree :: json where
  "sample_tree = JObject [(''type'', JString [CHR ''a'', CHR 0x22, CHR 0x0A]), (''v'', JNumber (Fin 2)), (''l'', JArray [JTrue, JNull])]"

lemma sample_tree_plain: "plain sample_tree" by (simp add: sample_tree_def nul_def)

lemma sample_tree_text:
  "cJSON_PrintUnformatted exact_fp sample_tree = Some (
     [CHR ''{'', CHR 0x22] @ ''type'' @ [CHR 0x22, CHR '':'', CHR 0x22, CHR ''a'', CHR 0x5C, CHR 0x22, CHR 0x5C, CHR ''n'', CHR 0x22] @
     [CHR '','', CHR 0x22, CHR ''v'', CHR 0x22] @ '':2,'' @ [CHR 0x22, CHR ''l'', CHR 0x22] @ '':[true,null]}'')"
  by code_simp

theorem json_roundtrip_witness: "cJSON_Parse exact_fp (cJSON_PrintUnformatted exact_fp sample_tree) = Some sample_tree"
  using json_roundtrip [OF exact_fp_documented sample_tree_plain sample_tree_text] unfolding sample_tree_text .



end
