(* ===== verification/Config.thy ===== *)
theory Config
  imports Codec
begin

text \<open>
  \<open>common/config.c\<close> and \<open>common/config.h\<close>: the client configuration and the loader of the
  INI-like file. The file is its contents (\<open>None\<close> when \<open>fopen\<close> fails); the messages on
  stderr are left out.
\<close>

section \<open>Definitions\<close>

definition MAX_URL_LEN :: nat where "MAX_URL_LEN = 256"
definition MAX_KEY_LEN :: nat where "MAX_KEY_LEN = 256"
definition MAX_USER_LEN :: nat where "MAX_USER_LEN = 128"
definition MAX_PASS_LEN :: nat where "MAX_PASS_LEN = 128"
definition MAX_PATH_LEN :: nat where "MAX_PATH_LEN = 512"

lemmas config_consts = MAX_URL_LEN_def MAX_KEY_LEN_def MAX_USER_LEN_def MAX_PASS_LEN_def MAX_PATH_LEN_def

record ClientConfig =
  server_host :: string
  server_port :: int
  server_path :: string
  server_key :: string
  username :: string
  password :: string
  aes_key :: string
  device_id :: string
  file_transfer_level :: int
  max_transfer_size :: int
  use_tls :: int
  ca_cert_path :: string
  skip_tls_verify :: int
  log_level :: int
  max_log_size_mb :: int

definition config_set_defaults :: ClientConfig where
  "config_set_defaults =
     \<lparr>server_host = '''', server_port = 8080,
      server_path = strncpy_fld (MAX_URL_LEN - 1) ''/ws/v2/clipboard'',
      server_key = '''', username = '''', password = '''', aes_key = '''', device_id = '''',
      file_transfer_level = 3, max_transfer_size = 500, use_tls = 0, ca_cert_path = '''',
      skip_tls_verify = 0, log_level = 1, max_log_size_mb = 10\<rparr>"

definition trim :: "string \<Rightarrow> string" where
  "trim s =
     (let t = dropWhile (\<lambda>c. c = CHR '' '' \<or> c = CHR 0x09) s in
      rev (dropWhile (\<lambda>c. c = CHR '' '' \<or> c = CHR 0x09 \<or> c = CHR 0x0A \<or> c = CHR 0x0D) (rev t)))"

definition is_hex :: "string \<Rightarrow> nat \<Rightarrow> bool" where
  "is_hex s expected_len \<longleftrightarrow> length s = expected_len \<and> (\<forall>c \<in> set s. isxdigit c)"

text \<open>\<open>fgets(line, n + 1, f)\<close>: at most \<open>n\<close> characters, up to and including a newline.\<close>

fun fgets_c :: "nat \<Rightarrow> string \<Rightarrow> string \<times> string" where
  "fgets_c 0 s = ([], s)"
| "fgets_c (Suc n) [] = ([], [])"
| "fgets_c (Suc n) (c # cs) =
     (if c = CHR 0x0A then ([c], cs) else (let (a, b) = fgets_c n cs in (c # a, b)))"

text \<open>One round of the loop of \<open>config_load\<close>; \<open>line\<close> is the C string in the buffer.\<close>

definition config_apply_kv :: "string \<Rightarrow> string \<Rightarrow> ClientConfig \<Rightarrow> ClientConfig" where
  "config_apply_kv key val cfg =
     (if key = ''server_host'' then cfg\<lparr>server_host := strncpy_fld (MAX_URL_LEN - 1) val\<rparr>
      else if key = ''server_port'' then cfg\<lparr>server_port := atoi val\<rparr>
      else if key = ''server_path'' then cfg\<lparr>server_path := strncpy_fld (MAX_URL_LEN - 1) val\<rparr>
      else if key = ''server_key'' then cfg\<lparr>server_key := strncpy_fld (MAX_KEY_LEN - 1) val\<rparr>
      else if key = ''username'' then cfg\<lparr>username := strncpy_fld (MAX_USER_LEN - 1) val\<rparr>
      else if key = ''password'' then cfg\<lparr>password := strncpy_fld (MAX_PASS_LEN - 1) val\<rparr>
      else if key = ''aes_key'' then cfg\<lparr>aes_key := strncpy_fld (MAX_KEY_LEN - 1) val\<rparr>
      else if key = ''device_id'' then cfg\<lparr>device_id := strncpy_fld (MAX_USER_LEN - 1) val\<rparr>
      else if key = ''file_transfer_level'' then cfg\<lparr>file_transfer_level := atoi val\<rparr>
      else if key = ''max_transfer_size'' then cfg\<lparr>max_transfer_size := atoi val\<rparr>
      else if key = ''use_tls'' then cfg\<lparr>use_tls := atoi val\<rparr>
      else if key = ''ca_cert_path'' then cfg\<lparr>ca_cert_path := strncpy_fld (MAX_PATH_LEN - 1) val\<rparr>
      else if key = ''skip_tls_verify'' then cfg\<lparr>skip_tls_verify := atoi val\<rparr>
      else if key = ''log_level'' then cfg\<lparr>log_level := atoi val\<rparr>
      else if key = ''max_log_size_mb'' then cfg\<lparr>max_log_size_mb := atoi val\<rparr>
      else cfg)"

definition config_line :: "string \<Rightarrow> ClientConfig \<Rightarrow> ClientConfig" where
  "config_line line cfg =
     (if line \<noteq> [] \<and> (hd line = CHR ''#'' \<or> hd line = CHR 0x0A \<or> hd line = CHR 0x0D) then cfg
      else (case split_first (CHR ''='') line of
              None \<Rightarrow> cfg
            | Some (key, val) \<Rightarrow> config_apply_kv (trim key) (trim val) cfg))"

lemma fgets_c_shorter: "s \<noteq> [] \<Longrightarrow> n \<noteq> 0 \<Longrightarrow> length (snd (fgets_c n s)) < length s"
proof (induction n s rule: fgets_c.induct)
  case (3 n c cs)
  show ?case
  proof (cases "cs = [] \<or> n = 0")
    case True
    then show ?thesis by (cases n) (auto simp: Let_def)
  next
    case False
    with 3 show ?thesis by (auto simp: Let_def split: prod.splits)
  qed
qed auto

function config_lines :: "string \<Rightarrow> ClientConfig \<Rightarrow> ClientConfig" where
  "config_lines [] cfg = cfg"
| "config_lines (c # cs) cfg =
     (let (line, rest) = fgets_c 1023 (c # cs) in config_lines rest (config_line (cstr line) cfg))"
  by pat_completeness auto
termination
proof (relation "measure (\<lambda>(s, cfg). length s)")
  fix c cs cfg x line rest
  assume "x = fgets_c 1023 (c # cs)" and "(line, rest) = x"
  then have "rest = snd (fgets_c 1023 (c # cs))" by (metis snd_conv)
  then show "((rest, config_line (cstr line) cfg), c # cs, cfg) \<in> measure (\<lambda>(s, cfg). length s)"
    using fgets_c_shorter [of "c # cs" 1023] by simp
qed simp

definition config_invalid :: "ClientConfig \<Rightarrow> bool" where
  "config_invalid cfg \<longleftrightarrow>
     server_host cfg = ''''
     \<or> (server_port cfg \<le> 0 \<or> server_port cfg > 65535)
     \<or> server_key cfg = ''''
     \<or> username cfg = ''''
     \<or> password cfg = ''''
     \<or> (aes_key cfg = '''' \<or> \<not> is_hex (aes_key cfg) 64)
     \<or> device_id cfg = ''''"

definition config_load :: "string option \<Rightarrow> int \<times> ClientConfig" where
  "config_load file =
     (let cfg = config_set_defaults in
      case file of
        None \<Rightarrow> (- 1, cfg)
      | Some contents \<Rightarrow>
          (let cfg' = config_lines contents cfg in
           if config_invalid cfg' then (- 1, cfg') else (0, cfg')))"

section \<open>What the loader guarantees\<close>

text \<open>Every string field fits its array with room for the NUL.\<close>

definition config_fits :: "ClientConfig \<Rightarrow> bool" where
  "config_fits cfg \<longleftrightarrow>
     length (server_host cfg) < MAX_URL_LEN \<and> length (server_path cfg) < MAX_URL_LEN
     \<and> length (server_key cfg) < MAX_KEY_LEN \<and> length (username cfg) < MAX_USER_LEN
     \<and> length (password cfg) < MAX_PASS_LEN \<and> length (aes_key cfg) < MAX_KEY_LEN
     \<and> length (device_id cfg) < MAX_USER_LEN \<and> length (ca_cert_path cfg) < MAX_PATH_LEN"

lemma fits_defaults: "config_fits config_set_defaults"
  by (simp add: config_fits_def config_set_defaults_def config_consts strncpy_fld_less)

lemma fits_apply_kv: "config_fits cfg \<Longrightarrow> config_fits (config_apply_kv k v cfg)"
  by (simp add: config_apply_kv_def config_fits_def config_consts strncpy_fld_less)

lemma fits_line: "config_fits cfg \<Longrightarrow> config_fits (config_line l cfg)"
  by (auto simp: config_line_def fits_apply_kv split: option.splits)

lemma fits_lines: "config_fits cfg \<Longrightarrow> config_fits (config_lines s cfg)"
  by (induction s cfg rule: config_lines.induct) (auto simp: fits_line split: prod.splits)

lemma config_load_fits: "config_fits (snd (config_load inp))"
  by (simp add: config_load_def Let_def fits_defaults fits_lines split: option.splits)

text \<open>
  C19. A configuration that \<open>config_load\<close> accepts is usable: the required fields are
  present and fit their arrays, the port is a TCP port, and the AES key is 64 hexadecimal
  digits, so \<open>sc_hex_to_bytes\<close> yields the 32-byte key that the GCM functions need.
\<close>

theorem config_load_accepts_only_usable:
  assumes "config_load inp = (0, cfg)"
  shows "server_host cfg \<noteq> '''' \<and> 0 < server_port cfg \<and> server_port cfg \<le> 65535
    \<and> server_key cfg \<noteq> '''' \<and> username cfg \<noteq> '''' \<and> password cfg \<noteq> '''' \<and> device_id cfg \<noteq> ''''
    \<and> config_fits cfg
    \<and> (\<exists>key. sc_hex_to_bytes (aes_key cfg) 32 = Some key \<and> length key = 32)"
proof -
  have valid: "\<not> config_invalid cfg"
    using assms by (auto simp: config_load_def Let_def split: option.splits if_splits)
  moreover have "config_fits cfg"
    using assms config_load_fits [of inp] by simp
  moreover have "sc_hex_to_bytes (aes_key cfg) 32 = Some (hex_pairs (aes_key cfg))"
    by (rule sc_hex_to_bytes_xdigits) (use valid in \<open>auto simp: config_invalid_def is_hex_def\<close>)
  moreover have "length (hex_pairs (aes_key cfg)) = 32"
    using valid by (simp add: config_invalid_def is_hex_def length_hex_pairs)
  ultimately show ?thesis by (auto simp: config_invalid_def)
qed

text \<open>
  A value without surrounding blanks survives \<open>trim\<close>, and a line \<open>key = value\<close> assigns
  exactly the field named, even when the value itself contains an equals sign.
\<close>

definition clean_value :: "string \<Rightarrow> bool" where
  "clean_value v \<longleftrightarrow>
     nul \<notin> set v \<and> CHR 0x0A \<notin> set v \<and> CHR 0x0D \<notin> set v
     \<and> (v \<noteq> [] \<longrightarrow> hd v \<noteq> CHR '' '' \<and> hd v \<noteq> CHR 0x09 \<and> last v \<noteq> CHR '' '' \<and> last v \<noteq> CHR 0x09)"

lemma trim_clean:
  assumes "clean_value v"
  shows "trim (CHR '' '' # v @ [CHR 0x0A]) = v" and "trim (v @ [CHR '' '']) = v"
proof -
  let ?b = "\<lambda>c. c = CHR '' '' \<or> c = CHR 0x09 \<or> c = CHR 0x0A \<or> c = CHR 0x0D"
  have r: "rev (dropWhile ?b (rev v)) = v"
  proof (cases v rule: rev_cases)
    case (snoc ys y)
    then show ?thesis using assms by (auto simp: clean_value_def)
  qed simp
  show "trim (CHR '' '' # v @ [CHR 0x0A]) = v"
  proof (cases v)
    case (Cons a l)
    then show ?thesis using assms r by (simp add: trim_def Let_def clean_value_def)
  qed (simp add: trim_def)
  show "trim (v @ [CHR '' '']) = v"
  proof (cases v)
    case (Cons a l)
    then show ?thesis using assms r by (simp add: trim_def Let_def clean_value_def)
  qed (simp add: trim_def)
qed

lemma cstr_clean: "nul \<notin> set v \<Longrightarrow> cstr (v @ w) = v @ cstr w"
  by (induction v) (auto simp: cstr_def)

lemma fgets_line: "CHR 0x0A \<notin> set v \<Longrightarrow> length v < n \<Longrightarrow> fgets_c n (v @ CHR 0x0A # r) = (v @ [CHR 0x0A], r)"
proof (induction v arbitrary: n)
  case Nil
  then show ?case by (cases n) auto
next
  case (Cons a v)
  then show ?case by (cases n) auto
qed

lemma config_line_assign:
  assumes "key \<noteq> []" and "clean_value key" and "CHR ''='' \<notin> set key" and "hd key \<noteq> CHR ''#''"
    and "clean_value v"
  shows "config_line (key @ '' = '' @ v @ [CHR 0x0A]) cfg = config_apply_kv key v cfg"
proof -
  have sp: "split_first (CHR ''='') (key @ '' = '' @ v @ [CHR 0x0A])
      = Some (key @ [CHR '' ''], CHR '' '' # v @ [CHR 0x0A])"
    using split_first_append [of "CHR ''=''" "key @ [CHR '' '']" "CHR '' '' # v @ [CHR 0x0A]"] assms(3)
    by simp
  have "hd key \<noteq> CHR 0x0A" "hd key \<noteq> CHR 0x0D"
    using assms(1,2) by (auto simp: clean_value_def dest: hd_in_set)
  then show ?thesis
    using assms sp by (simp add: config_line_def trim_clean del: split_first.simps)
qed

text \<open>
  Reading a line back: a file whose first line is \<open>key = value\<close> (a key that is no
  comment, a value without line breaks, surrounding blanks or NUL, the line within the
  1023 characters of the buffer) is loaded as the assignment of that value to that key,
  followed by the rest of the file; a value may contain further equals signs.
\<close>

theorem config_lines_assign:
  assumes "key \<noteq> []" and "clean_value key" and "CHR ''='' \<notin> set key" and "hd key \<noteq> CHR ''#''"
    and "clean_value v" and "length key + length v + 3 < 1023"
  shows "config_lines (key @ '' = '' @ v @ CHR 0x0A # rest) cfg
    = config_lines rest (config_apply_kv key v cfg)"
proof -
  let ?l = "key @ '' = '' @ v"
  have nl: "CHR 0x0A \<notin> set ?l" and nn: "nul \<notin> set ?l"
    using assms(2,5) by (auto simp: clean_value_def nul_def)
  have fg: "fgets_c 1023 (?l @ CHR 0x0A # rest) = (?l @ [CHR 0x0A], rest)"
    by (rule fgets_line [OF nl]) (use assms(6) in simp)
  have cs: "cstr (?l @ [CHR 0x0A]) = ?l @ [CHR 0x0A]"
    using cstr_clean [OF nn, of "[CHR 0x0A]"] by (simp add: cstr_def nul_def)
  obtain c cs where s: "?l @ CHR 0x0A # rest = c # cs"
    by (cases "?l @ CHR 0x0A # rest") auto
  have "config_lines (?l @ CHR 0x0A # rest) cfg = config_lines rest (config_line (?l @ [CHR 0x0A]) cfg)"
    using fg cs unfolding s by simp
  then show ?thesis
    using config_line_assign [OF assms(1-5)] by simp
qed

theorem config_lines_assign_witness:
  "config_lines (''password'' @ '' = '' @ ''a=b c'' @ CHR 0x0A # ''log_level = 0'') config_set_defaults
     = config_lines ''log_level = 0'' (config_apply_kv ''password'' ''a=b c'' config_set_defaults)"
  by (rule config_lines_assign) (simp_all add: clean_value_def nul_def)

text \<open>A smallest file that the loader accepts.\<close>

definition sample_config :: string where
  "sample_config =
     ''server_host=h'' @ [CHR 0x0A] @ ''server_key=k'' @ [CHR 0x0A] @ ''username=u'' @ [CHR 0x0A]
     @ ''password=p'' @ [CHR 0x0A]
     @ ''aes_key=a1b2c3d4e5f6a1b2c3d4e5f6a1b2c3d4a1b2c3d4e5f6a1b2c3d4e5f6a1b2c3d4'' @ [CHR 0x0A]
     @ ''device_id=d''"

lemma sample_config_loads: "config_load (Some sample_config) = (0, snd (config_load (Some sample_config)))"
proof -
  have "fst (config_load (Some sample_config)) = 0" by code_simp
  then show ?thesis by (metis prod.collapse)
qed

theorem config_load_accepts_only_usable_witness:
  "let cfg = snd (config_load (Some sample_config))
   in server_host cfg \<noteq> [] \<and> 0 < server_port cfg \<and> server_port cfg \<le> 65535
    \<and> server_key cfg \<noteq> [] \<and> username cfg \<noteq> [] \<and> password cfg \<noteq> [] \<and> device_id cfg \<noteq> []
    \<and> config_fits cfg
    \<and> (\<exists>key. sc_hex_to_bytes (aes_key cfg) 32 = Some key \<and> length key = 32)"
  unfolding Let_def by (rule config_load_accepts_only_usable [OF sample_config_loads])

end
