(* ===== verification/Posix.thy ===== *)
theory Posix
  imports Prelude
begin

text \<open>
  The operating system below the file-transfer code: sockets, \<open>poll\<close>, the clock and the
  file system. What the peer and the kernel decide is data of the state: a socket carries
  the segments that successive \<open>recv\<close> calls deliver and the amounts that successive \<open>send\<close>
  calls accept, the world carries the descriptors that \<open>socket\<close> and \<open>accept\<close> return and
  the events that successive \<open>poll\<close> calls report. A statement for every such state is a
  statement for every behaviour of the network.

  A descriptor number stands for one open file description: numbers are not reused.
\<close>

section \<open>Sockets\<close>

record sockaddr_in =
  sin_port :: "16 word"
  sin_addr :: u32

text \<open>
  \<open>rx\<close>: what successive \<open>recv\<close> calls find; the empty segment is an error or a timeout, the
  end of the list is the end of the stream. \<open>sndq\<close>: how much successive \<open>send\<close> calls
  accept, a value \<open>\<le> 0\<close> being an error; when the list has ended everything is accepted.
  \<open>tx\<close>: what has been accepted so far. The rest are the socket's options. A request whose
  count is negative as an \<open>int\<close> (2 GiB or more) is answered by an error here; no theorem
  relies on that answer.
\<close>

record sock =
  rx :: "byte list list"
  sndq :: "int list"
  tx :: "byte list"
  nonblock :: bool
  nodelay :: bool
  sndbuf :: int
  rcvbuf :: int
  sndtimeo :: int
  rcvtimeo :: int
  peer :: "sockaddr_in option"

definition new_sock :: sock where
  "new_sock = \<lparr>rx = [], sndq = [], tx = [], nonblock = False, nodelay = False, sndbuf = 0,
     rcvbuf = 0, sndtimeo = 0, rcvtimeo = 0, peer = None\<rparr>"

definition os_send :: "byte list \<Rightarrow> int \<Rightarrow> sock \<Rightarrow> int \<times> sock" where
  "os_send p n s =
     (if n \<le> 0 then (n, s)
      else (case sndq s of
              [] \<Rightarrow> (n, s\<lparr>tx := tx s @ take (nat n) p\<rparr>)
            | k # ks \<Rightarrow> (min k n, s\<lparr>sndq := ks, tx := tx s @ take (nat (min k n)) p\<rparr>)))"

definition os_recv :: "int \<Rightarrow> sock \<Rightarrow> int \<times> byte list \<times> sock" where
  "os_recv n s =
     (if n \<le> 0 then (n, [], s)
      else (case rx s of
              [] \<Rightarrow> (0, [], s)
            | seg # r \<Rightarrow>
                if seg = [] then (-1, [], s\<lparr>rx := r\<rparr>)
                else if length seg \<le> nat n then (int (length seg), seg, s\<lparr>rx := r\<rparr>)
                else (n, take (nat n) seg, s\<lparr>rx := drop (nat n) seg # r\<rparr>)))"

text \<open>The bytes a socket delivers before the first error, and whether every send is accepted.\<close>

fun incoming :: "byte list list \<Rightarrow> byte list" where
  "incoming [] = []"
| "incoming (seg # r) = (if seg = [] then [] else seg @ incoming r)"

definition sends_ok :: "sock \<Rightarrow> bool" where
  "sends_ok s \<longleftrightarrow> (\<forall>k \<in> set (sndq s). 0 < k)"

section \<open>The world\<close>

text \<open>
  One \<open>poll\<close> call: the clock when it is made, the descriptors reported readable, writable
  and failed (\<open>POLLERR\<close> or \<open>POLLHUP\<close>), and those whose pending \<open>SO_ERROR\<close> is not zero.
\<close>

record poll_round =
  pr_now :: int
  pr_in :: "int list"
  pr_out :: "int list"
  pr_err :: "int list"
  pr_soerr :: "int list"

definition no_events :: poll_round where
  "no_events = \<lparr>pr_now = 0, pr_in = [], pr_out = [], pr_err = [], pr_soerr = []\<rparr>"

text \<open>
  \<open>quota p\<close> is \<open>None\<close> when \<open>p\<close> cannot be opened for writing and otherwise the number of bytes
  the disk takes for it. \<open>closed\<close> is the list of descriptors given to \<open>close\<close>, in order;
  \<open>dgrams\<close> the datagrams sent, with their socket and destination. \<open>udp_rx\<close> holds the
  answers of successive \<open>poll\<close> and \<open>recvfrom\<close> pairs on a datagram socket (\<open>None\<close>: nothing
  within the timeout). \<open>g_ft_max_size\<close> is the program's own global.
\<close>

record world =
  socks :: "int \<Rightarrow> sock"
  closed :: "int list"
  new_fds :: "int list"
  new_conns :: "int list"
  rounds :: "poll_round list"
  dgrams :: "(int \<times> sockaddr_in \<times> string) list"
  udp_rx :: "string option list"
  fsys :: "string \<Rightarrow> byte list option"
  quota :: "string \<Rightarrow> nat option"
  g_ft_max_size :: u64

text \<open>Name resolution, local interfaces and the answers of \<open>bind\<close>, \<open>listen\<close> and \<open>getsockname\<close>.\<close>

record ifaddr =
  ifa_inet :: bool
  ifa_loopback :: bool
  ifa_up :: bool
  ifa_addr :: u32

record netenv =
  inet_pton :: "string \<Rightarrow> u32 option"
  inet_ntop :: "u32 \<Rightarrow> string"
  getaddrinfo :: "string \<Rightarrow> u32 option"
  getifaddrs :: "ifaddr list option"
  bind_res :: "int \<Rightarrow> int"
  listen_res :: "int \<Rightarrow> int"
  sockname_port :: "int \<Rightarrow> 16 word"

definition upd_sock :: "int \<Rightarrow> (sock \<Rightarrow> sock) \<Rightarrow> world \<Rightarrow> world" where
  "upd_sock fd f w = w\<lparr>socks := (socks w)(fd := f (socks w fd))\<rparr>"

definition os_close :: "int \<Rightarrow> world \<Rightarrow> world" where
  "os_close fd w = w\<lparr>closed := closed w @ [fd]\<rparr>"

text \<open>\<open>socket\<close>, \<open>accept\<close> (on a non-blocking listener) and \<open>poll\<close> take the next answer.\<close>

definition os_socket :: "world \<Rightarrow> int \<times> world" where
  "os_socket w = (case new_fds w of [] \<Rightarrow> (-1, w) | fd # r \<Rightarrow> (fd, w\<lparr>new_fds := r\<rparr>))"

definition os_accept :: "world \<Rightarrow> int \<times> world" where
  "os_accept w = (case new_conns w of [] \<Rightarrow> (-1, w) | fd # r \<Rightarrow> (fd, w\<lparr>new_conns := r\<rparr>))"

definition os_poll :: "world \<Rightarrow> poll_round \<times> world" where
  "os_poll w = (case rounds w of [] \<Rightarrow> (no_events, w) | p # r \<Rightarrow> (p, w\<lparr>rounds := r\<rparr>))"

definition os_connect :: "int \<Rightarrow> sockaddr_in \<Rightarrow> world \<Rightarrow> world" where
  "os_connect fd sa w = upd_sock fd (\<lambda>s. s\<lparr>peer := Some sa\<rparr>) w"

definition os_sendto :: "int \<Rightarrow> string \<Rightarrow> sockaddr_in \<Rightarrow> world \<Rightarrow> world" where
  "os_sendto fd msg sa w = w\<lparr>dgrams := dgrams w @ [(fd, sa, msg)]\<rparr>"

definition os_udp_wait :: "world \<Rightarrow> string option \<times> world" where
  "os_udp_wait w = (case udp_rx w of [] \<Rightarrow> (None, w) | a # r \<Rightarrow> (a, w\<lparr>udp_rx := r\<rparr>))"

section \<open>Files\<close>

text \<open>
  \<open>fopen(p, "wb")\<close> truncates, \<open>fopen(p, "ab")\<close> keeps the contents, \<open>fwrite\<close> appends as much
  as the quota leaves and returns how much that was.
\<close>

definition fopen_wb :: "string \<Rightarrow> world \<Rightarrow> world option" where
  "fopen_wb p w = (case quota w p of None \<Rightarrow> None | Some _ \<Rightarrow> Some (w\<lparr>fsys := (fsys w)(p := Some [])\<rparr>))"

definition fwrite :: "string \<Rightarrow> byte list \<Rightarrow> world \<Rightarrow> nat \<times> world" where
  "fwrite p bs w =
     (let old = (case fsys w p of None \<Rightarrow> [] | Some b \<Rightarrow> b);
          room = (case quota w p of None \<Rightarrow> 0 | Some q \<Rightarrow> q - length old);
          part = take room bs
      in (length part, w\<lparr>fsys := (fsys w)(p := Some (old @ part))\<rparr>))"

definition os_remove :: "string \<Rightarrow> world \<Rightarrow> world" where
  "os_remove p w = w\<lparr>fsys := (fsys w)(p := None)\<rparr>"

text \<open>\<open>fread(buf, 1, n, f)\<close> on a stream that still has \<open>rest\<close> in front of it.\<close>

definition fread :: "nat \<Rightarrow> byte list \<Rightarrow> byte list \<times> byte list" where
  "fread n rest = (take n rest, drop n rest)"

section \<open>Laws\<close>

lemma upd_sock_simps [simp]:
  "socks (upd_sock fd f w) fd' = (if fd' = fd then f (socks w fd) else socks w fd')"
  "closed (upd_sock fd f w) = closed w"
  "new_fds (upd_sock fd f w) = new_fds w"
  "new_conns (upd_sock fd f w) = new_conns w"
  "rounds (upd_sock fd f w) = rounds w"
  "fsys (upd_sock fd f w) = fsys w"
  "quota (upd_sock fd f w) = quota w"
  "dgrams (upd_sock fd f w) = dgrams w"
  "udp_rx (upd_sock fd f w) = udp_rx w"
  "g_ft_max_size (upd_sock fd f w) = g_ft_max_size w"
  by (simp_all add: upd_sock_def)

lemma os_close_simps [simp]:
  "socks (os_close fd w) = socks w"
  "closed (os_close fd w) = closed w @ [fd]"
  "new_fds (os_close fd w) = new_fds w"
  "new_conns (os_close fd w) = new_conns w"
  "rounds (os_close fd w) = rounds w"
  "fsys (os_close fd w) = fsys w"
  "quota (os_close fd w) = quota w"
  "dgrams (os_close fd w) = dgrams w"
  "udp_rx (os_close fd w) = udp_rx w"
  "g_ft_max_size (os_close fd w) = g_ft_max_size w"
  by (simp_all add: os_close_def)

section \<open>Concrete worlds\<close>

text \<open>A world in which every socket is \<open>s\<close>, nothing else happens and writes succeed.\<close>

definition base_world :: "sock \<Rightarrow> world" where
  "base_world s = \<lparr>socks = (\<lambda>_. s), closed = [], new_fds = [], new_conns = [], rounds = [],
     dgrams = [], udp_rx = [], fsys = (\<lambda>_. None), quota = (\<lambda>_. Some 1000), g_ft_max_size = 100\<rparr>"

text \<open>Addresses written as dotted numbers of one digit each, and the interfaces of a small host.\<close>

definition ref_env :: netenv where
  "ref_env = \<lparr>inet_pton = (\<lambda>s. if s = ''10.0.0.2'' then Some 0x0A000002 else
                               if s = ''10.0.0.3'' then Some 0x0A000003 else None),
     inet_ntop = (\<lambda>a. if a = 0x0A000002 then ''10.0.0.2'' else ''10.0.0.3''),
     getaddrinfo = (\<lambda>_. None),
     getifaddrs = Some [\<lparr>ifa_inet = True, ifa_loopback = True, ifa_up = True, ifa_addr = 0x7F000001\<rparr>,
                        \<lparr>ifa_inet = True, ifa_loopback = False, ifa_up = True, ifa_addr = 0x0A000002\<rparr>],
     bind_res = (\<lambda>_. 0), listen_res = (\<lambda>_. 0), sockname_port = (\<lambda>_. 40001)\<rparr>"

end
