(* ===== verification/FtSocket.thy ===== *)
theory FtSocket
  imports Posix
begin

text \<open>
  The socket helpers of \<open>src/common/ft/ft_socket.c\<close> over the world of \<open>Posix\<close>: complete
  sends and receives, socket options, the transfer identifier and the parser of
  \<open>host:port\<close>. The locale \<open>byte_stream\<close> is what the transfer and authentication protocols
  rely on; it is interpreted on \<open>ft_send_all\<close> and \<open>ft_recv_all\<close> of any descriptor.
\<close>

section \<open>Model\<close>

definition FT_INVALID_SOCK :: int where "FT_INVALID_SOCK = -1"

definition FT_MAX_FILE_SIZE :: u64 where "FT_MAX_FILE_SIZE = 500 * 1024 * 1024"

definition ft_set_max_file_size :: "u64 \<Rightarrow> world \<Rightarrow> world" where
  "ft_set_max_file_size max_bytes w = w\<lparr>g_ft_max_size := max_bytes\<rparr>"

definition ft_close :: "int \<Rightarrow> world \<Rightarrow> world" where
  "ft_close fd w = (if fd = FT_INVALID_SOCK then w else os_close fd w)"

definition ft_set_nonblocking :: "int \<Rightarrow> world \<Rightarrow> world" where
  "ft_set_nonblocking fd = upd_sock fd (\<lambda>s. s\<lparr>nonblock := True\<rparr>)"

definition ft_set_blocking :: "int \<Rightarrow> world \<Rightarrow> world" where
  "ft_set_blocking fd = upd_sock fd (\<lambda>s. s\<lparr>nonblock := False\<rparr>)"

text \<open>
  \<open>RAND_bytes\<close> either fills the 16 bytes (\<open>Some\<close>) or fails, and then \<open>rand\<close> is called for each
  of them; \<open>rnd i\<close> is its i-th result.
\<close>

definition ft_generate_uuid :: "byte list option \<Rightarrow> (nat \<Rightarrow> u32) \<Rightarrow> string" where
  "ft_generate_uuid rand_bytes rnd =
     (let buf = (case rand_bytes of
                   Some b \<Rightarrow> b
                 | None \<Rightarrow> map (\<lambda>i. ucast (rnd i AND 0xFF)) [0..<16]);
          h = (\<lambda>i. hex02 (buf ! i))
      in fst (snprintf_c 37
           (h 0 @ h 1 @ h 2 @ h 3 @ ''-'' @ h 4 @ h 5 @ ''-'' @ h 6 @ h 7 @ ''-'' @ h 8 @ h 9 @ ''-''
            @ h 10 @ h 11 @ h 12 @ h 13 @ h 14 @ h 15)))"

text \<open>\<open>None\<close> is the return value -1; the port is kept in host order, \<open>htons\<close> truncating it.\<close>

definition ft_parse_addr :: "netenv \<Rightarrow> string \<Rightarrow> sockaddr_in option" where
  "ft_parse_addr env s =
     (case split_last CHR '':'' (strncpy_fld 63 s) of
        None \<Rightarrow> None
      | Some (ip, p) \<Rightarrow>
          (case inet_pton env ip of
             None \<Rightarrow> None
           | Some a \<Rightarrow> Some \<lparr>sin_port = of_int (atoi p), sin_addr = a\<rparr>))"

definition ft_optimize_socket :: "int \<Rightarrow> world \<Rightarrow> world" where
  "ft_optimize_socket fd =
     upd_sock fd (\<lambda>s. s\<lparr>nodelay := True, sndbuf := 512 * 1024, rcvbuf := 512 * 1024,
                        sndtimeo := 30000, rcvtimeo := 30000\<rparr>)"

text \<open>The timeout is kept in milliseconds: \<open>tv_sec = ms / 1000\<close>, \<open>tv_usec = (ms % 1000) * 1000\<close>.\<close>

definition ft_set_sock_timeout :: "int \<Rightarrow> int \<Rightarrow> world \<Rightarrow> world" where
  "ft_set_sock_timeout fd ms = upd_sock fd (\<lambda>s. s\<lparr>rcvtimeo := ms, sndtimeo := ms\<rparr>)"

lemma os_send_pos: "os_send p n s = (r, s') \<Longrightarrow> 0 < r \<Longrightarrow> 0 < n \<and> r \<le> n"
  by (auto simp: os_send_def split: if_splits list.splits)

lemma os_recv_pos:
  "os_recv n s = (r, b, s') \<Longrightarrow> 0 < r \<Longrightarrow> 0 < n \<and> r \<le> n \<and> length b = nat r"
  by (auto simp: os_recv_def split: if_splits list.splits)

text \<open>The loop of \<open>ft_send_all\<close> on what is still to be sent, \<open>p + sent\<close>.\<close>

function send_loop :: "byte list \<Rightarrow> sock \<Rightarrow> int \<times> sock" where
  "send_loop p s =
     (if p = [] then (0, s)
      else (let (n, s') = os_send p (int_of_size (length p)) s
            in if n \<le> 0 then (-1, s') else send_loop (drop (nat n) p) s'))"
  by auto
termination by (relation "measure (\<lambda>(p, s). length p)") auto

text \<open>The loop of \<open>ft_recv_all\<close>: \<open>len - got\<close> bytes are missing, \<open>acc\<close> has been stored.\<close>

function recv_loop :: "nat \<Rightarrow> byte list \<Rightarrow> sock \<Rightarrow> int \<times> byte list \<times> sock" where
  "recv_loop len acc s =
     (if len = 0 then (0, acc, s)
      else (let (n, b, s') = os_recv (int_of_size len) s
            in if n \<le> 0 then (-1, acc, s') else recv_loop (len - nat n) (acc @ b) s'))"
  by auto
termination by (relation "measure (\<lambda>(len, acc, s). len)") auto

declare send_loop.simps [simp del] recv_loop.simps [simp del]

definition ft_send_all :: "int \<Rightarrow> byte list \<Rightarrow> world \<Rightarrow> int \<times> world" where
  "ft_send_all fd buf w = (let (r, s) = send_loop buf (socks w fd) in (r, upd_sock fd (\<lambda>_. s) w))"

definition ft_recv_all :: "int \<Rightarrow> nat \<Rightarrow> world \<Rightarrow> int \<times> byte list \<times> world" where
  "ft_recv_all fd len w =
     (let (r, b, s) = recv_loop len [] (socks w fd) in (r, b, upd_sock fd (\<lambda>_. s) w))"

text \<open>\<open>gettimeofday\<close> gives seconds and microseconds.\<close>

definition ft_now_ms :: "int \<Rightarrow> int \<Rightarrow> int" where
  "ft_now_ms tv_sec tv_usec = tv_sec * 1000 + tv_usec div 1000"

section \<open>Complete sends\<close>

lemma send_loop_done:
  "send_loop p s = (r, s') \<Longrightarrow> r = 0 \<or> r = -1"
proof (induction p s arbitrary: r rule: send_loop.induct)
  case (1 p s)
  then show ?case
    by (subst (asm) send_loop.simps [of p s]) (auto split: if_splits prod.splits)
qed

lemma os_send_tx:
  assumes "os_send p n s = (r, t)"
  shows "tx t = tx s @ take (nat r) p \<and> rx t = rx s"
proof (cases "n \<le> 0")
  case True
  then show ?thesis using assms by (simp add: os_send_def)
next
  case False
  then show ?thesis using assms by (auto simp: os_send_def split: list.splits)
qed

lemma send_loop_tx:
  "send_loop p s = (r, s') \<Longrightarrow>
     (\<exists>k. tx s' = tx s @ take k p \<and> (r = 0 \<longrightarrow> take k p = p)) \<and> rx s' = rx s"
proof (induction p s arbitrary: r s' rule: send_loop.induct)
  case (1 p s)
  obtain n t where o: "os_send p (int_of_size (length p)) s = (n, t)" by (cases "os_send p (int_of_size (length p)) s")
  note tx = os_send_tx [OF o]
  show ?case
  proof (cases "p = [] \<or> n \<le> 0")
    case True
    then show ?thesis
      using 1(2) o tx by (subst (asm) send_loop.simps) (auto split: if_splits)
  next
    case False
    then have l: "send_loop (drop (nat n) p) t = (r, s')"
      using 1(2) o by (subst (asm) send_loop.simps) simp
    obtain k where k: "tx s' = tx t @ take k (drop (nat n) p)"
        "r = 0 \<Longrightarrow> take k (drop (nat n) p) = drop (nat n) p" and r: "rx s' = rx t"
      using 1(1) [OF _ o [symmetric] refl _ l] False by auto
    have "tx s' = tx s @ take (nat n + k) p" using k(1) tx by (simp add: take_add)
    moreover have "take (nat n + k) p = p" if "r = 0"
      using k(2) [OF that] by (simp add: take_add)
    ultimately show ?thesis using r tx by (intro conjI exI [of _ "nat n + k"]) simp_all
  qed
qed

lemma send_loop_ok:
  "sends_ok s \<Longrightarrow> length p < 2 ^ 31 \<Longrightarrow> \<exists>s'. send_loop p s = (0, s') \<and> sends_ok s'"
proof (induction p s rule: send_loop.induct)
  case (1 p s)
  obtain n t where o: "os_send p (int_of_size (length p)) s = (n, t)" by (cases "os_send p (int_of_size (length p)) s")
  have sz: "int_of_size (length p) = int (length p)" using 1(3) by (rule int_of_size_id)
  show ?case
  proof (cases "p = []")
    case True
    then show ?thesis using 1(2) by (simp add: send_loop.simps)
  next
    case False
    then have "0 < n \<and> sends_ok t"
      using o 1(2) by (auto simp: os_send_def sz sends_ok_def split: list.splits)
    then show ?thesis
      using 1(1) [OF False o [symmetric] refl] 1(3) o False
      by (subst send_loop.simps) simp
  qed
qed

section \<open>Complete receives\<close>

lemma recv_loop_done: "recv_loop len acc s = (r, b, s') \<Longrightarrow> r = 0 \<or> r = -1"
proof (induction len acc s arbitrary: r rule: recv_loop.induct)
  case (1 len acc s)
  then show ?case
    by (subst (asm) recv_loop.simps [of len acc s]) (auto split: if_splits prod.splits)
qed

lemma os_recv_frame: "os_recv n s = (r, b, t) \<Longrightarrow> tx t = tx s \<and> sndq t = sndq s"
  by (auto simp: os_recv_def split: if_splits list.splits)

lemma recv_loop_frame:
  "recv_loop len acc s = (r, b, s') \<Longrightarrow> tx s' = tx s \<and> sndq s' = sndq s"
proof (induction len acc s arbitrary: r b s' rule: recv_loop.induct)
  case (1 len acc s)
  obtain n c t where o: "os_recv (int_of_size len) s = (n, c, t)" by (cases "os_recv (int_of_size len) s") auto
  then show ?case
    using 1 os_recv_frame [OF o]
    by (subst (asm) recv_loop.simps [of len acc s]) (fastforce split: if_splits)
qed

lemma os_recv_incoming:
  assumes "0 < n" and "incoming (rx s) \<noteq> []" and "os_recv n s = (r, b, t)"
  shows "0 < r \<and> r \<le> n \<and> b = take (nat r) (incoming (rx s)) \<and> incoming (rx t) = drop (nat r) (incoming (rx s))"
  using assms by (cases "rx s") (auto simp: os_recv_def split: if_splits)

lemma os_recv_dry: "incoming (rx s) = [] \<Longrightarrow> os_recv n s = (r, b, t) \<Longrightarrow> r \<le> 0"
  by (cases "rx s") (auto simp: os_recv_def split: if_splits)

lemma recv_loop_ok:
  "len < 2 ^ 31 \<Longrightarrow> len \<le> length (incoming (rx s)) \<Longrightarrow>
     \<exists>s'. recv_loop len acc s = (0, acc @ take len (incoming (rx s)), s') \<and>
          incoming (rx s') = drop len (incoming (rx s))"
proof (induction len acc s rule: recv_loop.induct)
  case (1 len acc s)
  obtain n c t where o: "os_recv (int_of_size len) s = (n, c, t)" by (cases "os_recv (int_of_size len) s") auto
  have sz: "int_of_size len = int len" using 1(2) by (rule int_of_size_id)
  show ?case
  proof (cases "len = 0")
    case True
    then show ?thesis by (simp add: recv_loop.simps)
  next
    case False
    then have ne: "incoming (rx s) \<noteq> []" using 1(3) by auto
    have i: "0 < n" "n \<le> int len" "c = take (nat n) (incoming (rx s))"
        "incoming (rx t) = drop (nat n) (incoming (rx s))"
      using os_recv_incoming [OF _ ne o] False by (auto simp: sz)
    have small: "len - nat n < 2 ^ 31" using 1(2) by (rule le_less_trans [OF diff_le_self])
    have more: "len - nat n \<le> length (incoming (rx t))" using 1(3) i(4) by simp
    obtain s' where s': "recv_loop (len - nat n) (acc @ c) t = (0, (acc @ c) @ take (len - nat n) (incoming (rx t)), s')"
        "incoming (rx s') = drop (len - nat n) (incoming (rx t))"
      using 1(1) [OF False o [symmetric] refl refl _ small more] i(1) by auto
    have j: "nat n + (len - nat n) = len" using i(2) by simp
    have t: "take (nat n) q @ take (len - nat n) (drop (nat n) q) = take len q"
      and d: "drop (len - nat n) (drop (nat n) q) = drop len q" for q :: "byte list"
      using j by (simp_all add: take_add [symmetric] add.commute)
    show ?thesis
      using s' i(1) False o by (subst recv_loop.simps) (simp add: i(3,4) t d j add.commute [of _ "nat n"])
  qed
qed

lemma recv_loop_short:
  "length (incoming (rx s)) < len \<Longrightarrow> \<exists>b s'. recv_loop len acc s = (-1, b, s')"
proof (induction len acc s rule: recv_loop.induct)
  case (1 len acc s)
  obtain n c t where o: "os_recv (int_of_size len) s = (n, c, t)" by (cases "os_recv (int_of_size len) s") auto
  have ne: "len \<noteq> 0" using 1(2) by auto
  show ?case
  proof (cases "n \<le> 0")
    case True
    then show ?thesis using o ne by (subst recv_loop.simps) simp
  next
    case False
    then have inc: "incoming (rx s) \<noteq> []" using os_recv_dry [OF _ o] by auto
    have p: "0 < int_of_size len" using os_recv_pos [OF o] False by simp
    have i: "incoming (rx t) = drop (nat n) (incoming (rx s))" "c = take (nat n) (incoming (rx s))" "length c = nat n"
      using os_recv_incoming [OF p inc o] os_recv_pos [OF o] False by auto
    have "length (incoming (rx t)) < len - nat n"
      using i 1(2) ne by (auto simp: min_def split: if_splits)
    then show ?thesis
      using 1(1) [OF ne o [symmetric] refl refl] False o ne by (subst recv_loop.simps) simp
  qed
qed

section \<open>The byte stream the protocols rely on\<close>

text \<open>
  \<open>avail w\<close> is what the peer still delivers, \<open>sent w\<close> what it has been given, \<open>writable w\<close>
  that the connection takes everything. The counts are those that fit an \<open>int\<close>.
\<close>

locale byte_stream =
  fixes send :: "byte list \<Rightarrow> 'w \<Rightarrow> int \<times> 'w"
    and recv :: "nat \<Rightarrow> 'w \<Rightarrow> int \<times> byte list \<times> 'w"
    and avail :: "'w \<Rightarrow> byte list"
    and sent :: "'w \<Rightarrow> byte list"
    and writable :: "'w \<Rightarrow> bool"
  assumes send_result: "fst (send p w) = 0 \<or> fst (send p w) = -1"
    and send_writable: "writable w \<Longrightarrow> length p < 2 ^ 31 \<Longrightarrow>
          fst (send p w) = 0 \<and> writable (snd (send p w))"
    and send_sent: "\<exists>k. sent (snd (send p w)) = sent w @ take k p \<and>
          (fst (send p w) = 0 \<longrightarrow> take k p = p)"
    and send_avail: "avail (snd (send p w)) = avail w"
    and recv_result: "fst (recv n w) = 0 \<or> fst (recv n w) = -1"
    and recv_enough: "n < 2 ^ 31 \<Longrightarrow> n \<le> length (avail w) \<Longrightarrow>
          fst (recv n w) = 0 \<and> fst (snd (recv n w)) = take n (avail w) \<and>
          avail (snd (snd (recv n w))) = drop n (avail w)"
    and recv_short: "length (avail w) < n \<Longrightarrow> fst (recv n w) = -1"
    and recv_frame: "sent (snd (snd (recv n w))) = sent w \<and>
          writable (snd (snd (recv n w))) = writable w"
begin

lemma send_complete:
  assumes "send p w = (0, w')"
  shows "sent w' = sent w @ p"
  using send_sent [of p w] assms by auto

lemma send_prefix:
  obtains k where "sent (snd (send p w)) = sent w @ take k p"
  using send_sent [of p w] by auto

lemma send_accepted:
  assumes "writable w" and "length p < 2 ^ 31"
  obtains w' where "send p w = (0, w')" and "writable w'" and "sent w' = sent w @ p"
    and "avail w' = avail w"
proof -
  obtain r w' where s: "send p w = (r, w')" by (cases "send p w")
  then have "r = 0" "writable w'" using send_writable [OF assms] by simp_all
  then show ?thesis using that s send_complete [of p w w'] send_avail [of p w] by simp
qed

lemma recv_iff: "n < 2 ^ 31 \<Longrightarrow> fst (recv n w) = 0 \<longleftrightarrow> n \<le> length (avail w)"
  using recv_enough [of n w] recv_short [of w n] by (cases "n \<le> length (avail w)") simp_all

lemma recv_front:
  assumes "avail w = a @ b" and "length a = n" and "n < 2 ^ 31"
  obtains w' where "recv n w = (0, a, w')" and "avail w' = b" and "sent w' = sent w"
    and "writable w' = writable w"
proof -
  obtain r c w' where r: "recv n w = (r, c, w')" by (cases "recv n w") auto
  have "n \<le> length (avail w)" using assms(1,2) by simp
  from recv_enough [OF assms(3) this] recv_frame [of n w]
  show ?thesis using that r assms(1,2) by simp
qed

lemma recv_got:
  assumes "recv n w = (0, c, w')" and "n < 2 ^ 31"
  shows "avail w = c @ avail w' \<and> length c = n \<and> sent w' = sent w \<and> writable w' = writable w"
proof -
  have le: "n \<le> length (avail w)" using recv_iff [OF assms(2), of w] assms(1) by simp
  then have "avail w = take n (avail w) @ drop n (avail w)" by simp
  then show ?thesis
    using recv_enough [OF assms(2) le] recv_frame [of n w] assms(1) le by auto
qed

lemma recv_failed:
  assumes "recv n w = (r, c, w')" and "r \<noteq> 0" and "n < 2 ^ 31"
  shows "r = -1 \<and> length (avail w) < n"
  using recv_result [of n w] recv_iff [OF assms(3), of w] assms(1,2) by auto

end

definition stream_in :: "int \<Rightarrow> world \<Rightarrow> byte list" where
  "stream_in fd w = incoming (rx (socks w fd))"

definition stream_out :: "int \<Rightarrow> world \<Rightarrow> byte list" where
  "stream_out fd w = tx (socks w fd)"

definition stream_ok :: "int \<Rightarrow> world \<Rightarrow> bool" where
  "stream_ok fd w = sends_ok (socks w fd)"

lemma ft_send_all_loop:
  assumes "send_loop p (socks w fd) = (r, s)"
  shows "ft_send_all fd p w = (r, upd_sock fd (\<lambda>_. s) w)"
  using assms by (simp add: ft_send_all_def)

lemma ft_recv_all_loop:
  assumes "recv_loop n [] (socks w fd) = (r, b, s)"
  shows "ft_recv_all fd n w = (r, b, upd_sock fd (\<lambda>_. s) w)"
  using assms by (simp add: ft_recv_all_def)

interpretation ftc: byte_stream "ft_send_all fd" "ft_recv_all fd" "stream_in fd" "stream_out fd" "stream_ok fd"
  for fd
proof (unfold_locales, goal_cases)
  case (1 p w)
  obtain r s where s: "send_loop p (socks w fd) = (r, s)" by (cases "send_loop p (socks w fd)")
  show ?case using send_loop_done [OF s] by (simp add: ft_send_all_loop [OF s])
next
  case (2 w p)
  then obtain s where s: "send_loop p (socks w fd) = (0, s)" "sends_ok s"
    using send_loop_ok [of "socks w fd" p] by (auto simp: stream_ok_def)
  then show ?case by (simp add: ft_send_all_loop [OF s(1)] stream_ok_def)
next
  case (3 p w)
  obtain r s where s: "send_loop p (socks w fd) = (r, s)" by (cases "send_loop p (socks w fd)")
  show ?case using send_loop_tx [OF s] by (simp add: ft_send_all_loop [OF s] stream_out_def)
next
  case (4 p w)
  obtain r s where s: "send_loop p (socks w fd) = (r, s)" by (cases "send_loop p (socks w fd)")
  show ?case using send_loop_tx [OF s] by (simp add: ft_send_all_loop [OF s] stream_in_def)
next
  case (5 n w)
  obtain r b s where s: "recv_loop n [] (socks w fd) = (r, b, s)" by (cases "recv_loop n [] (socks w fd)") auto
  show ?case using recv_loop_done [OF s] by (simp add: ft_recv_all_loop [OF s])
next
  case (6 n w)
  then obtain s where s: "recv_loop n [] (socks w fd) = (0, take n (stream_in fd w), s)"
      "incoming (rx s) = drop n (stream_in fd w)"
    using recv_loop_ok [of n "socks w fd" "[]"] by (auto simp: stream_in_def)
  then show ?case by (simp add: ft_recv_all_loop [OF s(1)]) (simp add: stream_in_def)
next
  case (7 w n)
  then obtain b s where s: "recv_loop n [] (socks w fd) = (-1, b, s)"
    using recv_loop_short [of "socks w fd" n "[]"] by (auto simp: stream_in_def)
  then show ?case by (simp add: ft_recv_all_loop [OF s])
next
  case (8 n w)
  obtain r b s where s: "recv_loop n [] (socks w fd) = (r, b, s)" by (cases "recv_loop n [] (socks w fd)") auto
  show ?case
    using recv_loop_frame [OF s]
    by (simp add: ft_recv_all_loop [OF s] stream_out_def stream_ok_def sends_ok_def)
qed

text \<open>What a send or receive on one descriptor leaves alone.\<close>

definition world_frame :: "int set \<Rightarrow> world \<Rightarrow> world \<Rightarrow> bool" where
  "world_frame F w w' \<longleftrightarrow>
     (\<forall>fd. fd \<notin> F \<longrightarrow> socks w' fd = socks w fd) \<and> closed w' = closed w \<and> new_fds w' = new_fds w \<and>
     new_conns w' = new_conns w \<and> rounds w' = rounds w \<and> fsys w' = fsys w \<and> quota w' = quota w \<and>
     dgrams w' = dgrams w \<and> udp_rx w' = udp_rx w \<and> g_ft_max_size w' = g_ft_max_size w"

lemma world_frame_refl [simp]: "world_frame F w w"
  by (simp add: world_frame_def)

lemma world_frame_trans: "world_frame F a b \<Longrightarrow> world_frame F b c \<Longrightarrow> world_frame F a c"
  by (simp add: world_frame_def)

lemma world_frame_upd [simp]: "world_frame {fd} w (upd_sock fd f w)"
  by (simp add: world_frame_def)

lemma ft_send_all_frame: "world_frame {fd} w (snd (ft_send_all fd p w))"
  by (cases "send_loop p (socks w fd)") (simp add: ft_send_all_def)

lemma ft_recv_all_frame: "world_frame {fd} w (snd (snd (ft_recv_all fd n w)))"
  by (cases "recv_loop n [] (socks w fd)") (simp add: ft_recv_all_def)

section \<open>Transfer identifiers\<close>

lemma hexdigit_xdigit: "n < 16 \<Longrightarrow> isxdigit (hexdigit n)"
  by (simp add: isxdigit_def hexval_hexdigit)

lemma hex02_chars: "c \<in> set (hex02 b) \<Longrightarrow> isxdigit c"
  using unsigned_less [of b, where 'a = nat] by (auto simp: hex02_def intro!: hexdigit_xdigit)

lemma xdigit_not_dash: "isxdigit c \<Longrightarrow> c \<noteq> CHR ''-''"
  using isxdigit_not_special by blast

lemma filter_hex02: "filter (\<lambda>c. c \<noteq> CHR ''-'') (hex02 b) = hex02 b"
  using hex02_chars xdigit_not_dash by (auto simp: filter_id_conv)

lemma length_hex02 [simp]: "length (hex02 b) = 2"
  by (simp add: hex02_def)

lemma list16:
  assumes "length buf = 16"
  shows "map (\<lambda>i. buf ! i) [0, 1, 2, 3, 4, 5, 6, 7, 8, 9, 10, 11, 12, 13, 14, 15] = buf"
proof -
  have "[0, 1, 2, 3, 4, 5, 6, 7, 8, 9, 10, 11, 12, 13, 14, 15] = [0..<16]" by (simp add: upt_rec)
  then show ?thesis using map_nth [of buf] assms by simp
qed

text \<open>
  A transfer identifier has the 36 characters the wire protocol reserves for it, none of
  them NUL, and its hexadecimal digits are exactly the 16 random bytes, from \<open>RAND_bytes\<close> or
  from the fallback: no randomness is lost or cut off by the buffer.
\<close>

theorem uuid_shape:
  assumes "case rand_bytes of Some b \<Rightarrow> length b = 16 | None \<Rightarrow> True"
  shows "length (ft_generate_uuid rand_bytes rnd) = 36 \<and>
         (\<forall>c \<in> set (ft_generate_uuid rand_bytes rnd). isxdigit c \<or> c = CHR ''-'') \<and>
         filter (\<lambda>c. c \<noteq> CHR ''-'') (ft_generate_uuid rand_bytes rnd) =
           concat (map hex02 (case rand_bytes of Some b \<Rightarrow> b
                              | None \<Rightarrow> map (\<lambda>i. ucast (rnd i AND 0xFF)) [0..<16]))"
proof -
  define buf :: "byte list" where
    "buf = (case rand_bytes of Some b \<Rightarrow> b | None \<Rightarrow> map (\<lambda>i. ucast (rnd i AND 0xFF)) [0..<16])"
  have len: "length buf = 16" using assms by (auto simp: buf_def split: option.splits)
  let ?h = "\<lambda>i. hex02 (buf ! i)"
  have u: "ft_generate_uuid rand_bytes rnd =
      ?h 0 @ ?h 1 @ ?h 2 @ ?h 3 @ ''-'' @ ?h 4 @ ?h 5 @ ''-'' @ ?h 6 @ ?h 7 @ ''-'' @ ?h 8 @ ?h 9 @ ''-''
        @ ?h 10 @ ?h 11 @ ?h 12 @ ?h 13 @ ?h 14 @ ?h 15"
    unfolding ft_generate_uuid_def buf_def [symmetric] by (simp add: snprintf_c_def)
  have c: "concat (map hex02 buf) = concat (map ?h [0, 1, 2, 3, 4, 5, 6, 7, 8, 9, 10, 11, 12, 13, 14, 15])"
    by (subst (1) list16 [OF len, symmetric]) (simp only: map_map comp_def)
  have "length (ft_generate_uuid rand_bytes rnd) = 36" by (simp add: u)
  moreover have "\<forall>c \<in> set (ft_generate_uuid rand_bytes rnd). isxdigit c \<or> c = CHR ''-''"
    by (auto simp: u dest: hex02_chars)
  moreover have "filter (\<lambda>c. c \<noteq> CHR ''-'') (ft_generate_uuid rand_bytes rnd) = concat (map hex02 buf)"
    by (simp add: u c filter_hex02)
  ultimately show ?thesis by (simp add: buf_def)
qed

theorem uuid_shape_witness:
  "length (ft_generate_uuid (Some (replicate 16 0xAB)) (\<lambda>_. 0)) = 36"
  using uuid_shape [of "Some (replicate 16 0xAB)" "\<lambda>_. 0"] by simp

text \<open>
  C37. \<open>ft_recv_all\<close> succeeds exactly when the peer delivers \<open>len\<close> bytes before the stream
  fails, and then returns precisely the first \<open>len\<close> of them and leaves the rest, however the
  network splits them; a send hands over a prefix, the whole buffer when it reports success.
\<close>

theorem complete_transfer:
  fixes len :: nat
  shows "(len < 2 ^ 31 \<longrightarrow> fst (ft_recv_all fd len w) = (if len \<le> length (stream_in fd w) then 0 else -1)) \<and>
         (len < 2 ^ 31 \<and> len \<le> length (stream_in fd w) \<longrightarrow>
            fst (snd (ft_recv_all fd len w)) = take len (stream_in fd w) \<and>
            stream_in fd (snd (snd (ft_recv_all fd len w))) = drop len (stream_in fd w)) \<and>
         (\<exists>k. stream_out fd (snd (ft_send_all fd p w)) = stream_out fd w @ take k p \<and>
              (fst (ft_send_all fd p w) = 0 \<longrightarrow> take k p = p))"
  using ftc.recv_enough [of len fd w] ftc.recv_short [of fd w len] ftc.send_sent [of fd p w]
  by (auto simp: not_le)

theorem complete_transfer_witness:
  "fst (ft_recv_all 3 (3::nat) (base_world (new_sock\<lparr>rx := [[1, 2], [3, 4]]\<rparr>))) = 0 \<and>
   fst (snd (ft_recv_all 3 (3::nat) (base_world (new_sock\<lparr>rx := [[1, 2], [3, 4]]\<rparr>)))) = [1, 2, 3]"
proof -
  let ?w = "base_world (new_sock\<lparr>rx := [[1, 2], [3, 4]]\<rparr>)"
  have s: "stream_in 3 ?w = [1, 2, 3, 4]" by (simp add: stream_in_def base_world_def)
  show ?thesis
    using complete_transfer [of "3::nat" 3 ?w "[]"] s by simp
qed

text \<open>An address printed as \<open>ip:port\<close> is parsed back.\<close>

lemma ft_parse_addr_print:
  assumes "inet_pton env ip = Some a" and "length ip \<le> 45" and "port < 65536"
  shows "ft_parse_addr env (ip @ '':'' @ dec_of_nat port) = Some \<lparr>sin_port = of_nat port, sin_addr = a\<rparr>"
proof -
  have nc: "CHR '':'' \<notin> set (dec_of_nat port)" using dec_of_nat_digits [of port] by (auto simp: isdigit_def)
  have "length (dec_of_nat port) \<le> 5" using dec_of_nat_length [of port 4] assms(3) by simp
  then have "strncpy_fld 63 (ip @ '':'' @ dec_of_nat port) = ip @ CHR '':'' # dec_of_nat port"
    using assms(2) by (simp add: strncpy_fld_def)
  moreover have "atoi (dec_of_nat port) = int port" using assms(3) by (intro atoi_dec_of_nat) simp
  ultimately show ?thesis
    using split_last_append [OF nc, of ip] assms(1) by (simp add: ft_parse_addr_def)
qed

end
