(* ===== verification/FtProto.thy ===== *)
theory FtProto
  imports FtSocket Openssl "HOL-Library.Code_Target_Nat"
begin

text \<open>
  The wire protocol of \<open>src/common/ft/ft_proto.c\<close>: \<open>SYNC\<close>, the transfer identifier (36
  bytes), the size (8 bytes, big-endian), the data; from memory and streamed from and to a
  file in chunks. The facts about the connection come from the interpretation \<open>ftc\<close> of
  \<open>byte_stream\<close>.
\<close>

section \<open>Model\<close>

definition FT_MAGIC :: string where "FT_MAGIC = ''SYNC''"
definition FT_MAGIC_LEN :: nat where "FT_MAGIC_LEN = 4"
definition FT_UUID_LEN :: nat where "FT_UUID_LEN = 36"
definition FT_CHUNK_SIZE :: nat where "FT_CHUNK_SIZE = 256 * 1024"

record FtFileInfo =
  fi_file_id :: string
  fi_file_name :: string
  fi_mime_type :: string
  fi_file_size :: u64
  fi_checksum :: string
  fi_data :: "byte list option"
  fi_data_len :: nat

text \<open>The first \<open>n\<close> bytes of a zero-filled 64-byte array that holds \<open>s\<close>.\<close>

definition arr64 :: "nat \<Rightarrow> string \<Rightarrow> byte list" where
  "arr64 n s = take n (bytes_of_str s @ replicate 64 0)"

text \<open>\<open>for (i = 7; i >= 0; i--) { sb[i] = fs & 0xFF; fs >>= 8; }\<close> and the inverse loop.\<close>

primrec be_put :: "nat \<Rightarrow> u64 \<Rightarrow> byte list" where
  "be_put 0 fs = []"
| "be_put (Suc i) fs = be_put i (drop_bit 8 fs) @ [ucast (fs AND 0xFF)]"

definition be_get :: "byte list \<Rightarrow> u64" where
  "be_get sb = foldl (\<lambda>fs b. push_bit 8 fs OR ucast b) 0 sb"

definition ft_send_file :: "int \<Rightarrow> FtFileInfo \<Rightarrow> world \<Rightarrow> int \<times> world" where
  "ft_send_file fd info w =
     (let (r, w) = ft_send_all fd (bytes_of_str FT_MAGIC) w in
      if r \<noteq> 0 then (-1, w) else
      let (r, w) = ft_send_all fd (arr64 FT_UUID_LEN (fi_file_id info)) w in
      if r \<noteq> 0 then (-1, w) else
      let (r, w) = ft_send_all fd (be_put 8 (fi_file_size info)) w in
      if r \<noteq> 0 then (-1, w) else
      let (r, w) = ft_send_all fd (take (fi_data_len info) (case fi_data info of None \<Rightarrow> [] | Some d \<Rightarrow> d)) w in
      if r \<noteq> 0 then (-1, w) else (0, w))"

text \<open>
  The header both receivers read: the size is returned when the magic and the cap are
  respected, \<open>None\<close> is an early \<open>return -1\<close>; \<open>info\<close> gets the identifier once that is read.
\<close>

definition recv_header :: "int \<Rightarrow> FtFileInfo \<Rightarrow> world \<Rightarrow> u64 option \<times> FtFileInfo \<times> world" where
  "recv_header fd info w =
     (let (r, magic, w) = ft_recv_all fd FT_MAGIC_LEN w in
      if r \<noteq> 0 then (None, info, w) else
      if magic \<noteq> bytes_of_str FT_MAGIC then (None, info, w) else
      let (r, fid, w) = ft_recv_all fd FT_UUID_LEN w in
      if r \<noteq> 0 then (None, info, w) else
      let info = info\<lparr>fi_file_id := strncpy_fld 63 (cstr (str_of_bytes fid))\<rparr>;
          (r, sb, w) = ft_recv_all fd 8 w in
      if r \<noteq> 0 then (None, info, w) else
      let fs = be_get sb in
      if fs = 0 \<or> g_ft_max_size w < fs then (None, info, w)
      else (Some fs, info, w))"

definition ft_recv_file :: "openssl \<Rightarrow> int \<Rightarrow> FtFileInfo \<Rightarrow> world \<Rightarrow> int \<times> FtFileInfo \<times> world" where
  "ft_recv_file ssl fd info w =
     (case recv_header fd info w of
        (None, info, w) \<Rightarrow> (-1, info, w)
      | (Some fs, info, w) \<Rightarrow>
          (let info = info\<lparr>fi_file_size := fs, fi_data_len := unat fs\<rparr> in
           if \<not> malloc_ok ssl ''ft_recv_file'' (fi_data_len info) then (-1, info\<lparr>fi_data := None\<rparr>, w) else
           let (r, d, w) = ft_recv_all fd (fi_data_len info) w in
           if r \<noteq> 0 then (-1, info\<lparr>fi_data := None\<rparr>, w) else (0, info\<lparr>fi_data := Some d\<rparr>, w)))"

text \<open>The two chunk loops; \<open>rest\<close> is what the open file still holds.\<close>

definition chunk_len :: "nat \<Rightarrow> nat" where
  "chunk_len remaining = (if remaining > FT_CHUNK_SIZE then FT_CHUNK_SIZE else remaining)"

lemma chunk_len_bounds: "chunk_len n \<le> n" "0 < n \<Longrightarrow> 0 < chunk_len n" "chunk_len n < 2 ^ 31"
  by (auto simp: chunk_len_def FT_CHUNK_SIZE_def)

function send_chunks :: "int \<Rightarrow> nat \<Rightarrow> byte list \<Rightarrow> world \<Rightarrow> int \<times> world" where
  "send_chunks fd remaining rest w =
     (if remaining = 0 then (0, w)
      else (let to_read = chunk_len remaining; (chunk, rest') = fread to_read rest in
            if length chunk \<noteq> to_read then (-1, w)
            else (let (r, w) = ft_send_all fd chunk w in
                  if r \<noteq> 0 then (-1, w)
                  else send_chunks fd (remaining - to_read) rest' w)))"
  by auto
termination
  by (relation "measure (\<lambda>(fd, n, r, w). n)") (auto simp: chunk_len_def FT_CHUNK_SIZE_def)

function recv_chunks :: "int \<Rightarrow> string \<Rightarrow> nat \<Rightarrow> world \<Rightarrow> int \<times> world" where
  "recv_chunks fd path remaining w =
     (if remaining = 0 then (0, w)
      else (let to_read = chunk_len remaining; (r, chunk, w) = ft_recv_all fd to_read w in
            if r \<noteq> 0 then (-1, w)
            else (let (n, w) = fwrite path chunk w in
                  if n \<noteq> to_read then (-1, w)
                  else recv_chunks fd path (remaining - to_read) w)))"
  by auto
termination
  by (relation "measure (\<lambda>(fd, p, n, w). n)") (auto simp: chunk_len_def FT_CHUNK_SIZE_def)

declare send_chunks.simps [simp del] recv_chunks.simps [simp del]

definition ft_send_file_from_path ::
  "openssl \<Rightarrow> int \<Rightarrow> string \<Rightarrow> u64 \<Rightarrow> string \<Rightarrow> world \<Rightarrow> int \<times> world" where
  "ft_send_file_from_path ssl fd fid fsize path w =
     (case fsys w path of
        None \<Rightarrow> (-1, w)
      | Some content \<Rightarrow>
          (let (r, w) = ft_send_all fd (bytes_of_str FT_MAGIC) w in
           if r \<noteq> 0 then (-1, w) else
           let (r, w) = ft_send_all fd (arr64 FT_UUID_LEN fid) w in
           if r \<noteq> 0 then (-1, w) else
           let (r, w) = ft_send_all fd (be_put 8 fsize) w in
           if r \<noteq> 0 then (-1, w) else
           if \<not> malloc_ok ssl ''ft_send_file_from_path'' FT_CHUNK_SIZE then (-1, w) else
           send_chunks fd (unat fsize) content w))"

definition ft_recv_file_to_path ::
  "openssl \<Rightarrow> int \<Rightarrow> FtFileInfo \<Rightarrow> string \<Rightarrow> world \<Rightarrow> int \<times> FtFileInfo \<times> world" where
  "ft_recv_file_to_path ssl fd info path w =
     (case recv_header fd info w of
        (None, info, w) \<Rightarrow> (-1, info, w)
      | (Some fs, info, w) \<Rightarrow>
          (let info = info\<lparr>fi_file_size := fs, fi_data_len := 0, fi_data := None\<rparr> in
           case fopen_wb path w of
             None \<Rightarrow> (-1, info, w)
           | Some w \<Rightarrow>
               if \<not> malloc_ok ssl ''ft_recv_file_to_path'' FT_CHUNK_SIZE then (-1, info, w) else
               let (ret, w) = recv_chunks fd path (unat fs) w in
               (ret, info, if ret \<noteq> 0 then os_remove path w else w)))"

section \<open>The size field\<close>

lemma length_be_put [simp]: "length (be_put n fs) = n"
  by (induction n arbitrary: fs) simp_all

lemma be_put_get: "be_get (be_put n fs) = take_bit (8 * n) fs"
proof (induction n arbitrary: fs)
  case 0
  then show ?case by (simp add: be_get_def)
next
  case (Suc n)
  have m: "fs AND 0xFF = take_bit 8 fs" by (simp add: take_bit_eq_mask mask_eq_exp_minus_1)
  have "be_get (be_put (Suc n) fs) = push_bit 8 (take_bit (8 * n) (drop_bit 8 fs)) OR take_bit 8 fs"
    using Suc [of "drop_bit 8 fs"]
    by (simp add: be_get_def m) (simp add: bit_eq_iff bit_simps)
  also have "\<dots> = take_bit (8 * Suc n) fs"
    by (rule bit_eqI) (auto simp: bit_simps)
  finally show ?case .
qed

lemma be64_roundtrip [simp]: "be_get (be_put 8 fs) = fs"
  using be_put_get [of 8 fs] by (simp add: take_bit_word_eq_self)

section \<open>The frame on the wire\<close>

definition wire_frame :: "string \<Rightarrow> u64 \<Rightarrow> byte list \<Rightarrow> byte list" where
  "wire_frame fid fsize d = bytes_of_str FT_MAGIC @ arr64 FT_UUID_LEN fid @ be_put 8 fsize @ d"

lemma length_arr64 [simp]: "length (arr64 FT_UUID_LEN fid) = FT_UUID_LEN"
  by (simp add: arr64_def FT_UUID_LEN_def)

lemma magic_length: "length (bytes_of_str FT_MAGIC) = FT_MAGIC_LEN"
  by (simp add: FT_MAGIC_def FT_MAGIC_LEN_def)

lemma field_small: "length (bytes_of_str FT_MAGIC) < 2 ^ 31" "length (arr64 FT_UUID_LEN fid) < 2 ^ 31"
  "length (be_put 8 fs) < 2 ^ 31" "FT_MAGIC_LEN < 2 ^ 31" "FT_UUID_LEN < 2 ^ 31" "(8::nat) < 2 ^ 31"
  by (simp_all add: FT_MAGIC_def FT_MAGIC_LEN_def) (simp_all add: FT_UUID_LEN_def)

lemma arr64_uuid:
  assumes "length fid = FT_UUID_LEN"
  shows "arr64 FT_UUID_LEN fid = bytes_of_str fid"
  using assms by (simp add: arr64_def)

text \<open>The three header fields leave a writable connection writable.\<close>

lemma send_header:
  assumes "stream_ok fd w"
  obtains w1 w2 w3 where "ft_send_all fd (bytes_of_str FT_MAGIC) w = (0, w1)"
    and "ft_send_all fd (arr64 FT_UUID_LEN fid) w1 = (0, w2)"
    and "ft_send_all fd (be_put 8 fs) w2 = (0, w3)"
    and "stream_ok fd w3" and "stream_out fd w3 = stream_out fd w @ wire_frame fid fs []"
    and "stream_in fd w3 = stream_in fd w"
proof -
  obtain w1 where 1: "ft_send_all fd (bytes_of_str FT_MAGIC) w = (0, w1)" "stream_ok fd w1"
      "stream_out fd w1 = stream_out fd w @ bytes_of_str FT_MAGIC" "stream_in fd w1 = stream_in fd w"
    using ftc.send_accepted [OF assms field_small(1)] .
  obtain w2 where 2: "ft_send_all fd (arr64 FT_UUID_LEN fid) w1 = (0, w2)" "stream_ok fd w2"
      "stream_out fd w2 = stream_out fd w1 @ arr64 FT_UUID_LEN fid" "stream_in fd w2 = stream_in fd w1"
    using ftc.send_accepted [OF 1(2) field_small(2)] .
  obtain w3 where 3: "ft_send_all fd (be_put 8 fs) w2 = (0, w3)" "stream_ok fd w3"
      "stream_out fd w3 = stream_out fd w2 @ be_put 8 fs" "stream_in fd w3 = stream_in fd w2"
    using ftc.send_accepted [OF 2(2) field_small(3)] .
  show ?thesis
    by (rule that [OF 1(1) 2(1) 3(1) 3(2)]) (simp_all add: 1 2 3 wire_frame_def)
qed

lemma ft_send_file_wire:
  assumes "stream_ok fd w" and "fi_data info = Some d" and "length d = fi_data_len info"
    and "fi_data_len info < 2 ^ 31"
  obtains w' where "ft_send_file fd info w = (0, w')"
    and "stream_out fd w' = stream_out fd w @ wire_frame (fi_file_id info) (fi_file_size info) d"
proof -
  obtain w1 w2 w3 where h: "ft_send_all fd (bytes_of_str FT_MAGIC) w = (0, w1)"
      "ft_send_all fd (arr64 FT_UUID_LEN (fi_file_id info)) w1 = (0, w2)"
      "ft_send_all fd (be_put 8 (fi_file_size info)) w2 = (0, w3)" and ok: "stream_ok fd w3"
      and out: "stream_out fd w3 = stream_out fd w @ wire_frame (fi_file_id info) (fi_file_size info) []"
    using send_header [OF assms(1)] .
  have "length d < 2 ^ 31" using assms(3,4) by simp
  from ftc.send_accepted [OF ok this] obtain w4 where
    "ft_send_all fd d w3 = (0, w4)" "stream_out fd w4 = stream_out fd w3 @ d" by metis
  then show ?thesis
    using that [of w4] h out assms(2,3) by (simp add: ft_send_file_def wire_frame_def)
qed

section \<open>Reading the header\<close>

lemma recv_header_ok:
  assumes "stream_in fd w = bytes_of_str FT_MAGIC @ fid @ be_put 8 fs @ rest"
    and "length fid = FT_UUID_LEN" and "fs \<noteq> 0" and "fs \<le> g_ft_max_size w"
  obtains w' where "recv_header fd info w =
      (Some fs, info\<lparr>fi_file_id := strncpy_fld 63 (cstr (str_of_bytes fid))\<rparr>, w')"
    and "stream_in fd w' = rest" and "world_frame {fd} w w'"
proof -
  obtain w1 where 1: "ft_recv_all fd FT_MAGIC_LEN w = (0, bytes_of_str FT_MAGIC, w1)"
      "stream_in fd w1 = fid @ be_put 8 fs @ rest"
    using ftc.recv_front [OF assms(1) magic_length field_small(4)] by metis
  obtain w2 where 2: "ft_recv_all fd FT_UUID_LEN w1 = (0, fid, w2)" "stream_in fd w2 = be_put 8 fs @ rest"
    using ftc.recv_front [OF 1(2) assms(2) field_small(5)] by metis
  obtain w3 where 3: "ft_recv_all fd 8 w2 = (0, be_put 8 fs, w3)" "stream_in fd w3 = rest"
    using ftc.recv_front [OF 2(2) length_be_put field_small(6)] by metis
  have f: "world_frame {fd} w w3"
    using ft_recv_all_frame [of fd w FT_MAGIC_LEN] ft_recv_all_frame [of fd w1 FT_UUID_LEN]
      ft_recv_all_frame [of fd w2 8] world_frame_trans by (metis 1(1) 2(1) 3(1) snd_conv)
  then have cap: "g_ft_max_size w3 = g_ft_max_size w" by (simp add: world_frame_def)
  show ?thesis
    using that [of w3] 1(1) 2(1) 3 f cap assms(3,4) by (simp add: recv_header_def Let_def not_less)
qed

lemma recv_header_frame: "world_frame {fd} w (snd (snd (recv_header fd info w)))"
proof -
  obtain r1 m w1 where 1: "ft_recv_all fd FT_MAGIC_LEN w = (r1, m, w1)" by (cases "ft_recv_all fd FT_MAGIC_LEN w") auto
  obtain r2 f w2 where 2: "ft_recv_all fd FT_UUID_LEN w1 = (r2, f, w2)" by (cases "ft_recv_all fd FT_UUID_LEN w1") auto
  obtain r3 s w3 where 3: "ft_recv_all fd 8 w2 = (r3, s, w3)" by (cases "ft_recv_all fd 8 w2") auto
  have "world_frame {fd} w w1" "world_frame {fd} w w2" "world_frame {fd} w w3"
    using ft_recv_all_frame [of fd w FT_MAGIC_LEN] ft_recv_all_frame [of fd w1 FT_UUID_LEN]
      ft_recv_all_frame [of fd w2 8] world_frame_trans by (metis 1 2 3 snd_conv)+
  then show ?thesis by (simp add: recv_header_def 1 2 3 Let_def)
qed

lemma recv_header_SomeE:
  assumes "recv_header fd info w = (Some fs, info', w')"
  obtains fid sb where "stream_in fd w = bytes_of_str FT_MAGIC @ fid @ sb @ stream_in fd w'"
    and "length fid = FT_UUID_LEN" and "length sb = 8" and "be_get sb = fs"
    and "fs \<noteq> 0" and "fs \<le> g_ft_max_size w"
    and "info' = info\<lparr>fi_file_id := strncpy_fld 63 (cstr (str_of_bytes fid))\<rparr>"
    and "world_frame {fd} w w'"
proof -
  obtain r1 m w1 where 1: "ft_recv_all fd FT_MAGIC_LEN w = (r1, m, w1)" by (cases "ft_recv_all fd FT_MAGIC_LEN w") auto
  obtain r2 f w2 where 2: "ft_recv_all fd FT_UUID_LEN w1 = (r2, f, w2)" by (cases "ft_recv_all fd FT_UUID_LEN w1") auto
  obtain r3 sb w3 where 3: "ft_recv_all fd 8 w2 = (r3, sb, w3)" by (cases "ft_recv_all fd 8 w2") auto
  have fr: "world_frame {fd} w w'" using recv_header_frame [of fd w info] assms by simp
  have z: "r1 = 0" "m = bytes_of_str FT_MAGIC" "r2 = 0" "r3 = 0" "be_get sb = fs" "fs \<noteq> 0" "w3 = w'"
      "fs \<le> g_ft_max_size w'" "info' = info\<lparr>fi_file_id := strncpy_fld 63 (cstr (str_of_bytes f))\<rparr>"
    using assms by (auto simp: recv_header_def 1 2 3 Let_def not_less split: if_splits)
  have g1: "stream_in fd w = m @ stream_in fd w1"
    using ftc.recv_got [OF 1 [unfolded z] field_small(4)] z by simp
  have g2: "stream_in fd w1 = f @ stream_in fd w2" "length f = FT_UUID_LEN"
    using ftc.recv_got [OF 2 [unfolded z] field_small(5)] by simp_all
  have g3: "stream_in fd w2 = sb @ stream_in fd w3" "length sb = 8"
    using ftc.recv_got [OF 3 [unfolded z] field_small(6)] z by simp_all
  have "fs \<le> g_ft_max_size w" using z fr by (simp add: world_frame_def)
  then show ?thesis using that [of f sb] g1 g2 g3 z fr by simp
qed

section \<open>The chunk loops\<close>

lemma send_chunks_wire:
  "stream_ok fd w \<Longrightarrow> remaining \<le> length rest \<Longrightarrow>
     \<exists>w'. send_chunks fd remaining rest w = (0, w') \<and>
          stream_out fd w' = stream_out fd w @ take remaining rest"
proof (induction fd remaining rest w rule: send_chunks.induct)
  case (1 fd remaining rest w)
  define n where "n = chunk_len remaining"
  show ?case
  proof (cases "remaining = 0")
    case True
    then show ?thesis by (simp add: send_chunks.simps)
  next
    case False
    have n: "n \<le> remaining" "length (take n rest) = n" "length (take n rest) < 2 ^ 31"
      using chunk_len_bounds [of remaining] 1(3) by (auto simp: n_def min_def)
    obtain w1 where w1: "ft_send_all fd (take n rest) w = (0, w1)" "stream_ok fd w1"
        "stream_out fd w1 = stream_out fd w @ take n rest"
      using ftc.send_accepted [OF 1(2) n(3)] by metis
    have fr: "(take n rest, drop n rest) = fread n rest" by (simp add: fread_def)
    have "remaining - n \<le> length (drop n rest)" using 1(3) by simp
    then obtain w' where w': "send_chunks fd (remaining - n) (drop n rest) w1 = (0, w')"
        "stream_out fd w' = stream_out fd w1 @ take (remaining - n) (drop n rest)"
      using 1(1) [OF False n_def fr refl _ w1(1) [symmetric] refl _ w1(2)] n(2) by auto
    have "take n rest @ take (remaining - n) (drop n rest) = take remaining rest"
      using n(1) by (metis le_add_diff_inverse take_add)
    then show ?thesis
      using w' w1 n(2) False by (subst send_chunks.simps) (simp add: n_def [symmetric] fread_def)
  qed
qed

lemma send_chunks_short:
  "length rest < remaining \<Longrightarrow> fst (send_chunks fd remaining rest w) = -1"
proof (induction fd remaining rest w rule: send_chunks.induct)
  case (1 fd remaining rest w)
  define n where "n = chunk_len remaining"
  have nz: "remaining \<noteq> 0" using 1(2) by auto
  obtain r w1 where w1: "ft_send_all fd (take n rest) w = (r, w1)" by (cases "ft_send_all fd (take n rest) w")
  show ?case
  proof (cases "length (take n rest) = n \<and> r = 0")
    case True
    have fr: "(take n rest, drop n rest) = fread n rest" by (simp add: fread_def)
    have "length (drop n rest) < remaining - n" using True 1(2) by (simp add: min_def split: if_splits)
    then show ?thesis
      using 1(1) [OF nz n_def fr refl _ w1 [symmetric] refl] w1 True nz
      by (subst send_chunks.simps) (auto simp: n_def [symmetric] fread_def Let_def)
  next
    case False
    then show ?thesis
      using w1 nz by (subst send_chunks.simps) (auto simp: n_def [symmetric] fread_def Let_def)
  qed
qed

text \<open>Everything but the stream of \<open>fd\<close> and the file \<open>path\<close> is left as it was.\<close>

definition file_frame :: "int \<Rightarrow> string \<Rightarrow> world \<Rightarrow> world \<Rightarrow> bool" where
  "file_frame fd path w w' \<longleftrightarrow> world_frame {fd} w (w'\<lparr>fsys := fsys w\<rparr>) \<and>
     (\<forall>p. p \<noteq> path \<longrightarrow> fsys w' p = fsys w p)"

lemma fwrite_room:
  assumes "fsys w path = Some old" and "quota w path = Some q" and "length old + length bs \<le> q"
  shows "fwrite path bs w = (length bs, w\<lparr>fsys := (fsys w)(path := Some (old @ bs))\<rparr>)"
  using assms by (simp add: fwrite_def Let_def)

lemma not_refl: "\<not> x \<noteq> x"
  by simp

lemma recv_chunks_stores:
  "remaining \<le> length (stream_in fd w) \<Longrightarrow> fsys w path = Some old \<Longrightarrow> quota w path = Some q \<Longrightarrow>
     length old + remaining \<le> q \<Longrightarrow>
     \<exists>w'. recv_chunks fd path remaining w = (0, w') \<and>
          fsys w' = (fsys w)(path := Some (old @ take remaining (stream_in fd w))) \<and>
          stream_in fd w' = drop remaining (stream_in fd w)"
proof (induction fd path remaining w arbitrary: old rule: recv_chunks.induct)
  case (1 fd path remaining w)
  define n where "n = chunk_len remaining"
  show ?case
  proof (cases "remaining = 0")
    case True
    then show ?thesis using 1(3) by (simp add: recv_chunks.simps fun_upd_idem)
  next
    case False
    have n: "n \<le> remaining" "n < 2 ^ 31" "n \<le> length (stream_in fd w)"
      using chunk_len_bounds [of remaining] 1(2) by (auto simp: n_def)
    obtain w1 where w1: "ft_recv_all fd n w = (0, take n (stream_in fd w), w1)"
        "stream_in fd w1 = drop n (stream_in fd w)"
      using ftc.recv_enough [OF n(2,3)] by (cases "ft_recv_all fd n w") auto
    have f: "fsys w1 = fsys w" "quota w1 = quota w"
      using ft_recv_all_frame [of fd w n] w1(1) by (auto simp: world_frame_def)
    define w2 where "w2 = w1\<lparr>fsys := (fsys w1)(path := Some (old @ take n (stream_in fd w)))\<rparr>"
    have wr: "fwrite path (take n (stream_in fd w)) w1 = (n, w2)"
      using fwrite_room [of w1 path old q "take n (stream_in fd w)"] 1(3,4,5) f n(1,3) by (simp add: w2_def)
    have in2: "stream_in fd w2 = drop n (stream_in fd w)" using w1(2) by (simp add: w2_def stream_in_def)
    have pre: "remaining - n \<le> length (stream_in fd w2)"
        "fsys w2 path = Some (old @ take n (stream_in fd w))" "quota w2 path = Some q"
        "length (old @ take n (stream_in fd w)) + (remaining - n) \<le> q"
      using 1(2,4,5) in2 f n(1,3) by (auto simp: w2_def)
    note ih = 1(1) [OF False n_def w1(1) [symmetric] refl refl not_refl wr [symmetric] refl not_refl pre]
    obtain w' where w': "recv_chunks fd path (remaining - n) w2 = (0, w')"
        "fsys w' = (fsys w2)(path := Some ((old @ take n (stream_in fd w)) @ take (remaining - n) (stream_in fd w2)))"
        "stream_in fd w' = drop (remaining - n) (stream_in fd w2)"
      using ih by (elim exE conjE)
    have j: "n + (remaining - n) = remaining" using n(1) by simp
    have t: "take n q @ take (remaining - n) (drop n q) = take remaining q" for q :: "byte list"
      using j by (metis take_add)
    show ?thesis
      using w' w1 wr False f in2 j
      by (subst recv_chunks.simps) (simp add: n_def [symmetric] w2_def t add.commute [of _ n])
  qed
qed

lemma recv_chunks_frame:
  "(\<forall>p. p \<noteq> path \<longrightarrow> fsys (snd (recv_chunks fd path remaining w)) p = fsys w p) \<and>
   quota (snd (recv_chunks fd path remaining w)) = quota w"
proof (induction fd path remaining w rule: recv_chunks.induct)
  case (1 fd path remaining w)
  obtain r c w1 where w1: "ft_recv_all fd (chunk_len remaining) w = (r, c, w1)"
    by (cases "ft_recv_all fd (chunk_len remaining) w") auto
  obtain n w2 where w2: "fwrite path c w1 = (n, w2)" by (cases "fwrite path c w1")
  have f1: "fsys w1 = fsys w" "quota w1 = quota w"
    using ft_recv_all_frame [of fd w "chunk_len remaining"] w1 by (auto simp: world_frame_def)
  have f2: "p \<noteq> path \<Longrightarrow> fsys w2 p = fsys w p" "quota w2 = quota w" for p
    using w2 f1 by (auto simp: fwrite_def Let_def)
  show ?case
  proof (cases "remaining = 0 \<or> r \<noteq> 0 \<or> n \<noteq> chunk_len remaining")
    case True
    then show ?thesis using f1 f2 w1 w2 by (subst (1 2) recv_chunks.simps) (auto simp: Let_def)
  next
    case False
    note ih = 1 [OF _ refl w1 [symmetric] refl refl _ w2 [symmetric] refl]
    show ?thesis using ih False f2 w1 w2 by (subst (1 2) recv_chunks.simps) simp
  qed
qed

section \<open>Properties\<close>

lemma ft_send_file_from_path_wire:
  assumes "stream_ok fd w" and "fsys w path = Some content" and "unat fsize \<le> length content"
    and "malloc_ok ssl ''ft_send_file_from_path'' FT_CHUNK_SIZE"
  obtains w' where "ft_send_file_from_path ssl fd fid fsize path w = (0, w')"
    and "stream_out fd w' = stream_out fd w @ wire_frame fid fsize (take (unat fsize) content)"
proof -
  obtain w1 w2 w3 where h: "ft_send_all fd (bytes_of_str FT_MAGIC) w = (0, w1)"
      "ft_send_all fd (arr64 FT_UUID_LEN fid) w1 = (0, w2)"
      "ft_send_all fd (be_put 8 fsize) w2 = (0, w3)" and ok: "stream_ok fd w3"
      and out: "stream_out fd w3 = stream_out fd w @ wire_frame fid fsize []"
    using send_header [OF assms(1)] .
  obtain w' where "send_chunks fd (unat fsize) content w3 = (0, w')"
      "stream_out fd w' = stream_out fd w3 @ take (unat fsize) content"
    using send_chunks_wire [OF ok assms(3)] by (elim exE conjE)
  then show ?thesis
    using that [of w'] h out assms(2,4) by (simp add: ft_send_file_from_path_def wire_frame_def)
qed

lemma uuid_field:
  assumes "length fid = FT_UUID_LEN" and "nul \<notin> set fid"
  shows "strncpy_fld 63 (cstr (str_of_bytes (arr64 FT_UUID_LEN fid))) = fid"
proof -
  have "\<forall>c \<in> set fid. c \<noteq> nul" using assms(2) by auto
  then have "takeWhile (\<lambda>c. c \<noteq> nul) fid = fid" by (simp add: takeWhile_eq_all_conv)
  then show ?thesis
    using assms(1) by (simp only: arr64_uuid cstr_def strncpy_fld_def str_of_bytes_of_str) (simp add: FT_UUID_LEN_def)
qed

lemma ft_recv_file_wire:
  assumes "stream_in fd v = wire_frame fid fs d @ rest"
    and "length fid = FT_UUID_LEN" and "nul \<notin> set fid" and "d \<noteq> []" and "unat fs = length d" and "length d < 2 ^ 31"
    and "fs \<le> g_ft_max_size v" and "malloc_ok ssl ''ft_recv_file'' (length d)"
  obtains v' where "ft_recv_file ssl fd blank v =
      (0, blank\<lparr>fi_file_id := fid, fi_file_size := fs, fi_data := Some d, fi_data_len := length d\<rparr>, v')"
    and "stream_in fd v' = rest" and "world_frame {fd} v v'"
proof -
  have i: "stream_in fd v = bytes_of_str FT_MAGIC @ arr64 FT_UUID_LEN fid @ be_put 8 fs @ (d @ rest)"
    using assms(1) by (simp add: wire_frame_def)
  have nz: "fs \<noteq> 0" using assms(4,5) by auto
  obtain v1 where v1: "recv_header fd blank v = (Some fs, blank\<lparr>fi_file_id := fid\<rparr>, v1)"
      "stream_in fd v1 = d @ rest" "world_frame {fd} v v1"
    using recv_header_ok [OF i length_arr64 nz assms(7)] uuid_field [OF assms(2,3)] by metis
  obtain v2 where v2: "ft_recv_all fd (length d) v1 = (0, d, v2)" "stream_in fd v2 = rest"
    using ftc.recv_front [OF v1(2) refl assms(6)] by metis
  have "world_frame {fd} v v2"
    using world_frame_trans [OF v1(3)] ft_recv_all_frame [of fd v1 "length d"] v2(1) by simp
  moreover have "ft_recv_file ssl fd blank v =
      (0, blank\<lparr>fi_file_id := fid, fi_file_size := fs, fi_data := Some d, fi_data_len := length d\<rparr>, v2)"
    using v1(1) v2(1) assms(5,8) by (simp add: ft_recv_file_def)
  ultimately show ?thesis using v2(2) that by blast
qed

text \<open>
  C17. A file sent by \<open>ft_send_file\<close> over a connection that takes what it is given, however
  its bytes are split into segments on the way, is received by \<open>ft_recv_file\<close> with the
  same identifier, size and data, and nothing behind it is consumed.
\<close>

theorem file_roundtrip:
  assumes "stream_ok fd w" and "stream_out fd w = []"
    and "length (fi_file_id info) = FT_UUID_LEN" and "nul \<notin> set (fi_file_id info)"
    and "fi_data info = Some d" and "fi_data_len info = length d" and "d \<noteq> []"
    and "unat (fi_file_size info) = length d" and "length d < 2 ^ 31"
    and "fi_file_size info \<le> g_ft_max_size v" and "malloc_ok ssl ''ft_recv_file'' (length d)"
    and "stream_in fd' v = stream_out fd (snd (ft_send_file fd info w)) @ rest"
  shows "fst (ft_send_file fd info w) = 0 \<and>
         (\<exists>v'. ft_recv_file ssl fd' blank v =
                 (0, blank\<lparr>fi_file_id := fi_file_id info, fi_file_size := fi_file_size info,
                           fi_data := Some d, fi_data_len := length d\<rparr>, v') \<and>
               stream_in fd' v' = rest)"
proof -
  obtain w' where w': "ft_send_file fd info w = (0, w')"
      "stream_out fd w' = wire_frame (fi_file_id info) (fi_file_size info) d"
    using ft_send_file_wire [OF assms(1,5) assms(6) [symmetric]] assms(2,6,9) by auto
  have "stream_in fd' v = wire_frame (fi_file_id info) (fi_file_size info) d @ rest" using assms(12) w' by simp
  from ft_recv_file_wire [OF this assms(3,4,7-11), of blank] show ?thesis using w' by auto
qed

text \<open>
  C22. Whatever bytes the peer sends, a transfer that \<open>ft_recv_file\<close> accepts began with the
  magic and an identifier, its size is positive and within the cap, and exactly that many
  data bytes were taken from the stream.
\<close>

theorem ft_recv_file_sound:
  assumes "ft_recv_file ssl fd info w = (0, info', w')" and "unat (g_ft_max_size w) < 2 ^ 31"
  shows "\<exists>fid sb d. stream_in fd w = bytes_of_str FT_MAGIC @ fid @ sb @ d @ stream_in fd w' \<and>
           length fid = FT_UUID_LEN \<and> be_get sb = fi_file_size info' \<and>
           fi_data info' = Some d \<and> fi_data_len info' = length d \<and>
           length d = unat (fi_file_size info') \<and> d \<noteq> [] \<and> fi_file_size info' \<le> g_ft_max_size w"
proof -
  obtain so i1 w1 where h: "recv_header fd info w = (so, i1, w1)" by (cases "recv_header fd info w") auto
  then obtain fs where so: "so = Some fs" using assms(1) by (cases so) (auto simp: ft_recv_file_def)
  obtain r d w2 where d: "ft_recv_all fd (unat fs) w1 = (r, d, w2)" by (cases "ft_recv_all fd (unat fs) w1") auto
  have z: "r = 0" "w2 = w'" "info' = i1\<lparr>fi_file_size := fs, fi_data_len := unat fs, fi_data := Some d\<rparr>"
    using assms(1) h so d by (auto simp: ft_recv_file_def Let_def split: if_splits)
  obtain fid sb where s: "stream_in fd w = bytes_of_str FT_MAGIC @ fid @ sb @ stream_in fd w1"
      "length fid = FT_UUID_LEN" "be_get sb = fs" "fs \<noteq> 0" "fs \<le> g_ft_max_size w"
    using recv_header_SomeE [OF h [unfolded so]] by metis
  have small: "unat fs < 2 ^ 31" using s(5) assms(2) by (simp add: word_le_nat_alt)
  have g: "stream_in fd w1 = d @ stream_in fd w'" "length d = unat fs"
    using ftc.recv_got [OF d [unfolded z] small] z(2) by simp_all
  have "d \<noteq> []" using g(2) s(4) by (auto simp: unat_eq_0)
  then show ?thesis using s g z(3) by auto
qed

definition sample_info :: FtFileInfo where
  "sample_info = \<lparr>fi_file_id = ''01234567-89ab-cdef-0123-456789abcdef'', fi_file_name = [],
     fi_mime_type = [], fi_file_size = 2, fi_checksum = [], fi_data = Some [7, 9], fi_data_len = 2\<rparr>"

definition sample_inbox :: world where
  "sample_inbox = base_world (new_sock\<lparr>rx := [bytes_of_str ''SY'',
     bytes_of_str ''NC01234567-89ab-cdef-0123-456789abcdef'' @ [0, 0, 0], [0, 0, 0, 0, 2, 7], [9, 5]]\<rparr>)"

theorem ft_recv_file_sound_witness:
  "\<exists>info' w'. ft_recv_file ref_ssl 3 sample_info sample_inbox = (0, info', w') \<and>
     (\<exists>fid sb d. stream_in 3 sample_inbox = bytes_of_str FT_MAGIC @ fid @ sb @ d @ stream_in 3 w' \<and>
        length fid = FT_UUID_LEN \<and> fi_data info' = Some d \<and> fi_file_size info' \<le> 100)"
proof -
  have "fst (ft_recv_file ref_ssl 3 sample_info sample_inbox) = 0" by code_simp
  then obtain info' w' where e: "ft_recv_file ref_ssl 3 sample_info sample_inbox = (0, info', w')"
    by (cases "ft_recv_file ref_ssl 3 sample_info sample_inbox") auto
  have c: "unat (g_ft_max_size sample_inbox) < 2 ^ 31" "g_ft_max_size sample_inbox = 100"
    by (simp_all add: sample_inbox_def base_world_def)
  show ?thesis using ft_recv_file_sound [OF e c(1)] e c(2) by auto
qed

theorem file_roundtrip_witness:
  "fst (ft_send_file 4 sample_info (base_world (new_sock\<lparr>sndq := [1, 2, 5]\<rparr>))) = 0 \<and>
   (\<exists>v'. ft_recv_file ref_ssl 3 sample_info sample_inbox =
           (0, sample_info\<lparr>fi_file_id := fi_file_id sample_info, fi_file_size := fi_file_size sample_info,
                           fi_data := Some [7, 9], fi_data_len := length [7, 9 :: byte]\<rparr>, v') \<and>
         stream_in 3 v' = [5])"
proof (rule file_roundtrip)
  show "stream_ok 4 (base_world (new_sock\<lparr>sndq := [1, 2, 5]\<rparr>))" by code_simp
  show "stream_in 3 sample_inbox =
      stream_out 4 (snd (ft_send_file 4 sample_info (base_world (new_sock\<lparr>sndq := [1, 2, 5]\<rparr>)))) @ [5]"
    by code_simp
  show "nul \<notin> set (fi_file_id sample_info)" by code_simp
qed (simp_all add: sample_info_def sample_inbox_def base_world_def stream_out_def new_sock_def ref_ssl_def FT_UUID_LEN_def)

text \<open>
  C18. A file streamed by \<open>ft_send_file_from_path\<close> and received by \<open>ft_recv_file_to_path\<close>
  arrives byte for byte at the output path, of any size within the cap and the receiver's
  disk, and no other file is touched.
\<close>

theorem streaming_roundtrip:
  assumes "stream_ok fd w" and "stream_out fd w = []" and "fsys w src = Some d"
    and "unat fsize = length d" and "d \<noteq> []" and "length fid = FT_UUID_LEN" and "nul \<notin> set fid"
    and "mem_ok ssl" and "fsize \<le> g_ft_max_size v" and "quota v dst = Some q" and "length d \<le> q"
    and "stream_in fd' v = stream_out fd (snd (ft_send_file_from_path ssl fd fid fsize src w)) @ rest"
  shows "fst (ft_send_file_from_path ssl fd fid fsize src w) = 0 \<and>
         (\<exists>v'. ft_recv_file_to_path ssl fd' info dst v =
                 (0, info\<lparr>fi_file_id := fid, fi_file_size := fsize, fi_data_len := 0, fi_data := None\<rparr>, v') \<and>
               fsys v' = (fsys v)(dst := Some d) \<and> stream_in fd' v' = rest)"
proof -
  obtain w' where w': "ft_send_file_from_path ssl fd fid fsize src w = (0, w')"
      "stream_out fd w' = wire_frame fid fsize d"
    using ft_send_file_from_path_wire [OF assms(1,3), of fsize ssl fid] assms(2,4,8)
    by (auto simp: mem_ok_def)
  have i: "stream_in fd' v = bytes_of_str FT_MAGIC @ arr64 FT_UUID_LEN fid @ be_put 8 fsize @ (d @ rest)"
    using assms(12) w' by (simp add: wire_frame_def)
  have nz: "fsize \<noteq> 0" using assms(4,5) by auto
  obtain v1 where v1: "recv_header fd' info v = (Some fsize, info\<lparr>fi_file_id := fid\<rparr>, v1)"
      "stream_in fd' v1 = d @ rest" "world_frame {fd'} v v1"
    using recv_header_ok [OF i length_arr64 nz assms(9)] uuid_field [OF assms(6,7)] by metis
  define v2 where "v2 = v1\<lparr>fsys := (fsys v1)(dst := Some [])\<rparr>"
  have f: "fsys v1 = fsys v" "quota v1 = quota v" using v1(3) by (simp_all add: world_frame_def)
  then have o: "fopen_wb dst v1 = Some v2" using assms(10) by (simp add: fopen_wb_def v2_def)
  have pre: "unat fsize \<le> length (stream_in fd' v2)" "fsys v2 dst = Some []" "quota v2 dst = Some q"
      "length ([] :: byte list) + unat fsize \<le> q" and in2: "stream_in fd' v2 = d @ rest"
    using v1(2) f assms(4,10,11) by (simp_all add: v2_def stream_in_def)
  obtain v' where "recv_chunks fd' dst (unat fsize) v2 = (0, v')"
      "fsys v' = (fsys v2)(dst := Some ([] @ take (unat fsize) (stream_in fd' v2)))"
      "stream_in fd' v' = drop (unat fsize) (stream_in fd' v2)"
    using recv_chunks_stores [OF pre] by (elim exE conjE)
  then show ?thesis
    using w' v1 o f in2 assms(4,8) by (simp add: ft_recv_file_to_path_def mem_ok_def v2_def)
qed

theorem streaming_roundtrip_witness:
  "fst (ft_send_file_from_path ref_ssl 4 (fi_file_id sample_info) 2 ''a'' ((base_world new_sock)\<lparr>fsys := [''a'' \<mapsto> [7, 9]]\<rparr>)) = 0 \<and>
   (\<exists>v'. ft_recv_file_to_path ref_ssl 3 sample_info ''b'' sample_inbox =
           (0, sample_info\<lparr>fi_file_id := fi_file_id sample_info, fi_file_size := 2, fi_data_len := 0, fi_data := None\<rparr>, v') \<and>
         fsys v' = (fsys sample_inbox)(''b'' := Some [7, 9]) \<and> stream_in 3 v' = [5])"
proof (rule streaming_roundtrip)
  show "stream_in 3 sample_inbox =
      stream_out 4 (snd (ft_send_file_from_path ref_ssl 4 (fi_file_id sample_info) 2 ''a''
        ((base_world new_sock)\<lparr>fsys := [''a'' \<mapsto> [7, 9]]\<rparr>))) @ [5]"
    by code_simp
  show "stream_ok 4 ((base_world new_sock)\<lparr>fsys := [''a'' \<mapsto> [7, 9]]\<rparr>)" by code_simp
  show "nul \<notin> set (fi_file_id sample_info)" by code_simp
  show "quota sample_inbox ''b'' = Some 1000" by (simp add: sample_inbox_def base_world_def)
  show "mem_ok ref_ssl" by (rule ref_mem)
qed (simp_all add: sample_info_def sample_inbox_def base_world_def stream_out_def new_sock_def FT_UUID_LEN_def)



text \<open>
  The size a peer announces never makes \<open>ft_recv_file\<close> ask for more memory than the cap:
  the result does not depend on what an allocation above \<open>g_ft_max_size\<close> would do.
\<close>

theorem receive_allocation_capped:
  assumes "\<forall>n. n \<le> unat (g_ft_max_size w) \<longrightarrow>
      malloc_ok ssl ''ft_recv_file'' n = malloc_ok ssl' ''ft_recv_file'' n"
  shows "ft_recv_file ssl fd info w = ft_recv_file ssl' fd info w"
proof -
  obtain so i1 w1 where h: "recv_header fd info w = (so, i1, w1)" by (cases "recv_header fd info w") auto
  show ?thesis
  proof (cases so)
    case (Some fs)
    have "fs \<le> g_ft_max_size w" using recv_header_SomeE [OF h [unfolded Some]] by metis
    then have "unat fs \<le> unat (g_ft_max_size w)" by (simp add: word_le_nat_alt)
    then show ?thesis using h Some assms by (simp add: ft_recv_file_def)
  qed (simp add: ft_recv_file_def h)
qed

theorem receive_allocation_capped_witness:
  "ft_recv_file (ref_ssl\<lparr>malloc_ok := (\<lambda>site n. n \<le> 100)\<rparr>) 3 sample_info sample_inbox =
   ft_recv_file ref_ssl 3 sample_info sample_inbox"
  by (rule receive_allocation_capped) (simp add: sample_inbox_def base_world_def ref_ssl_def)

end
