(* ===== verification/FtHash.thy ===== *)
theory FtHash
  imports FtProto Codec
begin

text \<open>
  Checksums and base64 of \<open>src/common/ft/ft_b64_sha.c\<close>. \<open>SHA256\<close> is the parameter \<open>sha256\<close>; an
  \<open>EVP_MD_CTX\<close> is the data it has been given, its final value the digest of all of it.
\<close>

section \<open>Model\<close>

definition ft_sha256 :: "openssl \<Rightarrow> byte list \<Rightarrow> string" where
  "ft_sha256 ssl d = concat (map hex02 (take 32 (sha256 ssl d)))"

function sha_loop :: "byte list \<Rightarrow> byte list \<Rightarrow> byte list" where
  "sha_loop rest ctx =
     (let (buf, rest') = fread FT_CHUNK_SIZE rest
      in if length buf > 0 then sha_loop rest' (ctx @ buf) else ctx)"
  by auto
termination
  by (relation "measure (\<lambda>(r, c). length r)") (auto simp: fread_def FT_CHUNK_SIZE_def)

declare sha_loop.simps [simp del]

definition ft_sha256_file :: "openssl \<Rightarrow> string \<Rightarrow> world \<Rightarrow> string option" where
  "ft_sha256_file ssl path w =
     (case fsys w path of
        None \<Rightarrow> None
      | Some content \<Rightarrow> Some (concat (map hex02 (take 32 (sha256 ssl (sha_loop content []))))))"

definition ft_base64_encode :: "openssl \<Rightarrow> byte list \<Rightarrow> string option" where
  "ft_base64_encode ssl d =
     (let b64_len = 4 * ((length d + 2) div 3) + 1
      in if \<not> malloc_ok ssl ''ft_base64_encode'' b64_len then None
         else Some (encode_block ssl d (int_of_size (length d))))"

text \<open>The decoded bytes are the first \<open>n\<close> of the block, \<open>n\<close> corrected for the padding.\<close>

definition ft_base64_decode :: "openssl \<Rightarrow> string \<Rightarrow> byte list option" where
  "ft_base64_decode ssl b64 =
     (let b64_len = length b64; max_len = 3 * b64_len div 4 + 1
      in if \<not> malloc_ok ssl ''ft_base64_decode'' max_len then None
         else (let (n, d) = decode_block ssl b64 (int_of_size b64_len) in
               if n < 0 then None
               else (let n = (if b64_len > 1 \<and> b64 ! (b64_len - 1) = CHR ''='' then n - 1 else n);
                         n = (if b64_len > 2 \<and> b64 ! (b64_len - 2) = CHR ''='' then n - 1 else n)
                     in Some (take (nat n) d))))"

section \<open>Properties\<close>

lemma sha_loop_all: "sha_loop rest ctx = ctx @ rest"
proof (induction rest ctx rule: sha_loop.induct)
  case (1 rest ctx)
  show ?case
  proof (cases "rest = []")
    case True
    then show ?thesis by (simp add: sha_loop.simps fread_def)
  next
    case False
    have ne: "0 < length (take FT_CHUNK_SIZE rest)" using False by (simp add: FT_CHUNK_SIZE_def)
    have fr: "(take FT_CHUNK_SIZE rest, drop FT_CHUNK_SIZE rest) = fread FT_CHUNK_SIZE rest"
      by (simp add: fread_def)
    show ?thesis
      using 1 [OF fr refl ne] ne by (subst sha_loop.simps) (simp add: fread_def)
  qed
qed

text \<open>
  The checksum of a file, computed in chunks, is the checksum \<open>ft_sha256\<close> computes of its
  contents in memory, and it has the 64 hexadecimal digits the \<open>checksum[65]\<close> arrays hold.
\<close>

theorem sha256_file_agrees:
  assumes "fsys w path = Some content" and "digest_documented ssl"
  shows "ft_sha256_file ssl path w = Some (ft_sha256 ssl content) \<and>
         length (ft_sha256 ssl content) = 64 \<and> (\<forall>c \<in> set (ft_sha256 ssl content). isxdigit c) \<and>
         sc_hex_to_bytes (ft_sha256 ssl content) 32 = Some (sha256 ssl content)"
proof -
  have l: "length (sha256 ssl content) = 32" using assms(2) by (simp add: digest_documented_def)
  have c: "ft_sha256 ssl content = concat (map hex02 (sha256 ssl content))" by (simp add: ft_sha256_def l)
  have x: "\<forall>c \<in> set (ft_sha256 ssl content). isxdigit c" unfolding c by (rule xdigits_concat_hex02)
  have n: "length (ft_sha256 ssl content) = 64" by (simp add: c length_concat_hex02 l)
  have "sc_hex_to_bytes (ft_sha256 ssl content) 32 = Some (hex_pairs (ft_sha256 ssl content))"
    by (rule sc_hex_to_bytes_xdigits [OF x]) (simp add: n)
  then show ?thesis
    using assms(1) x n by (simp add: ft_sha256_file_def sha_loop_all ft_sha256_def) (simp add: l hex_pairs_hex02)
qed

theorem sha256_file_agrees_witness:
  "ft_sha256_file ref_ssl ''a'' ((base_world new_sock)\<lparr>fsys := [''a'' \<mapsto> [1, 2, 3]]\<rparr>) =
     Some (ft_sha256 ref_ssl [1, 2, 3])"
  using sha256_file_agrees [of "(base_world new_sock)\<lparr>fsys := [''a'' \<mapsto> [1, 2, 3]]\<rparr>" "''a''" "[1, 2, 3]" ref_ssl]
    ref_digest by simp

text \<open>The two conditional decrements subtract the number of padding characters.\<close>

lemma padding_trimmed:
  assumes "b64_shape n t"
  shows "(length t > 1 \<and> t ! (length t - 1) = CHR ''='') = (1 \<le> (3 - n mod 3) mod 3) \<and>
         (length t > 2 \<and> t ! (length t - 2) = CHR ''='') = (2 \<le> (3 - n mod 3) mod 3)"
proof -
  obtain body k where bk: "t = body @ replicate k CHR ''=''" "k \<le> 2"
      "set body \<subseteq> set b64_alphabet" "length t = 4 * ((n + 2) div 3)" "(n + k) mod 3 = 0"
    using assms by (elim b64_shapeE)
  have k: "(3 - n mod 3) mod 3 = k" using bk(2,5) by (intro pad_unique) simp_all
  have nb: "i < length body \<Longrightarrow> body ! i \<noteq> CHR ''=''" for i
    using bk(3) b64_pad_not_mem by (metis nth_mem subsetD)
  have big: "t = [] \<or> 4 \<le> length t" using bk(4) by (cases "(n + 2) div 3") auto
  have len: "length t = length body + k" by (simp add: bk(1))
  consider "k = 0" | "k = 1" | "k = 2" using bk(2) by linarith
  then show ?thesis
  proof cases
    case 1
    then show ?thesis using nb big by (auto simp: k bk(1))
  next
    case 2
    then have "t = body @ [CHR ''='']" "length body \<ge> 3" using bk(1) big len by auto
    then show ?thesis using nb [of "length body - 1"] by (auto simp: k 2 nth_append)
  next
    case 3
    then have "t = body @ [CHR ''='', CHR ''='']" "length body \<ge> 2"
      using bk(1) big len by (auto simp: numeral_2_eq_2)
    then show ?thesis by (auto simp: k 3 nth_append)
  qed
qed

lemma ft_base64_inverse:
  assumes "block_documented ssl" and "mem_ok ssl" and "length d < 2 ^ 29"
  shows "\<exists>t. ft_base64_encode ssl d = Some t \<and> ft_base64_decode ssl t = Some d \<and> nul \<notin> set t"
proof -
  define t where "t = encode_block ssl d (int (length d))"
  define k where "k = (3 - length d mod 3) mod 3"
  have sd: "length d < 2 ^ 30" using assms(3) by simp
  have doc: "b64_shape (length d) t" "decode_block ssl t (int (length t)) = (int (length d + k), d @ replicate k 0)"
    using assms(1) sd unfolding block_documented_def by (simp_all add: t_def k_def Let_def)
  have k2: "k \<le> 2" unfolding k_def using mod_less_divisor [of 3 "3 - length d mod 3"] by linarith
  have "length t = 4 * ((length d + 2) div 3)" using doc(1) by (elim b64_shapeE)
  moreover have "(length d + 2) div 3 \<le> length d + 2" by (rule div_le_dividend)
  ultimately have st: "length t < 2 ^ 31" using assms(3) by simp
  have sz: "int_of_size (length d) = int (length d)" "int_of_size (length t) = int (length t)"
    using sd st by (intro int_of_size_id; simp)+
  have "ft_base64_encode ssl d = Some t"
    using assms(2) by (simp add: ft_base64_encode_def mem_ok_def sz t_def)
  moreover have "ft_base64_decode ssl t = Some d"
    using assms(2) padding_trimmed [OF doc(1), folded k_def] k2
    by (auto simp: ft_base64_decode_def mem_ok_def sz doc(2) Let_def)
  moreover have "nul \<notin> set t" using b64_shape_nul [OF doc(1)] .
  ultimately show ?thesis by blast
qed

text \<open>
  The base64 helpers of the relay are inverse to each other, on every byte sequence: the
  zero bytes \<open>EVP_DecodeBlock\<close> adds for the padding are cut off again.
\<close>

theorem ft_base64_roundtrip:
  assumes "block_documented ssl" and "mem_ok ssl" and "length d < 2 ^ 29"
  shows "\<exists>t. ft_base64_encode ssl d = Some t \<and> ft_base64_decode ssl t = Some d"
  using ft_base64_inverse [OF assms] by blast

theorem ft_base64_roundtrip_witness:
  "\<exists>t. ft_base64_encode ref_ssl [1, 2, 3, 4] = Some t \<and> ft_base64_decode ref_ssl t = Some [1, 2, 3, 4]"
  by (rule ft_base64_roundtrip [OF ref_block ref_mem]) simp

end
