(* ===== verification/Msg.thy ===== *)
theory Msg
  imports Json FtHash
begin

text \<open>
  The messages a client sends: \<open>src/common/msg.c\<close> and the builders of \<open>src/linux/main.c\<close>. A
  builder makes an object, adds its members in order and prints it; \<open>None\<close> is a NULL text. The
  lemmas give the members a receiver finds in each message.
\<close>

section \<open>The common messages\<close>

definition sc_msg_build :: "fp \<Rightarrow> string option \<Rightarrow> json option \<Rightarrow> string option" where
  "sc_msg_build m type body =
     (case type of
        None \<Rightarrow> None
      | Some t \<Rightarrow>
          (let root = (case body of None \<Rightarrow> cJSON_CreateObject | Some b \<Rightarrow> b);
               root = cJSON_AddStringToObject root ''type'' (Some t);
               root = cJSON_AddNumberToObject root ''v'' (Fin 2)
           in cJSON_PrintUnformatted m root))"

definition sc_msg_clipboard :: "fp \<Rightarrow> string option \<Rightarrow> string option" where
  "sc_msg_clipboard m encrypted_b64 =
     (case encrypted_b64 of
        None \<Rightarrow> None
      | Some e \<Rightarrow> sc_msg_build m (Some ''clipboard'') (Some (cJSON_AddStringToObject cJSON_CreateObject ''content'' (Some e))))"

definition capabilities :: "string list" where
  "capabilities = [''clipboard'', ''file_lan'', ''file_nat'', ''file_relay'']"

definition sc_msg_hello :: "fp \<Rightarrow> string option \<Rightarrow> string option \<Rightarrow> string option \<Rightarrow> string option" where
  "sc_msg_hello m client_type device_id app_version =
     (let o1 = (if client_type = None then cJSON_CreateObject
                else cJSON_AddStringToObject cJSON_CreateObject ''clientType'' client_type);
          o2 = (if device_id = None then o1 else cJSON_AddStringToObject o1 ''deviceId'' device_id);
          o3 = (if app_version = None then o2 else cJSON_AddStringToObject o2 ''appVersion'' app_version);
          o4 = cJSON_AddItemToObject o3 ''capabilities'' (JArray (map JString capabilities))
      in sc_msg_build m (Some ''hello'') (Some o4))"

section \<open>The builders of the clients\<close>

text \<open>\<open>(double)n\<close>.\<close>

definition to_double :: "fp \<Rightarrow> int \<Rightarrow> dbl" where
  "to_double m n = round_d m (of_int n)"

definition build_auth_msg :: "fp \<Rightarrow> string \<Rightarrow> string option" where
  "build_auth_msg m sk =
     (let j = cJSON_AddStringToObject cJSON_CreateObject ''type'' (Some ''auth'');
          j = cJSON_AddStringToObject j ''serverKey'' (Some sk)
      in cJSON_PrintUnformatted m j)"

definition build_login_msg :: "fp \<Rightarrow> string \<Rightarrow> string \<Rightarrow> string \<Rightarrow> string option" where
  "build_login_msg m u p d =
     (let j = cJSON_AddStringToObject cJSON_CreateObject ''type'' (Some ''login'');
          j = cJSON_AddStringToObject j ''username'' (Some u);
          j = cJSON_AddStringToObject j ''password'' (Some p);
          j = cJSON_AddStringToObject j ''deviceId'' (Some d)
      in cJSON_PrintUnformatted m j)"

definition build_clipboard_msg :: "fp \<Rightarrow> string \<Rightarrow> string option" where
  "build_clipboard_msg m enc =
     (let j = cJSON_AddStringToObject cJSON_CreateObject ''type'' (Some ''clipboard'');
          j = cJSON_AddStringToObject j ''content'' (Some enc)
      in cJSON_PrintUnformatted m j)"

definition build_file_offer ::
  "fp \<Rightarrow> string \<Rightarrow> string \<Rightarrow> string \<Rightarrow> u64 \<Rightarrow> string \<Rightarrow> string list \<Rightarrow> string option" where
  "build_file_offer m fid fname mime fsize cksum addrs =
     (let j = cJSON_AddStringToObject cJSON_CreateObject ''type'' (Some ''file_offer'');
          j = cJSON_AddStringToObject j ''fileId'' (Some fid);
          j = cJSON_AddStringToObject j ''fileName'' (Some fname);
          j = cJSON_AddStringToObject j ''mimeType'' (Some mime);
          j = cJSON_AddNumberToObject j ''fileSize'' (to_double m (uint fsize));
          j = cJSON_AddStringToObject j ''checksum'' (Some cksum);
          j = add_string_array j ''localAddresses'' addrs
      in cJSON_PrintUnformatted m j)"

definition build_file_request :: "fp \<Rightarrow> string option \<Rightarrow> string list \<Rightarrow> string option" where
  "build_file_request m fid addrs =
     (let j = cJSON_AddStringToObject cJSON_CreateObject ''type'' (Some ''file_request'');
          j = cJSON_AddStringToObject j ''fileId'' fid;
          j = add_string_array j ''localAddresses'' addrs
      in cJSON_PrintUnformatted m j)"

definition build_file_relay_request :: "fp \<Rightarrow> string \<Rightarrow> string option" where
  "build_file_relay_request m fid =
     (let j = cJSON_AddStringToObject cJSON_CreateObject ''type'' (Some ''file_relay'');
          j = cJSON_AddStringToObject j ''fileId'' (Some fid)
      in cJSON_PrintUnformatted m j)"

definition build_file_relay_data ::
  "openssl \<Rightarrow> fp \<Rightarrow> string \<Rightarrow> byte list \<Rightarrow> u64 \<Rightarrow> string \<Rightarrow> string option" where
  "build_file_relay_data ssl m fid d fsize target =
     (let j = cJSON_AddStringToObject cJSON_CreateObject ''type'' (Some ''file_relay'');
          j = cJSON_AddStringToObject j ''fileId'' (Some fid);
          j = cJSON_AddNumberToObject j ''fileSize'' (to_double m (uint fsize));
          j = cJSON_AddStringToObject j ''targetDevice'' (Some target);
          b64 = ft_base64_encode ssl d;
          j = (if b64 \<noteq> None then cJSON_AddStringToObject j ''data'' b64 else j)
      in cJSON_PrintUnformatted m j)"

definition build_transfer_result :: "fp \<Rightarrow> string option \<Rightarrow> string \<Rightarrow> bool \<Rightarrow> int \<Rightarrow> int \<Rightarrow> string option" where
  "build_transfer_result m fid method success conn_ms xfer_ms =
     (let j = cJSON_AddStringToObject cJSON_CreateObject ''type'' (Some ''file_transfer_result'');
          j = cJSON_AddStringToObject j ''fileId'' fid;
          j = cJSON_AddStringToObject j ''method'' (Some method);
          j = cJSON_AddBoolToObject j ''success'' success;
          j = cJSON_AddNumberToObject j ''connectionMs'' (to_double m conn_ms);
          j = cJSON_AddNumberToObject j ''transferMs'' (to_double m xfer_ms)
      in cJSON_PrintUnformatted m j)"

section \<open>What a receiver reads\<close>

lemmas build_simps =
  cJSON_CreateObject_def cJSON_AddStringToObject_def cJSON_AddNumberToObject_def cJSON_AddBoolToObject_def
  cJSON_AddItemToObject_def cJSON_CreateString_def add_item_to_object_def add_string_array_def Let_def

lemmas lookup_simps =
  cJSON_GetObjectItem_def get_object_item_def cJSON_GetStringValue_def cJSON_GetNumberValue_def strcaseeq_def tolower_def

text \<open>A flat tree is printed: the nesting limit is not reached.\<close>

fun flat :: "json \<Rightarrow> bool" where
  "flat (JArray xs) = False"
| "flat (JObject ms) = False"
| "flat _ = True"

lemma print_flat: "flat t \<Longrightarrow> \<exists>s. print_value m d t = Some s"
  by (cases t) auto

lemma print_flat_elems: "\<forall>x \<in> set xs. flat x \<Longrightarrow> \<exists>s. print_elems m d xs = Some s"
proof (induction xs)
  case (Cons x xs)
  then show ?case using print_flat [of x m d] by auto
qed simp

text \<open>An object of flat members and arrays of flat elements.\<close>

fun shallow :: "json \<Rightarrow> bool" where
  "shallow (JArray xs) = (\<forall>x \<in> set xs. flat x)"
| "shallow (JObject ms) = False"
| "shallow _ = True"

lemma print_shallow: "shallow t \<Longrightarrow> d < CJSON_NESTING_LIMIT \<Longrightarrow> \<exists>s. print_value m d t = Some s"
  using print_flat_elems by (cases t) fastforce+

lemma print_shallow_members:
  "\<forall>(k, x) \<in> set ms. shallow x \<Longrightarrow> d < CJSON_NESTING_LIMIT \<Longrightarrow> \<exists>s. print_members m d ms = Some s"
proof (induction ms)
  case (Cons p ms)
  then show ?case using print_shallow [of "snd p" d m] by (cases p) auto
qed simp

lemma print_object:
  "\<forall>(k, x) \<in> set ms. shallow x \<Longrightarrow> \<exists>s. cJSON_PrintUnformatted m (JObject ms) = Some s"
  using print_shallow_members [of ms 1 m] by (auto simp: cJSON_PrintUnformatted_def CJSON_NESTING_LIMIT_def)

lemma object_read_back:
  assumes "fp_documented m" and "\<forall>(k, x) \<in> set ms. shallow x \<and> nul \<notin> set k \<and> plain x"
  shows "\<exists>s. cJSON_PrintUnformatted m (JObject ms) = Some s \<and> cJSON_Parse m (Some s) = Some (JObject ms)"
proof -
  obtain s where s: "cJSON_PrintUnformatted m (JObject ms) = Some s" using print_object [of ms m] assms(2) by auto
  have "plain (JObject ms)" using assms(2) by auto
  then show ?thesis using parse_print [OF assms(1) _ s] s by blast
qed

lemma to_double_exact: "fp_documented m \<Longrightarrow> \<bar>n\<bar> < 10 ^ 15 \<Longrightarrow> to_double m n = Fin (of_int n)"
  by (simp add: to_double_def fp_documented_def)

lemma dbl_to_u64_int: "0 \<le> i \<Longrightarrow> i < 2 ^ 64 \<Longrightarrow> dbl_to_u64 (Fin (of_int i)) = of_int i"
  by (simp add: dbl_to_u64_def trunc_def)

lemma dbl_to_u64_of_uint: "dbl_to_u64 (Fin (of_int (uint n))) = n"
  using dbl_to_u64_int [of "uint n"] uint_bounded [of n] by (simp add: word_of_int_uint del: of_int_uint)

lemma plain_int: "\<bar>i\<bar> < 10 ^ 15 \<Longrightarrow> plain (JNumber (Fin (of_int i)))"
  by simp

text \<open>The clipboard message a client builds, as another client reads it.\<close>

lemma clipboard_read_back:
  assumes "fp_documented m" and "nul \<notin> set enc"
  shows "\<exists>s. build_clipboard_msg m enc = Some s
     \<and> cJSON_Parse m (Some s) = Some (JObject [(''type'', JString ''clipboard''), (''content'', JString enc)])"
proof -
  have "build_clipboard_msg m enc = cJSON_PrintUnformatted m (JObject [(''type'', JString ''clipboard''), (''content'', JString enc)])"
    by (simp add: build_clipboard_msg_def build_simps)
  then show ?thesis using object_read_back [OF assms(1)] assms(2) by (simp add: nul_def)
qed

text \<open>
  C38. A file offer says what the client knows of the file: it is printed for every name, type
  and address list, and whoever parses it finds the type, the identifier, the name, the media
  type, the checksum and the addresses unchanged, and the exact size, for sizes below
  \<open>10 ^ 15\<close> bytes.
\<close>

theorem file_offer_read_back:
  assumes "fp_documented m"
    and "nul \<notin> set fid" and "nul \<notin> set fname" and "nul \<notin> set mime" and "nul \<notin> set cksum"
    and "nul \<notin> \<Union> (set (map set addrs))" and "uint fsize < 10 ^ 15"
  shows "\<exists>s j. build_file_offer m fid fname mime fsize cksum addrs = Some s
     \<and> cJSON_Parse m (Some s) = Some j
     \<and> cJSON_GetStringValue (cJSON_GetObjectItem (Some j) ''type'') = Some ''file_offer''
     \<and> cJSON_GetStringValue (cJSON_GetObjectItem (Some j) ''fileId'') = Some fid
     \<and> cJSON_GetStringValue (cJSON_GetObjectItem (Some j) ''fileName'') = Some fname
     \<and> cJSON_GetStringValue (cJSON_GetObjectItem (Some j) ''mimeType'') = Some mime
     \<and> cJSON_GetStringValue (cJSON_GetObjectItem (Some j) ''checksum'') = Some cksum
     \<and> dbl_to_u64 (cJSON_GetNumberValue (cJSON_GetObjectItem (Some j) ''fileSize'')) = fsize
     \<and> cJSON_GetObjectItem (Some j) ''localAddresses'' = Some (JArray (map JString addrs))"
proof -
  define ms where "ms = [(''type'', JString ''file_offer''), (''fileId'', JString fid), (''fileName'', JString fname),
    (''mimeType'', JString mime), (''fileSize'', JNumber (Fin (of_int (uint fsize)))), (''checksum'', JString cksum),
    (''localAddresses'', JArray (map JString addrs))]"
  have d: "to_double m (uint fsize) = Fin (of_int (uint fsize))" using to_double_exact [OF assms(1)] assms(7) by simp
  have b: "build_file_offer m fid fname mime fsize cksum addrs = cJSON_PrintUnformatted m (JObject ms)"
    by (simp add: build_file_offer_def build_simps ms_def d)
  have "\<forall>(k, x) \<in> set ms. shallow x \<and> nul \<notin> set k \<and> plain x"
    using assms(2-6) plain_int [of "uint fsize"] assms(7) by (auto simp: ms_def nul_def simp del: plain.simps(4) of_int_uint)
  then obtain s where "cJSON_PrintUnformatted m (JObject ms) = Some s" "cJSON_Parse m (Some s) = Some (JObject ms)"
    using object_read_back [OF assms(1)] by blast
  then show ?thesis
    unfolding b by (intro exI [of _ s] exI [of _ "JObject ms"]) (simp add: ms_def lookup_simps dbl_to_u64_of_uint Let_def del: of_int_uint)
qed

theorem file_offer_read_back_witness:
  "\<exists>s j. build_file_offer exact_fp ''id'' ''a.txt'' ''text/plain'' 5 ''00'' [''10.0.0.1:99''] = Some s
     \<and> cJSON_Parse exact_fp (Some s) = Some j
     \<and> cJSON_GetStringValue (cJSON_GetObjectItem (Some j) ''fileName'') = Some ''a.txt''
     \<and> dbl_to_u64 (cJSON_GetNumberValue (cJSON_GetObjectItem (Some j) ''fileSize'')) = 5"
  using file_offer_read_back [OF exact_fp_documented, of "''id''" "''a.txt''" "''text/plain''" "''00''" "[''10.0.0.1:99'']" 5]
  by (simp add: nul_def) blast

end
