(* ===== verification/AuthHttp.thy ===== *)
theory AuthHttp
  imports Buffers Json Config Msg
begin

text \<open>
  Tokens over HTTP: \<open>src/common/auth_http.c\<close> and \<open>src/common/ws_client.c\<close>. libcurl is a
  scripted peer: a list of replies, one for each request, and the requests made so far. A reply
  is no handle at all, or the chunks libcurl gives to \<open>write_cb\<close>, whether the transfer
  succeeded, and the status code. Log lines and timeouts are left out.
\<close>

section \<open>The peer\<close>

record http_req =
  hr_url :: string
  hr_body :: string
  hr_verify :: bool
  hr_cainfo :: "string option"

datatype http_reply = NoHandle | Reply "byte list list" bool int

record http_net =
  requests :: "http_req list"
  replies :: "http_reply list"

definition next_reply :: "http_net \<Rightarrow> http_reply \<times> http_net" where
  "next_reply net = (case replies net of [] \<Rightarrow> (NoHandle, net) | r # rs \<Rightarrow> (r, net\<lparr>replies := rs\<rparr>))"

text \<open>libcurl stops with an error when \<open>write_cb\<close> does not take the whole chunk.\<close>

fun deliver :: "(nat \<Rightarrow> bool) \<Rightarrow> byte list list \<Rightarrow> HttpBuf \<Rightarrow> (bool \<times> HttpBuf) option" where
  "deliver alloc [] buf = Some (True, buf)"
| "deliver alloc (c # cs) buf =
     do {
       (n, buf) \<leftarrow> write_cb alloc c buf;
       (if n = length c then deliver alloc cs buf else Some (False, buf))
     }"

section \<open>auth_http.c\<close>

record AuthTokens =
  access_token :: string
  refresh_token :: string
  expires_in_sec :: int

definition request_of :: "ClientConfig \<Rightarrow> string \<Rightarrow> string \<Rightarrow> http_req" where
  "request_of cfg url body =
     \<lparr>hr_url = url, hr_body = body,
      hr_verify = (use_tls cfg = 0 \<or> skip_tls_verify cfg = 0),
      hr_cainfo = (if use_tls cfg \<noteq> 0 \<and> skip_tls_verify cfg = 0 \<and> ca_cert_path cfg \<noteq> [] then Some (ca_cert_path cfg) else None)\<rparr>"

text \<open>\<open>None\<close> inside is the return value -1; else the buffer and the status code.\<close>

definition post_json ::
  "(nat \<Rightarrow> bool) \<Rightarrow> ClientConfig \<Rightarrow> string \<Rightarrow> string \<Rightarrow> http_net \<Rightarrow> ((HttpBuf \<times> int) option \<times> http_net) option" where
  "post_json alloc cfg url body net =
     (case next_reply net of
        (NoHandle, net) \<Rightarrow> Some (None, net)
      | (Reply chunks ok code, net) \<Rightarrow>
          do {
            (taken, out) \<leftarrow> deliver alloc chunks \<lparr>hb_data = [], hb_len = 0, hb_cap = 0\<rparr>;
            let net = net\<lparr>requests := requests net @ [request_of cfg url body]\<rparr>;
            Some (if taken \<and> ok then Some (out, code) else None, net)
          })"

text \<open>\<open>buf.data\<close> as a C string; NULL when nothing was received.\<close>

definition http_text :: "HttpBuf \<Rightarrow> string option" where
  "http_text b = (if hb_data b = [] then None else Some (cstr (str_of_bytes (http_contents b))))"

definition parse_token_response :: "fp \<Rightarrow> string option \<Rightarrow> AuthTokens \<Rightarrow> int \<times> AuthTokens" where
  "parse_token_response m json_text out =
     (case cJSON_Parse m json_text of
        None \<Rightarrow> (-1, out)
      | Some j \<Rightarrow>
          (let access = cJSON_GetObjectItemCaseSensitive (Some j) ''accessToken'';
               refresh = cJSON_GetObjectItemCaseSensitive (Some j) ''refreshToken'';
               expires = cJSON_GetObjectItemCaseSensitive (Some j) ''expiresInSec''
           in case (access, refresh) of
                (Some (JString a), Some (JString r)) \<Rightarrow>
                  (0, out\<lparr>access_token := strncpy_fld 1023 a, refresh_token := strncpy_fld 1023 r,
                         expires_in_sec := (if cJSON_IsNumber expires then dbl_to_long (cJSON_GetNumberValue expires) else 0)\<rparr>)
              | _ \<Rightarrow> (-1, out)))"

definition build_url :: "ClientConfig \<Rightarrow> string \<Rightarrow> nat \<Rightarrow> string option" where
  "build_url cfg path out_len =
     (let scheme = (if use_tls cfg \<noteq> 0 then ''https'' else ''http'');
          (out, n) = snprintf_c out_len (scheme @ ''://'' @ server_host cfg @ '':'' @ dec_of_int (server_port cfg) @ path)
      in if 0 < n \<and> n < int out_len then Some out else None)"

definition login_body :: "ClientConfig \<Rightarrow> json" where
  "login_body cfg =
     cJSON_AddStringToObject (cJSON_AddStringToObject (cJSON_AddStringToObject cJSON_CreateObject
       ''username'' (Some (username cfg))) ''password'' (Some (password cfg))) ''deviceId'' (Some (device_id cfg))"

definition refresh_body :: "ClientConfig \<Rightarrow> AuthTokens \<Rightarrow> json" where
  "refresh_body cfg out =
     cJSON_AddStringToObject (cJSON_AddStringToObject cJSON_CreateObject
       ''refreshToken'' (Some (refresh_token out))) ''deviceId'' (Some (device_id cfg))"

definition auth_http_login ::
  "(nat \<Rightarrow> bool) \<Rightarrow> fp \<Rightarrow> ClientConfig \<Rightarrow> AuthTokens \<Rightarrow> http_net \<Rightarrow> (int \<times> AuthTokens \<times> http_net) option" where
  "auth_http_login alloc m cfg out net =
     (case build_url cfg ''/api/v2/auth/login'' 512 of
        None \<Rightarrow> Some (-1, out, net)
      | Some url \<Rightarrow>
          (case cJSON_PrintUnformatted m (login_body cfg) of
             None \<Rightarrow> Some (-1, out, net)
           | Some body_str \<Rightarrow>
               do {
                 (rc, net) \<leftarrow> post_json alloc cfg url body_str net;
                 (case rc of
                    None \<Rightarrow> Some (-1, out, net)
                  | Some (buf, http_code) \<Rightarrow>
                      if http_code \<noteq> 200 then Some (-1, out, net)
                      else (let (parsed, out) = parse_token_response m (http_text buf) out in Some (parsed, out, net)))
               }))"

definition auth_http_refresh ::
  "(nat \<Rightarrow> bool) \<Rightarrow> fp \<Rightarrow> ClientConfig \<Rightarrow> AuthTokens \<Rightarrow> http_net \<Rightarrow> (int \<times> AuthTokens \<times> http_net) option" where
  "auth_http_refresh alloc m cfg out net =
     (if refresh_token out = [] then auth_http_login alloc m cfg out net
      else (case build_url cfg ''/api/v2/auth/refresh'' 512 of
              None \<Rightarrow> Some (-1, out, net)
            | Some url \<Rightarrow>
                (case cJSON_PrintUnformatted m (refresh_body cfg out) of
                   None \<Rightarrow> Some (-1, out, net)
                 | Some body_str \<Rightarrow>
                     do {
                       (rc, net) \<leftarrow> post_json alloc cfg url body_str net;
                       (case rc of
                          None \<Rightarrow> Some (-1, out, net)
                        | Some (buf, http_code) \<Rightarrow>
                            if http_code \<noteq> 200 then auth_http_login alloc m cfg out net
                            else (let (parsed, out) = parse_token_response m (http_text buf) out in Some (parsed, out, net)))
                     })))"

section \<open>ws_client.c\<close>

definition ws_build_bearer_protocol :: "string \<Rightarrow> nat \<Rightarrow> int \<times> string" where
  "ws_build_bearer_protocol token out_len =
     (let (out, n) = snprintf_c out_len (''bearer.'' @ token) in
      (if 0 < n \<and> n < int out_len then 0 else -1, out))"

definition ws_acquire_tokens ::
  "(nat \<Rightarrow> bool) \<Rightarrow> fp \<Rightarrow> ClientConfig \<Rightarrow> AuthTokens \<Rightarrow> http_net \<Rightarrow> (int \<times> AuthTokens \<times> http_net) option" where
  "ws_acquire_tokens alloc m cfg tokens net =
     do {
       (r, tokens, net) \<leftarrow> (if refresh_token tokens \<noteq> [] then auth_http_refresh alloc m cfg tokens net else Some (-1, tokens, net));
       (if r = 0 then Some (0, tokens, net)
        else do {
          (r, tokens, net) \<leftarrow> auth_http_login alloc m cfg tokens net;
          Some (if r = 0 then 0 else -1, tokens, net)
        })
     }"

section \<open>No request overruns its buffer\<close>

lemma deliver_returns:
  "http_inv b \<Longrightarrow> \<exists>ok b'. deliver alloc cs b = Some (ok, b') \<and> http_inv b' \<and>
     (ok \<longrightarrow> http_contents b' = http_contents b @ concat cs)"
proof (induction cs arbitrary: b)
  case (Cons c cs)
  from \<open>http_inv b\<close> show ?case
  proof (cases rule: write_cb_cases [of b alloc c])
    case (stored b')
    then show ?thesis using Cons(1) [of b'] by auto
  next
    case (no_memory n)
    then show ?thesis using Cons(1) [of b] Cons(2) by auto
  qed
qed auto

section \<open>What a login and a refresh do\<close>

definition tokens_ok :: "AuthTokens \<Rightarrow> bool" where
  "tokens_ok t \<longleftrightarrow> length (access_token t) < 1024 \<and> length (refresh_token t) < 1024"

text \<open>A request as the configuration wants it: scheme, host, certificate verification.\<close>

definition sent_ok :: "ClientConfig \<Rightarrow> http_req \<Rightarrow> bool" where
  "sent_ok cfg q \<longleftrightarrow>
     starts_with ((if use_tls cfg \<noteq> 0 then ''https://'' else ''http://'') @ server_host cfg @ '':'') (hr_url q) \<and>
     (hr_verify q \<or> use_tls cfg \<noteq> 0 \<and> skip_tls_verify cfg \<noteq> 0)"

text \<open>The tokens are those of a complete reply with status 200.\<close>

definition granted :: "fp \<Rightarrow> http_net \<Rightarrow> AuthTokens \<Rightarrow> bool" where
  "granted m net t \<longleftrightarrow>
     (\<exists>chunks t0. Reply chunks True 200 \<in> set (replies net) \<and>
        parse_token_response m (Some (cstr (str_of_bytes (concat chunks)))) t0 = (0, t))"

definition outcome ::
  "nat \<Rightarrow> ClientConfig \<Rightarrow> fp \<Rightarrow> AuthTokens \<Rightarrow> http_net \<Rightarrow> int \<Rightarrow> AuthTokens \<Rightarrow> http_net \<Rightarrow> bool" where
  "outcome n cfg m t net r t' net' \<longleftrightarrow>
     (r = 0 \<and> granted m net t' \<or> r = -1 \<and> t' = t) \<and>
     (\<exists>rs. requests net' = requests net @ rs \<and> length rs \<le> n \<and> list_all (sent_ok cfg) rs) \<and>
     (\<exists>k. replies net' = drop k (replies net))"

lemma parse_token_response_cases:
  "parse_token_response m x t = (-1, t) \<or>
   (\<exists>t' s. parse_token_response m x t = (0, t') \<and> tokens_ok t' \<and> x = Some s)"
proof (cases x)
  case None
  then show ?thesis by (simp add: parse_token_response_def cJSON_Parse_def)
next
  case (Some s)
  then show ?thesis
    by (auto simp: parse_token_response_def tokens_ok_def strncpy_fld_less Let_def
        split: option.splits json.splits)
qed

lemma granted_tokens_ok: "granted m net t \<Longrightarrow> tokens_ok t"
proof -
  assume "granted m net t"
  then obtain x t0 where "parse_token_response m x t0 = (0, t)" by (auto simp: granted_def)
  then show ?thesis using parse_token_response_cases [of m x t0] by auto
qed

lemma outcome_none: "outcome n cfg m t net (-1) t net"
  by (simp add: outcome_def) (metis drop0)

lemma outcome_weaken: "outcome n cfg m t net r t' net' \<Longrightarrow> n \<le> n' \<Longrightarrow> outcome n' cfg m t net r t' net'"
  by (auto simp: outcome_def)

lemma granted_drop: "granted m net' t \<Longrightarrow> replies net' = drop k (replies net) \<Longrightarrow> granted m net t"
  unfolding granted_def by (metis in_set_dropD)

lemma outcome_then:
  assumes "outcome n cfg m t net r t1 net1" and "r \<noteq> 0" and "outcome n' cfg m t1 net1 r' t' net'"
  shows "outcome (n + n') cfg m t net r' t' net'"
proof -
  obtain rs k where 1: "requests net1 = requests net @ rs" "length rs \<le> n" "list_all (sent_ok cfg) rs"
    "replies net1 = drop k (replies net)" "t1 = t"
    using assms(1,2) by (auto simp: outcome_def)
  obtain rs' k' where 2: "requests net' = requests net1 @ rs'" "length rs' \<le> n'" "list_all (sent_ok cfg) rs'"
    "replies net' = drop k' (replies net1)"
    using assms(3) by (auto simp: outcome_def)
  have "r' = 0 \<and> granted m net t' \<or> r' = -1 \<and> t' = t"
    using assms(3) 1(4,5) granted_drop by (auto simp: outcome_def)
  moreover have "requests net' = requests net @ (rs @ rs')" "length (rs @ rs') \<le> n + n'"
    "list_all (sent_ok cfg) (rs @ rs')" "replies net' = drop (k' + k) (replies net)"
    using 1 2 by simp_all
  ultimately show ?thesis unfolding outcome_def by blast
qed

lemma build_url_prefix:
  assumes "build_url cfg path 512 = Some url"
  shows "starts_with ((if use_tls cfg \<noteq> 0 then ''https://'' else ''http://'') @ server_host cfg @ '':'') url"
proof -
  define full where "full = (if use_tls cfg \<noteq> 0 then ''https'' else ''http'') @ ''://'' @ server_host cfg @ '':'' @ dec_of_int (server_port cfg) @ path"
  have "length full < 512" "url = take 511 full"
    using assms by (auto simp: build_url_def snprintf_c_def Let_def full_def split: if_splits)
  then have "url = full" by simp
  then show ?thesis by (simp add: starts_with_def full_def)
qed

text \<open>One request: it fails, or the whole body of a successful reply is in the buffer.\<close>

lemma post_json_returns:
  assumes "build_url cfg path 512 = Some url"
  shows "\<exists>rc net' rs k. post_json alloc cfg url body net = Some (rc, net') \<and>
     requests net' = requests net @ rs \<and> length rs \<le> 1 \<and> list_all (sent_ok cfg) rs \<and>
     replies net' = drop k (replies net) \<and>
     (\<forall>buf code. rc = Some (buf, code) \<longrightarrow>
        (\<exists>chunks. Reply chunks True code \<in> set (replies net) \<and> http_inv buf \<and> http_contents buf = concat chunks))"
proof (cases "replies net")
  case Nil
  then show ?thesis by (simp add: post_json_def next_reply_def)
next
  case (Cons r rest)
  show ?thesis
  proof (cases r)
    case NoHandle
    then show ?thesis using Cons
      by (intro exI [of _ None] exI [of _ "net\<lparr>replies := rest\<rparr>"] exI [of _ "[]"] exI [of _ 1])
        (simp add: post_json_def next_reply_def)
  next
    case (Reply chunks ok code)
    obtain taken b where b: "deliver alloc chunks \<lparr>hb_data = [], hb_len = 0, hb_cap = 0\<rparr> = Some (taken, b)" "http_inv b"
      "taken \<longrightarrow> http_contents b = concat chunks"
      using deliver_returns [OF http_empty, of alloc chunks] by (auto simp: http_contents_def filled_def)
    have "sent_ok cfg (request_of cfg url body)"
      using build_url_prefix [OF assms] by (auto simp: sent_ok_def request_of_def)
    then show ?thesis using Cons Reply b
      by (intro exI [of _ "if taken \<and> ok then Some (b, code) else None"]
          exI [of _ "net\<lparr>replies := rest, requests := requests net @ [request_of cfg url body]\<rparr>"]
          exI [of _ "[request_of cfg url body]"] exI [of _ 1])
        (auto simp: post_json_def next_reply_def)
  qed
qed

lemma http_text_contents: "http_inv b \<Longrightarrow> http_text b = None \<or> http_text b = Some (cstr (str_of_bytes (http_contents b)))"
  by (simp add: http_text_def)

lemma reply_outcome:
  assumes "http_inv buf" and "http_contents buf = concat chunks" and "Reply chunks True 200 \<in> set (replies net)"
    and "requests net' = requests net @ rs" and "length rs \<le> n" and "list_all (sent_ok cfg) rs" and "replies net' = drop k (replies net)"
    and "parse_token_response m (http_text buf) t = (r, t')"
  shows "outcome n cfg m t net r t' net'"
proof -
  consider "r = -1" "t' = t" | s where "r = 0" "http_text buf = Some s"
    using parse_token_response_cases [of m "http_text buf" t] assms(8) by auto
  then have "r = 0 \<and> granted m net t' \<or> r = -1 \<and> t' = t"
  proof cases
    case 2
    then have "http_text buf = Some (cstr (str_of_bytes (concat chunks)))"
      using http_text_contents [OF assms(1)] assms(2) by simp
    then have "granted m net t'" using assms(3,8) 2(1) unfolding granted_def by auto
    then show ?thesis using 2(1) by simp
  qed simp
  then show ?thesis using assms(4-7) unfolding outcome_def by blast
qed

lemma login_returns:
  "\<exists>r t' net'. auth_http_login alloc m cfg t net = Some (r, t', net') \<and> outcome 1 cfg m t net r t' net'"
proof (cases "build_url cfg ''/api/v2/auth/login'' 512")
  case None
  then show ?thesis using outcome_none by (simp add: auth_http_login_def)
next
  case (Some url)
  obtain s where s: "cJSON_PrintUnformatted m (login_body cfg) = Some s"
    using print_object by (fastforce simp: login_body_def build_simps)
  obtain rc net' rs k where p: "post_json alloc cfg url s net = Some (rc, net')"
    "requests net' = requests net @ rs" "length rs \<le> 1" "list_all (sent_ok cfg) rs" "replies net' = drop k (replies net)"
    "\<forall>buf code. rc = Some (buf, code) \<longrightarrow>
        (\<exists>chunks. Reply chunks True code \<in> set (replies net) \<and> http_inv buf \<and> http_contents buf = concat chunks)"
    using post_json_returns [OF Some] by blast
  show ?thesis
  proof (cases "\<exists>buf. rc = Some (buf, 200)")
    case True
    then obtain buf chunks where c: "rc = Some (buf, 200)" "Reply chunks True 200 \<in> set (replies net)" "http_inv buf"
      "http_contents buf = concat chunks" using p(6) by blast
    obtain r t' where t': "parse_token_response m (http_text buf) t = (r, t')" by force
    show ?thesis using Some s p(1) c(1) t' reply_outcome [OF c(3,4,2) p(2-5) t']
      by (simp add: auth_http_login_def)
  next
    case False
    have "outcome 1 cfg m t net (-1) t net'" using p(2-5) unfolding outcome_def by blast
    then show ?thesis using Some s p(1) False by (auto simp: auth_http_login_def split: option.split)
  qed
qed

lemma refresh_returns:
  "\<exists>r t' net'. auth_http_refresh alloc m cfg t net = Some (r, t', net') \<and> outcome 2 cfg m t net r t' net'"
proof (cases "refresh_token t = []")
  case True
  obtain r t' net' where l: "auth_http_login alloc m cfg t net = Some (r, t', net')" "outcome 1 cfg m t net r t' net'"
    using login_returns by blast
  then show ?thesis using True outcome_weaken [OF l(2), of 2] by (simp add: auth_http_refresh_def)
next
  case ne: False
  show ?thesis
  proof (cases "build_url cfg ''/api/v2/auth/refresh'' 512")
    case None
    then show ?thesis using ne outcome_none by (simp add: auth_http_refresh_def)
  next
    case (Some url)
    obtain s where s: "cJSON_PrintUnformatted m (refresh_body cfg t) = Some s"
      using print_object by (fastforce simp: refresh_body_def build_simps)
    obtain rc net1 rs k where p: "post_json alloc cfg url s net = Some (rc, net1)"
      "requests net1 = requests net @ rs" "length rs \<le> 1" "list_all (sent_ok cfg) rs" "replies net1 = drop k (replies net)"
      "\<forall>buf code. rc = Some (buf, code) \<longrightarrow>
          (\<exists>chunks. Reply chunks True code \<in> set (replies net) \<and> http_inv buf \<and> http_contents buf = concat chunks)"
      using post_json_returns [OF Some] by blast
    have failed: "outcome 1 cfg m t net (-1) t net1" using p(2-5) unfolding outcome_def by blast
    consider (no) "rc = None" | (fine) buf where "rc = Some (buf, 200)" | (other) buf code where "rc = Some (buf, code)" "code \<noteq> 200"
      by (cases rc) auto
    then show ?thesis
    proof cases
      case no
      then show ?thesis using ne Some s p(1) outcome_weaken [OF failed, of 2] by (simp add: auth_http_refresh_def)
    next
      case fine
      then obtain chunks where c: "Reply chunks True 200 \<in> set (replies net)" "http_inv buf" "http_contents buf = concat chunks"
        using p(6) by blast
      obtain r t' where t': "parse_token_response m (http_text buf) t = (r, t')" by force
      have "outcome 2 cfg m t net r t' net1"
        using outcome_weaken [OF reply_outcome [OF c(2,3,1) p(2-5) t'], of 2] by simp
      then show ?thesis using ne Some s p(1) fine t' by (simp add: auth_http_refresh_def)
    next
      case other
      obtain r t' net' where l: "auth_http_login alloc m cfg t net1 = Some (r, t', net')" "outcome 1 cfg m t net1 r t' net'"
        using login_returns by blast
      have "outcome 2 cfg m t net r t' net'" using outcome_then [OF failed _ l(2)] by (simp add: numeral_2_eq_2)
      then show ?thesis using ne Some s p(1) other l(1) by (simp add: auth_http_refresh_def)
    qed
  qed
qed

section \<open>Properties\<close>

lemma acquire_tokens_returns:
  "\<exists>r t' net'. ws_acquire_tokens alloc m cfg t net = Some (r, t', net') \<and> outcome 3 cfg m t net r t' net'"
proof -
  obtain r1 t1 net1 where 1: "(if refresh_token t \<noteq> [] then auth_http_refresh alloc m cfg t net else Some (-1, t, net)) = Some (r1, t1, net1)"
    "outcome 2 cfg m t net r1 t1 net1"
  proof (cases "refresh_token t = []")
    case True
    then show ?thesis using that [of "-1" t net] outcome_none by simp
  next
    case False
    then show ?thesis using that refresh_returns [of alloc m cfg t net] by auto
  qed
  obtain r2 t2 net2 where 2: "auth_http_login alloc m cfg t1 net1 = Some (r2, t2, net2)" "outcome 1 cfg m t1 net1 r2 t2 net2"
    using login_returns by blast
  show ?thesis
  proof (cases "r1 = 0")
    case True
    then show ?thesis using 1 outcome_weaken [OF 1(2), of 3] by (simp add: ws_acquire_tokens_def)
  next
    case False
    have "outcome 3 cfg m t net r2 t2 net2" using outcome_then [OF 1(2) False 2(2)] by simp
    moreover have "r2 = 0 \<or> r2 = -1" using 2(2) by (auto simp: outcome_def)
    ultimately show ?thesis using 1(1) 2(1) False by (auto simp: ws_acquire_tokens_def)
  qed
qed

text \<open>
  C21. Acquiring tokens, for every script of replies and every behaviour of \<open>realloc\<close>: it always
  returns, 0 with the tokens of a complete reply of status 200, or -1 with the tokens
  untouched; and it makes at most three requests (a refresh, its fallback login, a
  login), each to the configured scheme and host and with certificate verification on
  unless the configuration turns it off. So with \<open>use_tls\<close> and without
  \<open>skip_tls_verify\<close> the password only travels over verified TLS.
\<close>

theorem acquire_tokens_sound:
  "\<exists>r t' net' rs. ws_acquire_tokens alloc m cfg t net = Some (r, t', net') \<and>
     (r = 0 \<and> granted m net t' \<or> r = -1 \<and> t' = t) \<and>
     requests net' = requests net @ rs \<and> length rs \<le> 3 \<and> list_all (sent_ok cfg) rs"
  using acquire_tokens_returns [of alloc m cfg t net] unfolding outcome_def by blast

text \<open>
  The subprotocol always fits: whatever tokens the server grants, \<open>bearer.\<close> and the
  access token are stored completely in the 1200 bytes of \<open>g_ws_subproto\<close>.
\<close>

theorem bearer_fits:
  assumes "ws_acquire_tokens alloc m cfg t net = Some (r, t', net')" and "tokens_ok t"
  shows "tokens_ok t' \<and> ws_build_bearer_protocol (access_token t') 1200 = (0, ''bearer.'' @ access_token t')"
proof -
  have "r = 0 \<and> granted m net t' \<or> t' = t"
    using acquire_tokens_returns [of alloc m cfg t net] assms(1) by (auto simp: outcome_def)
  then have "tokens_ok t'" using granted_tokens_ok assms(2) by auto
  then show ?thesis by (simp add: tokens_ok_def ws_build_bearer_protocol_def snprintf_c_def)
qed

text \<open>A server that refuses the refresh token and then the password.\<close>

definition sample_cfg :: ClientConfig where
  "sample_cfg = config_set_defaults\<lparr>server_host := ''h'', use_tls := 1, username := ''u'', password := ''p'', device_id := ''d''\<rparr>"

definition sample_tokens :: AuthTokens where
  "sample_tokens = \<lparr>access_token = ''old'', refresh_token = ''r0'', expires_in_sec = 0\<rparr>"

definition sample_net :: http_net where
  "sample_net = \<lparr>requests = [], replies = [Reply [] True 401, Reply [] True 403, NoHandle]\<rparr>"

lemma sample_acquire:
  "map_option (\<lambda>(r, t, net). (r, t, map hr_url (requests net))) (ws_acquire_tokens (\<lambda>_. True) exact_fp sample_cfg sample_tokens sample_net) =
     Some (-1, sample_tokens, [''https://h:8080/api/v2/auth/refresh'', ''https://h:8080/api/v2/auth/login''])"
  by code_simp

lemma sample_tokens_ok: "tokens_ok sample_tokens"
  by (simp add: tokens_ok_def sample_tokens_def)

theorem bearer_fits_witness:
  "\<exists>t' net'. ws_acquire_tokens (\<lambda>_. True) exact_fp sample_cfg sample_tokens sample_net = Some (-1, t', net')
     \<and> ws_build_bearer_protocol (access_token t') 1200 = (0, ''bearer.old'')"
proof -
  obtain t' net' where a: "ws_acquire_tokens (\<lambda>_. True) exact_fp sample_cfg sample_tokens sample_net = Some (-1, t', net')"
    "t' = sample_tokens" using sample_acquire by auto
  then show ?thesis using bearer_fits [OF a(1) sample_tokens_ok] by (simp add: sample_tokens_def)
qed

text \<open>A grant is read from its text.\<close>

lemma grant_parsed:
  "parse_token_response exact_fp (Some ([CHR ''{'', CHR 0x22] @ ''accessToken'' @ [CHR 0x22, CHR '':'', CHR 0x22, CHR ''a'', CHR 0x22, CHR '','', CHR 0x22]
     @ ''refreshToken'' @ [CHR 0x22, CHR '':'', CHR 0x22, CHR ''b'', CHR 0x22, CHR ''}''])) sample_tokens =
   (0, \<lparr>access_token = ''a'', refresh_token = ''b'', expires_in_sec = 0\<rparr>)"
  by code_simp

end
