(* ===== verification/Crypto.thy ===== *)
theory Crypto
  imports Codec
begin

text \<open>
  \<open>common/crypto.c\<close>: the AES-256-GCM frame of protocol v2 and the legacy AES-256-CBC
  format. The bytes \<open>RAND_bytes\<close> delivers are an argument; a NULL result is \<open>None\<close>.
\<close>

section \<open>Definitions\<close>

definition AES_KEY_LEN :: nat where "AES_KEY_LEN = 32"
definition AES_IV_LEN :: nat where "AES_IV_LEN = 16"
definition GCM_NONCE_LEN :: nat where "GCM_NONCE_LEN = 12"
definition GCM_TAG_LEN :: nat where "GCM_TAG_LEN = 16"
definition GCM_VERSION :: byte where "GCM_VERSION = 0x02"

lemmas crypto_consts = AES_KEY_LEN_def AES_IV_LEN_def GCM_NONCE_LEN_def GCM_TAG_LEN_def GCM_VERSION_def

text \<open>
  \<open>aes_gcm_encrypt\<close>. \<open>rnd\<close> is what \<open>RAND_bytes(nonce, 12)\<close> gives, \<open>None\<close> when it does not
  return 1. Any failing step of the \<open>do ... while (0)\<close> block leaves the result NULL.
\<close>

definition aes_gcm_encrypt :: "openssl \<Rightarrow> byte list option \<Rightarrow> byte list \<Rightarrow> string \<Rightarrow> string option" where
  "aes_gcm_encrypt ssl rnd plaintext key_hex =
     (case sc_hex_to_bytes key_hex AES_KEY_LEN of
        None \<Rightarrow> None
      | Some key \<Rightarrow>
          (case rnd of
             None \<Rightarrow> None
           | Some nonce \<Rightarrow>
               if \<not> malloc_ok ssl ''EVP_CIPHER_CTX_new'' 0 then None
               else if \<not> malloc_ok ssl ''aes_gcm_encrypt.ct'' (length plaintext + 16) then None
               else
                 (case gcm_seal ssl key nonce plaintext (int_of_size (length plaintext)) of
                    None \<Rightarrow> None
                  | Some (ct, tag) \<Rightarrow>
                      (let frame_len = 1 + GCM_NONCE_LEN + length ct + GCM_TAG_LEN in
                       if \<not> malloc_ok ssl ''aes_gcm_encrypt.frame'' frame_len then None
                       else sc_base64_encode ssl ([GCM_VERSION] @ nonce @ ct @ tag)))))"

definition aes_gcm_decrypt :: "openssl \<Rightarrow> string \<Rightarrow> string \<Rightarrow> byte list option" where
  "aes_gcm_decrypt ssl b64_input key_hex =
     (case sc_hex_to_bytes key_hex AES_KEY_LEN of
        None \<Rightarrow> None
      | Some key \<Rightarrow>
          (case sc_base64_decode ssl (Some b64_input) of
             None \<Rightarrow> None
           | Some frame \<Rightarrow>
               if length frame < 1 + GCM_NONCE_LEN + GCM_TAG_LEN then None
               else if frame ! 0 \<noteq> GCM_VERSION then None
               else
                 (let ct_len = length frame - 1 - GCM_NONCE_LEN - GCM_TAG_LEN;
                      nonce = take GCM_NONCE_LEN (drop 1 frame);
                      ct = take ct_len (drop (1 + GCM_NONCE_LEN) frame);
                      tag = take GCM_TAG_LEN (drop (1 + GCM_NONCE_LEN + ct_len) frame)
                  in if \<not> malloc_ok ssl ''EVP_CIPHER_CTX_new'' 0 then None
                     else if \<not> malloc_ok ssl ''aes_gcm_decrypt.plaintext'' (ct_len + 1) then None
                     else gcm_open ssl key nonce ct (int_of_size ct_len) tag)))"

text \<open>
  The legacy functions. \<open>hex_to_bytes\<close> ignores the result of \<open>sscanf\<close>; when it fails the
  byte stored is the indeterminate value of the local variable, \<open>junk i\<close> in round \<open>i\<close>.
\<close>

definition hex_to_bytes :: "(nat \<Rightarrow> u32) \<Rightarrow> string \<Rightarrow> nat \<Rightarrow> byte list" where
  "hex_to_bytes junk hex max_len =
     (let len = length hex div 2; len' = (if len > max_len then max_len else len) in
      map (\<lambda>i. case sscanf_2x (drop (2 * i) hex) of
                 Some b \<Rightarrow> ucast b | None \<Rightarrow> ucast (junk i)) [0..<len'])"

definition cbc_key :: "(nat \<Rightarrow> u32) \<Rightarrow> string \<Rightarrow> byte list" where
  "cbc_key junk key_hex =
     (let bs = hex_to_bytes junk key_hex AES_KEY_LEN in bs @ replicate (AES_KEY_LEN - length bs) 0)"

definition base64_encode :: "openssl \<Rightarrow> byte list \<Rightarrow> string option" where
  "base64_encode ssl data =
     (let (wr, txt) = b64_write ssl data (int_of_size (length data)) in
      if malloc_ok ssl ''base64_encode'' (length txt + 1) then Some txt else None)"

definition base64_decode :: "openssl \<Rightarrow> string \<Rightarrow> byte list option" where
  "base64_decode ssl input =
     (let input_len = int_of_size (length input); max_len = c_int (input_len * 3) div 4 + 4 in
      if \<not> malloc_ok ssl ''base64_decode'' (nat max_len) then None
      else (let (out_len, buf) = b64_read ssl input input_len max_len in
            if out_len < 0 then None else Some (take (nat out_len) buf)))"

definition aes_encrypt :: "openssl \<Rightarrow> (nat \<Rightarrow> u32) \<Rightarrow> byte list \<Rightarrow> byte list \<Rightarrow> string \<Rightarrow> string option" where
  "aes_encrypt ssl junk iv plaintext key_hex =
     (let key = cbc_key junk key_hex in
      if \<not> malloc_ok ssl ''EVP_CIPHER_CTX_new'' 0 then None
      else if \<not> cbc_init ssl key iv then None
      else if \<not> malloc_ok ssl ''aes_encrypt.ciphertext'' (length plaintext + 16) then None
      else
        (let ciphertext = cbc_seal ssl key iv plaintext (int_of_size (length plaintext)) in
         if \<not> malloc_ok ssl ''aes_encrypt.combined'' (AES_IV_LEN + length ciphertext) then None
         else base64_encode ssl (iv @ ciphertext)))"

definition aes_decrypt :: "openssl \<Rightarrow> (nat \<Rightarrow> u32) \<Rightarrow> string \<Rightarrow> string \<Rightarrow> byte list option" where
  "aes_decrypt ssl junk b64_input key_hex =
     (case base64_decode ssl b64_input of
        None \<Rightarrow> None
      | Some decoded \<Rightarrow>
          if length decoded < AES_IV_LEN + 1 then None
          else
            (let key = cbc_key junk key_hex;
                 iv = take AES_IV_LEN decoded;
                 ciphertext = drop AES_IV_LEN decoded
             in if \<not> malloc_ok ssl ''EVP_CIPHER_CTX_new'' 0 then None
                else if \<not> cbc_init ssl key iv then None
                else if \<not> malloc_ok ssl ''aes_decrypt.plaintext'' (length ciphertext + 1) then None
                else cbc_open ssl key iv ciphertext (int (length ciphertext))))"

section \<open>The GCM frame\<close>

lemma gcm_frame_fields:
  assumes "length nonce = 12" and "length tag = 16" and fr: "frame = [v] @ nonce @ ct @ tag"
  shows "length frame = 29 + length ct" and "frame ! 0 = v"
    and "take 12 (drop 1 frame) = nonce"
    and "take (length ct) (drop 13 frame) = ct"
    and "take 16 (drop (13 + length ct) frame) = tag"
proof -
  have d: "drop 13 frame = ct @ tag"
    using drop_append [of 12 nonce "ct @ tag"] assms by (simp add: numeral_eq_Suc)
  show "length frame = 29 + length ct" and "frame ! 0 = v" and "take 12 (drop 1 frame) = nonce"
    using assms by simp_all
  show "take (length ct) (drop 13 frame) = ct"
    unfolding d by simp
  show "take 16 (drop (13 + length ct) frame) = tag"
    using d assms(2) by (simp add: drop_drop [symmetric] add.commute)
qed

lemma gcm_inverse:
  assumes ssl: "b64_documented ssl" "gcm_documented ssl" "mem_ok ssl"
    and key: "length key_hex = 64" "\<forall>c \<in> set key_hex. isxdigit c"
    and nonce: "length nonce = 12" and p: "length p + 29 < 2 ^ 30"
  shows "\<exists>msg. aes_gcm_encrypt ssl (Some nonce) p key_hex = Some msg
     \<and> aes_gcm_decrypt ssl msg key_hex = Some p \<and> nul \<notin> set msg"
proof -
  define key where "key = hex_pairs key_hex"
  have k: "sc_hex_to_bytes key_hex 32 = Some key" "length key = 32"
    using key by (simp_all add: key_def sc_hex_to_bytes_xdigits length_hex_pairs)
  obtain ct tag where ct: "gcm_seal ssl key nonce p (int (length p)) = Some (ct, tag)"
    "length ct = length p" "length tag = 16" "gcm_open ssl key nonce ct (int (length ct)) tag = Some p"
  proof -
    have "length p < 2 ^ 31" using p by simp
    with ssl(2) k(2) nonce show ?thesis
      unfolding gcm_documented_def by (blast intro: that)
  qed
  define frame where "frame = [GCM_VERSION] @ nonce @ ct @ tag"
  note f = gcm_frame_fields [OF nonce ct(3) frame_def]
  have "frame \<noteq> []" "length frame < 2 ^ 30" using f(1) p ct(2) by (auto simp: frame_def)
  then obtain msg where msg: "sc_base64_encode ssl frame = Some msg"
    "sc_base64_decode ssl (Some msg) = Some frame" "nul \<notin> set msg"
    using base64_roundtrip_ex [OF ssl(1,3)] by blast
  have "aes_gcm_encrypt ssl (Some nonce) p key_hex = Some msg"
    using k ct(1) msg(1) ssl(3) p
    by (simp add: aes_gcm_encrypt_def crypto_consts frame_def int_of_size_id mem_ok_def)
  moreover have "aes_gcm_decrypt ssl msg key_hex = Some p"
    using k msg(2) ssl(3) f ct p
    by (simp add: aes_gcm_decrypt_def crypto_consts int_of_size_id mem_ok_def Let_def)
  ultimately show ?thesis using msg(3) by blast
qed

text \<open>
  C14. Clipboard encryption round trip: with a key of 64 hexadecimal digits, a 12-byte
  nonce from the random generator, memory, and OpenSSL as documented, \<open>aes_gcm_encrypt\<close> of
  a text below 1 GiB minus the frame overhead produces a message, and
  \<open>aes_gcm_decrypt\<close> with the same key returns exactly the text.
\<close>

theorem gcm_roundtrip:
  assumes ssl: "b64_documented ssl" "gcm_documented ssl" "mem_ok ssl"
    and key: "length key_hex = 64" "\<forall>c \<in> set key_hex. isxdigit c"
    and nonce: "length nonce = 12" and p: "length p + 29 < 2 ^ 30"
  shows "\<exists>msg. aes_gcm_encrypt ssl (Some nonce) p key_hex = Some msg
     \<and> aes_gcm_decrypt ssl msg key_hex = Some p"
  using gcm_inverse [OF assms] by blast

theorem gcm_roundtrip_witness:
  "\<exists>msg. aes_gcm_encrypt ref_ssl (Some (replicate 12 7)) [104, 105]
       ''a1b2c3d4e5f6a1b2c3d4e5f6a1b2c3d4a1b2c3d4e5f6a1b2c3d4e5f6a1b2c3d4'' = Some msg
     \<and> aes_gcm_decrypt ref_ssl msg
       ''a1b2c3d4e5f6a1b2c3d4e5f6a1b2c3d4a1b2c3d4e5f6a1b2c3d4e5f6a1b2c3d4'' = Some [104, 105]"
  by (rule gcm_roundtrip [OF ref_b64 ref_gcm ref_mem])
    (simp_all add: isxdigit_def hexval_def)

text \<open>
  C15. Authenticated decryption only: every text \<open>aes_gcm_decrypt\<close> returns was opened by
  the AEAD under the 32-byte key of the configuration, with the nonce, the ciphertext and
  the tag of a version-2 frame of at least 29 bytes; nothing else is accepted.
\<close>

theorem gcm_decrypt_authentic:
  assumes "aes_gcm_decrypt ssl msg key_hex = Some p"
  shows "\<exists>key nonce ct tag.
     sc_hex_to_bytes key_hex 32 = Some key
     \<and> sc_base64_decode ssl (Some msg) = Some ([GCM_VERSION] @ nonce @ ct @ tag)
     \<and> length nonce = 12 \<and> length tag = 16
     \<and> gcm_open ssl key nonce ct (int_of_size (length ct)) tag = Some p"
proof -
  obtain key where k: "sc_hex_to_bytes key_hex 32 = Some key"
    using assms by (auto simp: aes_gcm_decrypt_def crypto_consts split: option.splits)
  obtain frame where fr: "sc_base64_decode ssl (Some msg) = Some frame"
    and len: "29 \<le> length frame" and v: "frame ! 0 = GCM_VERSION"
    and op: "gcm_open ssl key (take 12 (drop 1 frame)) (take (length frame - 29) (drop 13 frame))
       (int_of_size (length frame - 29)) (take 16 (drop (13 + (length frame - 29)) frame)) = Some p"
    using assms k by (auto simp: aes_gcm_decrypt_def crypto_consts Let_def split: option.splits if_splits)
  define ct where "ct = take (length frame - 29) (drop 13 frame)"
  define nonce where "nonce = take 12 (drop 1 frame)"
  define tag where "tag = take 16 (drop (13 + (length frame - 29)) frame)"
  have lens: "length ct = length frame - 29" "length nonce = 12" "length tag = 16"
    using len by (simp_all add: ct_def nonce_def tag_def)
  have "frame = [GCM_VERSION] @ drop 1 frame"
    using len v by (cases frame) auto
  also have "drop 1 frame = nonce @ drop 13 frame"
    using append_take_drop_id [of 12 "drop 1 frame"] by (simp add: nonce_def)
  also have "drop 13 frame = ct @ drop (13 + (length frame - 29)) frame"
    using append_take_drop_id [of "length frame - 29" "drop 13 frame"]
    by (simp add: ct_def add.commute)
  also have "drop (13 + (length frame - 29)) frame = tag"
    using len by (simp add: tag_def)
  finally have "frame = [GCM_VERSION] @ nonce @ ct @ tag" .
  moreover have "gcm_open ssl key nonce ct (int_of_size (length ct)) tag = Some p"
    using op lens(1) by (simp add: ct_def nonce_def tag_def)
  ultimately show ?thesis using k fr lens(2,3) by metis
qed

theorem gcm_decrypt_authentic_witness:
  "\<exists>key nonce ct tag.
     sc_hex_to_bytes ''a1b2c3d4e5f6a1b2c3d4e5f6a1b2c3d4a1b2c3d4e5f6a1b2c3d4e5f6a1b2c3d4'' 32 = Some key
     \<and> sc_base64_decode ref_ssl (Some ''AgcHBwcHBwcHBwcHB8nItra2tra2tra2tra2tra2tg'')
         = Some ([GCM_VERSION] @ nonce @ ct @ tag)
     \<and> length nonce = 12 \<and> length tag = 16
     \<and> gcm_open ref_ssl key nonce ct (int_of_size (length ct)) tag = Some [104, 105]"
  by (rule gcm_decrypt_authentic) code_simp

end
