(* ===== verification/FtAuth.thy ===== *)
theory FtAuth
  imports FtProto Codec
begin

text \<open>
  The proof-of-key handshake of \<open>src/common/ft/ft_auth.c\<close>: the sender of a file sends \<open>AUTH\<close>
  and the HMAC of the transfer identifier under the shared key, the receiver answers \<open>AKOK\<close>
  or \<open>FAIL\<close>. OpenSSL's HMAC is the parameter \<open>hmac_sha256\<close>.
\<close>

section \<open>Model\<close>

text \<open>The key loop: \<open>klen\<close> bytes scanned from \<open>key_hex\<close>; \<open>None\<close> is \<open>return -1\<close>.\<close>

definition hmac_key :: "string \<Rightarrow> byte list option" where
  "hmac_key key_hex =
     (let klen = int_of_size (length key_hex) div 2;
          klen = (if klen > 32 then 32 else klen)
      in case hex_scan_loop key_hex 0 (nat klen) of
           None \<Rightarrow> None
         | Some key \<Rightarrow> if klen < 32 then None else Some key)"

definition ft_compute_hmac :: "openssl \<Rightarrow> string \<Rightarrow> string \<Rightarrow> byte list option" where
  "ft_compute_hmac ssl fid key_hex =
     (case hmac_key key_hex of
        None \<Rightarrow> None
      | Some key \<Rightarrow>
          (let (out, hmac_len) = hmac_sha256 ssl key (bytes_of_str fid)
           in if hmac_len = 32 then Some out else None))"

definition ft_auth_send :: "openssl \<Rightarrow> int \<Rightarrow> string \<Rightarrow> string \<Rightarrow> world \<Rightarrow> int \<times> world" where
  "ft_auth_send ssl fd fid key_hex w =
     (case ft_compute_hmac ssl fid key_hex of
        None \<Rightarrow> (-1, w)
      | Some hmac \<Rightarrow>
          (let (r, w) = ft_send_all fd (bytes_of_str ''AUTH'' @ take 32 hmac) w in
           if r \<noteq> 0 then (-1, w) else
           let (r, resp, w) = ft_recv_all fd 4 w in
           if r \<noteq> 0 then (-1, w) else
           (if resp = bytes_of_str ''AKOK'' then 0 else -1, w)))"

definition ft_auth_recv :: "openssl \<Rightarrow> int \<Rightarrow> string \<Rightarrow> string \<Rightarrow> world \<Rightarrow> int \<times> world" where
  "ft_auth_recv ssl fd fid key_hex w =
     (let (r, buf, w) = ft_recv_all fd 36 w in
      if r \<noteq> 0 then (-1, w) else
      if take 4 buf \<noteq> bytes_of_str ''AUTH'' then
        (-1, snd (ft_send_all fd (bytes_of_str ''FAIL'') w)) else
      case ft_compute_hmac ssl fid key_hex of
        None \<Rightarrow> (-1, snd (ft_send_all fd (bytes_of_str ''FAIL'') w))
      | Some expected \<Rightarrow>
          if take 32 (drop 4 buf) \<noteq> take 32 expected then
            (-1, snd (ft_send_all fd (bytes_of_str ''FAIL'') w))
          else (let (r, w) = ft_send_all fd (bytes_of_str ''AKOK'') w in
                if r \<noteq> 0 then (-1, w) else (0, w)))"

section \<open>The key\<close>

lemma hmac_key_length:
  assumes "hmac_key key_hex = Some key"
  shows "length key = 32"
  using assms by (auto simp: hmac_key_def Let_def dest: length_hex_scan_loop split: option.splits if_splits)

lemma hmac_key_64:
  assumes "length key_hex = 64"
  shows "hmac_key key_hex = sc_hex_to_bytes key_hex 32"
proof -
  have "int_of_size 64 = 64" using int_of_size_id [of 64] by simp
  then show ?thesis
    using assms by (simp add: hmac_key_def sc_hex_to_bytes_def Let_def split: option.split)
qed

lemma hmac_key_hex:
  assumes "length bs = 32"
  shows "hmac_key (sc_bytes_to_hex bs) = Some bs"
proof -
  have l: "length (sc_bytes_to_hex bs) = 64" by (simp add: sc_bytes_to_hex_hex02 length_concat_hex02 assms)
  have x: "\<forall>c \<in> set (sc_bytes_to_hex bs). isxdigit c"
    unfolding sc_bytes_to_hex_hex02 by (rule xdigits_concat_hex02)
  have "sc_hex_to_bytes (sc_bytes_to_hex bs) 32 = Some (hex_pairs (sc_bytes_to_hex bs))"
    by (rule sc_hex_to_bytes_xdigits [OF x]) (simp add: l)
  then show ?thesis using hmac_key_64 [OF l] by (simp add: sc_bytes_to_hex_hex02 hex_pairs_hex02)
qed

lemma hmac_length:
  assumes "ft_compute_hmac ssl fid key_hex = Some mac" and "digest_documented ssl"
  shows "length mac = 32"
  using assms by (auto simp: ft_compute_hmac_def digest_documented_def split: option.splits prod.splits if_splits)
    (metis fst_conv)

lemma hmac_defined:
  assumes "hmac_key key_hex = Some key" and "digest_documented ssl"
  shows "ft_compute_hmac ssl fid key_hex = Some (fst (hmac_sha256 ssl key (bytes_of_str fid)))"
  using assms by (auto simp: ft_compute_hmac_def digest_documented_def split: prod.splits)
    (metis snd_conv)

section \<open>The handshake\<close>

lemma ft_auth_send_ok:
  assumes "ft_compute_hmac ssl fid key_hex = Some mac" and "length mac = 32" and "stream_ok fd w"
    and "stream_in fd w = bytes_of_str ''AKOK'' @ rest"
  obtains w' where "ft_auth_send ssl fd fid key_hex w = (0, w')"
    and "stream_out fd w' = stream_out fd w @ bytes_of_str ''AUTH'' @ mac" and "stream_in fd w' = rest"
proof -
  have l4: "length (bytes_of_str ''AKOK'') = 4" by simp
  have small: "length (bytes_of_str ''AUTH'' @ mac) < 2 ^ 31" "(4::nat) < 2 ^ 31"
    using assms(2) by simp_all
  obtain w1 where 1: "ft_send_all fd (bytes_of_str ''AUTH'' @ mac) w = (0, w1)"
      "stream_out fd w1 = stream_out fd w @ bytes_of_str ''AUTH'' @ mac"
      "stream_in fd w1 = bytes_of_str ''AKOK'' @ rest"
    using ftc.send_accepted [OF assms(3) small(1)] assms(4) by metis
  obtain w2 where 2: "ft_recv_all fd 4 w1 = (0, bytes_of_str ''AKOK'', w2)" "stream_in fd w2 = rest"
      "stream_out fd w2 = stream_out fd w1"
    using ftc.recv_front [OF 1(3) l4 small(2)] by metis
  show ?thesis using that [of w2] assms(1,2) 1 2 by (simp add: ft_auth_send_def)
qed

lemma ft_auth_recv_ok:
  assumes "ft_compute_hmac ssl fid key_hex = Some mac" and "length mac = 32" and "stream_ok fd w"
    and "stream_in fd w = bytes_of_str ''AUTH'' @ mac @ rest"
  obtains w' where "ft_auth_recv ssl fd fid key_hex w = (0, w')"
    and "stream_out fd w' = stream_out fd w @ bytes_of_str ''AKOK''" and "stream_in fd w' = rest"
proof -
  let ?m = "bytes_of_str ''AUTH'' @ mac"
  have m: "length ?m = 36" "stream_in fd w = ?m @ rest" using assms(2,4) by simp_all
  have small: "(36::nat) < 2 ^ 31" "length (bytes_of_str ''AKOK'') < 2 ^ 31" by simp_all
  obtain w1 where 1: "ft_recv_all fd 36 w = (0, ?m, w1)" "stream_in fd w1 = rest"
      "stream_out fd w1 = stream_out fd w" "stream_ok fd w1"
    using ftc.recv_front [OF m(2,1) small(1)] assms(3) by metis
  obtain w2 where 2: "ft_send_all fd (bytes_of_str ''AKOK'') w1 = (0, w2)" "stream_in fd w2 = stream_in fd w1"
      "stream_out fd w2 = stream_out fd w1 @ bytes_of_str ''AKOK''"
    using ftc.send_accepted [OF 1(4) small(2)] by metis
  have f: "take 4 ?m = bytes_of_str ''AUTH''" "take 32 (drop 4 ?m) = mac" using assms(2) by simp_all
  show ?thesis
    by (rule that [of w2]) (simp_all only: ft_auth_recv_def 1 2 assms(1) f Let_def prod.case option.case, simp_all add: assms(2))
qed

lemma ft_auth_recv_zeroE:
  assumes "ft_auth_recv ssl fd fid key_hex w = (0, w')"
  obtains mac buf w1 where "ft_compute_hmac ssl fid key_hex = Some mac"
    and "ft_recv_all fd 36 w = (0, buf, w1)" and "take 4 buf = bytes_of_str ''AUTH''"
    and "take 32 (drop 4 buf) = take 32 mac" and "ft_send_all fd (bytes_of_str ''AKOK'') w1 = (0, w')"
proof -
  obtain r buf w1 where 1: "ft_recv_all fd 36 w = (r, buf, w1)" by (cases "ft_recv_all fd 36 w") auto
  obtain s w2 where 2: "ft_send_all fd (bytes_of_str ''AKOK'') w1 = (s, w2)"
    by (cases "ft_send_all fd (bytes_of_str ''AKOK'') w1")
  show ?thesis
    using assms that [of _ buf w1] 2
    by (auto simp: ft_auth_recv_def 1 split: if_splits option.splits)
qed

text \<open>What a handshake that returned 0 has seen and sent.\<close>

lemma ft_auth_recv_zero:
  assumes "ft_auth_recv ssl fd fid key_hex w = (0, w')"
  obtains mac where "ft_compute_hmac ssl fid key_hex = Some mac"
    and "stream_in fd w = bytes_of_str ''AUTH'' @ take 32 mac @ stream_in fd w'"
    and "stream_out fd w' = stream_out fd w @ bytes_of_str ''AKOK''"
proof -
  obtain mac buf w1 where a: "ft_compute_hmac ssl fid key_hex = Some mac"
      "ft_recv_all fd 36 w = (0, buf, w1)" "take 4 buf = bytes_of_str ''AUTH''"
      "take 32 (drop 4 buf) = take 32 mac" "ft_send_all fd (bytes_of_str ''AKOK'') w1 = (0, w')"
    using ft_auth_recv_zeroE [OF assms] .
  have g: "stream_in fd w = buf @ stream_in fd w1" "length buf = 36" "stream_out fd w1 = stream_out fd w"
    using ftc.recv_got [OF a(2)] by simp_all
  have "buf = take 4 buf @ take 32 (drop 4 buf)" using g(2) by simp
  then have b: "buf = bytes_of_str ''AUTH'' @ take 32 mac" using a(3,4) by simp
  have "stream_out fd w' = stream_out fd w @ bytes_of_str ''AKOK''" "stream_in fd w' = stream_in fd w1"
    using ftc.send_complete [OF a(5)] ftc.send_avail [of fd "bytes_of_str ''AKOK''" w1] a(5) g(3) by simp_all
  then show ?thesis using that [OF a(1)] g(1) b by simp
qed

lemma ft_auth_send_zero:
  assumes "ft_auth_send ssl fd fid key_hex w = (0, w')"
  obtains mac where "ft_compute_hmac ssl fid key_hex = Some mac"
    and "stream_in fd w = bytes_of_str ''AKOK'' @ stream_in fd w'"
    and "stream_out fd w' = stream_out fd w @ bytes_of_str ''AUTH'' @ take 32 mac"
proof -
  obtain mac where mac: "ft_compute_hmac ssl fid key_hex = Some mac"
    using assms by (auto simp: ft_auth_send_def split: option.splits)
  let ?m = "bytes_of_str ''AUTH'' @ take 32 mac"
  obtain r w1 where 1: "ft_send_all fd ?m w = (r, w1)" by (cases "ft_send_all fd ?m w")
  obtain q b w2 where 2: "ft_recv_all fd 4 w1 = (q, b, w2)" by (cases "ft_recv_all fd 4 w1") auto
  have z: "r = 0" "q = 0" "b = bytes_of_str ''AKOK''" "w2 = w'"
    using assms by (auto simp: ft_auth_send_def mac 1 2 split: if_splits)
  have s: "stream_out fd w1 = stream_out fd w @ ?m" "stream_in fd w1 = stream_in fd w"
    using ftc.send_complete [OF 1 [unfolded z]] ftc.send_avail [of fd ?m w] 1 by simp_all
  have g: "stream_in fd w1 = b @ stream_in fd w2" "stream_out fd w2 = stream_out fd w1"
    using ftc.recv_got [OF 2 [unfolded z(2)]] by simp_all
  show ?thesis using that [OF mac] s g z by simp
qed

lemma ft_auth_send_frame: "world_frame {fd} w (snd (ft_auth_send ssl fd fid key_hex w))"
proof (cases "ft_compute_hmac ssl fid key_hex")
  case (Some mac)
  obtain r w1 where 1: "ft_send_all fd (bytes_of_str ''AUTH'' @ take 32 mac) w = (r, w1)"
    by (cases "ft_send_all fd (bytes_of_str ''AUTH'' @ take 32 mac) w")
  obtain s b w2 where 2: "ft_recv_all fd 4 w1 = (s, b, w2)" by (cases "ft_recv_all fd 4 w1") auto
  have "world_frame {fd} w w1" "world_frame {fd} w1 w2"
    using ft_send_all_frame [of fd w] ft_recv_all_frame [of fd w1] by (metis 1 2 snd_conv)+
  then show ?thesis using world_frame_trans by (auto simp: ft_auth_send_def Some 1 2)
qed (simp add: ft_auth_send_def)

lemma ft_auth_recv_frame: "world_frame {fd} w (snd (ft_auth_recv ssl fd fid key_hex w))"
proof -
  obtain r buf w1 where 1: "ft_recv_all fd 36 w = (r, buf, w1)" by (cases "ft_recv_all fd 36 w") auto
  have f: "world_frame {fd} w w1" using ft_recv_all_frame [of fd w 36] 1 by simp
  have s: "world_frame {fd} w (snd (ft_send_all fd p w1))" for p
    using f ft_send_all_frame [of fd w1 p] by (rule world_frame_trans)
  obtain q w2 where 2: "ft_send_all fd (bytes_of_str ''AKOK'') w1 = (q, w2)"
    by (cases "ft_send_all fd (bytes_of_str ''AKOK'') w1")
  have "world_frame {fd} w w2" using s [of "bytes_of_str ''AKOK''"] 2 by simp
  then show ?thesis
    using f s by (auto simp: ft_auth_recv_def 1 2 split: option.splits)
qed

section \<open>Properties\<close>

text \<open>
  C34. Two ends that hold the same usable key and the same transfer identifier authenticate
  each other: when each end receives what the other sends, both handshakes return 0.
\<close>

theorem handshake_completes:
  assumes "ft_compute_hmac ssl fid key_hex = Some mac" and "digest_documented ssl"
    and "stream_ok fds w" and "stream_ok fdr v" and "stream_out fds w = []" and "stream_out fdr v = []"
    and "stream_in fdr v = bytes_of_str ''AUTH'' @ mac @ data"
    and "stream_in fds w = stream_out fdr (snd (ft_auth_recv ssl fdr fid key_hex v))"
  shows "fst (ft_auth_send ssl fds fid key_hex w) = 0 \<and> fst (ft_auth_recv ssl fdr fid key_hex v) = 0 \<and>
         stream_out fds (snd (ft_auth_send ssl fds fid key_hex w)) = bytes_of_str ''AUTH'' @ mac \<and>
         stream_in fdr (snd (ft_auth_recv ssl fdr fid key_hex v)) = data"
proof -
  note l = hmac_length [OF assms(1,2)]
  obtain v' where v': "ft_auth_recv ssl fdr fid key_hex v = (0, v')"
      "stream_out fdr v' = bytes_of_str ''AKOK''" "stream_in fdr v' = data"
    using ft_auth_recv_ok [OF assms(1) l assms(4,7)] assms(6) by auto
  then have i: "stream_in fds w = bytes_of_str ''AKOK'' @ []" using assms(8) by simp
  obtain w' where "ft_auth_send ssl fds fid key_hex w = (0, w')"
      "stream_out fds w' = bytes_of_str ''AUTH'' @ mac"
    using ft_auth_send_ok [OF assms(1) l assms(3) i] assms(5) by auto
  with v' show ?thesis by simp
qed

text \<open>
  C33. \<open>ft_auth_recv\<close> accepts a peer only when the peer presented the HMAC of this transfer's
  identifier under this key, no byte of the data behind it is consumed, and with a key that
  is no 32 bytes of hexadecimal digits nobody is accepted.
\<close>

theorem auth_recv_sound:
  assumes "ft_auth_recv ssl fd fid key_hex w = (r, w')" and "digest_documented ssl"
  shows "(r = 0 \<longrightarrow> (\<exists>key. hmac_key key_hex = Some key \<and>
            stream_in fd w = bytes_of_str ''AUTH'' @ fst (hmac_sha256 ssl key (bytes_of_str fid)) @ stream_in fd w' \<and>
            stream_out fd w' = stream_out fd w @ bytes_of_str ''AKOK'')) \<and>
         (hmac_key key_hex = None \<longrightarrow> r = -1)"
proof (intro conjI impI)
  assume "r = 0"
  then obtain mac where a: "ft_compute_hmac ssl fid key_hex = Some mac"
      "stream_in fd w = bytes_of_str ''AUTH'' @ take 32 mac @ stream_in fd w'"
      "stream_out fd w' = stream_out fd w @ bytes_of_str ''AKOK''"
    using ft_auth_recv_zero [of ssl fd fid key_hex w w'] assms(1) by metis
  obtain key where key: "hmac_key key_hex = Some key" using a(1) by (auto simp: ft_compute_hmac_def split: option.splits)
  have "mac = fst (hmac_sha256 ssl key (bytes_of_str fid))" "length mac = 32"
    using hmac_defined [OF key assms(2), of fid] hmac_length [OF a(1) assms(2)] a(1) by simp_all
  then show "\<exists>key. hmac_key key_hex = Some key \<and>
        stream_in fd w = bytes_of_str ''AUTH'' @ fst (hmac_sha256 ssl key (bytes_of_str fid)) @ stream_in fd w' \<and>
        stream_out fd w' = stream_out fd w @ bytes_of_str ''AKOK''"
    using key a(2,3) by simp
next
  assume "hmac_key key_hex = None"
  then have "ft_compute_hmac ssl fid key_hex = None" by (simp add: ft_compute_hmac_def)
  then show "r = -1" using assms(1) by (auto simp: ft_auth_recv_def split: prod.splits if_splits)
qed

definition sample_key :: string where
  "sample_key = sc_bytes_to_hex (replicate 32 0xAA)"

definition sample_mac :: "byte list" where
  "sample_mac = fst (hmac_sha256 ref_ssl (replicate 32 0xAA) (bytes_of_str (fi_file_id sample_info)))"

lemma sample_hmac_key: "hmac_key sample_key = Some (replicate 32 0xAA)"
  unfolding sample_key_def by (rule hmac_key_hex) simp

lemma sample_hmac: "ft_compute_hmac ref_ssl (fi_file_id sample_info) sample_key = Some sample_mac"
  unfolding sample_mac_def by (rule hmac_defined [OF sample_hmac_key ref_digest])

lemma sample_mac_length: "length sample_mac = 32"
  by (simp add: sample_mac_def ref_ssl_def)

definition sample_prover :: world where
  "sample_prover = base_world (new_sock\<lparr>rx := [bytes_of_str ''AUTH'', sample_mac @ [5]]\<rparr>)"

lemma sample_prover_facts:
  "stream_ok 3 sample_prover" "stream_out 3 sample_prover = []"
  "stream_in 3 sample_prover = bytes_of_str ''AUTH'' @ sample_mac @ [5]"
  by (simp_all add: sample_prover_def base_world_def new_sock_def stream_ok_def sends_ok_def
      stream_out_def stream_in_def) (simp_all add: bytes_of_str_def)

theorem handshake_completes_witness:
  "fst (ft_auth_send ref_ssl 4 (fi_file_id sample_info) sample_key
          (base_world (new_sock\<lparr>rx := [bytes_of_str ''AK'', bytes_of_str ''OK'']\<rparr>))) = 0 \<and>
   fst (ft_auth_recv ref_ssl 3 (fi_file_id sample_info) sample_key sample_prover) = 0"
proof -
  let ?w = "base_world (new_sock\<lparr>rx := [bytes_of_str ''AK'', bytes_of_str ''OK'']\<rparr>)"
  have w: "stream_in 4 ?w = bytes_of_str ''AKOK''" "stream_ok 4 ?w" "stream_out 4 ?w = []"
    by (simp_all add: base_world_def new_sock_def stream_ok_def sends_ok_def stream_out_def stream_in_def)
      (simp_all add: bytes_of_str_def)
  have "stream_out 3 (snd (ft_auth_recv ref_ssl 3 (fi_file_id sample_info) sample_key sample_prover)) = bytes_of_str ''AKOK''"
    using ft_auth_recv_ok [OF sample_hmac sample_mac_length sample_prover_facts(1,3)] sample_prover_facts(2)
    by (metis append_Nil snd_conv)
  then show ?thesis
    using handshake_completes [OF sample_hmac ref_digest w(2) sample_prover_facts(1) w(3) sample_prover_facts(2,3)] w(1)
    by simp
qed

theorem auth_recv_sound_witness:
  "\<exists>w'. ft_auth_recv ref_ssl 3 (fi_file_id sample_info) sample_key sample_prover = (0, w') \<and>
     stream_in 3 sample_prover = bytes_of_str ''AUTH'' @
       fst (hmac_sha256 ref_ssl (replicate 32 0xAA) (bytes_of_str (fi_file_id sample_info))) @ stream_in 3 w'"
proof -
  obtain w' where w': "ft_auth_recv ref_ssl 3 (fi_file_id sample_info) sample_key sample_prover = (0, w')"
    using ft_auth_recv_ok [OF sample_hmac sample_mac_length sample_prover_facts(1,3)] .
  show ?thesis
    using auth_recv_sound [OF w' ref_digest] w' by (simp add: sample_hmac_key)
qed

end
