(* ===== verification/FtRace.thy ===== *)
theory FtRace
  imports FtAuth "HOL-Library.Multiset"
begin

text \<open>
  Finding a connection to the peer: \<open>src/common/ft/ft_addr.c\<close> (own addresses, the listening
  socket, racing connects) and \<open>src/common/ft/ft_lan.c\<close> (racing outgoing connects, an
  incoming connection and a punched NAT socket, without and with authentication). The
  branches are those of the \<open>poll\<close> platforms.

  The locale \<open>candidate_race\<close> states what a round relies on when it looks at one candidate
  socket; its lemmas about whole rounds serve both variants.
\<close>

section \<open>Own addresses and servers\<close>

definition FT_MAX_ADDRS :: nat where "FT_MAX_ADDRS = 8"

fun ifa_loop :: "netenv \<Rightarrow> int \<Rightarrow> ifaddr list \<Rightarrow> string list \<Rightarrow> string list" where
  "ifa_loop env port [] addrs = addrs"
| "ifa_loop env port (ifa # r) addrs =
     (if \<not> length addrs < FT_MAX_ADDRS then addrs
      else if \<not> ifa_inet ifa then ifa_loop env port r addrs
      else if ifa_loopback ifa then ifa_loop env port r addrs
      else if \<not> ifa_up ifa then ifa_loop env port r addrs
      else ifa_loop env port r
             (addrs @ [fst (snprintf_c 64 (inet_ntop env (ifa_addr ifa) @ '':'' @ dec_of_int port))]))"

text \<open>The list is \<open>list->addrs\<close> up to \<open>list->count\<close>.\<close>

definition ft_get_local_addresses :: "netenv \<Rightarrow> int \<Rightarrow> string list" where
  "ft_get_local_addresses env port =
     (case getifaddrs env of None \<Rightarrow> [] | Some l \<Rightarrow> ifa_loop env port l [])"

definition ft_start_server :: "netenv \<Rightarrow> world \<Rightarrow> int \<times> int \<times> world" where
  "ft_start_server env w =
     (let (fd, w) = os_socket w in
      if fd = FT_INVALID_SOCK then (FT_INVALID_SOCK, 0, w) else
      if bind_res env fd < 0 then (FT_INVALID_SOCK, 0, ft_close fd w) else
      let out_port = uint (sockname_port env fd) in
      if listen_res env fd < 0 then (FT_INVALID_SOCK, out_port, ft_close fd w)
      else (fd, out_port, w))"

definition ft_accept :: "int \<Rightarrow> world \<Rightarrow> int \<times> world" where
  "ft_accept sfd w =
     (let (p, w) = os_poll w;
          (result, w) = (if sfd \<in> set (pr_in p) \<union> set (pr_err p) then os_accept w else (FT_INVALID_SOCK, w))
      in (result, if result \<noteq> FT_INVALID_SOCK then ft_optimize_socket result w else w))"

section \<open>Racing connections\<close>

text \<open>One non-blocking connect per address; -1 for an address that could not be tried.\<close>

fun start_connects :: "netenv \<Rightarrow> string list \<Rightarrow> world \<Rightarrow> int list \<times> world" where
  "start_connects env [] w = ([], w)"
| "start_connects env (a # as) w =
     (case ft_parse_addr env a of
        None \<Rightarrow> (let (cs, w) = start_connects env as w in (FT_INVALID_SOCK # cs, w))
      | Some sa \<Rightarrow>
          (let (s, w) = os_socket w in
           if s = FT_INVALID_SOCK then
             (let (cs, w) = start_connects env as w in (FT_INVALID_SOCK # cs, w))
           else
             (let w = os_connect s sa (ft_set_nonblocking s w);
                  (cs, w) = start_connects env as w
              in (s # cs, w))))"

text \<open>
  The loop over the candidates of one \<open>poll\<close> round, until a result is found: \<open>look\<close> gives the
  candidate's new entry, the result (or -1) and the new world.
\<close>

fun scan_conns :: "(int \<Rightarrow> world \<Rightarrow> int \<times> int \<times> world) \<Rightarrow> int list \<Rightarrow> int \<Rightarrow> world \<Rightarrow> int list \<times> int \<times> world" where
  "scan_conns look [] result w = ([], result, w)"
| "scan_conns look (c # cs) result w =
     (if result \<noteq> FT_INVALID_SOCK then (c # cs, result, w)
      else (let (c', result, w) = look c w;
                (cs', result, w) = scan_conns look cs result w
            in (c' # cs', result, w)))"

definition look_connected :: "poll_round \<Rightarrow> int \<Rightarrow> world \<Rightarrow> int \<times> int \<times> world" where
  "look_connected p c w =
     (if c \<noteq> FT_INVALID_SOCK \<and> c \<in> set (pr_out p) \<and> c \<notin> set (pr_soerr p)
      then (FT_INVALID_SOCK, c, w) else (c, FT_INVALID_SOCK, w))"

definition close_all :: "int list \<Rightarrow> world \<Rightarrow> world" where
  "close_all cs w = fold (\<lambda>c w. if c \<noteq> FT_INVALID_SOCK then ft_close c w else w) cs w"

function connect_loop :: "int \<Rightarrow> int \<Rightarrow> int list \<Rightarrow> int \<Rightarrow> world \<Rightarrow> int list \<times> int \<times> world" where
  "connect_loop timeout_ms elapsed cs result w =
     (if elapsed < timeout_ms \<and> result = FT_INVALID_SOCK then
        (if \<forall>c \<in> set cs. c = FT_INVALID_SOCK then (cs, result, w)
         else (let (p, w) = os_poll w;
                   (cs, result, w) = scan_conns (look_connected p) cs result w
               in connect_loop timeout_ms (elapsed + 50) cs result w))
      else (cs, result, w))"
  by pat_completeness auto
termination by (relation "measure (\<lambda>(t, e, _). nat (t - e))") auto

declare connect_loop.simps [simp del]

definition ft_connect_any :: "netenv \<Rightarrow> string list \<Rightarrow> int \<Rightarrow> world \<Rightarrow> int \<times> world" where
  "ft_connect_any env addrs timeout_ms w =
     (if addrs = [] then (FT_INVALID_SOCK, w)
      else (let (cs, w) = start_connects env addrs w;
                (cs, result, w) = connect_loop timeout_ms 0 cs FT_INVALID_SOCK w;
                w = close_all cs w
            in (result, if result \<noteq> FT_INVALID_SOCK
                        then ft_optimize_socket result (ft_set_blocking result w) else w)))"

section \<open>Racing in both directions\<close>

record lan_state =
  conn_socks :: "int list"
  nat_sock :: int
  lan_result :: int
  lan_world :: world

text \<open>
  One round after \<open>poll\<close>: the listening socket, the outgoing candidates, the NAT socket.
  \<open>greet\<close> is what is done with an accepted connection: the result it gives, or -1.
\<close>

definition lan_listen :: "(int \<Rightarrow> world \<Rightarrow> int \<times> world) \<Rightarrow> int \<Rightarrow> poll_round \<Rightarrow> world \<Rightarrow> int \<times> world" where
  "lan_listen greet listen_fd p w =
     (if listen_fd \<noteq> FT_INVALID_SOCK \<and> listen_fd \<in> set (pr_in p) then
        (let (c, w) = os_accept w
         in if c \<noteq> FT_INVALID_SOCK then greet c w else (FT_INVALID_SOCK, w))
      else (FT_INVALID_SOCK, w))"

definition lan_nat :: "(int \<Rightarrow> world \<Rightarrow> int \<times> int \<times> world) \<Rightarrow> int \<Rightarrow> int \<Rightarrow> world \<Rightarrow> int \<times> int \<times> world" where
  "lan_nat look ns result w =
     (if result = FT_INVALID_SOCK \<and> ns \<noteq> FT_INVALID_SOCK then look ns w else (ns, result, w))"

definition lan_round ::
  "(int \<Rightarrow> world \<Rightarrow> int \<times> world) \<Rightarrow> (int \<Rightarrow> world \<Rightarrow> int \<times> int \<times> world) \<Rightarrow> int \<Rightarrow> poll_round \<Rightarrow>
     lan_state \<Rightarrow> lan_state" where
  "lan_round greet look listen_fd p st =
     (let (result, w) = lan_listen greet listen_fd p (lan_world st);
          (cs, result, w) = scan_conns look (conn_socks st) result w;
          (ns, result, w) = lan_nat look (nat_sock st) result w
      in \<lparr>conn_socks = cs, nat_sock = ns, lan_result = result, lan_world = w\<rparr>)"

definition lan_start :: "netenv \<Rightarrow> int \<Rightarrow> string list \<Rightarrow> int \<Rightarrow> world \<Rightarrow> lan_state" where
  "lan_start env listen_fd peer_addrs ns w =
     (let (cs, w) = start_connects env peer_addrs w;
          w = (if listen_fd \<noteq> FT_INVALID_SOCK then ft_set_nonblocking listen_fd w else w)
      in \<lparr>conn_socks = cs, nat_sock = ns, lan_result = FT_INVALID_SOCK, lan_world = w\<rparr>)"

definition lan_cleanup :: "lan_state \<Rightarrow> world" where
  "lan_cleanup st =
     (let w = close_all (conn_socks st) (lan_world st)
      in if nat_sock st \<noteq> FT_INVALID_SOCK then ft_close (nat_sock st) w else w)"

definition greet_plain :: "int \<Rightarrow> world \<Rightarrow> int \<times> world" where
  "greet_plain c w = (c, w)"

function lan_loop :: "int \<Rightarrow> int \<Rightarrow> int \<Rightarrow> lan_state \<Rightarrow> lan_state" where
  "lan_loop listen_fd timeout_ms elapsed st =
     (if elapsed < timeout_ms \<and> lan_result st = FT_INVALID_SOCK then
        (let (p, w) = os_poll (lan_world st)
         in lan_loop listen_fd timeout_ms (elapsed + 50)
              (lan_round greet_plain (look_connected p) listen_fd p (st\<lparr>lan_world := w\<rparr>)))
      else st)"
  by pat_completeness auto
termination by (relation "measure (\<lambda>(l, t, e, _). nat (t - e))") auto

declare lan_loop.simps [simp del]

definition ft_lan_transfer :: "netenv \<Rightarrow> int \<Rightarrow> string list \<Rightarrow> int \<Rightarrow> int \<Rightarrow> world \<Rightarrow> int \<times> world" where
  "ft_lan_transfer env listen_fd peer_addrs ns timeout_ms w =
     (let st = lan_loop listen_fd timeout_ms 0 (lan_start env listen_fd peer_addrs ns w);
          result = lan_result st;
          w = lan_cleanup st;
          w = (if listen_fd \<noteq> FT_INVALID_SOCK then ft_set_blocking listen_fd w else w)
      in (result, if result \<noteq> FT_INVALID_SOCK
                  then ft_optimize_socket result (ft_set_blocking result w) else w))"

section \<open>With authentication\<close>

definition try_authenticate ::
  "openssl \<Rightarrow> string \<Rightarrow> string \<Rightarrow> bool \<Rightarrow> int \<Rightarrow> world \<Rightarrow> int \<times> world" where
  "try_authenticate ssl fid key_hex is_sender c w =
     (let w = ft_set_sock_timeout c 2000 (ft_optimize_socket c (ft_set_blocking c w));
          (ok, w) = (if is_sender then ft_auth_send ssl c fid key_hex w else ft_auth_recv ssl c fid key_hex w)
      in if ok = 0 then (0, ft_set_sock_timeout c 0 w) else (-1, ft_close c w))"

definition greet_auth :: "openssl \<Rightarrow> string \<Rightarrow> string \<Rightarrow> bool \<Rightarrow> int \<Rightarrow> world \<Rightarrow> int \<times> world" where
  "greet_auth ssl fid key_hex is_sender c w =
     (let (ok, w) = try_authenticate ssl fid key_hex is_sender c w
      in (if ok = 0 then c else FT_INVALID_SOCK, w))"

definition look_auth ::
  "openssl \<Rightarrow> string \<Rightarrow> string \<Rightarrow> bool \<Rightarrow> poll_round \<Rightarrow> int \<Rightarrow> world \<Rightarrow> int \<times> int \<times> world" where
  "look_auth ssl fid key_hex is_sender p c w =
     (if c \<noteq> FT_INVALID_SOCK \<and> (c \<in> set (pr_out p) \<or> c \<in> set (pr_err p)) then
        (if c \<notin> set (pr_soerr p) then
           (let (r, w) = greet_auth ssl fid key_hex is_sender c w in (FT_INVALID_SOCK, r, w))
         else (FT_INVALID_SOCK, FT_INVALID_SOCK, ft_close c w))
      else (c, FT_INVALID_SOCK, w))"

text \<open>
  The authenticated loop runs on the clock, read at the head of every round; \<open>None\<close> is a loop
  that has not ended when the rounds considered are used up.
\<close>

fun auth_loop ::
  "(int \<Rightarrow> world \<Rightarrow> int \<times> world) \<Rightarrow> (poll_round \<Rightarrow> int \<Rightarrow> world \<Rightarrow> int \<times> int \<times> world) \<Rightarrow> int \<Rightarrow> int \<Rightarrow> int \<Rightarrow>
     poll_round list \<Rightarrow> lan_state \<Rightarrow> lan_state option" where
  "auth_loop greet look listen_fd timeout_ms t0 [] st =
     (if lan_result st \<noteq> FT_INVALID_SOCK then Some st else None)"
| "auth_loop greet look listen_fd timeout_ms t0 (p # ps) st =
     (if lan_result st \<noteq> FT_INVALID_SOCK then Some st
      else if timeout_ms - c_int (pr_now p - t0) \<le> 0 then Some st
      else auth_loop greet look listen_fd timeout_ms t0 ps (lan_round greet (look p) listen_fd p st))"

definition ft_lan_transfer_auth ::
  "openssl \<Rightarrow> netenv \<Rightarrow> int \<Rightarrow> string list \<Rightarrow> int \<Rightarrow> int \<Rightarrow> string option \<Rightarrow> string option \<Rightarrow> bool \<Rightarrow> int \<Rightarrow>
     world \<Rightarrow> (int \<times> world) option" where
  "ft_lan_transfer_auth ssl env listen_fd peer_addrs ns timeout_ms fido keyo is_sender t0 w =
     (case (fido, keyo) of
        (Some fid, Some key_hex) \<Rightarrow>
          if key_hex = [] then Some (ft_lan_transfer env listen_fd peer_addrs ns timeout_ms w)
          else map_option (\<lambda>st. (lan_result st, lan_cleanup st))
                 (auth_loop (greet_auth ssl fid key_hex is_sender) (look_auth ssl fid key_hex is_sender)
                    listen_fd timeout_ms t0 (rounds w) (lan_start env listen_fd peer_addrs ns w))
      | _ \<Rightarrow> Some (ft_lan_transfer env listen_fd peer_addrs ns timeout_ms w))"

section \<open>What a round relies on\<close>

text \<open>The descriptors in a list that are sockets, with multiplicity; unchanged connections.\<close>

definition slot :: "int \<Rightarrow> int multiset" where
  "slot c = (if c = FT_INVALID_SOCK then {#} else {#c#})"

definition ledger :: "int list \<Rightarrow> int multiset" where
  "ledger cs = mset (filter (\<lambda>c. c \<noteq> FT_INVALID_SOCK) cs)"

definition same_streams :: "int \<Rightarrow> world \<Rightarrow> world \<Rightarrow> bool" where
  "same_streams fd w w' \<longleftrightarrow> stream_in fd w' = stream_in fd w \<and> stream_out fd w' = stream_out fd w"

text \<open>No two candidates, present or still to be accepted, are the same socket, and none has been used.\<close>

definition valid_fds :: "int list \<Rightarrow> int list" where
  "valid_fds cs = filter (\<lambda>c. c \<noteq> FT_INVALID_SOCK) cs"

definition race_inv :: "world \<Rightarrow> lan_state \<Rightarrow> bool" where
  "race_inv w0 st \<longleftrightarrow>
     distinct (valid_fds (conn_socks st @ [nat_sock st] @ new_conns (lan_world st))) \<and>
     (\<forall>fd \<in> set (valid_fds (conn_socks st @ [nat_sock st] @ new_conns (lan_world st))).
        same_streams fd w0 (lan_world st))"

lemma valid_fds_simps [simp]:
  "valid_fds [] = []" "valid_fds (c # cs) = (if c = FT_INVALID_SOCK then valid_fds cs else c # valid_fds cs)"
  "valid_fds (as @ bs) = valid_fds as @ valid_fds bs"
  "fd \<in> set (valid_fds cs) \<longleftrightarrow> fd \<in> set cs \<and> fd \<noteq> FT_INVALID_SOCK"
  by (auto simp: valid_fds_def)

lemma race_invD:
  assumes "race_inv w0 st"
  shows "distinct (valid_fds (conn_socks st))" and "distinct (valid_fds (new_conns (lan_world st)))"
    and "fd \<in> set (conn_socks st) \<Longrightarrow> fd \<noteq> FT_INVALID_SOCK \<Longrightarrow>
           fd \<notin> set (new_conns (lan_world st)) \<and> fd \<noteq> nat_sock st"
    and "nat_sock st \<noteq> FT_INVALID_SOCK \<Longrightarrow> nat_sock st \<notin> set (new_conns (lan_world st))"
    and "fd \<in> set (conn_socks st) \<or> fd = nat_sock st \<or> fd \<in> set (new_conns (lan_world st)) \<Longrightarrow>
           fd \<noteq> FT_INVALID_SOCK \<Longrightarrow> same_streams fd w0 (lan_world st)"
  using assms by (auto simp: race_inv_def split: if_splits)

lemma ledger_simps [simp]:
  "ledger [] = {#}" "ledger (c # cs) = slot c + ledger cs"
  "ledger (as @ bs) = ledger as + ledger bs"
  by (simp_all add: ledger_def slot_def)

lemma slot_simps [simp]: "slot FT_INVALID_SOCK = {#}" "c \<noteq> FT_INVALID_SOCK \<Longrightarrow> slot c = {#c#}"
  by (simp_all add: slot_def)

lemma same_streams_refl [simp]: "same_streams fd w w"
  by (simp add: same_streams_def)

lemma same_streams_trans: "same_streams fd a b \<Longrightarrow> same_streams fd b c \<Longrightarrow> same_streams fd a c"
  by (simp add: same_streams_def)

text \<open>
  \<open>greet\<close> and \<open>look\<close> account for every socket they take: it is kept, returned or closed.
  \<open>proved c w w'\<close> is what a returned connection \<open>c\<close> has shown between \<open>w\<close> and \<open>w'\<close>.
\<close>

locale candidate_race =
  fixes greet :: "int \<Rightarrow> world \<Rightarrow> int \<times> world"
    and look :: "poll_round \<Rightarrow> int \<Rightarrow> world \<Rightarrow> int \<times> int \<times> world"
    and proved :: "int \<Rightarrow> world \<Rightarrow> world \<Rightarrow> bool"
  assumes greet_account: "c \<noteq> FT_INVALID_SOCK \<Longrightarrow> greet c w = (r, w') \<Longrightarrow>
        ledger [r] + mset (closed w') = {#c#} + mset (closed w)"
    and greet_frame: "greet c w = (r, w') \<Longrightarrow>
        new_conns w' = new_conns w \<and> (\<forall>fd. fd \<noteq> c \<longrightarrow> same_streams fd w w')"
    and greet_proved: "greet c w = (r, w') \<Longrightarrow> r \<noteq> FT_INVALID_SOCK \<Longrightarrow> r = c \<and> proved c w w'"
    and look_account: "look p c w = (c', r, w') \<Longrightarrow>
        ledger [c', r] + mset (closed w') = ledger [c] + mset (closed w)"
    and look_frame: "look p c w = (c', r, w') \<Longrightarrow>
        new_conns w' = new_conns w \<and> (\<forall>fd. fd \<noteq> c \<longrightarrow> same_streams fd w w')"
    and look_step: "look p c w = (c', r, w') \<Longrightarrow>
        c' = c \<and> r = FT_INVALID_SOCK \<and> w' = w \<or> c' = FT_INVALID_SOCK \<and> c \<noteq> FT_INVALID_SOCK"
    and look_proved: "look p c w = (c', r, w') \<Longrightarrow> r \<noteq> FT_INVALID_SOCK \<Longrightarrow> r = c \<and> proved c w w'"
    and proved_start: "proved c w w' \<Longrightarrow> same_streams c u w \<Longrightarrow> proved c u w'"
    and proved_end: "proved c w w' \<Longrightarrow> same_streams c w' u \<Longrightarrow> proved c w u"
begin

lemma scan_account:
  "scan_conns (look p) cs res w = (cs', r, w') \<Longrightarrow>
     ledger (cs' @ [r]) + mset (closed w') = ledger (cs @ [res]) + mset (closed w)"
proof (induction cs arbitrary: res w cs')
  case (Cons c cs)
  show ?case
  proof (cases "res = FT_INVALID_SOCK")
    case True
    obtain c1 r1 w1 where l: "look p c w = (c1, r1, w1)" by (cases "look p c w") auto
    obtain cs1 where s: "scan_conns (look p) cs r1 w1 = (cs1, r, w')" "cs' = c1 # cs1"
      using Cons(2) True l by (auto split: prod.splits)
    have "ledger (cs' @ [r]) + mset (closed w') = slot c1 + (ledger (cs @ [r1]) + mset (closed w1))"
      using Cons(1) [OF s(1)] s(2) by (simp add: ac_simps)
    also have "\<dots> = ledger cs + (ledger [c1, r1] + mset (closed w1))" by (simp add: ac_simps)
    also have "\<dots> = ledger cs + (ledger [c] + mset (closed w))" using look_account [OF l] by simp
    finally show ?thesis using True by (simp add: ac_simps)
  qed (use Cons(2) in auto)
qed simp

lemma scan_shape:
  "scan_conns (look p) cs res w = (cs', r, w') \<Longrightarrow>
     set cs' \<subseteq> set cs \<union> {FT_INVALID_SOCK} \<and> new_conns w' = new_conns w \<and>
     (res \<noteq> FT_INVALID_SOCK \<longrightarrow> cs' = cs \<and> r = res \<and> w' = w)"
proof (induction cs arbitrary: res w cs')
  case (Cons c cs)
  show ?case
  proof (cases "res = FT_INVALID_SOCK")
    case True
    obtain c1 r1 w1 where l: "look p c w = (c1, r1, w1)" by (cases "look p c w") auto
    obtain cs1 where s: "scan_conns (look p) cs r1 w1 = (cs1, r, w')" "cs' = c1 # cs1"
      using Cons(2) True l by (auto split: prod.splits)
    show ?thesis using Cons(1) [OF s(1)] look_frame [OF l] look_step [OF l] True s(2) by auto
  qed (use Cons(2) in auto)
qed simp

lemma scan_keeps:
  "scan_conns (look p) cs res w = (cs', r, w') \<Longrightarrow> distinct (valid_fds cs) \<Longrightarrow>
     fd \<notin> set cs \<or> fd \<in> set cs' \<Longrightarrow> fd \<noteq> FT_INVALID_SOCK \<Longrightarrow> same_streams fd w w'"
proof (induction cs arbitrary: res w cs')
  case (Cons c cs)
  show ?case
  proof (cases "res = FT_INVALID_SOCK")
    case True
    obtain c1 r1 w1 where l: "look p c w = (c1, r1, w1)" by (cases "look p c w") auto
    obtain cs1 where s: "scan_conns (look p) cs r1 w1 = (cs1, r, w')" "cs' = c1 # cs1"
      using Cons(2) True l by (auto split: prod.splits)
    note sub = scan_shape [OF s(1)] and st = look_step [OF l]
    have d: "distinct (valid_fds cs)" "fd = c \<Longrightarrow> fd \<notin> set cs"
      using Cons(3,5) by (auto split: if_splits)
    have keep: "fd \<notin> set cs \<or> fd \<in> set cs1" using Cons(4,5) s(2) d(2) st by auto
    have first: "same_streams fd w w1"
    proof (cases "fd = c")
      case True
      then have "c1 = c" using Cons(4,5) s(2) d(2) sub st by auto
      then show ?thesis using st True Cons(5) by auto
    qed (use look_frame [OF l] in auto)
    show ?thesis using same_streams_trans [OF first Cons(1) [OF s(1) d(1) keep Cons(5)]] .
  qed (use Cons(2) in auto)
qed simp

lemma scan_proved:
  "scan_conns (look p) cs FT_INVALID_SOCK w = (cs', r, w') \<Longrightarrow>
     distinct (valid_fds cs) \<Longrightarrow> r \<noteq> FT_INVALID_SOCK \<Longrightarrow>
     r \<in> set cs \<and> proved r w w'"
proof (induction cs arbitrary: w cs')
  case (Cons c cs)
  obtain c1 r1 w1 where l: "look p c w = (c1, r1, w1)" by (cases "look p c w") auto
  obtain cs1 where s: "scan_conns (look p) cs r1 w1 = (cs1, r, w')" "cs' = c1 # cs1"
    using Cons(2) l by (auto split: prod.splits)
  show ?case
  proof (cases "r1 = FT_INVALID_SOCK")
    case True
    have d: "distinct (valid_fds cs)" using Cons(3) by (auto split: if_splits)
    have i: "r \<in> set cs" "proved r w1 w'" using Cons(1) [OF s(1) [unfolded True] d Cons(4)] by auto
    then have "r \<noteq> c" using Cons(3,4) by (auto split: if_splits)
    then show ?thesis using i look_frame [OF l] proved_start by auto
  next
    case False
    then have "r = r1" "w' = w1" using scan_shape [OF s(1)] by auto
    then show ?thesis using look_proved [OF l False] by auto
  qed
qed simp

text \<open>A whole round: what it takes from the listener is added to the account.\<close>

lemma listen_account:
  assumes "lan_listen greet lfd p w = (r, w')"
  obtains acc where "new_conns w = acc @ new_conns w'"
    and "ledger [r] + mset (closed w') = ledger acc + mset (closed w)"
proof (cases "lfd \<noteq> FT_INVALID_SOCK \<and> lfd \<in> set (pr_in p)")
  case True
  obtain c w0 where a: "os_accept w = (c, w0)" by (cases "os_accept w")
  show ?thesis
  proof (cases "c = FT_INVALID_SOCK")
    case no: True
    then have "r = FT_INVALID_SOCK" "w' = w0" using assms a True by (auto simp: lan_listen_def)
    then show ?thesis
      using a no by (intro that [of "if new_conns w = [] then [] else [c]"])
        (auto simp: os_accept_def split: list.splits)
  next
    case False
    then have gr: "greet c w0 = (r, w')" using assms a True by (auto simp: lan_listen_def)
    have "new_conns w = [c] @ new_conns w0" "closed w0 = closed w"
      using a False by (auto simp: os_accept_def FT_INVALID_SOCK_def split: list.splits)
    then show ?thesis
      using greet_account [OF False gr] greet_frame [OF gr] False by (intro that [of "[c]"]) simp_all
  qed
next
  case False
  then show ?thesis using assms by (intro that [of "[]"]) (auto simp: lan_listen_def)
qed

lemma nat_account:
  "lan_nat (look p) ns res w = (ns', r, w') \<Longrightarrow>
     ledger [ns', r] + mset (closed w') = ledger [ns, res] + mset (closed w) \<and> new_conns w' = new_conns w"
  using look_account [of p ns w ns' r w'] look_frame [of p ns w ns' r w']
  by (auto simp: lan_nat_def split: if_splits)

lemma round_steps:
  assumes "lan_round greet (look p) lfd p st = st'"
  obtains r1 w1 r2 w2 where "lan_listen greet lfd p (lan_world st) = (r1, w1)"
    and "scan_conns (look p) (conn_socks st) r1 w1 = (conn_socks st', r2, w2)"
    and "lan_nat (look p) (nat_sock st) r2 w2 = (nat_sock st', lan_result st', lan_world st')"
  using assms by (auto simp: lan_round_def split: prod.splits)

lemma round_account:
  assumes "lan_round greet (look p) lfd p st = st'"
  obtains acc where "new_conns (lan_world st) = acc @ new_conns (lan_world st')"
    and "ledger (conn_socks st' @ [nat_sock st', lan_result st']) + mset (closed (lan_world st')) =
         ledger (conn_socks st @ [nat_sock st] @ acc) + mset (closed (lan_world st))"
proof -
  obtain r1 w1 r2 w2 where l: "lan_listen greet lfd p (lan_world st) = (r1, w1)"
      and s: "scan_conns (look p) (conn_socks st) r1 w1 = (conn_socks st', r2, w2)"
      and n: "lan_nat (look p) (nat_sock st) r2 w2 = (nat_sock st', lan_result st', lan_world st')"
    using round_steps [OF assms] .
  obtain acc where acc: "new_conns (lan_world st) = acc @ new_conns w1"
      "ledger [r1] + mset (closed w1) = ledger acc + mset (closed (lan_world st))"
    using listen_account [OF l] .
  note n' = nat_account [OF n]
  have "ledger (conn_socks st' @ [nat_sock st', lan_result st']) + mset (closed (lan_world st')) =
      slot (nat_sock st) + (ledger (conn_socks st' @ [r2]) + mset (closed w2))"
    using n' by (simp add: ac_simps)
  also have "\<dots> = ledger (conn_socks st @ [nat_sock st]) + (ledger [r1] + mset (closed w1))"
    using scan_account [OF s] by (simp add: ac_simps)
  also have "\<dots> = ledger (conn_socks st @ [nat_sock st]) + (ledger acc + mset (closed (lan_world st)))"
    using acc(2) by simp
  finally show ?thesis
    using acc(1) n' scan_shape [OF s] by (intro that [of acc]) (simp_all add: ac_simps)
qed

lemma listen_steps:
  assumes "lan_listen greet lfd p w = (r, w')" and "distinct (valid_fds (new_conns w))"
  shows "set (new_conns w') \<subseteq> set (new_conns w)" and "distinct (valid_fds (new_conns w'))"
    and "fd \<noteq> FT_INVALID_SOCK \<Longrightarrow> fd \<notin> set (new_conns w) \<or> fd \<in> set (new_conns w') \<Longrightarrow> same_streams fd w w'"
    and "r \<noteq> FT_INVALID_SOCK \<Longrightarrow> r \<in> set (new_conns w) \<and> proved r w w'"
proof -
  obtain c w0 where a: "os_accept w = (c, w0)" by (cases "os_accept w")
  have streams: "same_streams fd w w0" for fd
    using a by (auto simp: os_accept_def same_streams_def stream_in_def stream_out_def split: list.splits)
  have conns: "new_conns w = [] \<and> w0 = w \<and> c = FT_INVALID_SOCK \<or> new_conns w = c # new_conns w0"
    using a by (auto simp: os_accept_def FT_INVALID_SOCK_def split: list.splits)
  consider (none) "r = FT_INVALID_SOCK" "w' = w" | (failed) "r = FT_INVALID_SOCK" "w' = w0" "c = FT_INVALID_SOCK"
    | (some) "greet c w0 = (r, w')" "c \<noteq> FT_INVALID_SOCK"
    using assms(1) by (cases "lfd \<noteq> FT_INVALID_SOCK \<and> lfd \<in> set (pr_in p)"; cases "c = FT_INVALID_SOCK")
      (simp_all add: lan_listen_def a)
  then have "set (new_conns w') \<subseteq> set (new_conns w) \<and> distinct (valid_fds (new_conns w')) \<and>
      (fd \<noteq> FT_INVALID_SOCK \<longrightarrow> fd \<notin> set (new_conns w) \<or> fd \<in> set (new_conns w') \<longrightarrow> same_streams fd w w') \<and>
      (r \<noteq> FT_INVALID_SOCK \<longrightarrow> r \<in> set (new_conns w) \<and> proved r w w')" for fd
  proof cases
    case none
    then show ?thesis using assms(2) by auto
  next
    case failed
    then show ?thesis using assms(2) conns streams by auto
  next
    case some
    have c: "new_conns w = c # new_conns w0" using conns some by auto
    have k: "new_conns w' = new_conns w0" "fd \<noteq> c \<Longrightarrow> same_streams fd w0 w'" for fd
      using greet_frame [OF some(1)] by auto
    have "fd \<noteq> c" if "fd \<noteq> FT_INVALID_SOCK" "fd \<notin> set (new_conns w) \<or> fd \<in> set (new_conns w')"
      using that assms(2) c k(1) some(2) by auto
    moreover have "r = c \<and> proved c w w'" if "r \<noteq> FT_INVALID_SOCK"
      using greet_proved [OF some(1) that] proved_start [OF _ streams] by auto
    ultimately show ?thesis using c k assms(2) some(2) same_streams_trans [OF streams k(2)] by auto
  qed
  then show "set (new_conns w') \<subseteq> set (new_conns w)" "distinct (valid_fds (new_conns w'))"
    "fd \<noteq> FT_INVALID_SOCK \<Longrightarrow> fd \<notin> set (new_conns w) \<or> fd \<in> set (new_conns w') \<Longrightarrow> same_streams fd w w'"
    "r \<noteq> FT_INVALID_SOCK \<Longrightarrow> r \<in> set (new_conns w) \<and> proved r w w'"
    by auto
qed

lemma scan_distinct:
  "scan_conns (look p) cs res w = (cs', r, w') \<Longrightarrow> distinct (valid_fds cs) \<Longrightarrow> distinct (valid_fds cs')"
proof (induction cs arbitrary: res w cs')
  case (Cons c cs)
  show ?case
  proof (cases "res = FT_INVALID_SOCK")
    case True
    obtain c1 r1 w1 where l: "look p c w = (c1, r1, w1)" by (cases "look p c w") auto
    obtain cs1 where s: "scan_conns (look p) cs r1 w1 = (cs1, r, w')" "cs' = c1 # cs1"
      using Cons(2) True l by (auto split: prod.splits)
    show ?thesis
      using Cons(1) [OF s(1)] Cons(3) scan_shape [OF s(1)] look_step [OF l] s(2)
      by (auto split: if_splits)
  qed (use Cons(2,3) in auto)
qed simp

lemma nat_steps:
  assumes "lan_nat (look p) ns res w = (ns', r, w')"
  shows "ns' = ns \<or> ns' = FT_INVALID_SOCK" and "new_conns w' = new_conns w"
    and "fd \<noteq> ns \<or> ns' = fd \<Longrightarrow> same_streams fd w w'"
    and "res \<noteq> FT_INVALID_SOCK \<Longrightarrow> r = res \<and> w' = w"
    and "res = FT_INVALID_SOCK \<Longrightarrow> r \<noteq> FT_INVALID_SOCK \<Longrightarrow> r = ns \<and> proved ns w w'"
proof -
  have "(ns' = ns \<or> ns' = FT_INVALID_SOCK) \<and> new_conns w' = new_conns w \<and>
      (fd \<noteq> ns \<or> ns' = fd \<longrightarrow> same_streams fd w w') \<and> (res \<noteq> FT_INVALID_SOCK \<longrightarrow> r = res \<and> w' = w) \<and>
      (res = FT_INVALID_SOCK \<longrightarrow> r \<noteq> FT_INVALID_SOCK \<longrightarrow> r = ns \<and> proved ns w w')" for fd
  proof (cases "res = FT_INVALID_SOCK \<and> ns \<noteq> FT_INVALID_SOCK")
    case True
    then have l: "look p ns w = (ns', r, w')" using assms by (simp add: lan_nat_def)
    show ?thesis using look_step [OF l] look_frame [OF l] look_proved [OF l] True by auto
  next
    case False
    have "ns' = ns" "r = res" "w' = w"
      using assms unfolding lan_nat_def if_not_P [OF False] by simp_all
    then show ?thesis by simp
  qed
  then show "ns' = ns \<or> ns' = FT_INVALID_SOCK" "new_conns w' = new_conns w"
    "fd \<noteq> ns \<or> ns' = fd \<Longrightarrow> same_streams fd w w'" "res \<noteq> FT_INVALID_SOCK \<Longrightarrow> r = res \<and> w' = w"
    "res = FT_INVALID_SOCK \<Longrightarrow> r \<noteq> FT_INVALID_SOCK \<Longrightarrow> r = ns \<and> proved ns w w'"
    by blast+
qed

lemma round_inv:
  assumes "race_inv w0 st" and "lan_round greet (look p) lfd p st = st'"
  shows "race_inv w0 st'"
proof -
  obtain r1 w1 r2 w2 where l: "lan_listen greet lfd p (lan_world st) = (r1, w1)"
      and s: "scan_conns (look p) (conn_socks st) r1 w1 = (conn_socks st', r2, w2)"
      and n: "lan_nat (look p) (nat_sock st) r2 w2 = (nat_sock st', lan_result st', lan_world st')"
    using round_steps [OF assms(2)] .
  let ?w = "lan_world st" and ?w' = "lan_world st'"
  note I = race_invD [OF assms(1)]
  note L = listen_steps [OF l I(2)] and S = scan_shape [OF s] and N = nat_steps [OF n]
  have nc: "new_conns ?w' = new_conns w1" using S N(2) by simp
  have sub: "fd \<in> set (conn_socks st)" if "fd \<in> set (conn_socks st')" "fd \<noteq> FT_INVALID_SOCK" for fd
    using that S by auto
  have dis: "fd \<notin> set (new_conns w1) \<and> fd \<noteq> nat_sock st'"
    if "fd \<in> set (conn_socks st')" "fd \<noteq> FT_INVALID_SOCK" for fd
    using I(3) [OF sub [OF that] that(2)] that(2) L(1) N(1) by auto
  have disn: "nat_sock st' \<notin> set (new_conns w1)" if "nat_sock st' \<noteq> FT_INVALID_SOCK"
    using I(4) that L(1) N(1) by auto
  have keep: "same_streams fd ?w ?w'"
    if "fd \<noteq> FT_INVALID_SOCK" "fd \<notin> set (new_conns ?w) \<or> fd \<in> set (new_conns w1)"
      "fd \<notin> set (conn_socks st) \<or> fd \<in> set (conn_socks st')" "fd \<noteq> nat_sock st \<or> nat_sock st' = fd" for fd
    using same_streams_trans [OF same_streams_trans [OF L(3) [OF that(1,2)] scan_keeps [OF s I(1) that(3,1)]] N(3) [OF that(4)]] .
  have same: "same_streams fd w0 ?w'"
    if "fd \<noteq> FT_INVALID_SOCK" "fd \<in> set (conn_socks st') \<or> fd = nat_sock st' \<or> fd \<in> set (new_conns w1)" for fd
    using that(2)
  proof (elim disjE)
    assume "fd \<in> set (conn_socks st')"
    then show ?thesis using same_streams_trans [OF I(5) keep] sub [OF _ that(1)] I(3) that(1) by blast
  next
    assume "fd = nat_sock st'"
    then show ?thesis using same_streams_trans [OF I(5) keep] N(1) I(3,4) that(1) by metis
  next
    assume "fd \<in> set (new_conns w1)"
    then show ?thesis using same_streams_trans [OF I(5) keep] L(1) I(3,4) that(1) by blast
  qed
  have "distinct (valid_fds (conn_socks st' @ [nat_sock st'] @ new_conns ?w'))"
    using scan_distinct [OF s I(1)] L(2) dis disn by (auto simp: nc)
  then show ?thesis using same by (auto simp: race_inv_def nc split: if_splits)
qed

lemma round_proved:
  assumes "race_inv w0 st" and "lan_round greet (look p) lfd p st = st'"
    and r: "lan_result st' \<noteq> FT_INVALID_SOCK"
  shows "proved (lan_result st') w0 (lan_world st')"
proof -
  obtain r1 w1 r2 w2 where l: "lan_listen greet lfd p (lan_world st) = (r1, w1)"
      and s: "scan_conns (look p) (conn_socks st) r1 w1 = (conn_socks st', r2, w2)"
      and n: "lan_nat (look p) (nat_sock st) r2 w2 = (nat_sock st', lan_result st', lan_world st')"
    using round_steps [OF assms(2)] .
  note I = race_invD [OF assms(1)]
  note L = listen_steps [OF l I(2)] and S = scan_shape [OF s] and N = nat_steps [OF n]
  have first: "same_streams fd w0 w1" if "fd \<in> set (conn_socks st) \<or> fd = nat_sock st" "fd \<noteq> FT_INVALID_SOCK" for fd
    using same_streams_trans [OF I(5) L(3)] that I(3,4) by blast
  consider "r1 \<noteq> FT_INVALID_SOCK" | "r1 = FT_INVALID_SOCK" "r2 \<noteq> FT_INVALID_SOCK"
    | "r1 = FT_INVALID_SOCK" "r2 = FT_INVALID_SOCK" by blast
  then show ?thesis
  proof cases
    case 1
    then show ?thesis using S N(4) L(4) proved_start [OF _ I(5)] by simp
  next
    case 2
    then show ?thesis
      using scan_proved [OF s [unfolded 2(1)] I(1) 2(2)] N(4) proved_start [OF _ first] by simp
  next
    case 3
    have p: "lan_result st' = nat_sock st" "proved (nat_sock st) w2 (lan_world st')" using N(5) [OF 3(2) r] by auto
    have "nat_sock st \<notin> set (conn_socks st)" using I(3) [of "nat_sock st"] r p(1) by auto
    then have "same_streams (nat_sock st) w1 w2" using scan_keeps [OF s I(1)] r p(1) by simp
    then show ?thesis using p r proved_start same_streams_trans first by metis
  qed
qed

text \<open>A loop of such rounds.\<close>

lemma auth_loop_account:
  "auth_loop greet look lfd timeout_ms t0 ps st = Some st' \<Longrightarrow>
     \<exists>acc. new_conns (lan_world st) = acc @ new_conns (lan_world st') \<and>
       ledger (conn_socks st' @ [nat_sock st', lan_result st']) + mset (closed (lan_world st')) =
       ledger (conn_socks st @ [nat_sock st, lan_result st] @ acc) + mset (closed (lan_world st))"
proof (induction ps arbitrary: st)
  case (Cons p ps)
  let ?st = "lan_round greet (look p) lfd p st"
  show ?case
  proof (cases "lan_result st \<noteq> FT_INVALID_SOCK \<or> timeout_ms - c_int (pr_now p - t0) \<le> 0")
    case True
    then have "st' = st" using Cons(2) by (auto split: if_splits)
    then show ?thesis by (intro exI [of _ "[]"]) simp
  next
    case False
    then obtain acc2 where a2: "new_conns (lan_world ?st) = acc2 @ new_conns (lan_world st')"
        "ledger (conn_socks st' @ [nat_sock st', lan_result st']) + mset (closed (lan_world st')) =
         ledger (conn_socks ?st @ [nat_sock ?st, lan_result ?st] @ acc2) + mset (closed (lan_world ?st))"
      using Cons(1) [of ?st] Cons(2) by auto
    obtain acc1 where a1: "new_conns (lan_world st) = acc1 @ new_conns (lan_world ?st)"
        "ledger (conn_socks ?st @ [nat_sock ?st, lan_result ?st]) + mset (closed (lan_world ?st)) =
         ledger (conn_socks st @ [nat_sock st] @ acc1) + mset (closed (lan_world st))"
      using round_account [OF refl] .
    have "ledger (conn_socks st' @ [nat_sock st', lan_result st']) + mset (closed (lan_world st')) =
        ledger acc2 + (ledger (conn_socks ?st @ [nat_sock ?st, lan_result ?st]) + mset (closed (lan_world ?st)))"
      unfolding a2(2) by (simp add: ac_simps)
    also have "\<dots> = ledger (conn_socks st @ [nat_sock st, lan_result st] @ (acc1 @ acc2)) + mset (closed (lan_world st))"
      unfolding a1(2) using False by (simp add: ac_simps)
    finally show ?thesis using a1(1) a2(1) by (intro exI [of _ "acc1 @ acc2"]) simp
  qed
qed (auto split: if_splits intro: exI [of _ "[]"])

lemma auth_loop_proved:
  "auth_loop greet look lfd timeout_ms t0 ps st = Some st' \<Longrightarrow> race_inv w0 st \<Longrightarrow>
     (lan_result st \<noteq> FT_INVALID_SOCK \<longrightarrow> proved (lan_result st) w0 (lan_world st)) \<Longrightarrow>
     lan_result st' \<noteq> FT_INVALID_SOCK \<Longrightarrow> proved (lan_result st') w0 (lan_world st')"
proof (induction ps arbitrary: st)
  case (Cons p ps)
  let ?st = "lan_round greet (look p) lfd p st"
  show ?case
  proof (cases "lan_result st \<noteq> FT_INVALID_SOCK \<or> timeout_ms - c_int (pr_now p - t0) \<le> 0")
    case True
    then have "st' = st" using Cons(2) by (auto split: if_splits)
    then show ?thesis using Cons(4,5) by simp
  next
    case False
    then have "auth_loop greet look lfd timeout_ms t0 ps ?st = Some st'" using Cons(2) by simp
    then show ?thesis
      using Cons(1) round_inv [OF Cons(3) refl] round_proved [OF Cons(3) refl] Cons(5) by metis
  qed
qed (auto split: if_splits)

end

section \<open>The two races\<close>

interpretation plain: candidate_race greet_plain look_connected same_streams
  by unfold_locales
    (auto simp: greet_plain_def look_connected_def same_streams_def FT_INVALID_SOCK_def slot_def split: if_splits)

definition auth_proved :: "openssl \<Rightarrow> string \<Rightarrow> string \<Rightarrow> bool \<Rightarrow> int \<Rightarrow> world \<Rightarrow> world \<Rightarrow> bool" where
  "auth_proved ssl fid key_hex is_sender c w w' \<longleftrightarrow>
     (case ft_compute_hmac ssl fid key_hex of
        None \<Rightarrow> False
      | Some mac \<Rightarrow>
          if is_sender then
            stream_in c w = bytes_of_str ''AKOK'' @ stream_in c w' \<and>
            stream_out c w' = stream_out c w @ bytes_of_str ''AUTH'' @ take 32 mac
          else
            stream_in c w = bytes_of_str ''AUTH'' @ take 32 mac @ stream_in c w' \<and>
            stream_out c w' = stream_out c w @ bytes_of_str ''AKOK'')"

lemma option_streams [simp]:
  "stream_in fd (ft_set_blocking c w) = stream_in fd w" "stream_out fd (ft_set_blocking c w) = stream_out fd w"
  "stream_in fd (ft_set_nonblocking c w) = stream_in fd w" "stream_out fd (ft_set_nonblocking c w) = stream_out fd w"
  "stream_in fd (ft_optimize_socket c w) = stream_in fd w" "stream_out fd (ft_optimize_socket c w) = stream_out fd w"
  "stream_in fd (ft_set_sock_timeout c t w) = stream_in fd w" "stream_out fd (ft_set_sock_timeout c t w) = stream_out fd w"
  "stream_in fd (ft_close c w) = stream_in fd w" "stream_out fd (ft_close c w) = stream_out fd w"
  "stream_in fd (os_connect c sa w) = stream_in fd w" "stream_out fd (os_connect c sa w) = stream_out fd w"
  by (simp_all add: stream_in_def stream_out_def ft_set_blocking_def ft_set_nonblocking_def
      ft_optimize_socket_def ft_set_sock_timeout_def ft_close_def os_connect_def)

lemma option_closed [simp]:
  "closed (ft_set_blocking c w) = closed w" "closed (ft_set_nonblocking c w) = closed w"
  "closed (ft_optimize_socket c w) = closed w" "closed (ft_set_sock_timeout c t w) = closed w"
  "closed (os_connect c sa w) = closed w"
  "new_conns (ft_set_blocking c w) = new_conns w" "new_conns (ft_set_nonblocking c w) = new_conns w"
  "new_conns (ft_optimize_socket c w) = new_conns w" "new_conns (ft_set_sock_timeout c t w) = new_conns w"
  "new_conns (os_connect c sa w) = new_conns w" "new_conns (ft_close c w) = new_conns w"
  by (simp_all add: ft_set_blocking_def ft_set_nonblocking_def ft_optimize_socket_def
      ft_set_sock_timeout_def os_connect_def ft_close_def)

lemma closed_ft_close: "c \<noteq> FT_INVALID_SOCK \<Longrightarrow> closed (ft_close c w) = closed w @ [c]"
  by (simp add: ft_close_def)

lemma try_authenticate_cases:
  assumes "try_authenticate ssl fid key_hex is_sender c w = (ok, w')"
  shows "(ok = 0 \<and> closed w' = closed w \<and> auth_proved ssl fid key_hex is_sender c w w') \<or>
         (ok = -1 \<and> (c \<noteq> FT_INVALID_SOCK \<longrightarrow> closed w' = closed w @ [c]))"
    and "new_conns w' = new_conns w \<and> (\<forall>fd. fd \<noteq> c \<longrightarrow> same_streams fd w w')"
proof -
  define u where "u = ft_set_sock_timeout c 2000 (ft_optimize_socket c (ft_set_blocking c w))"
  obtain r v where a: "(if is_sender then ft_auth_send ssl c fid key_hex u else ft_auth_recv ssl c fid key_hex u) = (r, v)"
    by (meson surj_pair)
  have u: "closed u = closed w" "new_conns u = new_conns w" "same_streams fd w u" for fd
    by (simp_all add: u_def same_streams_def)
  have f: "world_frame {c} u v"
    using ft_auth_send_frame [of c u ssl fid key_hex] ft_auth_recv_frame [of c u ssl fid key_hex] a
    by (auto split: if_splits)
  then have k: "closed v = closed w" "new_conns v = new_conns w" "fd \<noteq> c \<Longrightarrow> same_streams fd w v" for fd
    using u by (auto simp: world_frame_def same_streams_def stream_in_def stream_out_def)
  have w': "ok = (if r = 0 then 0 else -1)" "w' = (if r = 0 then ft_set_sock_timeout c 0 v else ft_close c v)"
    using assms a by (auto simp: try_authenticate_def u_def [symmetric] split: if_splits)
  have "auth_proved ssl fid key_hex is_sender c u v" if "r = 0"
  proof (cases is_sender)
    case True
    then have "ft_auth_send ssl c fid key_hex u = (0, v)" using a that by simp
    then show ?thesis by (rule ft_auth_send_zero) (simp add: auth_proved_def True)
  next
    case False
    then have "ft_auth_recv ssl c fid key_hex u = (0, v)" using a that by simp
    then show ?thesis by (rule ft_auth_recv_zero) (simp add: auth_proved_def False)
  qed
  then show "(ok = 0 \<and> closed w' = closed w \<and> auth_proved ssl fid key_hex is_sender c w w') \<or>
      (ok = -1 \<and> (c \<noteq> FT_INVALID_SOCK \<longrightarrow> closed w' = closed w @ [c]))"
    using w' k(1) u(3) [of c] by (auto simp: auth_proved_def same_streams_def closed_ft_close split: option.splits)
  show "new_conns w' = new_conns w \<and> (\<forall>fd. fd \<noteq> c \<longrightarrow> same_streams fd w w')"
    using w' k by (auto simp: same_streams_def)
qed

lemma greet_auth_cases:
  assumes "greet_auth ssl fid key_hex is_sender c w = (r, w')"
  shows "(r = c \<and> closed w' = closed w \<and> auth_proved ssl fid key_hex is_sender c w w') \<or>
         (r = FT_INVALID_SOCK \<and> (c \<noteq> FT_INVALID_SOCK \<longrightarrow> closed w' = closed w @ [c]))"
    and "new_conns w' = new_conns w \<and> (\<forall>fd. fd \<noteq> c \<longrightarrow> same_streams fd w w')"
proof -
  obtain ok v where t: "try_authenticate ssl fid key_hex is_sender c w = (ok, v)"
    by (cases "try_authenticate ssl fid key_hex is_sender c w")
  then have "w' = v" "r = (if ok = 0 then c else FT_INVALID_SOCK)" using assms by (simp_all add: greet_auth_def)
  then show "(r = c \<and> closed w' = closed w \<and> auth_proved ssl fid key_hex is_sender c w w') \<or>
         (r = FT_INVALID_SOCK \<and> (c \<noteq> FT_INVALID_SOCK \<longrightarrow> closed w' = closed w @ [c]))"
    "new_conns w' = new_conns w \<and> (\<forall>fd. fd \<noteq> c \<longrightarrow> same_streams fd w w')"
    using try_authenticate_cases [OF t] by auto
qed

lemma look_auth_cases:
  assumes "look_auth ssl fid key_hex is_sender p c w = (c', r, w')"
  shows "(c' = c \<and> r = FT_INVALID_SOCK \<and> w' = w) \<or>
         (c \<noteq> FT_INVALID_SOCK \<and> c' = FT_INVALID_SOCK \<and> greet_auth ssl fid key_hex is_sender c w = (r, w')) \<or>
         (c \<noteq> FT_INVALID_SOCK \<and> c' = FT_INVALID_SOCK \<and> r = FT_INVALID_SOCK \<and> w' = ft_close c w)"
  using assms by (auto simp: look_auth_def split: if_splits prod.splits)

text \<open>Every way of looking at a candidate that keeps, greets or closes it gives a race.\<close>

lemma auth_candidate_race:
  assumes look: "\<And>p c w c' r w'. look p c w = (c', r, w') \<Longrightarrow>
         (c' = c \<and> r = FT_INVALID_SOCK \<and> w' = w) \<or>
         (c \<noteq> FT_INVALID_SOCK \<and> c' = FT_INVALID_SOCK \<and> greet_auth ssl fid key_hex is_sender c w = (r, w')) \<or>
         (c \<noteq> FT_INVALID_SOCK \<and> c' = FT_INVALID_SOCK \<and> r = FT_INVALID_SOCK \<and> w' = ft_close c w)"
  shows "candidate_race (greet_auth ssl fid key_hex is_sender) look (auth_proved ssl fid key_hex is_sender)"
proof (unfold_locales, goal_cases)
  case (1 c w r w')
  then show ?case using greet_auth_cases [OF 1(2)] by auto
next
  case (2 c w r w')
  then show ?case using greet_auth_cases [OF 2] by auto
next
  case (3 c w r w')
  then show ?case using greet_auth_cases [OF 3(1)] by auto
next
  case (4 p c w c' r w')
  from look [OF 4] show ?case
  proof (elim disjE conjE)
    assume "c \<noteq> FT_INVALID_SOCK" "c' = FT_INVALID_SOCK" and g: "greet_auth ssl fid key_hex is_sender c w = (r, w')"
    then show ?thesis using greet_auth_cases(1) [OF g] by auto
  qed (simp_all add: closed_ft_close)
next
  case (5 p c w c' r w')
  from look [OF 5] show ?case
  proof (elim disjE conjE)
    assume g: "greet_auth ssl fid key_hex is_sender c w = (r, w')"
    then show ?thesis using greet_auth_cases(2) [OF g] by auto
  qed (simp_all add: same_streams_def)
next
  case (6 p c w c' r w')
  then show ?case using look [OF 6] by auto
next
  case (7 p c w c' r w')
  from look [OF 7(1)] show ?case
  proof (elim disjE conjE)
    assume g: "greet_auth ssl fid key_hex is_sender c w = (r, w')"
    then show ?thesis using greet_auth_cases(1) [OF g] 7(2) by auto
  qed (use 7(2) in simp_all)
next
  case (8 c w w' u)
  then show ?case by (auto simp: auth_proved_def same_streams_def split: option.splits if_splits)
next
  case (9 c w w' u)
  then show ?case by (auto simp: auth_proved_def same_streams_def split: option.splits if_splits)
qed

interpretation authd: candidate_race "greet_auth ssl fid key_hex is_sender" "look_auth ssl fid key_hex is_sender"
    "auth_proved ssl fid key_hex is_sender" for ssl fid key_hex is_sender
  by (rule auth_candidate_race) (rule look_auth_cases)

section \<open>Whole races\<close>

lemma close_all_effect:
  "closed (close_all cs w) = closed w @ valid_fds cs" "new_conns (close_all cs w) = new_conns w"
  "same_streams fd w (close_all cs w)"
proof (induction cs arbitrary: w)
  case (Cons c cs)
  { case 1 show ?case using Cons(1) [of "if c \<noteq> FT_INVALID_SOCK then ft_close c w else w"]
      by (simp add: close_all_def closed_ft_close) }
  { case 2 show ?case using Cons(2) [of "if c \<noteq> FT_INVALID_SOCK then ft_close c w else w"]
      by (simp add: close_all_def) }
  { case 3 show ?case using Cons(3) [of "if c \<noteq> FT_INVALID_SOCK then ft_close c w else w"]
      by (auto simp: close_all_def same_streams_def split: if_splits) }
qed (simp_all add: close_all_def)

lemma ledger_mset: "ledger cs = mset (valid_fds cs)"
  by (simp add: ledger_def valid_fds_def)

lemma lan_cleanup_effect:
  "mset (closed (lan_cleanup st)) = mset (closed (lan_world st)) + ledger (conn_socks st @ [nat_sock st])"
  "new_conns (lan_cleanup st) = new_conns (lan_world st)"
  "same_streams fd (lan_world st) (lan_cleanup st)"
  using close_all_effect(1,2) [of "conn_socks st" "lan_world st"] close_all_effect(3) [of fd "lan_world st" "conn_socks st"]
  by (auto simp: lan_cleanup_def Let_def ledger_mset closed_ft_close same_streams_def)

lemma os_socket_effect:
  assumes "os_socket w = (s, w')"
  shows "closed w' = closed w" "new_conns w' = new_conns w" "same_streams fd w w'" "rounds w' = rounds w"
    "s = FT_INVALID_SOCK \<or> new_fds w = s # new_fds w'" "set (new_fds w') \<subseteq> set (new_fds w)"
    "distinct (valid_fds (new_fds w)) \<Longrightarrow> distinct (valid_fds (new_fds w'))"
  using assms
  by (auto simp: os_socket_def same_streams_def stream_in_def stream_out_def FT_INVALID_SOCK_def valid_fds_def
      split: list.splits if_splits)

lemma start_connects_effect:
  "start_connects env as w = (cs, w') \<Longrightarrow>
     closed w' = closed w \<and> new_conns w' = new_conns w \<and> (\<forall>fd. same_streams fd w w') \<and>
     set (valid_fds cs) \<subseteq> set (new_fds w) \<and> (distinct (valid_fds (new_fds w)) \<longrightarrow> distinct (valid_fds cs))"
proof (induction as arbitrary: w cs)
  case (Cons a as)
  show ?case
  proof (cases "ft_parse_addr env a")
    case None
    then obtain cs1 where "start_connects env as w = (cs1, w')" "cs = FT_INVALID_SOCK # cs1"
      using Cons(2) by (auto split: prod.splits)
    then show ?thesis using Cons(1) [of w cs1] by simp
  next
    case (Some sa)
    obtain s w1 where s: "os_socket w = (s, w1)" by (cases "os_socket w")
    define w2 where "w2 = (if s = FT_INVALID_SOCK then w1 else os_connect s sa (ft_set_nonblocking s w1))"
    obtain cs1 where c: "start_connects env as w2 = (cs1, w')" "cs = s # cs1"
      using Cons(2) Some s by (auto simp: w2_def split: if_splits prod.splits)
    have n: "new_fds w2 = new_fds w1" "closed w2 = closed w1" "new_conns w2 = new_conns w1" "same_streams fd w1 w2" for fd
      by (simp_all add: w2_def ft_set_nonblocking_def os_connect_def same_streams_def stream_in_def stream_out_def)
    have i: "closed w' = closed w2" "new_conns w' = new_conns w2" "\<And>fd. same_streams fd w2 w'"
        "set (valid_fds cs1) \<subseteq> set (new_fds w1)" "distinct (valid_fds (new_fds w1)) \<Longrightarrow> distinct (valid_fds cs1)"
      using Cons(1) [OF c(1)] n(1) by auto
    have "s \<notin> set (valid_fds cs1)" if "distinct (valid_fds (new_fds w))" "s \<noteq> FT_INVALID_SOCK"
      using that os_socket_effect(5) [OF s] i(4) by auto
    then show ?thesis
      using i n os_socket_effect [OF s] c(2) by (auto simp: same_streams_def)
  qed
qed simp

lemma lan_start_effect:
  assumes "start_connects env as w = (cs, w1)"
  shows "conn_socks (lan_start env lfd as ns w) = cs" "nat_sock (lan_start env lfd as ns w) = ns"
    "lan_result (lan_start env lfd as ns w) = FT_INVALID_SOCK"
    "closed (lan_world (lan_start env lfd as ns w)) = closed w"
    "new_conns (lan_world (lan_start env lfd as ns w)) = new_conns w"
    "same_streams fd w (lan_world (lan_start env lfd as ns w))"
  using start_connects_effect [OF assms] assms by (auto simp: lan_start_def same_streams_def)

lemma lan_start_inv:
  assumes "distinct (valid_fds (new_fds w @ [ns] @ new_conns w))"
  shows "race_inv w (lan_start env lfd as ns w)"
proof -
  obtain cs w1 where sc: "start_connects env as w = (cs, w1)" by (cases "start_connects env as w")
  note e = start_connects_effect [OF sc] and f = lan_start_effect [OF sc]
  have sub: "fd \<in> set (new_fds w)" if "fd \<in> set cs" "fd \<noteq> FT_INVALID_SOCK" for fd
    using e that by (auto simp: subset_eq)
  have dis: "fd \<notin> set (new_conns w)" if "fd \<in> set (new_fds w)" "fd \<noteq> FT_INVALID_SOCK" for fd
    using assms that by (auto simp: disjoint_iff split: if_splits)
  have "distinct (valid_fds cs)" using e assms by (auto split: if_splits)
  then have "distinct (valid_fds (cs @ [ns] @ new_conns w))"
    using assms sub dis by (auto split: if_splits)
  then show ?thesis unfolding race_inv_def by (simp only: f(1,2,5)) (simp add: f(6))
qed

lemma auth_loop_ends:
  "p \<in> set ps \<Longrightarrow> timeout_ms - c_int (pr_now p - t0) \<le> 0 \<Longrightarrow>
     \<exists>st'. auth_loop greet look lfd timeout_ms t0 ps st = Some st'"
  by (induction ps arbitrary: st) auto

lemma lan_loop_account:
  "\<exists>acc. new_conns (lan_world st) = acc @ new_conns (lan_world (lan_loop lfd timeout_ms elapsed st)) \<and>
     ledger (conn_socks (lan_loop lfd timeout_ms elapsed st) @
             [nat_sock (lan_loop lfd timeout_ms elapsed st), lan_result (lan_loop lfd timeout_ms elapsed st)]) +
       mset (closed (lan_world (lan_loop lfd timeout_ms elapsed st))) =
     ledger (conn_socks st @ [nat_sock st, lan_result st] @ acc) + mset (closed (lan_world st))"
proof (induction lfd timeout_ms elapsed st rule: lan_loop.induct)
  case (1 lfd timeout_ms elapsed st)
  show ?case
  proof (cases "elapsed < timeout_ms \<and> lan_result st = FT_INVALID_SOCK")
    case True
    obtain p w where p: "os_poll (lan_world st) = (p, w)" by (cases "os_poll (lan_world st)")
    let ?s1 = "st\<lparr>lan_world := w\<rparr>"
    let ?s2 = "lan_round greet_plain (look_connected p) lfd p ?s1"
    let ?s3 = "lan_loop lfd timeout_ms (elapsed + 50) ?s2"
    have w: "new_conns w = new_conns (lan_world st)" "closed w = closed (lan_world st)"
      using p by (auto simp: os_poll_def split: list.splits)
    have l: "lan_loop lfd timeout_ms elapsed st = ?s3" using True p by (subst lan_loop.simps) simp
    obtain acc2 where a2: "new_conns (lan_world ?s2) = acc2 @ new_conns (lan_world ?s3)"
        "ledger (conn_socks ?s3 @ [nat_sock ?s3, lan_result ?s3]) + mset (closed (lan_world ?s3)) =
         ledger (conn_socks ?s2 @ [nat_sock ?s2, lan_result ?s2] @ acc2) + mset (closed (lan_world ?s2))"
      using 1 [OF True p [symmetric] refl] by (elim exE conjE)
    obtain acc1 where a1: "new_conns (lan_world ?s1) = acc1 @ new_conns (lan_world ?s2)"
        "ledger (conn_socks ?s2 @ [nat_sock ?s2, lan_result ?s2]) + mset (closed (lan_world ?s2)) =
         ledger (conn_socks ?s1 @ [nat_sock ?s1] @ acc1) + mset (closed (lan_world ?s1))"
      using plain.round_account [OF refl] .
    have "ledger (conn_socks ?s3 @ [nat_sock ?s3, lan_result ?s3]) + mset (closed (lan_world ?s3)) =
        ledger acc2 + (ledger (conn_socks ?s2 @ [nat_sock ?s2, lan_result ?s2]) + mset (closed (lan_world ?s2)))"
      unfolding a2(2) by (simp add: ac_simps)
    also have "\<dots> = ledger (conn_socks st @ [nat_sock st, lan_result st] @ (acc1 @ acc2)) + mset (closed (lan_world st))"
      unfolding a1(2) using True w by (simp add: ac_simps)
    finally show ?thesis
      using a1(1) a2(1) w(1) by (intro exI [of _ "acc1 @ acc2"]) (simp add: l)
  next
    case False
    then have "lan_loop lfd timeout_ms elapsed st = st" by (subst lan_loop.simps) auto
    then show ?thesis by (intro exI [of _ "[]"]) simp
  qed
qed

text \<open>An account of the state before the clean-up is an account of the result.\<close>

lemma cleanup_account:
  assumes "ledger (conn_socks st @ [nat_sock st, lan_result st]) + mset (closed (lan_world st)) = A"
    and "closed w' = closed (lan_cleanup st)"
  shows "mset (closed w') + ledger [lan_result st] = A"
  using assms lan_cleanup_effect(1) [of st] by (simp add: ac_simps)

lemma plain_race_account:
  assumes "ft_lan_transfer env lfd addrs ns timeout_ms w = (r, w')"
  shows "\<exists>acc. new_conns w = acc @ new_conns w' \<and>
           mset (closed w') + ledger [r] =
           mset (closed w) + ledger (fst (start_connects env addrs w) @ [ns] @ acc)"
proof -
  obtain cs w1 where sc: "start_connects env addrs w = (cs, w1)" by (cases "start_connects env addrs w")
  let ?st = "lan_start env lfd addrs ns w"
  note start = lan_start_effect [OF sc, of lfd ns]
  let ?s = "lan_loop lfd timeout_ms 0 ?st"
  obtain acc where acc: "new_conns (lan_world ?st) = acc @ new_conns (lan_world ?s)"
      "ledger (conn_socks ?s @ [nat_sock ?s, lan_result ?s]) + mset (closed (lan_world ?s)) =
       ledger (conn_socks ?st @ [nat_sock ?st, lan_result ?st] @ acc) + mset (closed (lan_world ?st))"
    using lan_loop_account [of ?st lfd timeout_ms 0] by (elim exE conjE)
  have r: "r = lan_result ?s" "closed w' = closed (lan_cleanup ?s)" "new_conns w' = new_conns (lan_cleanup ?s)"
    using assms by (auto simp: ft_lan_transfer_def Let_def)
  show ?thesis
    using cleanup_account [OF acc(2) r(2)] acc(1) start sc r lan_cleanup_effect(2) [of ?s]
    by (intro exI [of _ acc]) (simp add: ac_simps)
qed

text \<open>A race on the clock, from the first connect to the clean-up.\<close>

context candidate_race
begin

lemma timed_race_account:
  assumes "auth_loop greet look lfd timeout_ms t0 ps (lan_start env lfd addrs ns w) = Some s"
  shows "\<exists>acc. new_conns w = acc @ new_conns (lan_cleanup s) \<and>
           mset (closed (lan_cleanup s)) + ledger [lan_result s] =
           mset (closed w) + ledger (fst (start_connects env addrs w) @ [ns] @ acc)"
proof -
  obtain cs w1 where sc: "start_connects env addrs w = (cs, w1)" by (cases "start_connects env addrs w")
  let ?st = "lan_start env lfd addrs ns w"
  note start = lan_start_effect [OF sc, of lfd ns]
  obtain acc where acc: "new_conns (lan_world ?st) = acc @ new_conns (lan_world s)"
      "ledger (conn_socks s @ [nat_sock s, lan_result s]) + mset (closed (lan_world s)) =
       ledger (conn_socks ?st @ [nat_sock ?st, lan_result ?st] @ acc) + mset (closed (lan_world ?st))"
    using auth_loop_account [OF assms] by (elim exE conjE)
  show ?thesis
    using cleanup_account [OF acc(2) refl] acc(1) start sc lan_cleanup_effect(2) [of s]
    by (intro exI [of _ acc]) (simp add: ac_simps)
qed

lemma timed_race_proved:
  assumes "auth_loop greet look lfd timeout_ms t0 ps (lan_start env lfd addrs ns w) = Some s"
    and "lan_result s \<noteq> FT_INVALID_SOCK" and "distinct (valid_fds (new_fds w @ [ns] @ new_conns w))"
  shows "proved (lan_result s) w (lan_cleanup s)"
proof -
  obtain cs w1 where sc: "start_connects env addrs w = (cs, w1)" by (cases "start_connects env addrs w")
  have "proved (lan_result s) w (lan_world s)"
    using auth_loop_proved [OF assms(1) lan_start_inv [OF assms(3)]] lan_start_effect(3) [OF sc] assms(2) by metis
  then show ?thesis using proved_end lan_cleanup_effect(3) by metis
qed

end

text \<open>
  C16. A race leaks no descriptor and closes none twice: of the sockets opened for the peer's
  addresses, the NAT socket handed in and the connections accepted meanwhile, each is closed
  exactly once, except the one that is returned, which stays open. Nothing else is closed, so
  the listening socket, being none of these, stays open.
\<close>

theorem race_closes_losers:
  assumes "ft_lan_transfer_auth ssl env lfd addrs ns timeout_ms fido keyo sndr t0 w = Some (r, w')"
  shows "\<exists>acc. new_conns w = acc @ new_conns w' \<and>
           mset (closed w') + ledger [r] =
           mset (closed w) + ledger (fst (start_connects env addrs w) @ [ns] @ acc)"
  using assms plain_race_account authd.timed_race_account
  by (auto simp: ft_lan_transfer_auth_def split: option.splits if_splits)

text \<open>
  C12. The connection the authenticated race returns has completed the handshake on this very
  connection: as receiver, everything the peer had sent before the data is \<open>AUTH\<close> and the
  HMAC of the transfer's identifier under the key; as sender, the peer has answered \<open>AKOK\<close>.
  The hypothesis says that the kernel gives distinct descriptors to distinct connections.
\<close>

theorem race_result_authenticated:
  assumes "ft_lan_transfer_auth ssl env lfd addrs ns timeout_ms (Some fid) (Some key_hex) sndr t0 w = Some (r, w')"
    and "key_hex \<noteq> []" and "r \<noteq> FT_INVALID_SOCK"
    and "distinct (valid_fds (new_fds w @ [ns] @ new_conns w))"
  shows "\<exists>mac. ft_compute_hmac ssl fid key_hex = Some mac \<and>
           (if sndr then stream_in r w = bytes_of_str ''AKOK'' @ stream_in r w' \<and>
                         stream_out r w' = stream_out r w @ bytes_of_str ''AUTH'' @ take 32 mac
            else stream_in r w = bytes_of_str ''AUTH'' @ take 32 mac @ stream_in r w' \<and>
                 stream_out r w' = stream_out r w @ bytes_of_str ''AKOK'')"
proof -
  obtain s where s: "auth_loop (greet_auth ssl fid key_hex sndr) (look_auth ssl fid key_hex sndr) lfd timeout_ms t0 (rounds w)
      (lan_start env lfd addrs ns w) = Some s" "r = lan_result s" "w' = lan_cleanup s"
    using assms(1,2) by (auto simp: ft_lan_transfer_auth_def)
  have "auth_proved ssl fid key_hex sndr r w w'" using authd.timed_race_proved [OF s(1)] s assms(3,4) by simp
  then show ?thesis by (auto simp: auth_proved_def split: option.splits)
qed

text \<open>
  C36. The authenticated race ends: as soon as the clock, read at the head of a round, shows
  that the timeout has passed, a result is returned, whatever the network did before. The
  reading must be less than about 24 days after the start, the range of an \<open>int\<close>.
\<close>

theorem race_terminates:
  assumes "p \<in> set (rounds w)" and "timeout_ms \<le> pr_now p - t0" and "0 \<le> pr_now p - t0"
    and "pr_now p - t0 < 2 ^ 31"
  shows "\<exists>r w'. ft_lan_transfer_auth ssl env lfd addrs ns timeout_ms fido keyo sndr t0 w = Some (r, w')"
proof -
  have "c_int (pr_now p - t0) = pr_now p - t0" using assms(3,4) by (intro c_int_id) simp_all
  then have "timeout_ms - c_int (pr_now p - t0) \<le> 0" using assms(2) by simp
  from auth_loop_ends [OF assms(1) this] show ?thesis
    by (cases "ft_lan_transfer env lfd addrs ns timeout_ms w")
      (auto simp: ft_lan_transfer_auth_def split: option.splits)
qed

section \<open>Concrete races\<close>

text \<open>Two addresses, of which one answers; a stranger connects to the listening socket 3 first.\<close>

definition sample_race :: world where
  "sample_race = (base_world new_sock)
     \<lparr>new_fds := [5, 6], new_conns := [7],
      rounds := [no_events\<lparr>pr_now := 10\<rparr>, no_events\<lparr>pr_now := 60, pr_out := [6, 5], pr_soerr := [5]\<rparr>,
                 no_events\<lparr>pr_now := 9000\<rparr>]\<rparr>"

theorem race_closes_losers_witness:
  "\<exists>w'. ft_lan_transfer_auth ref_ssl ref_env 3 [''10.0.0.2:80'', ''10.0.0.3:80''] (-1) 5000 None None True 0 sample_race = Some (6, w') \<and>
     mset (closed w') + ledger [6] =
       mset (closed sample_race) + ledger (fst (start_connects ref_env [''10.0.0.2:80'', ''10.0.0.3:80''] sample_race) @ [-1])"
proof -
  let ?r = "ft_lan_transfer_auth ref_ssl ref_env 3 [''10.0.0.2:80'', ''10.0.0.3:80''] (-1) 5000 None None True 0 sample_race"
  have "map_option fst ?r = Some 6" "map_option (\<lambda>x. new_conns (snd x)) ?r = Some [7]" by code_simp+
  then obtain w' where w': "?r = Some (6, w')" "new_conns w' = [7]" by auto
  have "new_conns sample_race = [7]" by (simp add: sample_race_def)
  then show ?thesis using race_closes_losers [OF w'(1)] w' by auto
qed

theorem race_terminates_witness:
  "\<exists>r w'. ft_lan_transfer_auth ref_ssl ref_env 3 [] (-1) 5000 (Some ''id'') (Some ''xyz'') True 0 sample_race = Some (r, w')"
  by (rule race_terminates [of "no_events\<lparr>pr_now := 9000\<rparr>"]) (simp_all add: sample_race_def)

definition sample_caller :: world where
  "sample_caller = sample_prover\<lparr>new_conns := [7], rounds := [no_events\<lparr>pr_now := 10, pr_in := [3]\<rparr>]\<rparr>"

lemma sample_caller_greeted:
  "\<exists>w'. ft_lan_transfer_auth ref_ssl ref_env 3 [] (-1) 5000 (Some (fi_file_id sample_info)) (Some sample_key) False 0
          sample_caller = Some (7, w')"
proof -
  have sock: "socks sample_caller fd = socks sample_prover 3" for fd
    by (simp add: sample_caller_def sample_prover_def base_world_def)
  define u where "u = ft_set_sock_timeout 7 2000 (ft_optimize_socket 7 (ft_set_blocking 7
     ((ft_set_nonblocking 3 sample_caller)\<lparr>new_conns := []\<rparr>)))"
  have u: "stream_in 7 u = bytes_of_str ''AUTH'' @ sample_mac @ [5]" "stream_ok 7 u"
    using sample_prover_facts sock
    by (simp_all add: u_def stream_in_def stream_ok_def sends_ok_def ft_set_sock_timeout_def
        ft_optimize_socket_def ft_set_blocking_def ft_set_nonblocking_def)
  obtain v where v: "ft_auth_recv ref_ssl 7 (fi_file_id sample_info) sample_key u = (0, v)"
    using ft_auth_recv_ok [OF sample_hmac sample_mac_length u(2,1)] .
  have k: "sample_key \<noteq> []" using sample_hmac_key by (auto simp: hmac_key_def int_of_size_def c_int_def)
  have a: "os_accept (ft_set_nonblocking 3 sample_caller) = (7, (ft_set_nonblocking 3 sample_caller)\<lparr>new_conns := []\<rparr>)"
    by (simp add: os_accept_def sample_caller_def)
  have "greet_auth ref_ssl (fi_file_id sample_info) sample_key False 7
      ((ft_set_nonblocking 3 sample_caller)\<lparr>new_conns := []\<rparr>) = (7, ft_set_sock_timeout 7 0 v)"
    using v by (simp add: greet_auth_def try_authenticate_def u_def)
  then show ?thesis
    using a k c_int_id [of 10]
    by (simp add: ft_lan_transfer_auth_def lan_start_def FT_INVALID_SOCK_def lan_round_def lan_listen_def lan_nat_def)
      (simp add: sample_caller_def FT_INVALID_SOCK_def lan_round_def lan_listen_def lan_nat_def no_events_def)
qed

theorem race_result_authenticated_witness:
  "\<exists>w'. ft_lan_transfer_auth ref_ssl ref_env 3 [] (-1) 5000 (Some (fi_file_id sample_info)) (Some sample_key) False 0
          sample_caller = Some (7, w') \<and>
        stream_in 7 sample_caller = bytes_of_str ''AUTH'' @ take 32 sample_mac @ stream_in 7 w'"
proof -
  obtain w' where w': "ft_lan_transfer_auth ref_ssl ref_env 3 [] (-1) 5000 (Some (fi_file_id sample_info))
      (Some sample_key) False 0 sample_caller = Some (7, w')"
    using sample_caller_greeted by blast
  have k: "sample_key \<noteq> []" using sample_hmac_key by (auto simp: hmac_key_def int_of_size_def c_int_def)
  have "distinct (valid_fds (new_fds sample_caller @ [-1] @ new_conns sample_caller))" "(7::int) \<noteq> FT_INVALID_SOCK"
    by (simp_all add: sample_caller_def sample_prover_def base_world_def FT_INVALID_SOCK_def)
  from race_result_authenticated [OF w' k this(2,1)] w' show ?thesis by (simp add: sample_hmac)
qed

section \<open>Own addresses, and connecting only\<close>

lemma ifa_loop_bound: "length addrs \<le> FT_MAX_ADDRS \<Longrightarrow> length (ifa_loop env port l addrs) \<le> FT_MAX_ADDRS"
  by (induction env port l addrs rule: ifa_loop.induct) auto

lemma ifa_loop_entries:
  "s \<in> set (ifa_loop env port l addrs) \<Longrightarrow>
     s \<in> set addrs \<or> (\<exists>i \<in> set l. ifa_inet i \<and> \<not> ifa_loopback i \<and> ifa_up i \<and>
        s = fst (snprintf_c 64 (inet_ntop env (ifa_addr i) @ '':'' @ dec_of_int port)))"
  by (induction env port l addrs rule: ifa_loop.induct) (auto split: if_splits)

text \<open>
  The addresses a client advertises fit the 8 slots, belong to running interfaces that are
  not the loopback, and the peer's parser reads from each of them exactly the interface's
  address and the server's port. The hypotheses are the behaviour of \<open>inet_ntop\<close> and
  \<open>inet_pton\<close> on IPv4 addresses.
\<close>

theorem local_addresses_usable:
  assumes "\<And>a. inet_pton env (inet_ntop env a) = Some a" and "\<And>a. length (inet_ntop env a) \<le> 15"
    and "port < 65536"
  shows "length (ft_get_local_addresses env (int port)) \<le> FT_MAX_ADDRS \<and>
         (\<forall>s \<in> set (ft_get_local_addresses env (int port)).
            \<exists>l i. getifaddrs env = Some l \<and> i \<in> set l \<and> ifa_up i \<and> \<not> ifa_loopback i \<and>
              ft_parse_addr env s = Some \<lparr>sin_port = of_nat port, sin_addr = ifa_addr i\<rparr>)"
proof (cases "getifaddrs env")
  case (Some l)
  have "\<exists>i. i \<in> set l \<and> ifa_up i \<and> \<not> ifa_loopback i \<and>
      ft_parse_addr env s = Some \<lparr>sin_port = of_nat port, sin_addr = ifa_addr i\<rparr>"
    if s: "s \<in> set (ifa_loop env (int port) l [])" for s
  proof -
    obtain i where i: "i \<in> set l" "ifa_up i" "\<not> ifa_loopback i"
        "s = fst (snprintf_c 64 (inet_ntop env (ifa_addr i) @ '':'' @ dec_of_int (int port)))"
      using ifa_loop_entries [OF s] by auto
    have "length (dec_of_nat port) \<le> 5" using dec_of_nat_length [of port 4] assms(3) by simp
    then have "s = inet_ntop env (ifa_addr i) @ '':'' @ dec_of_nat port"
      using i(4) assms(2) [of "ifa_addr i"] by (simp add: snprintf_c_def dec_of_int_def)
    then have "ft_parse_addr env s = Some \<lparr>sin_port = of_nat port, sin_addr = ifa_addr i\<rparr>"
      using ft_parse_addr_print [OF assms(1) _ assms(3)] assms(2) [of "ifa_addr i"] by simp
    then show ?thesis using i by blast
  qed
  then show ?thesis
    using Some ifa_loop_bound [of "[]" env "int port" l] by (simp add: ft_get_local_addresses_def)
qed (simp add: ft_get_local_addresses_def)

text \<open>An environment with the hypotheses: addresses written as eight hexadecimal digits.\<close>

definition hex_env :: netenv where
  "hex_env = ref_env\<lparr>inet_ntop := (\<lambda>a. sc_bytes_to_hex (be_put 4 (ucast a))),
     inet_pton := (\<lambda>s. map_option (\<lambda>b. ucast (be_get b)) (sc_hex_to_bytes s 4))\<rparr>"

lemma hex_env_inverse: "inet_pton hex_env (inet_ntop hex_env a) = Some a"
proof -
  let ?h = "concat (map hex02 (be_put 4 (ucast a)))"
  have "sc_hex_to_bytes ?h 4 = Some (hex_pairs ?h)"
    by (rule sc_hex_to_bytes_xdigits [OF xdigits_concat_hex02]) (simp add: length_concat_hex02)
  moreover have "(ucast (take_bit 32 (ucast a :: u64)) :: u32) = a"
    by (rule bit_word_eqI) (simp add: bit_simps)
  ultimately show ?thesis
    by (simp add: hex_env_def sc_bytes_to_hex_hex02 hex_pairs_hex02 be_put_get)
qed

theorem local_addresses_usable_witness:
  "\<exists>l i. getifaddrs hex_env = Some l \<and> i \<in> set l \<and> ifa_up i \<and> \<not> ifa_loopback i \<and>
     ft_parse_addr hex_env (hd (ft_get_local_addresses hex_env 40001)) = Some \<lparr>sin_port = 40001, sin_addr = ifa_addr i\<rparr>"
proof -
  have "length (inet_ntop hex_env a) \<le> 15" for a
    by (simp add: hex_env_def sc_bytes_to_hex_hex02 length_concat_hex02)
  note u = local_addresses_usable [OF hex_env_inverse this, of 40001]
  have "ft_get_local_addresses hex_env 40001 \<noteq> []"
    by (simp add: ft_get_local_addresses_def hex_env_def ref_env_def FT_MAX_ADDRS_def)
  then have "hd (ft_get_local_addresses hex_env 40001) \<in> set (ft_get_local_addresses hex_env 40001)" by simp
  then show ?thesis using u by simp
qed

lemma connect_loop_account:
  "connect_loop timeout_ms elapsed cs res w = (cs', r, w') \<Longrightarrow>
     ledger (cs' @ [r]) + mset (closed w') = ledger (cs @ [res]) + mset (closed w)"
proof (induction timeout_ms elapsed cs res w rule: connect_loop.induct)
  case (1 timeout_ms elapsed cs res w)
  obtain p w1 where p: "os_poll w = (p, w1)" by (cases "os_poll w")
  obtain cs1 r1 w2 where s: "scan_conns (look_connected p) cs res w1 = (cs1, r1, w2)"
    by (cases "scan_conns (look_connected p) cs res w1") auto
  have c: "closed w1 = closed w" using p by (auto simp: os_poll_def split: list.splits)
  show ?case
  proof (cases "elapsed < timeout_ms \<and> res = FT_INVALID_SOCK \<and> \<not> (\<forall>c \<in> set cs. c = FT_INVALID_SOCK)")
    case True
    have "connect_loop timeout_ms (elapsed + 50) cs1 r1 w2 = (cs', r, w')"
      using 1(2) True p s by (subst (asm) connect_loop.simps) auto
    then show ?thesis
      using 1(1) [OF _ _ p [symmetric] refl s [symmetric] refl refl] True plain.scan_account [OF s] c by auto
  next
    case False
    then have "cs' = cs \<and> r = res \<and> w' = w" using 1(2) by (subst (asm) connect_loop.simps) (auto split: if_splits)
    then show ?thesis by simp
  qed
qed

text \<open>
  \<open>ft_connect_any\<close> returns at most one of the sockets it opened and closes every other one
  exactly once.
\<close>

theorem connect_any_closes_losers:
  "mset (closed (snd (ft_connect_any env addrs timeout_ms w))) + ledger [fst (ft_connect_any env addrs timeout_ms w)] =
   mset (closed w) + ledger (fst (start_connects env addrs w))"
proof (cases "addrs = []")
  case False
  obtain cs w1 where s: "start_connects env addrs w = (cs, w1)" by (cases "start_connects env addrs w")
  obtain cs' r w2 where l: "connect_loop timeout_ms 0 cs FT_INVALID_SOCK w1 = (cs', r, w2)"
    by (cases "connect_loop timeout_ms 0 cs FT_INVALID_SOCK w1") auto
  have "closed w1 = closed w" using start_connects_effect [OF s] by simp
  moreover have "mset (closed (close_all cs' w2)) = mset (closed w2) + ledger cs'"
    by (simp add: close_all_effect(1) ledger_mset)
  ultimately show ?thesis
    using connect_loop_account [OF l] False s l
    by (cases "r = FT_INVALID_SOCK") (simp_all add: ft_connect_any_def Let_def ac_simps)
qed (simp add: ft_connect_any_def)

end
