(* ===== verification/FtNat.thy ===== *)
theory FtNat
  imports FtRace
begin

text \<open>
  NAT traversal, \<open>src/common/ft/ft_nat.c\<close>: the public endpoint as a UDP reflector sees it, and
  hole punching by UDP packets from the local port of a TCP socket that then connects.
\<close>

section \<open>Model\<close>

text \<open>
  \<open>None\<close> is the return value -1. The answer of the reflector is read into a 128-byte buffer,
  so at most 127 bytes of it count, up to a NUL, and \<open>strncpy\<close> cuts it to the caller's array.
\<close>

definition ft_discover_public ::
  "netenv \<Rightarrow> string \<Rightarrow> int \<Rightarrow> int \<Rightarrow> nat \<Rightarrow> world \<Rightarrow> string option \<times> world" where
  "ft_discover_public env server_host udp_port local_port out_len w =
     (let (s, w) = os_socket w in
      if s = FT_INVALID_SOCK then (None, w) else
      case (case inet_pton env server_host of
              Some a \<Rightarrow> Some a
            | None \<Rightarrow> getaddrinfo env server_host) of
        None \<Rightarrow> (None, ft_close s w)
      | Some a \<Rightarrow>
          (let w = os_sendto s ''DISCOVER'' \<lparr>sin_port = of_int udp_port, sin_addr = a\<rparr> w;
               (ans, w) = os_udp_wait w;
               ret = (case ans of
                        None \<Rightarrow> None
                      | Some b \<Rightarrow> if b = [] then None
                                  else Some (strncpy_fld (out_len - 1) (cstr (take 127 b))))
           in (ret, ft_close s w)))"

fun punch :: "int \<Rightarrow> sockaddr_in \<Rightarrow> nat \<Rightarrow> world \<Rightarrow> world" where
  "punch udp sa 0 w = w"
| "punch udp sa (Suc n) w = punch udp sa n (os_sendto udp ''PUNCH'' sa w)"

text \<open>
  Both functions open the TCP socket, punch through a second, datagram socket (3 and 5
  packets) and start the non-blocking connect.
\<close>

definition punch_connect :: "netenv \<Rightarrow> string \<Rightarrow> nat \<Rightarrow> world \<Rightarrow> int \<times> world" where
  "punch_connect env peer_public_addr packets w =
     (case ft_parse_addr env peer_public_addr of
        None \<Rightarrow> (FT_INVALID_SOCK, w)
      | Some sa \<Rightarrow>
          (let (sock, w) = os_socket w in
           if sock = FT_INVALID_SOCK then (FT_INVALID_SOCK, w) else
           let (udp, w) = os_socket w;
               w = (if udp \<noteq> FT_INVALID_SOCK then ft_close udp (punch udp sa packets w) else w)
           in (sock, os_connect sock sa (ft_set_nonblocking sock w))))"

definition ft_nat_punch_start :: "netenv \<Rightarrow> string \<Rightarrow> world \<Rightarrow> int \<times> world" where
  "ft_nat_punch_start env peer_public_addr w = punch_connect env peer_public_addr 3 w"

definition ft_nat_punch :: "netenv \<Rightarrow> string \<Rightarrow> world \<Rightarrow> int \<times> world" where
  "ft_nat_punch env peer_public_addr w =
     (let (sock, w) = punch_connect env peer_public_addr 5 w in
      if sock = FT_INVALID_SOCK then (FT_INVALID_SOCK, w) else
      let (p, w) = os_poll w in
      if sock \<in> set (pr_out p) \<and> sock \<notin> set (pr_soerr p)
      then (sock, ft_optimize_socket sock (ft_set_blocking sock w))
      else (FT_INVALID_SOCK, ft_close sock w))"

section \<open>Properties\<close>

lemma punch_effect:
  "dgrams (punch udp sa n w) = dgrams w @ replicate n (udp, sa, ''PUNCH'')"
  "closed (punch udp sa n w) = closed w" "socks (punch udp sa n w) = socks w"
  "new_fds (punch udp sa n w) = new_fds w"
  by (induction n arbitrary: w) (simp_all add: os_sendto_def replicate_append_same)

text \<open>
  \<open>ft_nat_punch_start\<close> on a host with descriptors left returns an open non-blocking socket
  that is connecting to the peer's public address, after three packets to that same address
  from the second socket, which is closed again; nothing else is closed.
\<close>

theorem nat_punch_start_effect:
  assumes "ft_parse_addr env addr = Some sa" and "new_fds w = fd # udp # rest"
    and "fd \<noteq> FT_INVALID_SOCK" and "udp \<noteq> FT_INVALID_SOCK"
  shows "\<exists>w'. ft_nat_punch_start env addr w = (fd, w') \<and>
           nonblock (socks w' fd) \<and> peer (socks w' fd) = Some sa \<and>
           dgrams w' = dgrams w @ replicate 3 (udp, sa, ''PUNCH'') \<and> closed w' = closed w @ [udp]"
  using assms
  by (simp add: ft_nat_punch_start_def punch_connect_def os_socket_def os_connect_def ft_set_nonblocking_def
      ft_close_def punch_effect)

theorem nat_punch_start_effect_witness:
  "\<exists>w'. ft_nat_punch_start ref_env ''10.0.0.2:80'' ((base_world new_sock)\<lparr>new_fds := [5, 6]\<rparr>) = (5, w') \<and>
     nonblock (socks w' 5) \<and> peer (socks w' 5) = Some \<lparr>sin_port = 80, sin_addr = 0x0A000002\<rparr> \<and>
     dgrams w' = [] @ replicate 3 (6, \<lparr>sin_port = 80, sin_addr = 0x0A000002\<rparr>, ''PUNCH'') \<and> closed w' = [] @ [6]"
proof -
  have "ft_parse_addr ref_env ''10.0.0.2:80'' = Some \<lparr>sin_port = 80, sin_addr = 0x0A000002\<rparr>" by code_simp
  from nat_punch_start_effect [OF this, of "(base_world new_sock)\<lparr>new_fds := [5, 6]\<rparr>" 5 6 "[]"]
  show ?thesis by (simp add: base_world_def FT_INVALID_SOCK_def)
qed

text \<open>Descriptors taken from the kernel and not closed in between.\<close>

definition taken :: "world \<Rightarrow> world \<Rightarrow> int multiset \<Rightarrow> bool" where
  "taken w w' M \<longleftrightarrow> (\<exists>used. new_fds w = used @ new_fds w' \<and> mset (closed w') + M = mset (closed w) + ledger used)"

lemma taken_trans:
  assumes "taken a b M" and "taken b c N"
  shows "taken a c (M + N)"
proof -
  obtain u v where u: "new_fds a = u @ new_fds b" "mset (closed b) + M = mset (closed a) + ledger u"
    and v: "new_fds b = v @ new_fds c" "mset (closed c) + N = mset (closed b) + ledger v"
    using assms by (auto simp: taken_def)
  have "mset (closed c) + (M + N) = (mset (closed b) + M) + ledger v" using v(2) by (simp add: ac_simps)
  also have "\<dots> = mset (closed a) + ledger (u @ v)" using u(2) by (simp add: ac_simps)
  finally show ?thesis using u(1) v(1) by (auto simp: taken_def intro: exI [of _ "u @ v"])
qed

lemma taken_same: "new_fds w' = new_fds w \<Longrightarrow> closed w' = closed w \<Longrightarrow> taken w w' {#}"
  by (simp add: taken_def exI [of _ "[]"])

lemma taken_socket: "os_socket w = (s, w') \<Longrightarrow> taken w w' (slot s)"
  by (auto simp: os_socket_def taken_def slot_def FT_INVALID_SOCK_def split: list.splits
      intro: exI [of _ "[]"] exI [of _ "[s]"])

lemma taken_close:
  assumes "taken w w' (slot c + M)"
  shows "taken w (ft_close c w') M"
  using assms by (cases "c = FT_INVALID_SOCK") (auto simp: taken_def ft_close_def ac_simps)

lemma taken_after: "taken w w' M \<Longrightarrow> new_fds v = new_fds w' \<Longrightarrow> closed v = closed w' \<Longrightarrow> taken w v M"
  by (simp add: taken_def)

lemma punch_connect_taken:
  assumes "punch_connect env addr n w = (s, w')"
  shows "taken w w' (slot s)"
proof (cases "ft_parse_addr env addr")
  case None
  then show ?thesis using assms taken_same by (auto simp: punch_connect_def)
next
  case (Some sa)
  obtain t w1 where t: "os_socket w = (t, w1)" by (cases "os_socket w")
  obtain u w2 where u: "os_socket w1 = (u, w2)" by (cases "os_socket w1")
  show ?thesis
  proof (cases "t = FT_INVALID_SOCK")
    case True
    then show ?thesis using assms Some t taken_socket [OF t] by (simp add: punch_connect_def)
  next
    case False
    define w3 where "w3 = (if u \<noteq> FT_INVALID_SOCK then ft_close u (punch u sa n w2) else w2)"
    have s: "s = t" "w' = os_connect t sa (ft_set_nonblocking t w3)"
      using assms Some t u False by (auto simp: punch_connect_def w3_def Let_def)
    have "taken w w2 (slot u + slot t)"
      using taken_trans [OF taken_socket [OF t] taken_socket [OF u]] by (simp add: ac_simps)
    then have "taken w (punch u sa n w2) (slot u + slot t)"
      by (rule taken_after) (simp_all add: punch_effect)
    then have "taken w w3 (slot t)"
      using taken_close \<open>taken w w2 (slot u + slot t)\<close> by (auto simp: w3_def)
    then show ?thesis
      unfolding s by (rule taken_after) (simp_all add: os_connect_def ft_set_nonblocking_def)
  qed
qed

text \<open>
  Every socket the NAT helpers open is accounted for: discovery closes its socket on every
  path; the blocking punch either returns its TCP socket or closes it, and always closes the
  datagram socket. (\<open>used\<close> are the descriptors the kernel gave out meanwhile.)
\<close>

theorem nat_sockets_accounted:
  "(\<exists>used. new_fds w = used @ new_fds (snd (ft_discover_public env host uport lport n w)) \<and>
      mset (closed (snd (ft_discover_public env host uport lport n w))) = mset (closed w) + ledger used) \<and>
   (\<exists>used. new_fds w = used @ new_fds (snd (ft_nat_punch env addr w)) \<and>
      mset (closed (snd (ft_nat_punch env addr w))) + ledger [fst (ft_nat_punch env addr w)] =
        mset (closed w) + ledger used)"
proof
  obtain s w1 where s: "os_socket w = (s, w1)" by (cases "os_socket w")
  have d: "taken w (ft_close s v) {#}" if "new_fds v = new_fds w1" "closed v = closed w1" for v
    using taken_close [of w v s "{#}"] taken_after [OF taken_socket [OF s] that] by simp
  have "taken w (snd (ft_discover_public env host uport lport n w)) {#}"
    using s taken_socket [OF s] d
    by (auto simp: ft_discover_public_def Let_def os_udp_wait_def os_sendto_def split: option.splits list.splits)
  then show "\<exists>used. new_fds w = used @ new_fds (snd (ft_discover_public env host uport lport n w)) \<and>
      mset (closed (snd (ft_discover_public env host uport lport n w))) = mset (closed w) + ledger used"
    by (simp add: taken_def)
next
  obtain s w1 where s: "punch_connect env addr 5 w = (s, w1)" by (cases "punch_connect env addr 5 w")
  obtain p w2 where p: "os_poll w1 = (p, w2)" by (cases "os_poll w1")
  have t: "taken w w2 (slot s)"
    using taken_after [OF punch_connect_taken [OF s], of w2] p by (auto simp: os_poll_def split: list.splits)
  have "taken w (snd (ft_nat_punch env addr w)) (slot (fst (ft_nat_punch env addr w)))"
    using s p punch_connect_taken [OF s] t taken_close [of w w2 s "{#}"] taken_after [OF t]
    by (auto simp: ft_nat_punch_def ft_set_blocking_def ft_optimize_socket_def)
  then show "\<exists>used. new_fds w = used @ new_fds (snd (ft_nat_punch env addr w)) \<and>
      mset (closed (snd (ft_nat_punch env addr w))) + ledger [fst (ft_nat_punch env addr w)] =
        mset (closed w) + ledger used"
    by (simp add: taken_def)
qed

end
