(* ===== verification/LinuxClient.thy ===== *)
theory LinuxClient
  imports LinuxClip SendQueue AuthHttp Crypto FtNat
begin

text \<open>
  The Linux client, \<open>src/linux/main.c\<close>: its globals, the WebSocket callback with the handlers of
  the messages, the clipboard monitor and the connection loop. The transfer threads are in
  \<open>LinuxXfer\<close>, the system of callback, monitor and threads in \<open>LinuxSystem\<close>.

  A handler takes the environment of its event (libraries, host, desktop, random bytes, which
  allocations fail) and the time, and returns the new state; \<open>None\<close> is undefined behaviour of C.
  Commands for the clipboard tools, messages written to the socket and created threads are
  logged in the state. The thread copies of \<open>g_xfer\<close> hold the data by value, the pointer they
  share with \<open>g_xfer\<close> is not modelled. Log lines are left out.
\<close>

section \<open>State\<close>

record TransferState =
  ts_file_id :: string
  ts_file_name :: string
  ts_mime_type :: string
  ts_file_size :: u64
  ts_checksum :: string
  ts_data :: "byte list option"
  ts_source_path :: string
  ts_is_sender :: bool
  ts_listen_fd :: int
  ts_listen_port :: int
  ts_peer_addrs :: "string list"
  ts_peer_addr_count :: nat
  ts_peer_public_addr :: string
  ts_from_device :: string
  ts_max_relay_size :: int
  ts_udp_port :: int
  ts_phase :: nat
  ts_success :: bool
  ts_eff_file_level :: int
  ts_same_lan :: bool

text \<open>\<open>= {0}\<close> and \<open>memset\<close>.\<close>

definition zero_xfer :: TransferState where
  "zero_xfer =
     \<lparr>ts_file_id = [], ts_file_name = [], ts_mime_type = [], ts_file_size = 0, ts_checksum = [], ts_data = None,
      ts_source_path = [], ts_is_sender = False, ts_listen_fd = 0, ts_listen_port = 0,
      ts_peer_addrs = replicate FT_MAX_ADDRS [], ts_peer_addr_count = 0, ts_peer_public_addr = [], ts_from_device = [],
      ts_max_relay_size = 0, ts_udp_port = 0, ts_phase = 0, ts_success = False, ts_eff_file_level = 0, ts_same_lan = False\<rparr>"

record client =
  g_config :: ClientConfig
  g_authenticated :: bool
  g_logged_in :: bool
  g_connected :: bool
  g_wsi :: bool
  g_server_file_level :: int
  cl_queue :: SendQueue
  cl_recv :: RecvBuf
  g_last_clip_hash :: string
  g_last_img_hash :: string
  g_suppress_until_ms :: int
  g_tokens :: AuthTokens
  g_ws_subproto :: string
  g_reconnect_delay :: int
  g_xfer :: TransferState
  g_xfer_active_count :: int
  g_cached_types :: string
  g_clip_ops :: ClipboardOps
  primary_pending_ms :: int
  cl_shell :: shell
  cl_world :: world
  cl_sent :: "string list"
  cl_created :: "TransferState list"
  cl_running :: "TransferState list"

record env =
  e_ssl :: openssl
  e_net :: netenv
  e_fp :: fp
  e_desk :: desktop
  e_nonce :: "byte list option"
  e_uuid :: "byte list option"
  e_rand :: "nat \<Rightarrow> u32"
  e_junk :: "nat \<Rightarrow> u32"
  e_node_oom :: bool
  e_copy_oom :: bool

definition init_client :: "ClientConfig \<Rightarrow> ClipboardOps \<Rightarrow> world \<Rightarrow> client" where
  "init_client cfg ops w =
     \<lparr>g_config = cfg, g_authenticated = False, g_logged_in = False, g_connected = False, g_wsi = False,
      g_server_file_level = 3, cl_queue = empty_queue, cl_recv = empty_recv, g_last_clip_hash = [], g_last_img_hash = [],
      g_suppress_until_ms = 0, g_tokens = \<lparr>access_token = [], refresh_token = [], expires_in_sec = 0\<rparr>,
      g_ws_subproto = [], g_reconnect_delay = 1, g_xfer = zero_xfer, g_xfer_active_count = 0, g_cached_types = [],
      g_clip_ops = ops, primary_pending_ms = 0, cl_shell = [], cl_world = w, cl_sent = [], cl_created = [], cl_running = []\<rparr>"

definition effective_file_level :: "client \<Rightarrow> int" where
  "effective_file_level c =
     (let s = g_server_file_level c; l = file_transfer_level (g_config c) in if s < l then s else l)"

definition now_ms :: "int \<Rightarrow> int \<Rightarrow> int" where
  "now_ms tv_sec tv_nsec = tv_sec * 1000 + tv_nsec div 1000000"

definition suppress_clipboard_ms :: "int \<Rightarrow> int \<Rightarrow> client \<Rightarrow> client" where
  "suppress_clipboard_ms now ms c = c\<lparr>g_suppress_until_ms := now + ms\<rparr>"

definition is_suppressed :: "int \<Rightarrow> client \<Rightarrow> bool" where
  "is_suppressed now c \<longleftrightarrow> now < g_suppress_until_ms c"

text \<open>\<open>queue_send(msg)\<close>; \<open>strdup(NULL)\<close> is undefined.\<close>

definition send_msg :: "env \<Rightarrow> string option \<Rightarrow> client \<Rightarrow> client option" where
  "send_msg e m c =
     (case m of None \<Rightarrow> None | Some s \<Rightarrow> Some (c\<lparr>cl_queue := queue_send (e_node_oom e) s (cl_queue c)\<rparr>))"

section \<open>The current transfer\<close>

text \<open>Close and free what the previous transfer holds, and clear the record.\<close>

definition reset_xfer :: "client \<Rightarrow> client" where
  "reset_xfer c =
     c\<lparr>cl_world := (if ts_listen_fd (g_xfer c) \<noteq> FT_INVALID_SOCK then ft_close (ts_listen_fd (g_xfer c)) (cl_world c) else cl_world c),
       g_xfer := zero_xfer\<lparr>ts_listen_fd := FT_INVALID_SOCK\<rparr>\<rparr>"

definition open_listener :: "env \<Rightarrow> client \<Rightarrow> client" where
  "open_listener e c =
     (let (fd, port, w) = ft_start_server (e_net e) (cl_world c) in
      c\<lparr>cl_world := w, g_xfer := (g_xfer c)\<lparr>ts_listen_fd := fd, ts_listen_port := port, ts_phase := 1\<rparr>\<rparr>)"

section \<open>Messages\<close>

abbreviation str_item :: "json \<Rightarrow> string \<Rightarrow> string option" where
  "str_item j name \<equiv> cJSON_GetStringValue (cJSON_GetObjectItem (Some j) name)"

abbreviation num_item :: "json \<Rightarrow> string \<Rightarrow> dbl" where
  "num_item j name \<equiv> cJSON_GetNumberValue (cJSON_GetObjectItem (Some j) name)"

text \<open>\<open>if (s) strncpy(field, s, n)\<close>\<close>

definition copy_fld :: "nat \<Rightarrow> string option \<Rightarrow> string \<Rightarrow> string" where
  "copy_fld n s old = (case s of None \<Rightarrow> old | Some x \<Rightarrow> strncpy_fld n x)"

definition on_hello_ack :: "json \<Rightarrow> client \<Rightarrow> client" where
  "on_hello_ack j c =
     c\<lparr>g_server_file_level :=
         (case cJSON_GetObjectItem (Some j) ''serverFileLevel'' of None \<Rightarrow> 3 | Some ftl \<Rightarrow> dbl_to_int (cJSON_GetNumberValue (Some ftl)))\<rparr>"

definition on_clipboard :: "env \<Rightarrow> int \<Rightarrow> json \<Rightarrow> client \<Rightarrow> client" where
  "on_clipboard e now j c =
     (case str_item j ''content'' of
        None \<Rightarrow> c
      | Some content \<Rightarrow>
          (case (case aes_gcm_decrypt (e_ssl e) content (aes_key (g_config c)) of
                   Some d \<Rightarrow> Some d
                 | None \<Rightarrow> aes_decrypt (e_ssl e) (e_junk e) content (aes_key (g_config c))) of
             None \<Rightarrow> c
           | Some dec \<Rightarrow>
               (let txt = cstr (str_of_bytes dec);
                    c = c\<lparr>g_last_clip_hash := ft_sha256 (e_ssl e) (bytes_of_str txt)\<rparr>;
                    c = suppress_clipboard_ms now 2000 c
                in c\<lparr>cl_shell := co_set_text (g_clip_ops c) (e_desk e) txt (cl_shell c)\<rparr>)))"

definition on_file_notify :: "env \<Rightarrow> json \<Rightarrow> client \<Rightarrow> client option" where
  "on_file_notify e j c =
     (if effective_file_level c \<le> 0 then Some c
      else (let c = reset_xfer c;
                fid = str_item j ''fileId'';
                x = g_xfer c;
                x = x\<lparr>ts_file_id := copy_fld 63 fid (ts_file_id x),
                      ts_file_name := copy_fld 255 (str_item j ''fileName'') (ts_file_name x),
                      ts_mime_type := copy_fld 63 (str_item j ''mimeType'') (ts_mime_type x),
                      ts_checksum := copy_fld 64 (str_item j ''checksum'') (ts_checksum x),
                      ts_from_device := copy_fld 127 (str_item j ''from'') (ts_from_device x),
                      ts_file_size := dbl_to_u64 (num_item j ''fileSize''),
                      ts_max_relay_size := dbl_to_long (num_item j ''maxRelaySize''),
                      ts_udp_port := dbl_to_int (num_item j ''udpPort'')\<rparr>;
                c = open_listener e (c\<lparr>g_xfer := x\<rparr>);
                my_addrs = ft_get_local_addresses (e_net e) (ts_listen_port (g_xfer c))
            in send_msg e (build_file_request (e_fp e) fid my_addrs) c))"

text \<open>An entry that is no string keeps what an earlier message left there, and is counted.\<close>

fun set_peers :: "json list \<Rightarrow> nat \<Rightarrow> string list \<Rightarrow> nat \<times> string list" where
  "set_peers [] idx ps = (idx, ps)"
| "set_peers (x # xs) idx ps =
     (if idx \<ge> FT_MAX_ADDRS then (idx, ps)
      else set_peers xs (Suc idx)
             (case cJSON_GetStringValue (Some x) of None \<Rightarrow> ps | Some a \<Rightarrow> ps[idx := strncpy_fld 63 a]))"

definition peer_addrs_in :: "json \<Rightarrow> string list \<Rightarrow> nat \<times> string list" where
  "peer_addrs_in j ps =
     (case cJSON_GetObjectItem (Some j) ''peerLocalAddresses'' of
        Some (JArray xs) \<Rightarrow> set_peers xs 0 ps | _ \<Rightarrow> (0, ps))"

definition server_level_in :: "json \<Rightarrow> client \<Rightarrow> int" where
  "server_level_in j c =
     (case cJSON_GetObjectItem (Some j) ''fileTransferLevel'' of
        None \<Rightarrow> g_server_file_level c | Some l \<Rightarrow> dbl_to_int (cJSON_GetNumberValue (Some l)))"

definition peer_info_accepted :: "json \<Rightarrow> client \<Rightarrow> bool" where
  "peer_info_accepted j c \<longleftrightarrow>
     (case str_item j ''fileId'' of None \<Rightarrow> True | Some fid \<Rightarrow> fid = ts_file_id (g_xfer c)) \<and>
     \<not> (\<not> ts_is_sender (g_xfer c) \<and> (g_xfer_active_count c > 0 \<or> ts_phase (g_xfer c) \<ge> 2))"

definition on_peer_info :: "env \<Rightarrow> json \<Rightarrow> client \<Rightarrow> client" where
  "on_peer_info e j c =
     (if \<not> peer_info_accepted j c then c
      else (let x = g_xfer c;
                x = x\<lparr>ts_peer_public_addr := copy_fld 63 (str_item j ''peerPublicAddress'') (ts_peer_public_addr x)\<rparr>;
                (n, ps) = peer_addrs_in j (ts_peer_addrs x);
                srv_level = server_level_in j c;
                eff = (if file_transfer_level (g_config c) < srv_level then file_transfer_level (g_config c) else srv_level);
                x = x\<lparr>ts_peer_addr_count := n, ts_peer_addrs := ps, ts_eff_file_level := eff,
                      ts_same_lan := cJSON_IsTrue (cJSON_GetObjectItem (Some j) ''sameLan''), ts_phase := 2\<rparr>
            in if e_copy_oom e then c\<lparr>g_xfer := x\<rparr>
               else c\<lparr>g_xfer := (if ts_is_sender x then x else x\<lparr>ts_listen_fd := FT_INVALID_SOCK\<rparr>),
                      cl_created := cl_created c @ [x]\<rparr>))"

definition on_relay_request :: "env \<Rightarrow> json \<Rightarrow> client \<Rightarrow> client option" where
  "on_relay_request e j c =
     (case (ts_data (g_xfer c), str_item j ''requesterId'') of
        (Some d, Some requester) \<Rightarrow>
          if d = [] then Some c
          else send_msg e (build_file_relay_data (e_ssl e) (e_fp e) (ts_file_id (g_xfer c)) d (ts_file_size (g_xfer c)) requester) c
      | _ \<Rightarrow> Some c)"

definition tmp_path :: "string \<Rightarrow> string" where
  "tmp_path name = fst (snprintf_c 512 (''/tmp/syncclip_'' @ name))"

text \<open>\<open>fopen\<close>, one \<open>fwrite\<close>, \<open>fclose\<close>; failures are not looked at.\<close>

definition store_file :: "string \<Rightarrow> byte list \<Rightarrow> world \<Rightarrow> world" where
  "store_file p d w = (case fopen_wb p w of None \<Rightarrow> w | Some w \<Rightarrow> snd (fwrite p d w))"

definition on_relay_data :: "env \<Rightarrow> int \<Rightarrow> json \<Rightarrow> client \<Rightarrow> client option" where
  "on_relay_data e now j c =
     (case str_item j ''data'' of
        None \<Rightarrow> Some c
      | Some b64 \<Rightarrow>
          (case ft_base64_decode (e_ssl e) b64 of
             None \<Rightarrow> Some c
           | Some dec \<Rightarrow>
               (let c = suppress_clipboard_ms now 2000 (c\<lparr>g_last_img_hash := ft_sha256 (e_ssl e) dec\<rparr>);
                    fin = send_msg e (build_transfer_result (e_fp e) (str_item j ''fileId'') ''relay'' True 0 0)
                in case str_item j ''mimeType'' of
                     Some mt \<Rightarrow>
                       if starts_with ''image/'' mt then
                         (case co_set_image (g_clip_ops c) (e_desk e) dec mt (cl_shell c) of
                            None \<Rightarrow> None | Some sh \<Rightarrow> fin (c\<lparr>cl_shell := sh\<rparr>))
                       else (let p = tmp_path (case str_item j ''fileName'' of None \<Rightarrow> ''file'' | Some fn \<Rightarrow> fn) in
                             fin (c\<lparr>cl_world := store_file p dec (cl_world c),
                                    cl_shell := co_set_file (g_clip_ops c) (e_desk e) p (cl_shell c)\<rparr>))
                   | None \<Rightarrow> (let p = tmp_path (case str_item j ''fileName'' of None \<Rightarrow> ''file'' | Some fn \<Rightarrow> fn) in
                             fin (c\<lparr>cl_world := store_file p dec (cl_world c),
                                    cl_shell := co_set_file (g_clip_ops c) (e_desk e) p (cl_shell c)\<rparr>)))))"

definition handle_message :: "env \<Rightarrow> int \<Rightarrow> json \<Rightarrow> client \<Rightarrow> client option" where
  "handle_message e now j c =
     (case str_item j ''type'' of
        None \<Rightarrow> Some c
      | Some type \<Rightarrow>
          if type = ''hello_ack'' then Some (on_hello_ack j c)
          else if type = ''auth_result'' \<or> type = ''login_result'' then Some c
          else if type = ''clipboard'' then Some (on_clipboard e now j c)
          else if type = ''file_notify'' then on_file_notify e j c
          else if type = ''file_peer_info'' then Some (on_peer_info e j c)
          else if type = ''file_relay_request'' then on_relay_request e j c
          else if type = ''file_relay_data'' then on_relay_data e now j c
          else Some c)"

section \<open>The WebSocket callback\<close>

definition on_established :: "env \<Rightarrow> client \<Rightarrow> client option" where
  "on_established e c =
     send_msg e (sc_msg_hello (e_fp e) (Some ''linux'') (Some (device_id (g_config c))) (Some ''2.0.0''))
       (c\<lparr>g_connected := True, g_authenticated := True, g_logged_in := True, g_reconnect_delay := 1\<rparr>)"

definition on_receive :: "env \<Rightarrow> int \<Rightarrow> byte list \<Rightarrow> bool \<Rightarrow> client \<Rightarrow> client option" where
  "on_receive e now d final c =
     (case recv_fragment (alloc_ok (e_desk e)) d (cl_recv c) of
        None \<Rightarrow> None
      | Some (stored, b) \<Rightarrow>
          (let c = c\<lparr>cl_recv := b\<rparr> in
           if \<not> stored \<or> \<not> final then Some c
           else (case recv_finish b of
                   None \<Rightarrow> None
                 | Some (bytes, b) \<Rightarrow>
                     (let c = c\<lparr>cl_recv := b\<rparr> in
                      case cJSON_Parse (e_fp e) (Some (cstr (str_of_bytes bytes))) of
                        None \<Rightarrow> Some c
                      | Some j \<Rightarrow> handle_message e now j c))))"

text \<open>\<open>buf_ok\<close>: the copy that is handed to \<open>lws_write\<close> could be allocated; else the message is lost.\<close>

definition on_writeable :: "bool \<Rightarrow> client \<Rightarrow> client" where
  "on_writeable buf_ok c =
     (let (m, has_more, q) = queue_pop (cl_queue c) in
      c\<lparr>cl_queue := q, cl_sent := cl_sent c @ (case m of None \<Rightarrow> [] | Some s \<Rightarrow> if buf_ok then [s] else [])\<rparr>)"

definition on_closed :: "client \<Rightarrow> client" where
  "on_closed c = c\<lparr>g_connected := False, g_authenticated := False, g_logged_in := False, g_wsi := False,
     cl_recv := (cl_recv c)\<lparr>g_recv_len := 0\<rparr>\<rparr>"

section \<open>The clipboard monitor\<close>

text \<open>
  The common end of the image and the file branch: a new transfer as its sender, announced to
  the server. The wait of up to half a second for running transfers that comes before it is
  left to the order of events: a transfer that ends during the wait is one that ended before.
\<close>

definition start_offer ::
  "env \<Rightarrow> string \<Rightarrow> string \<Rightarrow> u64 \<Rightarrow> byte list option \<Rightarrow> string \<Rightarrow> string \<Rightarrow> client \<Rightarrow> client option" where
  "start_offer e name mime fsize d path cksum c =
     (let c = reset_xfer c;
          x = (g_xfer c)\<lparr>ts_is_sender := True, ts_file_id := ft_generate_uuid (e_uuid e) (e_rand e),
                ts_file_name := strncpy_fld 255 name, ts_mime_type := strncpy_fld 63 mime, ts_file_size := fsize,
                ts_data := d, ts_source_path := strncpy_fld 511 path, ts_checksum := cksum\<rparr>;
          c = open_listener e (c\<lparr>g_xfer := x\<rparr>);
          x = g_xfer c;
          addrs = ft_get_local_addresses (e_net e) (ts_listen_port x)
      in send_msg e (build_file_offer (e_fp e) (ts_file_id x) (ts_file_name x) (ts_mime_type x) (ts_file_size x) (ts_checksum x) addrs) c)"

definition offer_image :: "env \<Rightarrow> byte list \<Rightarrow> string \<Rightarrow> client \<Rightarrow> client option" where
  "offer_image e img mime c =
     (let img_hash = ft_sha256 (e_ssl e) img in
      if img_hash = g_last_img_hash c then Some c
      else (let c = c\<lparr>g_last_img_hash := img_hash\<rparr>;
                ext = (if contains_str ''jpeg'' mime then ''clipboard.jpg'' else ''clipboard.png'')
            in if g_xfer_active_count c > 0 then Some c
               else start_offer e ext mime (of_nat (length img)) (Some img) [] img_hash c))"

definition base_name :: "string \<Rightarrow> string" where
  "base_name p = (case split_last CHR ''/'' p of None \<Rightarrow> p | Some (_, b) \<Rightarrow> b)"

definition offer_path :: "env \<Rightarrow> string \<Rightarrow> client \<Rightarrow> client option" where
  "offer_path e fpath c =
     (case fsys (cl_world c) fpath of
        None \<Rightarrow> Some c
      | Some content \<Rightarrow>
          (let fsize = int (length content) in
           if fsize \<le> 0 \<or> fsize \<ge> 1024 * 1024 * max_transfer_size (g_config c) then Some c
           else if g_xfer_active_count c > 0 then Some c
           else (case ft_sha256_file (e_ssl e) fpath (cl_world c) of
                   None \<Rightarrow> None
                 | Some fhash \<Rightarrow>
                     start_offer e (base_name fpath) (mime_from_extension (base_name fpath)) (of_int fsize) None fpath fhash
                       (c\<lparr>g_last_img_hash := fhash\<rparr>))))"

definition process_text :: "env \<Rightarrow> string \<Rightarrow> client \<Rightarrow> client option" where
  "process_text e clip c =
     (let hash = ft_sha256 (e_ssl e) (bytes_of_str clip) in
      if hash = g_last_clip_hash c then Some c
      else (let c = c\<lparr>g_last_clip_hash := hash\<rparr> in
            case aes_gcm_encrypt (e_ssl e) (e_nonce e) (bytes_of_str clip) (aes_key (g_config c)) of
              None \<Rightarrow> Some c
            | Some enc \<Rightarrow> send_msg e (build_clipboard_msg (e_fp e) enc) c))"

definition process_clipboard_text :: "env \<Rightarrow> client \<Rightarrow> client option" where
  "process_clipboard_text e c =
     (case co_get_text (g_clip_ops c) (e_desk e) of
        None \<Rightarrow> None
      | Some None \<Rightarrow> Some c
      | Some (Some clip) \<Rightarrow> process_text e clip c)"

definition process_clipboard_file :: "env \<Rightarrow> client \<Rightarrow> client option" where
  "process_clipboard_file e c =
     (if effective_file_level c > 0 \<and> clipboard_has_file (g_cached_types c) then
        (case clipboard_get_file_uri (g_clip_ops c) (e_desk e) of
           None \<Rightarrow> None
         | Some (Some fpath) \<Rightarrow> offer_path e fpath c
         | Some None \<Rightarrow> process_clipboard_text e c)
      else process_clipboard_text e c)"

definition process_clipboard_change :: "env \<Rightarrow> client \<Rightarrow> client option" where
  "process_clipboard_change e c =
     (case co_refresh_types (g_clip_ops c) (e_desk e) 4096 of
        None \<Rightarrow> None
      | Some types \<Rightarrow>
          (let c = c\<lparr>g_cached_types := types\<rparr> in
           if effective_file_level c > 0 \<and> clipboard_has_image types then
             (case clipboard_get_image (g_clip_ops c) (e_desk e) of
                None \<Rightarrow> None
              | Some (Some (img, mime)) \<Rightarrow> if img \<noteq> [] then offer_image e img mime c else process_clipboard_file e c
              | Some None \<Rightarrow> process_clipboard_file e c)
           else process_clipboard_file e c))"

definition process_primary_change :: "env \<Rightarrow> client \<Rightarrow> client option" where
  "process_primary_change e c =
     (if \<not> xdisplay (e_desk e) then Some c
      else (case x11_text (e_desk e) ''PRIMARY'' of
              None \<Rightarrow> None
            | Some None \<Rightarrow> Some c
            | Some (Some txt) \<Rightarrow> if txt = [] then Some c else process_text e txt c))"

text \<open>
  \<open>clipboard_monitor\<close>: what it does first, on a change of the clipboard (or every half second
  when polling), on a change of the primary selection, and at the end of every round.
\<close>

definition monitor_start :: "env \<Rightarrow> client \<Rightarrow> client option" where
  "monitor_start e c =
     (case co_get_text (g_clip_ops c) (e_desk e) of
        None \<Rightarrow> None
      | Some None \<Rightarrow> Some c
      | Some (Some initial) \<Rightarrow> Some (c\<lparr>g_last_clip_hash := ft_sha256 (e_ssl e) (bytes_of_str initial)\<rparr>))"

definition monitor_clipboard :: "env \<Rightarrow> int \<Rightarrow> client \<Rightarrow> client option" where
  "monitor_clipboard e now c =
     (if \<not> g_logged_in c then Some c else if is_suppressed now c then Some c else process_clipboard_change e c)"

definition monitor_primary :: "int \<Rightarrow> client \<Rightarrow> client" where
  "monitor_primary now c = c\<lparr>primary_pending_ms := now\<rparr>"

definition monitor_round :: "env \<Rightarrow> int \<Rightarrow> client \<Rightarrow> client option" where
  "monitor_round e now c =
     (if primary_pending_ms c > 0 \<and> now - primary_pending_ms c \<ge> 500 then
        (let c = c\<lparr>primary_pending_ms := 0\<rparr> in
         if g_logged_in c \<and> \<not> is_suppressed now c then process_primary_change e c else Some c)
      else Some c)"

section \<open>main\<close>

definition start_client :: "string option \<Rightarrow> string option \<Rightarrow> bool \<Rightarrow> world \<Rightarrow> client" where
  "start_client config_file wayland_display wl_paste_found w =
     (let cfg = snd (config_load config_file);
          w = ft_set_max_file_size (of_int (max_transfer_size cfg) * 1024 * 1024) w
      in init_client cfg (snd (select_ops wayland_display wl_paste_found)) w)"

text \<open>
  One round of the connection loop: the seconds slept, 0 when the service call is reached.
  \<open>connect_ok\<close> is whether \<open>lws_client_connect_via_info\<close> gives a handle.
\<close>

definition connect_round ::
  "env \<Rightarrow> bool \<Rightarrow> client \<Rightarrow> http_net \<Rightarrow> (int \<times> client \<times> http_net) option" where
  "connect_round e connect_ok c net =
     (if \<not> g_connected c \<and> \<not> g_wsi c then
        (case ws_acquire_tokens (alloc_ok (e_desk e)) (e_fp e) (g_config c) (g_tokens c) net of
           None \<Rightarrow> None
         | Some (r, t, net) \<Rightarrow>
             (let c = c\<lparr>g_tokens := t\<rparr>; d = g_reconnect_delay c in
              if r \<noteq> 0 then Some (d, c\<lparr>g_reconnect_delay := (if d < 60 then d * 2 else d)\<rparr>, net)
              else (let c = c\<lparr>g_ws_subproto := snd (ws_build_bearer_protocol (access_token t) 1200)\<rparr> in
                    if connect_ok then Some (0, c\<lparr>g_wsi := True\<rparr>, net)
                    else (let d2 = (if d < 60 then d * 2 else d) in
                          Some (d, c\<lparr>g_reconnect_delay := (if d2 > 60 then 60 else d2)\<rparr>, net)))))
      else Some (0, c, net))"

section \<open>A small client\<close>

definition quiet_desktop :: desktop where
  "quiet_desktop = sample_desktop (\<lambda>cmd. if cmd = ''xclip -selection clipboard -o 2>/dev/null'' then Some [104, 105] else None)"

definition sample_env :: env where
  "sample_env = \<lparr>e_ssl = ref_ssl, e_net = ref_env, e_fp = exact_fp, e_desk = quiet_desktop, e_nonce = Some (replicate 12 7), e_uuid = None,
     e_rand = \<lambda>_. 0, e_junk = \<lambda>_. 0, e_node_oom = False, e_copy_oom = False\<rparr>"

definition sample_client :: client where
  "sample_client = init_client (config_set_defaults\<lparr>aes_key := replicate 64 CHR ''a''\<rparr>) xclip_ops (base_world new_sock)"

section \<open>Texts travel from clipboard to clipboard\<close>

text \<open>What two clients need to understand each other: documented libraries and a common key.\<close>

definition can_talk :: "env \<Rightarrow> client \<Rightarrow> client \<Rightarrow> bool" where
  "can_talk e a b \<longleftrightarrow>
     b64_documented (e_ssl e) \<and> gcm_documented (e_ssl e) \<and> mem_ok (e_ssl e) \<and> fp_documented (e_fp e) \<and>
     length (aes_key (g_config a)) = 64 \<and> list_all isxdigit (aes_key (g_config a)) \<and>
     aes_key (g_config b) = aes_key (g_config a) \<and> \<not> e_node_oom e"

lemma clipboard_items:
  "str_item (JObject [(''type'', JString ''clipboard''), (''content'', JString s)]) ''type'' = Some ''clipboard''"
  "str_item (JObject [(''type'', JString ''clipboard''), (''content'', JString s)]) ''content'' = Some s"
  by (simp_all add: lookup_simps Let_def)

lemma cstr_id: "nul \<notin> set s \<Longrightarrow> cstr s = s"
  by (auto simp: cstr_def takeWhile_eq_all_conv)

lemma text_sent:
  assumes "can_talk e a b" and "e_nonce e = Some nonce" and "length nonce = 12" and "length txt + 29 < 2 ^ 30"
    and "g_last_clip_hash a \<noteq> ft_sha256 (e_ssl e) (bytes_of_str txt)"
  obtains enc s where "process_text e txt a = Some (a\<lparr>g_last_clip_hash := ft_sha256 (e_ssl e) (bytes_of_str txt),
      cl_queue := queue_send False s (cl_queue a)\<rparr>)"
    "cJSON_Parse (e_fp e) (Some s) = Some (JObject [(''type'', JString ''clipboard''), (''content'', JString enc)])"
    "aes_gcm_decrypt (e_ssl e) enc (aes_key (g_config b)) = Some (bytes_of_str txt)"
proof -
  have t: "b64_documented (e_ssl e)" "gcm_documented (e_ssl e)" "mem_ok (e_ssl e)" "fp_documented (e_fp e)"
    "length (aes_key (g_config a)) = 64" "\<forall>c \<in> set (aes_key (g_config a)). isxdigit c"
    "aes_key (g_config b) = aes_key (g_config a)" "\<not> e_node_oom e"
    using assms(1) by (auto simp: can_talk_def list_all_iff)
  obtain enc where enc: "aes_gcm_encrypt (e_ssl e) (Some nonce) (bytes_of_str txt) (aes_key (g_config a)) = Some enc"
    "aes_gcm_decrypt (e_ssl e) enc (aes_key (g_config a)) = Some (bytes_of_str txt)" "nul \<notin> set enc"
    using gcm_inverse [OF t(1-3,5,6) assms(3), of "bytes_of_str txt"] assms(4) by auto
  obtain s where s: "build_clipboard_msg (e_fp e) enc = Some s"
    "cJSON_Parse (e_fp e) (Some s) = Some (JObject [(''type'', JString ''clipboard''), (''content'', JString enc)])"
    using clipboard_read_back [OF t(4) enc(3)] by blast
  show ?thesis
    using assms(2,5) enc s t(7,8) by (intro that [of s enc]) (auto simp: process_text_def send_msg_def Let_def)
qed

text \<open>
  C1. End to end: a new text on the clipboard of one client is encrypted, put into a message and
  queued; a client with the same key that gets this message puts exactly this text on its
  clipboard, remembers its hash and ignores clipboard events for two seconds, and so, whenever
  it looks at its clipboard with this text on it, it does not send it back. No text of up to a
  gigabyte without NUL is excluded, for any libraries that do what their documentation says.
\<close>

theorem text_synchronised:
  assumes "can_talk e a b" and "e_nonce e = Some nonce" and "length nonce = 12"
    and "nul \<notin> set txt" and "length txt + 29 < 2 ^ 30"
    and "g_last_clip_hash a \<noteq> ft_sha256 (e_ssl e) (bytes_of_str txt)"
  shows "\<exists>a' s j b'. process_text e txt a = Some a' \<and> cl_queue a' = queue_send False s (cl_queue a) \<and>
     cJSON_Parse (e_fp e) (Some s) = Some j \<and>
     handle_message e now j b = Some b' \<and>
     cl_shell b' = co_set_text (g_clip_ops b) (e_desk e) txt (cl_shell b) \<and>
     (is_suppressed t b' \<longleftrightarrow> t < now + 2000) \<and>
     process_text e txt b' = Some b'"
proof -
  obtain enc s where 1: "process_text e txt a = Some (a\<lparr>g_last_clip_hash := ft_sha256 (e_ssl e) (bytes_of_str txt),
      cl_queue := queue_send False s (cl_queue a)\<rparr>)"
    "cJSON_Parse (e_fp e) (Some s) = Some (JObject [(''type'', JString ''clipboard''), (''content'', JString enc)])"
    "aes_gcm_decrypt (e_ssl e) enc (aes_key (g_config b)) = Some (bytes_of_str txt)"
    using text_sent [OF assms(1-3,5,6)] by metis
  define b' where "b' = b\<lparr>g_last_clip_hash := ft_sha256 (e_ssl e) (bytes_of_str txt), g_suppress_until_ms := now + 2000,
    cl_shell := co_set_text (g_clip_ops b) (e_desk e) txt (cl_shell b)\<rparr>"
  have "handle_message e now (JObject [(''type'', JString ''clipboard''), (''content'', JString enc)]) b = Some b'"
    using 1(3) cstr_id [OF assms(4)]
    by (simp add: handle_message_def clipboard_items on_clipboard_def suppress_clipboard_ms_def b'_def Let_def)
  moreover have "process_text e txt b' = Some b'" "is_suppressed t b' \<longleftrightarrow> t < now + 2000"
    by (simp_all add: process_text_def b'_def is_suppressed_def)
  ultimately show ?thesis using 1(1,2)
    by (intro exI [of _ "a\<lparr>g_last_clip_hash := ft_sha256 (e_ssl e) (bytes_of_str txt), cl_queue := queue_send False s (cl_queue a)\<rparr>"]
        exI [of _ s] exI [of _ "JObject [(''type'', JString ''clipboard''), (''content'', JString enc)]"] exI [of _ b'])
      (simp add: b'_def)
qed

lemma sample_talk: "can_talk sample_env sample_client sample_client"
  using ref_b64 ref_gcm ref_mem exact_fp_documented
  by (simp add: can_talk_def sample_env_def sample_client_def init_client_def isxdigit_def hexval_def list_all_iff)

lemma ref_sha_nonempty: "ft_sha256 ref_ssl d \<noteq> []"
proof -
  have "length (sha256 ref_ssl d) = 32" using ref_digest by (simp add: digest_documented_def)
  then have "length (ft_sha256 ref_ssl d) = 64" by (simp add: ft_sha256_def length_concat_hex02)
  then show ?thesis by auto
qed

theorem text_synchronised_witness:
  "\<exists>a' s j b'. process_text sample_env ''hi'' sample_client = Some a' \<and> cJSON_Parse exact_fp (Some s) = Some j \<and>
     handle_message sample_env 10 j sample_client = Some b' \<and>
     cl_shell b' = xclip_clipboard_set_text quiet_desktop ''hi'' [] \<and> is_suppressed 2009 b' \<and> process_text sample_env ''hi'' b' = Some b'"
proof -
  have "g_last_clip_hash sample_client \<noteq> ft_sha256 (e_ssl sample_env) (bytes_of_str ''hi'')"
    using ref_sha_nonempty [symmetric] by (simp add: sample_client_def init_client_def sample_env_def)
  moreover have "e_nonce sample_env = Some (replicate 12 7)" by (simp add: sample_env_def)
  ultimately obtain a' s j b' where "process_text sample_env ''hi'' sample_client = Some a'"
    "cJSON_Parse (e_fp sample_env) (Some s) = Some j" "handle_message sample_env 10 j sample_client = Some b'"
    "cl_shell b' = co_set_text (g_clip_ops sample_client) (e_desk sample_env) ''hi'' (cl_shell sample_client)"
    "is_suppressed 2009 b' \<longleftrightarrow> (2009 :: int) < 10 + 2000" "process_text sample_env ''hi'' b' = Some b'"
    using text_synchronised [OF sample_talk, of "replicate 12 7" "''hi''" 10 2009] by (auto simp: nul_def)
  then show ?thesis
    by (intro exI [of _ a'] exI [of _ s] exI [of _ j] exI [of _ b']) (simp add: sample_env_def sample_client_def init_client_def xclip_ops_def)
qed



end
