(* ===== verification/LinuxXfer.thy ===== *)
theory LinuxXfer
  imports LinuxClient
begin

text \<open>
  The transfer threads of \<open>src/linux/main.c\<close>. A created thread starts by counting itself in
  \<open>g_xfer_active_count\<close>; the rest of its body runs as one step and ends by counting itself out.
  \<open>clk\<close> gives the readings of the clock in the order the body takes them. \<open>None\<close> is a body that
  does not return.
\<close>

section \<open>The receiving thread\<close>

definition peer_list :: "TransferState \<Rightarrow> string list" where
  "peer_list st = take (ts_peer_addr_count st) (ts_peer_addrs st)"

definition punch_if_needed :: "env \<Rightarrow> TransferState \<Rightarrow> world \<Rightarrow> int \<times> world" where
  "punch_if_needed e st w =
     (if \<not> ts_same_lan st \<and> ts_peer_public_addr st \<noteq> [] \<and> ts_eff_file_level st \<ge> 2
      then ft_nat_punch_start (e_net e) (ts_peer_public_addr st) w else (FT_INVALID_SOCK, w))"

text \<open>What is done with a received file: a picture goes to the clipboard and is removed.\<close>

definition place_received :: "env \<Rightarrow> TransferState \<Rightarrow> string \<Rightarrow> u64 \<Rightarrow> client \<Rightarrow> client option" where
  "place_received e st tmp fsize c =
     (if starts_with ''image/'' (ts_mime_type st) then
        (case (case fsys (cl_world c) tmp of
                 None \<Rightarrow> Some c
               | Some content \<Rightarrow>
                   if alloc_ok (e_desk e) (unat fsize) \<and> length (take (unat fsize) content) = unat fsize then
                     (case co_set_image (g_clip_ops c) (e_desk e) (take (unat fsize) content) (ts_mime_type st) (cl_shell c) of
                        None \<Rightarrow> None | Some sh \<Rightarrow> Some (c\<lparr>cl_shell := sh\<rparr>))
                   else Some c) of
           None \<Rightarrow> None
         | Some c \<Rightarrow> Some (c\<lparr>cl_world := os_remove tmp (cl_world c)\<rparr>))
      else Some (c\<lparr>cl_shell := co_set_file (g_clip_ops c) (e_desk e) tmp (cl_shell c)\<rparr>))"

definition empty_info :: FtFileInfo where
  "empty_info = \<lparr>fi_file_id = [], fi_file_name = [], fi_mime_type = [], fi_file_size = 0, fi_checksum = [], fi_data = None, fi_data_len = 0\<rparr>"

definition receive_on :: "env \<Rightarrow> (nat \<Rightarrow> int) \<Rightarrow> TransferState \<Rightarrow> int \<Rightarrow> client \<Rightarrow> (bool \<times> client) option" where
  "receive_on e clk st sock c =
     (let tmp = tmp_path (ts_file_name st);
          (r, info, w) = ft_recv_file_to_path (e_ssl e) sock empty_info tmp (cl_world c);
          c = c\<lparr>cl_world := w\<rparr>
      in if r = 0 then
           (let c = (case ft_sha256_file (e_ssl e) tmp w of None \<Rightarrow> c | Some h \<Rightarrow> c\<lparr>g_last_img_hash := h\<rparr>);
                c = suppress_clipboard_ms (clk 3) 2000 c
            in case place_received e st tmp (fi_file_size info) c of
                 None \<Rightarrow> None
               | Some c \<Rightarrow>
                   (case send_msg e (build_transfer_result (e_fp e) (Some (ts_file_id st)) ''p2p'' True (clk 1 - clk 0) (clk 2 - clk 1)) c of
                      None \<Rightarrow> None
                    | Some c \<Rightarrow> Some (True, c\<lparr>cl_world := ft_close sock (cl_world c)\<rparr>)))
         else Some (False, c\<lparr>cl_world := ft_close sock (cl_world c)\<rparr>))"

definition receiver_thread :: "env \<Rightarrow> (nat \<Rightarrow> int) \<Rightarrow> TransferState \<Rightarrow> client \<Rightarrow> client option" where
  "receiver_thread e clk st c =
     (let (ns, w) = punch_if_needed e st (cl_world c) in
      case ft_lan_transfer_auth (e_ssl e) (e_net e) (ts_listen_fd st) (peer_list st) ns 5000
             (Some (ts_file_id st)) (Some (aes_key (g_config c))) False (clk 0) w of
        None \<Rightarrow> None
      | Some (sock, w) \<Rightarrow>
          (case (if sock \<noteq> FT_INVALID_SOCK then receive_on e clk st sock (c\<lparr>cl_world := w\<rparr>)
                 else Some (False, c\<lparr>cl_world := w\<rparr>)) of
             None \<Rightarrow> None
           | Some (success, c) \<Rightarrow>
               (case (if \<not> success \<and> ts_eff_file_level st \<ge> 3 \<and> sint (ts_file_size st) \<le> ts_max_relay_size st
                      then send_msg e (build_file_relay_request (e_fp e) (ts_file_id st)) c
                      else if \<not> success
                      then send_msg e (build_transfer_result (e_fp e) (Some (ts_file_id st)) ''failed'' False (clk 4 - clk 0) 0) c
                      else Some c) of
                  None \<Rightarrow> None
                | Some c \<Rightarrow>
                    Some (if ts_listen_fd st \<noteq> FT_INVALID_SOCK
                          then c\<lparr>cl_world := ft_close (ts_listen_fd st) (cl_world c)\<rparr> else c))))"

section \<open>The sending thread\<close>

definition send_on :: "env \<Rightarrow> TransferState \<Rightarrow> int \<Rightarrow> world \<Rightarrow> bool \<times> world" where
  "send_on e st sock w =
     (let (r, w) = (if ts_source_path st \<noteq> []
                    then ft_send_file_from_path (e_ssl e) sock (ts_file_id st) (ts_file_size st) (ts_source_path st) w
                    else ft_send_file sock (empty_info\<lparr>fi_file_id := strncpy_fld 63 (ts_file_id st), fi_file_size := ts_file_size st,
                           fi_data := ts_data st, fi_data_len := (case ts_data st of None \<Rightarrow> 0 | Some d \<Rightarrow> length d)\<rparr>) w)
      in (r = 0, ft_close sock w))"

text \<open>
  The loop over the peers that connect, at most \<open>n\<close> of them; \<open>clk k\<close> is the clock at the end of
  round \<open>k\<close>.
\<close>

fun sender_loop ::
  "nat \<Rightarrow> env \<Rightarrow> (nat \<Rightarrow> int) \<Rightarrow> string \<Rightarrow> TransferState \<Rightarrow> nat \<Rightarrow> nat \<Rightarrow> int \<Rightarrow> world \<Rightarrow> (nat \<times> world) option" where
  "sender_loop 0 e clk key st k sent_count sock w = (if sock = FT_INVALID_SOCK then Some (sent_count, w) else None)"
| "sender_loop (Suc n) e clk key st k sent_count sock w =
     (if sock = FT_INVALID_SOCK then Some (sent_count, w)
      else (let (send_ok, w) = send_on e st sock w;
                sent_count = (if send_ok then Suc sent_count else sent_count)
            in if ts_listen_fd st = FT_INVALID_SOCK then Some (sent_count, w)
               else (let remaining = 5000 - c_int (clk (Suc k) - clk 0) in
                     if remaining \<le> 0 then Some (sent_count, w)
                     else (case ft_lan_transfer_auth (e_ssl e) (e_net e) (ts_listen_fd st) [] FT_INVALID_SOCK remaining
                                  (Some (ts_file_id st)) (Some key) True (clk (Suc k)) w of
                             None \<Rightarrow> None
                           | Some (sock, w) \<Rightarrow> sender_loop n e clk key st (Suc k) sent_count sock w))))"

definition sender_thread :: "nat \<Rightarrow> env \<Rightarrow> (nat \<Rightarrow> int) \<Rightarrow> TransferState \<Rightarrow> client \<Rightarrow> client option" where
  "sender_thread n e clk st c =
     (let (ns, w) = punch_if_needed e st (cl_world c) in
      case ft_lan_transfer_auth (e_ssl e) (e_net e) (ts_listen_fd st) (peer_list st) ns 5000
             (Some (ts_file_id st)) (Some (aes_key (g_config c))) True (clk 0) w of
        None \<Rightarrow> None
      | Some (sock, w) \<Rightarrow>
          (case sender_loop n e clk (aes_key (g_config c)) st 0 0 sock w of
             None \<Rightarrow> None
           | Some (sent_count, w) \<Rightarrow> Some (c\<lparr>cl_world := w\<rparr>)))"

section \<open>Starting and ending\<close>

definition thread_start :: "TransferState \<Rightarrow> client \<Rightarrow> client option" where
  "thread_start st c =
     (if st \<in> set (cl_created c)
      then Some (c\<lparr>cl_created := remove1 st (cl_created c), cl_running := cl_running c @ [st],
                   g_xfer_active_count := g_xfer_active_count c + 1\<rparr>) else None)"

definition thread_body :: "nat \<Rightarrow> env \<Rightarrow> (nat \<Rightarrow> int) \<Rightarrow> TransferState \<Rightarrow> client \<Rightarrow> client option" where
  "thread_body n e clk st c = (if ts_is_sender st then sender_thread n e clk st c else receiver_thread e clk st c)"

definition thread_finish :: "nat \<Rightarrow> env \<Rightarrow> (nat \<Rightarrow> int) \<Rightarrow> TransferState \<Rightarrow> client \<Rightarrow> client option" where
  "thread_finish n e clk st c =
     (if st \<in> set (cl_running c)
      then map_option (\<lambda>c. c\<lparr>cl_running := remove1 st (cl_running c), g_xfer_active_count := g_xfer_active_count c - 1\<rparr>)
             (thread_body n e clk st c)
      else None)"

end
