(* ===== verification/LinuxSystem.thy ===== *)
theory LinuxSystem
  imports LinuxXfer
begin

text \<open>
  The Linux client as a system: the WebSocket callback, the clipboard monitor, the connection loop
  and the transfer threads as steps on the shared state, in any order and with any environment
  in each step. The invariant of every state it can reach.
\<close>

section \<open>Steps\<close>

inductive step :: "client \<Rightarrow> client \<Rightarrow> bool" where
  established: "on_established e c = Some c' \<Longrightarrow> step c c'"
| receive: "on_receive e now d final c = Some c' \<Longrightarrow> step c c'"
| writeable: "step c (on_writeable buf_ok c)"
| closed: "step c (on_closed c)"
| monitor_starts: "monitor_start e c = Some c' \<Longrightarrow> step c c'"
| display_opened: "step c (c\<lparr>g_clip_ops := x11_upgrade (g_clip_ops c)\<rparr>)"
| clipboard_changed: "monitor_clipboard e now c = Some c' \<Longrightarrow> step c c'"
| primary_changed: "step c (monitor_primary now c)"
| monitor_rounds: "monitor_round e now c = Some c' \<Longrightarrow> step c c'"
| connecting: "connect_round e connect_ok c net = Some (slept, c', net') \<Longrightarrow> step c c'"
| thread_starts: "thread_start st c = Some c' \<Longrightarrow> step c c'"
| thread_finishes: "thread_finish n e clk st c = Some c' \<Longrightarrow> step c c'"

inductive reachable :: "client \<Rightarrow> bool" where
  start: "reachable (start_client config_file wayland_display wl_paste_found w)"
| step: "reachable c \<Longrightarrow> step c c' \<Longrightarrow> reachable c'"

section \<open>The invariant\<close>

definition xfer_ok :: "TransferState \<Rightarrow> bool" where
  "xfer_ok x \<longleftrightarrow>
     length (ts_file_id x) \<le> 63 \<and> length (ts_file_name x) \<le> 255 \<and> length (ts_mime_type x) \<le> 63 \<and>
     length (ts_checksum x) \<le> 64 \<and> length (ts_source_path x) \<le> 511 \<and> length (ts_peer_public_addr x) \<le> 63 \<and>
     length (ts_from_device x) \<le> 127 \<and> length (ts_peer_addrs x) = FT_MAX_ADDRS \<and> list_all (\<lambda>a. length a \<le> 63) (ts_peer_addrs x) \<and>
     ts_peer_addr_count x \<le> FT_MAX_ADDRS \<and> ts_phase x \<le> 2"

definition delays :: "int set" where "delays = {1, 2, 4, 8, 16, 32, 60, 64}"

definition all_ops :: "ClipboardOps set" where
  "all_ops = {xclip_ops, wl_ops, x11_upgrade xclip_ops, x11_upgrade wl_ops}"

definition client_ok :: "client \<Rightarrow> bool" where
  "client_ok c \<longleftrightarrow>
     xfer_ok (g_xfer c) \<and> list_all xfer_ok (cl_created c) \<and> list_all xfer_ok (cl_running c) \<and>
     g_xfer_active_count c = int (length (cl_running c)) \<and>
     (\<exists>ms. queue_rep (cl_queue c) ms) \<and> recv_inv (cl_recv c) \<and>
     g_authenticated c = g_connected c \<and> g_logged_in c = g_connected c \<and>
     tokens_ok (g_tokens c) \<and> length (g_ws_subproto c) < 1200 \<and> g_reconnect_delay c \<in> delays \<and>
     length (g_last_clip_hash c) \<le> 64 \<and> length (g_last_img_hash c) \<le> 64 \<and> length (g_cached_types c) < 4096 \<and>
     g_clip_ops c \<in> all_ops"

lemma client_ok_world [simp]: "client_ok (c\<lparr>cl_world := w\<rparr>) = client_ok c"
  by (simp add: client_ok_def)

lemma client_ok_shell [simp]: "client_ok (c\<lparr>cl_shell := sh\<rparr>) = client_ok c"
  by (simp add: client_ok_def)

lemma client_ok_pending [simp]: "client_ok (c\<lparr>primary_pending_ms := t\<rparr>) = client_ok c"
  by (simp add: client_ok_def)

lemma client_ok_level [simp]: "client_ok (c\<lparr>g_server_file_level := l\<rparr>) = client_ok c"
  by (simp add: client_ok_def)

lemma client_ok_suppress [simp]: "client_ok (suppress_clipboard_ms now ms c) = client_ok c"
  by (simp add: client_ok_def suppress_clipboard_ms_def)

lemma length_hex_digest: "length (concat (map hex02 (take 32 d))) \<le> 64"
  by (simp add: length_concat_hex02)

lemma sha_ok [simp]: "length (ft_sha256 ssl d) \<le> 64"
  by (simp add: ft_sha256_def length_concat_hex02)

lemma sha_file_ok: "ft_sha256_file ssl p w = Some h \<Longrightarrow> length h \<le> 64"
  by (auto simp: ft_sha256_file_def length_concat_hex02 split: option.splits)

lemma uuid_ok: "length (ft_generate_uuid r f) \<le> 36"
  by (simp add: ft_generate_uuid_def snprintf_c_def Let_def)

lemma client_ok_clip_hash: "client_ok c \<Longrightarrow> length h \<le> 64 \<Longrightarrow> client_ok (c\<lparr>g_last_clip_hash := h\<rparr>)"
  by (simp add: client_ok_def)

lemma client_ok_img_hash: "client_ok c \<Longrightarrow> length h \<le> 64 \<Longrightarrow> client_ok (c\<lparr>g_last_img_hash := h\<rparr>)"
  by (simp add: client_ok_def)

lemma client_ok_xfer: "client_ok c \<Longrightarrow> xfer_ok x \<Longrightarrow> client_ok (c\<lparr>g_xfer := x\<rparr>)"
  by (simp add: client_ok_def)

lemma client_ok_recv: "client_ok c \<Longrightarrow> recv_inv b \<Longrightarrow> client_ok (c\<lparr>cl_recv := b\<rparr>)"
  by (simp add: client_ok_def)

lemma client_okD: "client_ok c \<Longrightarrow> xfer_ok (g_xfer c) \<and> recv_inv (cl_recv c)"
  by (simp add: client_ok_def)

lemma queue_send_ex: "\<exists>ms. queue_rep q ms \<Longrightarrow> \<exists>ms. queue_rep (queue_send oom m q) ms"
  by (cases oom) (auto simp: queue_send_def [of True] intro: queue_send_rep)

lemma client_ok_queue: "client_ok c \<Longrightarrow> \<exists>ms. queue_rep q ms \<Longrightarrow> client_ok (c\<lparr>cl_queue := q\<rparr>)"
  by (simp add: client_ok_def)

lemma send_msg_ok: "send_msg e m c = Some c' \<Longrightarrow> client_ok c \<Longrightarrow> client_ok c'"
  using queue_send_ex [of "cl_queue c"]
  by (auto simp: send_msg_def client_ok_def [of c] split: option.splits intro!: client_ok_queue)

lemma zero_xfer_ok: "xfer_ok zero_xfer" "xfer_ok (zero_xfer\<lparr>ts_listen_fd := fd\<rparr>)"
  by (simp_all add: xfer_ok_def zero_xfer_def list_all_iff)

lemma reset_xfer_ok: "client_ok c \<Longrightarrow> client_ok (reset_xfer c)"
  by (simp add: reset_xfer_def client_ok_xfer zero_xfer_ok)

lemma open_listener_ok: "client_ok c \<Longrightarrow> client_ok (open_listener e c)"
  using client_okD [of c]
  by (auto simp: open_listener_def xfer_ok_def Let_def intro!: client_ok_xfer split: prod.split)

lemma copy_fld_length: "length old \<le> n \<Longrightarrow> length (copy_fld n s old) \<le> n"
  by (auto simp: copy_fld_def split: option.split)

section \<open>Handlers keep the invariant\<close>

lemma file_notify_ok: "on_file_notify e j c = Some c' \<Longrightarrow> client_ok c \<Longrightarrow> client_ok c'"
proof (cases "effective_file_level c \<le> 0")
  case False
  assume h: "on_file_notify e j c = Some c'" and c: "client_ok c"
  show ?thesis
    using h False unfolding on_file_notify_def Let_def
    apply simp
    apply (erule send_msg_ok)
    apply (intro open_listener_ok client_ok_xfer reset_xfer_ok c)
    using client_okD [OF reset_xfer_ok [OF c]] copy_fld_length by (auto simp: xfer_ok_def)
qed (simp add: on_file_notify_def)

lemma set_peers_ok:
  "set_peers xs idx ps = (n, ps') \<Longrightarrow> idx \<le> FT_MAX_ADDRS \<Longrightarrow> list_all (\<lambda>a. length a \<le> 63) ps \<Longrightarrow>
     n \<le> FT_MAX_ADDRS \<and> length ps' = length ps \<and> list_all (\<lambda>a. length a \<le> 63) ps'"
proof (induction xs idx ps rule: set_peers.induct)
  case (2 x xs idx ps)
  show ?case
  proof (cases "idx \<ge> FT_MAX_ADDRS")
    case False
    define ps1 where "ps1 = (case cJSON_GetStringValue (Some x) of None \<Rightarrow> ps | Some a \<Rightarrow> ps[idx := strncpy_fld 63 a])"
    have "list_all (\<lambda>a. length a \<le> 63) ps1" "length ps1 = length ps"
      using 2(4) set_update_subset_insert [of ps idx] by (fastforce simp: ps1_def list_all_iff split: option.split)+
    then show ?thesis using 2(1) [OF False] 2(2) False by (simp add: ps1_def)
  qed (use 2 in auto)
qed auto

lemma client_ok_thread:
  "client_ok c \<Longrightarrow> xfer_ok x \<Longrightarrow> xfer_ok y \<Longrightarrow> client_ok (c\<lparr>g_xfer := x, cl_created := cl_created c @ [y]\<rparr>)"
  by (simp add: client_ok_def)

lemma peer_info_ok:
  assumes "client_ok c"
  shows "client_ok (on_peer_info e j c)"
proof (cases "peer_info_accepted j c")
  case True
  define x where "x = g_xfer c"
  have x: "xfer_ok x" using client_okD [OF assms] by (simp add: x_def)
  define pub where "pub = copy_fld 63 (str_item j ''peerPublicAddress'') (ts_peer_public_addr x)"
  obtain n ps where p: "peer_addrs_in j (ts_peer_addrs x) = (n, ps)" by force
  have ps: "n \<le> FT_MAX_ADDRS \<and> length ps = FT_MAX_ADDRS \<and> list_all (\<lambda>a. length a \<le> 63) ps"
    using p x set_peers_ok [of _ 0 "ts_peer_addrs x" n ps]
    by (auto simp: peer_addrs_in_def xfer_ok_def split: option.splits json.splits)
  have pub: "length pub \<le> 63" using x copy_fld_length by (simp add: pub_def xfer_ok_def)
  define eff where "eff = (if file_transfer_level (g_config c) < server_level_in j c then file_transfer_level (g_config c) else server_level_in j c)"
  define y where "y = x\<lparr>ts_peer_public_addr := pub, ts_peer_addr_count := n, ts_peer_addrs := ps, ts_eff_file_level := eff,
      ts_same_lan := cJSON_IsTrue (cJSON_GetObjectItem (Some j) ''sameLan''), ts_phase := 2\<rparr>"
  have y: "xfer_ok y" "xfer_ok (y\<lparr>ts_listen_fd := FT_INVALID_SOCK\<rparr>)" using x ps pub by (simp_all add: y_def xfer_ok_def)
  have "on_peer_info e j c = (if e_copy_oom e then c\<lparr>g_xfer := y\<rparr>
      else c\<lparr>g_xfer := (if ts_is_sender y then y else y\<lparr>ts_listen_fd := FT_INVALID_SOCK\<rparr>), cl_created := cl_created c @ [y]\<rparr>)"
    using True p by (simp add: on_peer_info_def Let_def x_def [symmetric] y_def pub_def eff_def)
  then show ?thesis using y assms by (simp add: client_ok_xfer client_ok_thread)
qed (use assms in \<open>simp add: on_peer_info_def\<close>)

lemma clipboard_ok: "client_ok c \<Longrightarrow> client_ok (on_clipboard e now j c)"
  by (auto simp: on_clipboard_def Let_def client_ok_clip_hash split: option.split)

lemma relay_request_ok: "on_relay_request e j c = Some c' \<Longrightarrow> client_ok c \<Longrightarrow> client_ok c'"
  by (auto simp: on_relay_request_def split: option.splits if_splits dest: send_msg_ok)

lemma relay_data_ok: "on_relay_data e now j c = Some c' \<Longrightarrow> client_ok c \<Longrightarrow> client_ok c'"
  unfolding on_relay_data_def Let_def
  by (auto simp: client_ok_img_hash split: option.splits if_splits elim!: send_msg_ok)

lemma handle_message_ok: "handle_message e now j c = Some c' \<Longrightarrow> client_ok c \<Longrightarrow> client_ok c'"
  by (auto simp: handle_message_def on_hello_ack_def split: option.splits if_splits
      intro: clipboard_ok peer_info_ok file_notify_ok relay_request_ok relay_data_ok)

lemma recv_fragment_cases:
  assumes "recv_fragment alloc d b = Some (ok, b')"
  obtains (full) "b' = b\<lparr>g_recv_len := 0\<rparr>"
    | (stored) x y where "x = b \<or> (\<exists>n. x = b\<lparr>g_recv_buf := realloc (g_recv_buf b) n, g_recv_cap := n\<rparr>)"
        "memcpy (g_recv_buf x) (g_recv_len x) d = Some y" "b' = x\<lparr>g_recv_buf := y, g_recv_len := g_recv_len b + length d\<rparr>"
proof (cases "g_recv_len b + length d > g_recv_cap b")
  case True
  then obtain n where n: "grow (if g_recv_cap b \<noteq> 0 then g_recv_cap b else 4096) (g_recv_len b + length d + 1) = Some n"
    using assms by (auto simp: recv_fragment_def Let_def bind_eq_Some_conv)
  show ?thesis
    using assms True n full stored [of "b\<lparr>g_recv_buf := realloc (g_recv_buf b) n, g_recv_cap := n\<rparr>"]
    unfolding recv_fragment_def Let_def n by (auto simp: bind_eq_Some_conv split: if_splits)
next
  case False
  then show ?thesis using assms stored [of b] by (auto simp: recv_fragment_def Let_def bind_eq_Some_conv)
qed

lemma recv_fragment_keeps: "recv_fragment alloc d b = Some (ok, b') \<Longrightarrow> recv_inv b \<Longrightarrow> recv_inv b'"
  by (erule recv_fragment_cases) (auto simp: recv_inv_def memcpy_def split: if_splits)

lemma recv_finish_keeps: "recv_finish b = Some (d, b') \<Longrightarrow> recv_inv b \<Longrightarrow> recv_inv b'"
  using recv_finish_iff [of b] by (auto split: if_splits)

lemma receive_ok:
  assumes "on_receive e now d final c = Some c'" and "client_ok c"
  shows "client_ok c'"
proof -
  obtain stored b where f: "recv_fragment (alloc_ok (e_desk e)) d (cl_recv c) = Some (stored, b)"
    using assms(1) by (auto simp: on_receive_def split: option.splits)
  have b: "recv_inv b" using recv_fragment_keeps [OF f] client_okD [OF assms(2)] by simp
  show ?thesis
  proof (cases "\<not> stored \<or> \<not> final")
    case True
    then show ?thesis using assms f b by (auto simp: on_receive_def Let_def intro: client_ok_recv)
  next
    case False
    then obtain bytes b1 where g: "recv_finish b = Some (bytes, b1)"
      using assms(1) f by (auto simp: on_receive_def Let_def split: option.splits)
    have "client_ok (c\<lparr>cl_recv := b1\<rparr>)" using assms(2) recv_finish_keeps [OF g b] by (simp add: client_ok_recv)
    then show ?thesis
      using assms(1) f g False by (auto simp: on_receive_def Let_def split: option.splits elim: handle_message_ok)
  qed
qed

lemma established_ok: "on_established e c = Some c' \<Longrightarrow> client_ok c \<Longrightarrow> client_ok c'"
  unfolding on_established_def by (erule send_msg_ok) (simp add: client_ok_def delays_def)

lemma queue_pop_ex: "\<exists>ms. queue_rep q ms \<Longrightarrow> \<exists>ms. queue_rep (snd (snd (queue_pop q))) ms"
proof (elim exE)
  fix ms
  assume "queue_rep q ms"
  then show ?thesis using queue_pop_empty [of q] queue_pop_rep [of q] by (cases ms) fastforce+
qed

lemma writeable_ok: "client_ok c \<Longrightarrow> client_ok (on_writeable buf_ok c)"
  using queue_pop_ex [of "cl_queue c"] by (auto simp: on_writeable_def client_ok_def Let_def split: prod.split)

lemma closed_ok: "client_ok c \<Longrightarrow> client_ok (on_closed c)"
  by (simp add: on_closed_def client_ok_def recv_inv_def)

lemma start_offer_ok:
  assumes "start_offer e name mime fsize d p h c = Some c'" and "client_ok c" and "length h \<le> 64"
  shows "client_ok c'"
proof -
  have "length (ft_generate_uuid (e_uuid e) (e_rand e)) \<le> 63" using uuid_ok [of "e_uuid e" "e_rand e"] by simp
  then have "xfer_ok ((g_xfer (reset_xfer c))\<lparr>ts_is_sender := True, ts_file_id := ft_generate_uuid (e_uuid e) (e_rand e),
      ts_file_name := strncpy_fld 255 name, ts_mime_type := strncpy_fld 63 mime, ts_file_size := fsize,
      ts_data := d, ts_source_path := strncpy_fld 511 p, ts_checksum := h\<rparr>)"
    using client_okD [OF reset_xfer_ok [OF assms(2)]] assms(3) by (simp add: xfer_ok_def)
  then show ?thesis using assms(1) reset_xfer_ok [OF assms(2)]
    unfolding start_offer_def Let_def by (auto elim!: send_msg_ok intro: open_listener_ok client_ok_xfer)
qed

lemma offer_image_ok: "offer_image e img mime c = Some c' \<Longrightarrow> client_ok c \<Longrightarrow> client_ok c'"
  by (auto simp: offer_image_def Let_def client_ok_img_hash split: if_splits elim!: start_offer_ok)

lemma offer_path_ok: "offer_path e p c = Some c' \<Longrightarrow> client_ok c \<Longrightarrow> client_ok c'"
  by (auto simp: offer_path_def Let_def client_ok_img_hash sha_file_ok split: option.splits if_splits elim!: start_offer_ok)

lemma process_text_ok: "process_text e txt c = Some c' \<Longrightarrow> client_ok c \<Longrightarrow> client_ok c'"
  by (auto simp: process_text_def Let_def client_ok_clip_hash split: option.splits if_splits elim!: send_msg_ok)

lemma process_clipboard_text_ok: "process_clipboard_text e c = Some c' \<Longrightarrow> client_ok c \<Longrightarrow> client_ok c'"
  by (auto simp: process_clipboard_text_def split: option.splits dest: process_text_ok)

lemma process_clipboard_file_ok: "process_clipboard_file e c = Some c' \<Longrightarrow> client_ok c \<Longrightarrow> client_ok c'"
  by (auto simp: process_clipboard_file_def split: option.splits if_splits dest: process_clipboard_text_ok offer_path_ok)

lemma types_loop_length:
  "length buf \<le> pos \<Longrightarrow> length buf < n \<Longrightarrow> length (types_loop nm n as pos buf) < n"
proof (induction nm n as pos buf rule: types_loop.induct)
  case (2 nm n a as pos buf)
  show ?case
  proof (cases "pos < n - 64")
    case True
    show ?thesis
    proof (cases "nm a")
      case (Some name)
      define part where "part = fst (snprintf_c (n - pos) (name @ [CHR 0x0A]))"
      have "length part \<le> length name + 1" "length part \<le> n - pos - 1" by (simp_all add: part_def snprintf_c_def)
      then have "length (buf @ part) \<le> pos + length name + 1" "length (buf @ part) < n"
        using 2(3,4) True by simp_all
      then show ?thesis using 2(2) [of name] True Some by (simp add: part_def)
    qed (use 2 True in simp)
  qed (use 2 in simp)
qed simp

lemma refresh_types_length:
  assumes "ops \<in> all_ops" and "co_refresh_types ops dt 4096 = Some t"
  shows "length t < 4096"
proof -
  have tool: "length (tool_refresh_types cmd dt 4096) < 4096" for cmd
  proof -
    have "length (cstr (str_of_bytes (take 4095 d))) \<le> length (str_of_bytes (take 4095 d))" for d
      unfolding cstr_def by (rule length_takeWhile_le)
    moreover have "length (str_of_bytes (take 4095 d)) \<le> 4095" for d by simp
    ultimately have "length (cstr (str_of_bytes (take 4095 d))) \<le> 4095" for d using le_trans by blast
    then show ?thesis by (auto simp: tool_refresh_types_def less_Suc_eq_le [symmetric] split: option.split)
  qed
  have "length x < 4096" if "x11_clipboard_refresh_types dt 4096 = Some x" for x
    using that types_loop_length [of "[]" 0 4096]
    by (auto simp: x11_clipboard_refresh_types_def split: if_splits option.splits)
  then show ?thesis using assms tool
    by (auto simp: all_ops_def xclip_ops_def wl_ops_def x11_upgrade_def xclip_clipboard_refresh_types_def wl_clipboard_refresh_types_def)
qed

lemma client_ok_types: "client_ok c \<Longrightarrow> length t < 4096 \<Longrightarrow> client_ok (c\<lparr>g_cached_types := t\<rparr>)"
  by (simp add: client_ok_def)

lemma process_clipboard_change_ok:
  assumes "process_clipboard_change e c = Some c'" and "client_ok c"
  shows "client_ok c'"
proof -
  obtain t where t: "co_refresh_types (g_clip_ops c) (e_desk e) 4096 = Some t"
    using assms(1) by (auto simp: process_clipboard_change_def split: option.splits)
  have "client_ok (c\<lparr>g_cached_types := t\<rparr>)"
    using refresh_types_length [OF _ t] assms(2) by (intro client_ok_types) (auto simp: client_ok_def)
  then show ?thesis using assms(1) t
    by (auto simp: process_clipboard_change_def Let_def split: option.splits if_splits elim!: offer_image_ok process_clipboard_file_ok)
qed

lemma primary_ok: "process_primary_change e c = Some c' \<Longrightarrow> client_ok c \<Longrightarrow> client_ok c'"
  by (auto simp: process_primary_change_def split: option.splits if_splits dest: process_text_ok)

lemma monitor_ok:
  "monitor_start e c = Some c' \<Longrightarrow> client_ok c \<Longrightarrow> client_ok c'"
  "monitor_clipboard e now c = Some c' \<Longrightarrow> client_ok c \<Longrightarrow> client_ok c'"
  "monitor_round e now c = Some c' \<Longrightarrow> client_ok c \<Longrightarrow> client_ok c'"
  by (auto simp: monitor_start_def monitor_clipboard_def monitor_round_def Let_def client_ok_clip_hash
      split: option.splits if_splits elim!: process_clipboard_change_ok primary_ok)

lemma delay_doubles: "d \<in> delays \<Longrightarrow> (if d < 60 then d * 2 else d) \<in> delays"
  "d \<in> delays \<Longrightarrow> (let d2 = if d < 60 then d * 2 else d in if d2 > 60 then 60 else d2) \<in> delays"
  by (auto simp: delays_def)

lemma acquired_tokens_ok:
  assumes "ws_acquire_tokens alloc m cfg t net = Some (r, t', net')" and "tokens_ok t"
  shows "tokens_ok t'"
  using acquire_tokens_returns [of alloc m cfg t net] assms granted_tokens_ok by (auto simp: outcome_def)

lemma bearer_length: "length (snd (ws_build_bearer_protocol tok 1200)) < 1200"
  by (simp add: ws_build_bearer_protocol_def snprintf_c_def)

lemma connect_round_ok:
  assumes "connect_round e connect_ok c net = Some (slept, c', net')" and "client_ok c"
  shows "client_ok c'"
proof (cases "\<not> g_connected c \<and> \<not> g_wsi c")
  case True
  obtain r t net1 where a: "ws_acquire_tokens (alloc_ok (e_desk e)) (e_fp e) (g_config c) (g_tokens c) net = Some (r, t, net1)"
    using assms(1) True by (auto simp: connect_round_def split: option.splits)
  have d: "g_reconnect_delay c \<in> delays" and t: "tokens_ok t"
    using assms(2) acquired_tokens_ok [OF a] by (simp_all add: client_ok_def)
  show ?thesis using assms True a t bearer_length delay_doubles [OF d]
    by (auto simp: connect_round_def client_ok_def Let_def split: if_splits)
qed (use assms in \<open>auto simp: connect_round_def\<close>)

section \<open>Threads keep the invariant\<close>

lemma place_received_ok: "place_received e st tmp fs c = Some c' \<Longrightarrow> client_ok c \<Longrightarrow> client_ok c'"
  by (auto simp: place_received_def split: if_splits option.splits)

lemma receive_on_ok:
  assumes "receive_on e clk st sock c = Some (ok, c')" and "client_ok c"
  shows "client_ok c'"
proof -
  obtain r info w where r: "ft_recv_file_to_path (e_ssl e) sock empty_info (tmp_path (ts_file_name st)) (cl_world c) = (r, info, w)"
    by (metis prod_cases3)
  define c1 where "c1 = (case ft_sha256_file (e_ssl e) (tmp_path (ts_file_name st)) w of
      None \<Rightarrow> c\<lparr>cl_world := w\<rparr> | Some h \<Rightarrow> c\<lparr>cl_world := w, g_last_img_hash := h\<rparr>)"
  have c1: "client_ok c1"
    using assms(2) sha_file_ok client_ok_img_hash [of "c\<lparr>cl_world := w\<rparr>"] by (auto simp: c1_def split: option.split)
  show ?thesis
  proof (cases "r = 0")
    case True
    obtain c2 c3 where c2: "place_received e st (tmp_path (ts_file_name st)) (fi_file_size info) (suppress_clipboard_ms (clk 3) 2000 c1) = Some c2"
      and c3: "send_msg e (build_transfer_result (e_fp e) (Some (ts_file_id st)) ''p2p'' True (clk 1 - clk 0) (clk 2 - clk 1)) c2 = Some c3"
      and c': "c' = c3\<lparr>cl_world := ft_close sock (cl_world c3)\<rparr>"
      using assms(1) r True by (auto simp: receive_on_def Let_def c1_def split: option.splits)
    then show ?thesis using place_received_ok [OF c2] send_msg_ok [OF c3] c1 by simp
  next
    case False
    then show ?thesis using assms r by (auto simp: receive_on_def Let_def)
  qed
qed

lemma receiver_thread_ok:
  assumes "receiver_thread e clk st c = Some c'" and "client_ok c"
  shows "client_ok c'"
proof -
  obtain ns w where p: "punch_if_needed e st (cl_world c) = (ns, w)" by force
  obtain sock w1 where l: "ft_lan_transfer_auth (e_ssl e) (e_net e) (ts_listen_fd st) (peer_list st) ns 5000
      (Some (ts_file_id st)) (Some (aes_key (g_config c))) False (clk 0) w = Some (sock, w1)"
    using assms(1) p by (auto simp: receiver_thread_def split: option.splits)
  obtain ok c1 where c1: "(if sock \<noteq> FT_INVALID_SOCK then receive_on e clk st sock (c\<lparr>cl_world := w1\<rparr>)
      else Some (False, c\<lparr>cl_world := w1\<rparr>)) = Some (ok, c1)"
    using assms(1) p l by (auto simp: receiver_thread_def split: option.splits)
  have "client_ok c1" using c1 assms(2) receive_on_ok by (auto split: if_splits)
  then show ?thesis using assms(1) p l c1
    by (auto simp: receiver_thread_def split: option.splits if_splits dest: send_msg_ok)
qed

lemma thread_ok:
  assumes "thread_body n e clk st c = Some c'" and "client_ok c"
  shows "client_ok c'"
proof (cases "ts_is_sender st")
  case True
  then show ?thesis using assms
    by (auto simp: thread_body_def sender_thread_def split: option.splits prod.splits)
next
  case False
  then show ?thesis using assms receiver_thread_ok by (auto simp: thread_body_def)
qed

lemma thread_start_ok: "thread_start st c = Some c' \<Longrightarrow> client_ok c \<Longrightarrow> client_ok c'"
  by (auto simp: thread_start_def client_ok_def list_all_iff split: if_splits dest: notin_set_remove1)

text \<open>A thread touches neither the list of threads nor their count before it ends.\<close>

abbreviation same_threads :: "client \<Rightarrow> client \<Rightarrow> bool" where
  "same_threads c c' \<equiv> cl_running c' = cl_running c \<and> g_xfer_active_count c' = g_xfer_active_count c"

lemma send_msg_threads: "send_msg e m c = Some c' \<Longrightarrow> same_threads c c'"
  by (auto simp: send_msg_def split: option.splits)

lemma place_received_threads: "place_received e st tmp fs c = Some c' \<Longrightarrow> same_threads c c'"
  by (auto simp: place_received_def split: if_splits option.splits)

lemma receive_on_threads: "receive_on e clk st sock c = Some (ok, c') \<Longrightarrow> same_threads c c'"
  unfolding receive_on_def Let_def
  by (auto simp: suppress_clipboard_ms_def split: if_splits option.splits prod.splits
      dest!: send_msg_threads place_received_threads)

lemma receiver_thread_threads:
  assumes "receiver_thread e clk st c = Some c'"
  shows "same_threads c c'"
proof -
  obtain ns w where p: "punch_if_needed e st (cl_world c) = (ns, w)" by force
  obtain sock w1 where l: "ft_lan_transfer_auth (e_ssl e) (e_net e) (ts_listen_fd st) (peer_list st) ns 5000
      (Some (ts_file_id st)) (Some (aes_key (g_config c))) False (clk 0) w = Some (sock, w1)"
    using assms p by (auto simp: receiver_thread_def split: option.splits)
  obtain ok c1 where c1: "(if sock \<noteq> FT_INVALID_SOCK then receive_on e clk st sock (c\<lparr>cl_world := w1\<rparr>)
      else Some (False, c\<lparr>cl_world := w1\<rparr>)) = Some (ok, c1)"
    using assms p l by (auto simp: receiver_thread_def split: option.splits)
  have "same_threads c c1" using c1 receive_on_threads [of e clk st sock "c\<lparr>cl_world := w1\<rparr>" ok c1] by (auto split: if_splits)
  then show ?thesis using assms p l c1
    by (auto simp: receiver_thread_def split: option.splits if_splits dest!: send_msg_threads)
qed

lemma thread_body_threads: "thread_body n e clk st c = Some c' \<Longrightarrow> same_threads c c'"
  by (cases "ts_is_sender st")
    (auto simp: thread_body_def sender_thread_def split: option.splits prod.splits dest: receiver_thread_threads)

lemma length_remove1_int: "x \<in> set xs \<Longrightarrow> int (length (remove1 x xs)) = int (length xs) - 1"
proof -
  assume x: "x \<in> set xs"
  then have "1 \<le> length xs" by (cases xs) auto
  moreover have "length (remove1 x xs) = length xs - 1" using x by (simp add: length_remove1)
  ultimately show ?thesis by (simp only: of_nat_diff of_nat_1)
qed

lemma thread_finish_ok:
  assumes "thread_finish n e clk st c = Some c'" and "client_ok c"
  shows "client_ok c'"
proof -
  obtain c1 where c1: "thread_body n e clk st c = Some c1" "st \<in> set (cl_running c)"
    "c' = c1\<lparr>cl_running := remove1 st (cl_running c1), g_xfer_active_count := g_xfer_active_count c1 - 1\<rparr>"
    using assms(1) by (auto simp: thread_finish_def split: if_splits)
  have "client_ok c1" "st \<in> set (cl_running c1)" using thread_ok [OF c1(1) assms(2)] thread_body_threads [OF c1(1)] c1(2) by auto
  moreover from this(2) have "int (length (remove1 st (cl_running c1))) = int (length (cl_running c1)) - 1"
    by (rule length_remove1_int)
  ultimately show ?thesis unfolding c1(3) client_ok_def by (auto simp: list_all_iff dest: notin_set_remove1)
qed

section \<open>Properties\<close>

lemma start_client_ok: "client_ok (start_client f wd wl w)"
  by (auto simp: start_client_def init_client_def client_ok_def zero_xfer_ok empty_recv_inv tokens_ok_def delays_def
      select_ops_def all_ops_def Let_def intro: empty_queue_rep)

lemma step_ok: "step c c' \<Longrightarrow> client_ok c \<Longrightarrow> client_ok c'"
proof (induction rule: step.induct)
  case (display_opened c)
  have "x11_upgrade (x11_upgrade ops) = x11_upgrade ops" for ops by (simp add: x11_upgrade_def)
  then show ?case using display_opened by (auto simp: client_ok_def all_ops_def)
qed (auto intro: established_ok receive_ok writeable_ok closed_ok monitor_ok connect_round_ok thread_start_ok thread_finish_ok
      simp: monitor_primary_def)

text \<open>
  C2. Whatever happens, in whatever order (messages in any fragments, broken and reopened
  connections, clipboard changes, transfers starting and ending, allocations failing), the state
  of the client stays well-formed: every string is within its C array, the peer addresses within
  theirs, the send queue is an intact list, the receive buffer within its block, the three
  connection flags agree, the bearer fits, the reconnect delay is one of 1 to 64 seconds, and
  \<open>g_xfer_active_count\<close> is exactly the number of running transfer threads.
\<close>

theorem client_invariant:
  assumes "reachable c"
  shows "client_ok c"
  using assms by (induction rule: reachable.induct) (auto intro: start_client_ok step_ok)

theorem client_invariant_witness:
  "client_ok (on_closed (start_client None None False (base_world new_sock)))"
proof (rule client_invariant)
  show "reachable (on_closed (start_client None None False (base_world new_sock)))"
    by (rule reachable.step [OF reachable.start step.closed])
qed

end
