(* ===== verification/LinuxProps.thy ===== *)
theory LinuxProps
  imports LinuxSystem
begin

text \<open>
  What the Linux client does with files: nothing when transfers are disabled, relays that arrive
  as they were sent; and consequences of the code that its authors will not have wanted.
\<close>

section \<open>Disabled transfers\<close>

lemma send_msg_frame: "send_msg e m c = Some c' \<Longrightarrow>
  g_xfer c' = g_xfer c \<and> cl_world c' = cl_world c \<and> cl_created c' = cl_created c \<and> cl_shell c' = cl_shell c"
  by (auto simp: send_msg_def split: option.splits)

lemma process_text_frame: "process_text e txt c = Some c' \<Longrightarrow>
  g_xfer c' = g_xfer c \<and> cl_world c' = cl_world c \<and> cl_created c' = cl_created c \<and> cl_shell c' = cl_shell c"
  by (auto simp: process_text_def Let_def split: if_splits option.splits dest!: send_msg_frame)

text \<open>
  C35. A level of 0 on either side turns file transfer off: with it a file announcement is ignored
  completely, and no change of the clipboard, whatever is on it, opens a socket, touches the
  transfer state or starts a thread; texts are still sent.
\<close>

theorem transfers_disabled:
  assumes "effective_file_level c \<le> 0"
  shows "on_file_notify e j c = Some c \<and>
     (process_clipboard_change e c = Some c' \<longrightarrow>
        g_xfer c' = g_xfer c \<and> cl_world c' = cl_world c \<and> cl_created c' = cl_created c)"
proof -
  have l: "\<not> effective_file_level (c\<lparr>g_cached_types := t\<rparr>) > 0" for t
    using assms by (simp add: effective_file_level_def)
  have "g_xfer c' = g_xfer c \<and> cl_world c' = cl_world c \<and> cl_created c' = cl_created c" if "process_clipboard_change e c = Some c'"
    using that l process_text_frame
    by (fastforce simp: process_clipboard_change_def process_clipboard_file_def process_clipboard_text_def Let_def split: option.splits)
  then show ?thesis using assms by (simp add: on_file_notify_def)
qed

theorem transfers_disabled_witness:
  "on_file_notify sample_env JNull (sample_client\<lparr>g_server_file_level := 0\<rparr>) = Some (sample_client\<lparr>g_server_file_level := 0\<rparr>)"
  by (rule transfers_disabled [THEN conjunct1])
    (simp add: effective_file_level_def sample_client_def init_client_def config_set_defaults_def)

section \<open>Relayed files\<close>

lemma relay_message:
  assumes "fp_documented m" and "block_documented ssl" and "mem_ok ssl" and "length d < 2 ^ 29"
    and "nul \<notin> set fid" and "nul \<notin> set target" and "uint fsize < 10 ^ 15"
  obtains s b64 where "build_file_relay_data ssl m fid d fsize target = Some s" "ft_base64_decode ssl b64 = Some d"
    "cJSON_Parse m (Some s) = Some (JObject [(''type'', JString ''file_relay''), (''fileId'', JString fid),
       (''fileSize'', JNumber (Fin (of_int (uint fsize)))), (''targetDevice'', JString target), (''data'', JString b64)])"
proof -
  obtain b64 where b: "ft_base64_encode ssl d = Some b64" "ft_base64_decode ssl b64 = Some d" "nul \<notin> set b64"
    using ft_base64_inverse [OF assms(2-4)] by blast
  define ms where "ms = [(''type'', JString ''file_relay''), (''fileId'', JString fid),
       (''fileSize'', JNumber (Fin (of_int (uint fsize)))), (''targetDevice'', JString target), (''data'', JString b64)]"
  have "to_double m (uint fsize) = Fin (of_int (uint fsize))" using to_double_exact [OF assms(1)] assms(7) by simp
  then have e: "build_file_relay_data ssl m fid d fsize target = cJSON_PrintUnformatted m (JObject ms)"
    using b(1) by (simp add: build_file_relay_data_def build_simps ms_def)
  have "\<forall>(k, x) \<in> set ms. shallow x \<and> nul \<notin> set k \<and> plain x"
    using assms(5,6) b(3) plain_int [of "uint fsize"] assms(7)
    by (auto simp: ms_def nul_def simp del: plain.simps(4) of_int_uint)
  then obtain s where "cJSON_PrintUnformatted m (JObject ms) = Some s" "cJSON_Parse m (Some s) = Some (JObject ms)"
    using object_read_back [OF assms(1)] by blast
  then show ?thesis using that [of s b64] b(2) e by (simp add: ms_def)
qed



section \<open>Consequences\<close>

text \<open>\<open>g_xfer\<close> starts with a listening descriptor of 0: the first transfer closes standard input.\<close>

theorem first_transfer_closes_stdin:
  "closed (cl_world (reset_xfer (start_client f wd wl w))) = closed w @ [0]"
  by (simp add: reset_xfer_def start_client_def init_client_def zero_xfer_def ft_close_def FT_INVALID_SOCK_def
      ft_set_max_file_size_def os_close_def Let_def)

text \<open>
  A picture copied while a transfer is running is never sent: its hash is recorded before the
  transfer is found to be running, and later looks at the clipboard find the hash unchanged.
\<close>

theorem picture_during_transfer_lost:
  assumes "g_xfer_active_count c > 0" and "ft_sha256 (e_ssl e) img \<noteq> g_last_img_hash c"
  shows "\<exists>c1. offer_image e img mime c = Some c1 \<and> cl_queue c1 = cl_queue c \<and>
     offer_image e img mime (c1\<lparr>g_xfer_active_count := 0\<rparr>) = Some (c1\<lparr>g_xfer_active_count := 0\<rparr>)"
  using assms by (simp add: offer_image_def Let_def)

text \<open>A copied file is offered again at every look at the clipboard: its hash is stored but not compared.\<close>

theorem copied_file_offered_again:
  assumes "fsys (cl_world c) p = Some content" and "content \<noteq> []" and "int (length content) < 1024 * 1024 * max_transfer_size (g_config c)"
    and "g_xfer_active_count c = 0" and "ft_sha256_file (e_ssl e) p (cl_world c) = Some h" and "g_last_img_hash c = h"
  shows "offer_path e p c = start_offer e (base_name p) (mime_from_extension (base_name p)) (of_nat (length content)) None p h (c\<lparr>g_last_img_hash := h\<rparr>)"
  using assms by (simp add: offer_path_def Let_def)

text \<open>The media type of a relayed picture becomes part of a shell command.\<close>

theorem relayed_type_runs_commands:
  assumes "g_clip_ops c = xclip_ops" and "ft_base64_decode (e_ssl e) b64 = Some d"
    and "popen_w_ok (e_desk e) ''xclip -selection clipboard -t image/x;id; -i 2>/dev/null''"
  shows "\<exists>c'. on_relay_data e now (JObject [(''mimeType'', JString ''image/x;id;''), (''data'', JString b64)]) c = Some c' \<and>
     cl_shell c' = cl_shell c @ [(''xclip -selection clipboard -t image/x;id; -i 2>/dev/null'', d)]"
proof -
  obtain res where res: "build_transfer_result (e_fp e) None ''relay'' True 0 0 = Some res"
    using print_object by (fastforce simp: build_transfer_result_def build_simps)
  show ?thesis using assms res
    by (simp add: on_relay_data_def lookup_simps Let_def suppress_clipboard_ms_def starts_with_def send_msg_def
        xclip_ops_def xclip_clipboard_set_image_def prepare_image_def popen_w_def xclip_image_cmd_def snprintf_c_def)
qed

text \<open>A message that is not authenticated is accepted when it decrypts under the legacy cipher.\<close>

theorem legacy_cipher_accepted:
  assumes "aes_gcm_decrypt (e_ssl e) content (aes_key (g_config c)) = None"
    and "aes_decrypt (e_ssl e) (e_junk e) content (aes_key (g_config c)) = Some d"
  shows "cl_shell (on_clipboard e now (JObject [(''content'', JString content)]) c) =
     co_set_text (g_clip_ops c) (e_desk e) (cstr (str_of_bytes d)) (cl_shell c)"
  using assms by (simp add: on_clipboard_def lookup_simps Let_def suppress_clipboard_ms_def)

end
