(* ===== verification/Log.thy ===== *)
theory Log
  imports Prelude
begin

text \<open>
  The log of \<open>src/common/log.c\<close>: threshold, redirection to a file, rotation. The files are a
  map from paths to texts; whether a path can be opened and a file renamed is up to the
  environment. A message is its formatted text, the time stamp is given. The lock is left out:
  every operation holds it from its first access to the file to its last.
\<close>

definition SC_LOG_DEBUG :: int where "SC_LOG_DEBUG = 0"
definition SC_LOG_INFO :: int where "SC_LOG_INFO = 1"
definition SC_LOG_WARN :: int where "SC_LOG_WARN = 2"
definition SC_LOG_ERROR :: int where "SC_LOG_ERROR = 3"

lemmas log_levels = SC_LOG_DEBUG_def SC_LOG_INFO_def SC_LOG_WARN_def SC_LOG_ERROR_def

record log_env =
  fopen_a_ok :: "string \<Rightarrow> bool"
  rename_ok :: "string \<Rightarrow> string \<Rightarrow> bool"

record log_state =
  g_level :: int
  g_file :: bool
  g_path :: string
  g_max_bytes :: int
  log_files :: "string \<Rightarrow> string option"
  log_stderr :: string

definition log_init :: "(string \<Rightarrow> string option) \<Rightarrow> log_state" where
  "log_init fs = \<lparr>g_level = SC_LOG_INFO, g_file = False, g_path = [], g_max_bytes = 10 * 1024 * 1024,
     log_files = fs, log_stderr = []\<rparr>"

definition level_name :: "int \<Rightarrow> string" where
  "level_name level =
     (if level = SC_LOG_DEBUG then ''DEBUG'' else if level = SC_LOG_INFO then ''INFO ''
      else if level = SC_LOG_WARN then ''WARN '' else if level = SC_LOG_ERROR then ''ERROR'' else ''?    '')"

definition sc_log_set_level :: "int \<Rightarrow> log_state \<Rightarrow> log_state" where
  "sc_log_set_level level s = s\<lparr>g_level := level\<rparr>"

text \<open>\<open>g_file = fopen(g_path, "a")\<close>: creates the file when it is not there.\<close>

definition open_log :: "log_env \<Rightarrow> log_state \<Rightarrow> log_state" where
  "open_log env s =
     (if fopen_a_ok env (g_path s)
      then s\<lparr>g_file := True,
             log_files := (log_files s)(g_path s \<mapsto> (case log_files s (g_path s) of None \<Rightarrow> [] | Some t \<Rightarrow> t))\<rparr>
      else s\<lparr>g_file := False\<rparr>)"

definition sc_log_set_file :: "log_env \<Rightarrow> string option \<Rightarrow> int \<Rightarrow> log_state \<Rightarrow> int \<times> log_state" where
  "sc_log_set_file env path max_mb s =
     (let s = s\<lparr>g_file := False\<rparr> in
      case path of
        None \<Rightarrow> (0, s\<lparr>g_path := []\<rparr>)
      | Some p \<Rightarrow>
          if p = [] then (0, s\<lparr>g_path := []\<rparr>)
          else (let s = s\<lparr>g_path := strncpy_fld 511 p\<rparr>;
                    s = (if max_mb > 0 then s\<lparr>g_max_bytes := max_mb * 1024 * 1024\<rparr> else s);
                    s = open_log env s
                in (if g_file s then 0 else -1, s)))"

definition sc_log_close :: "log_state \<Rightarrow> log_state" where
  "sc_log_close s = s\<lparr>g_file := False\<rparr>"

text \<open>
  The position behind the line just written is the size of the file. The old file is closed
  before the new one is opened, so a failing \<open>fopen\<close> leaves no file.
\<close>

definition rotate_if_needed_locked :: "log_env \<Rightarrow> log_state \<Rightarrow> log_state" where
  "rotate_if_needed_locked env s =
     (if \<not> g_file s \<or> g_path s = [] then s
      else (case log_files s (g_path s) of
              None \<Rightarrow> s
            | Some t \<Rightarrow>
                if int (length t) < g_max_bytes s then s
                else (let rotated = fst (snprintf_c 600 (g_path s @ ''.1''));
                          s = s\<lparr>g_file := False, log_files := (log_files s)(rotated := None)\<rparr>;
                          s = (if rename_ok env (g_path s) rotated
                               then s\<lparr>log_files := (log_files s)(g_path s := None, rotated \<mapsto> t)\<rparr> else s)
                      in open_log env s)))"

definition log_line :: "string \<Rightarrow> int \<Rightarrow> string \<Rightarrow> string" where
  "log_line ts level buf = ts @ '' '' @ level_name level @ '' '' @ fst (snprintf_c 2048 buf) @ [CHR 0x0A]"

definition sc_log_msg :: "log_env \<Rightarrow> string \<Rightarrow> int \<Rightarrow> string \<Rightarrow> log_state \<Rightarrow> log_state" where
  "sc_log_msg env ts level text s =
     (if level < g_level s then s
      else if g_file s then
        rotate_if_needed_locked env
          (s\<lparr>log_files := (log_files s)(g_path s \<mapsto>
               (case log_files s (g_path s) of None \<Rightarrow> [] | Some t \<Rightarrow> t) @ log_line ts level text)\<rparr>)
      else s\<lparr>log_stderr := log_stderr s @ log_line ts level text\<rparr>)"

section \<open>The file stays below its limit and keeps the last lines\<close>

definition log_inv :: "log_state \<Rightarrow> bool" where
  "log_inv s \<longleftrightarrow> length (g_path s) \<le> 511 \<and> 0 < g_max_bytes s \<and>
     (g_file s \<longrightarrow> g_path s \<noteq> [] \<and> log_files s (g_path s) \<noteq> None)"

definition benign :: "log_env \<Rightarrow> bool" where
  "benign env \<longleftrightarrow> (\<forall>p. fopen_a_ok env p) \<and> (\<forall>p q. rename_ok env p q)"

lemma rotated_name: "length p \<le> 511 \<Longrightarrow> fst (snprintf_c 600 (p @ ''.1'')) = p @ ''.1''"
  by (simp add: snprintf_c_def)

lemma set_file_inv: "log_inv s \<Longrightarrow> sc_log_set_file env path mb s = (r, s') \<Longrightarrow> log_inv s'"
  by (auto simp: sc_log_set_file_def open_log_def log_inv_def strncpy_fld_def Let_def split: option.splits if_splits)

lemma msg_inv: "log_inv s \<Longrightarrow> log_inv (sc_log_msg env ts level text s)"
  by (auto simp: sc_log_msg_def rotate_if_needed_locked_def open_log_def log_inv_def Let_def split: option.splits)

text \<open>
  The log rotates and loses nothing recent: in any state the log can be in, a message at or
  above the threshold is appended to the open file; if the file reaches the limit with it,
  the complete file, this line included, is under the path with \<open>.1\<close> appended, and the log goes on
  in an empty file. So after every message the current file is below the limit. A message
  below the threshold changes nothing.
\<close>

theorem log_rotates:
  assumes "log_inv s" and "benign env" and "g_file s" and "log_files s (g_path s) = Some old"
    and s': "s' = sc_log_msg env ts level text s"
  shows "if level < g_level s then s' = s
     else g_file s' \<and> log_inv s' \<and>
       (\<exists>t. log_files s' (g_path s) = Some t \<and> int (length t) < g_max_bytes s \<and>
         (t = old @ log_line ts level text \<or>
          t = [] \<and> log_files s' (g_path s @ ''.1'') = Some (old @ log_line ts level text)))"
proof (cases "level < g_level s")
  case True
  then show ?thesis by (simp add: s' sc_log_msg_def)
next
  case False
  have p: "g_path s \<noteq> []" "length (g_path s) \<le> 511" using assms(1,3) by (auto simp: log_inv_def)
  have "log_inv s'" using msg_inv assms(1) by (simp add: s')
  moreover have "g_path s @ ''.1'' \<noteq> g_path s" by simp
  ultimately show ?thesis using assms(1-4) p False rotated_name [OF p(2)]
    by (auto simp: s' sc_log_msg_def rotate_if_needed_locked_def open_log_def benign_def log_inv_def Let_def)
qed

definition benign_env :: log_env where
  "benign_env = \<lparr>fopen_a_ok = \<lambda>_. True, rename_ok = \<lambda>_ _. True\<rparr>"

definition small_log :: log_state where
  "small_log = (log_init (\<lambda>_. None))\<lparr>g_file := True, g_path := ''log'', g_max_bytes := 5, log_files := [''log'' \<mapsto> ''abc'']\<rparr>"

theorem log_rotates_witness:
  "log_files (sc_log_msg benign_env ''t'' 2 ''x'' small_log) ''log'' = Some [] \<and>
   log_files (sc_log_msg benign_env ''t'' 2 ''x'' small_log) ''log.1'' = Some (''abct WARN  x'' @ [CHR 0x0A])"
  using log_rotates [of small_log benign_env "''abc''" _ "''t''" 2 "''x''", OF _ _ _ _ refl]
  by (auto simp: small_log_def log_inv_def benign_def benign_env_def log_init_def log_levels log_line_def level_name_def snprintf_c_def)
end
