(* ===== verification/WinMain.thy ===== *)
theory WinMain
  imports Log Config
begin

text \<open>
  The rest of \<open>src/windows/main.c\<close>: its log, the entry that starts the client with the session,
  the directory it works in and what \<open>main\<close> makes of its arguments. Registry, processes and
  files are part of the state; what Win32 answers is given.
\<close>

section \<open>The log\<close>

text \<open>The file is opened in text mode: a line feed is written as two bytes.\<close>

definition MAX_PATH :: nat where "MAX_PATH = 260"

record win_log =
  wl_file :: bool
  wl_inited :: bool
  wl_level :: int
  wl_max_bytes :: int
  wl_path :: string
  wl_path_old :: string
  wl_to_console :: bool
  wl_files :: "string \<Rightarrow> string option"
  wl_stdout :: string

definition text_mode :: "string \<Rightarrow> string" where
  "text_mode s = concat (map (\<lambda>c. if c = CHR 0x0A then [CHR 0x0D, CHR 0x0A] else [c]) s)"

definition win_open_log :: "log_env \<Rightarrow> win_log \<Rightarrow> win_log" where
  "win_open_log env s =
     (if fopen_a_ok env (wl_path s)
      then s\<lparr>wl_file := True, wl_files := (wl_files s)(wl_path s \<mapsto> (case wl_files s (wl_path s) of None \<Rightarrow> [] | Some t \<Rightarrow> t))\<rparr>
      else s\<lparr>wl_file := False\<rparr>)"

definition exe_dir :: "string \<Rightarrow> string" where
  "exe_dir exe = (case split_last (CHR 0x5C) exe of Some (a, _) \<Rightarrow> a @ [CHR 0x5C] | None \<Rightarrow> ''.'' @ [CHR 0x5C])"

text \<open>The level and the limit have their initial values; \<open>exe\<close> is what \<open>GetModuleFileNameA\<close> gives.\<close>

definition win_log_init :: "log_env \<Rightarrow> string \<Rightarrow> bool \<Rightarrow> (string \<Rightarrow> string option) \<Rightarrow> win_log" where
  "win_log_init env exe console fs =
     (let dir = exe_dir exe;
          s = \<lparr>wl_file = False, wl_inited = False, wl_level = 1, wl_max_bytes = 10 * 1024 * 1024,
               wl_path = fst (snprintf_c MAX_PATH (dir @ ''sync_clipboard.log'')),
               wl_path_old = fst (snprintf_c MAX_PATH (dir @ ''sync_clipboard.log.1'')),
               wl_to_console = False, wl_files = fs, wl_stdout = []\<rparr>;
          s = win_open_log env s
      in s\<lparr>wl_to_console := console, wl_inited := True\<rparr>)"

definition win_log_rotate :: "log_env \<Rightarrow> win_log \<Rightarrow> win_log" where
  "win_log_rotate env s =
     (if \<not> wl_file s then s
      else (let fs = (wl_files s)(wl_path_old s := None);
                fs = (case fs (wl_path s) of
                        Some t \<Rightarrow> if rename_ok env (wl_path s) (wl_path_old s)
                                  then fs(wl_path s := None, wl_path_old s \<mapsto> t) else fs
                      | None \<Rightarrow> fs)
            in win_open_log env (s\<lparr>wl_file := False, wl_files := fs\<rparr>)))"

definition win_tag :: "int \<Rightarrow> string" where
  "win_tag level = [''DBG'', ''INF'', ''WRN'', ''ERR''] ! nat (if level < 4 then level else 3)"

definition win_log_line :: "string \<Rightarrow> int \<Rightarrow> string \<Rightarrow> string" where
  "win_log_line ts level text = ts @ '' ['' @ win_tag level @ ''] '' @ text @ [CHR 0x0A]"

definition win_log_write :: "log_env \<Rightarrow> string \<Rightarrow> int \<Rightarrow> string \<Rightarrow> win_log \<Rightarrow> win_log" where
  "win_log_write env ts level text s =
     (if level < wl_level s \<or> \<not> wl_inited s then s
      else (let s = (if wl_file s then
                       (let t = (case wl_files s (wl_path s) of None \<Rightarrow> [] | Some t \<Rightarrow> t) @ text_mode (win_log_line ts level text);
                            s = s\<lparr>wl_files := (wl_files s)(wl_path s \<mapsto> t)\<rparr>
                        in if int (length t) > wl_max_bytes s then win_log_rotate env s else s)
                     else s)
            in if wl_to_console s then s\<lparr>wl_stdout := wl_stdout s @ win_log_line ts level text\<rparr> else s))"

text \<open>The limit is a \<open>long\<close> of 32 bits.\<close>

definition log_apply_config :: "ClientConfig \<Rightarrow> win_log \<Rightarrow> win_log" where
  "log_apply_config cfg s =
     (let s = (if log_level cfg \<ge> 0 \<and> log_level cfg \<le> 3 then s\<lparr>wl_level := log_level cfg\<rparr> else s)
      in if max_log_size_mb cfg > 0 then s\<lparr>wl_max_bytes := c_int (max_log_size_mb cfg * 1024 * 1024)\<rparr> else s)"

section \<open>Starting with the session\<close>

text \<open>
  \<open>run_values\<close> are the values under the \<open>Run\<close> key; \<open>procs\<close> the running processes with the names of
  their programs, \<open>can_kill\<close> those that may be terminated.
\<close>

record win_host =
  run_values :: "string \<Rightarrow> string option"
  procs :: "(nat \<times> string) list"
  can_kill :: "nat \<Rightarrow> bool"
  launched :: "string list"
  cwd :: string

definition REG_VALUE_NAME :: string where "REG_VALUE_NAME = ''SyncClipboard''"

text \<open>\<open>open_rc\<close>, \<open>set_rc\<close>: the results of opening the key and of changing the value, 0 for success.\<close>

definition install_autostart :: "string \<Rightarrow> int \<Rightarrow> int \<Rightarrow> bool \<Rightarrow> win_host \<Rightarrow> int \<times> win_host" where
  "install_autostart exe open_rc set_rc create_ok h =
     (let cmd = fst (snprintf_c (MAX_PATH + 64) ([CHR 0x22] @ exe @ [CHR 0x22])) in
      if open_rc \<noteq> 0 then (1, h)
      else if set_rc \<noteq> 0 then (1, h)
      else (let h = h\<lparr>run_values := (run_values h)(REG_VALUE_NAME \<mapsto> cmd)\<rparr>
            in (0, if create_ok then h\<lparr>launched := launched h @ [cmd]\<rparr> else h)))"

definition exe_name :: "string \<Rightarrow> string" where
  "exe_name my_name = (case split_last (CHR 0x5C) my_name of Some (_, b) \<Rightarrow> b | None \<Rightarrow> my_name)"

text \<open>The loop over the snapshot; \<open>TerminateProcess\<close> takes the process out of \<open>procs\<close>.\<close>

fun kill_loop :: "nat \<Rightarrow> string \<Rightarrow> (nat \<times> string) list \<Rightarrow> win_host \<Rightarrow> win_host" where
  "kill_loop my_pid name [] h = h"
| "kill_loop my_pid name ((pid, f) # r) h =
     kill_loop my_pid name r
       (if pid \<noteq> my_pid \<and> strcaseeq f name \<and> can_kill h pid
        then h\<lparr>procs := filter (\<lambda>p. fst p \<noteq> pid) (procs h)\<rparr> else h)"

definition kill_other_instances :: "nat \<Rightarrow> string \<Rightarrow> bool \<Rightarrow> win_host \<Rightarrow> win_host" where
  "kill_other_instances my_pid my_name snap_ok h =
     (if snap_ok then kill_loop my_pid (exe_name my_name) (procs h) h else h)"

definition uninstall_autostart :: "nat \<Rightarrow> string \<Rightarrow> bool \<Rightarrow> int \<Rightarrow> int \<Rightarrow> win_host \<Rightarrow> int \<times> win_host" where
  "uninstall_autostart my_pid my_name snap_ok open_rc del_rc h =
     (let h = kill_other_instances my_pid my_name snap_ok h in
      if open_rc \<noteq> 0 then (1, h)
      else if del_rc = 0 then (0, h\<lparr>run_values := (run_values h)(REG_VALUE_NAME := None)\<rparr>)
      else (1, h))"

definition set_exe_directory :: "string \<Rightarrow> win_host \<Rightarrow> win_host" where
  "set_exe_directory exe h = (case split_last (CHR 0x5C) exe of Some (a, _) \<Rightarrow> h\<lparr>cwd := a\<rparr> | None \<Rightarrow> h)"

section \<open>main\<close>

datatype win_mode = Install | Uninstall | Run string

fun mode_arg :: "string list \<Rightarrow> win_mode option" where
  "mode_arg [] = None"
| "mode_arg (a # r) = (if a = ''--install'' then Some Install else if a = ''--uninstall'' then Some Uninstall else mode_arg r)"

fun config_arg :: "string list \<Rightarrow> string" where
  "config_arg [] = ''config.ini''"
| "config_arg (a # r) = (if starts_with ''-'' a then config_arg r else a)"

definition main_mode :: "string list \<Rightarrow> win_mode" where
  "main_mode args = (case mode_arg args of Some m \<Rightarrow> m | None \<Rightarrow> Run (config_arg args))"

section \<open>The log keeps the last lines\<close>

text \<open>
  The log of the Windows client rotates and loses nothing recent: a message at or above the
  threshold is appended to the open file; if the file is then above the limit, the complete
  file, this line included, is under the second path, and the log goes on in an empty file. So
  after every message the current file is within the limit. A message below the threshold
  changes nothing. This needs two different paths and a limit that is not negative.
\<close>

theorem win_log_rotates:
  assumes "benign env" and "wl_inited s" and "wl_file s" and "wl_path_old s \<noteq> wl_path s" and "0 \<le> wl_max_bytes s"
    and "wl_files s (wl_path s) = Some old" and s': "s' = win_log_write env ts level text s"
  shows "if level < wl_level s then s' = s
     else wl_file s' \<and> wl_path s' = wl_path s \<and>
       (\<exists>t. wl_files s' (wl_path s) = Some t \<and> int (length t) \<le> wl_max_bytes s \<and>
         (t = old @ text_mode (win_log_line ts level text) \<or>
          t = [] \<and> wl_files s' (wl_path_old s) = Some (old @ text_mode (win_log_line ts level text))))"
  using assms by (auto simp: s' win_log_write_def win_log_rotate_def win_open_log_def benign_def Let_def)

definition win_small_log :: win_log where
  "win_small_log = \<lparr>wl_file = True, wl_inited = True, wl_level = 1, wl_max_bytes = 5, wl_path = ''l'', wl_path_old = ''l.1'',
     wl_to_console = False, wl_files = [''l'' \<mapsto> ''ab''], wl_stdout = []\<rparr>"

theorem win_log_rotates_witness:
  "wl_files (win_log_write benign_env ''t'' 2 ''x'' win_small_log) ''l'' = Some [] \<and>
   wl_files (win_log_write benign_env ''t'' 2 ''x'' win_small_log) ''l.1'' = Some (''abt [WRN] x'' @ [CHR 0x0D, CHR 0x0A])"
  using win_log_rotates [of benign_env win_small_log "''ab''" _ "''t''" 2 "''x''", OF _ _ _ _ _ _ refl]
  by (auto simp: win_small_log_def benign_def benign_env_def win_log_line_def win_tag_def text_mode_def)

lemma short_directory_paths:
  assumes "length (exe_dir exe) \<le> 239"
  shows "wl_path (win_log_init env exe con fs) = exe_dir exe @ ''sync_clipboard.log'' \<and>
     wl_path_old (win_log_init env exe con fs) = exe_dir exe @ ''sync_clipboard.log.1''"
  using assms by (simp add: win_log_init_def win_open_log_def snprintf_c_def MAX_PATH_def Let_def)

text \<open>
  In a directory whose name has 241 characters both paths are cut to the same 259 characters, and
  a rotation removes the log instead of keeping it.
\<close>

theorem long_directory_deletes_log:
  assumes "length (exe_dir exe) = 241"
  shows "wl_path_old (win_log_init env exe con fs) = wl_path (win_log_init env exe con fs)"
    and "benign env' \<Longrightarrow> wl_file s \<Longrightarrow> wl_path_old s = wl_path s \<Longrightarrow> wl_files (win_log_rotate env' s) (wl_path s) = Some []"
  using assms by (simp_all add: win_log_init_def win_open_log_def win_log_rotate_def benign_def snprintf_c_def MAX_PATH_def Let_def)

text \<open>A limit of 2048 megabytes overflows the 32-bit \<open>long\<close>: every message rotates the log.\<close>

theorem large_limit_negative:
  assumes "max_log_size_mb cfg = 2048"
  shows "wl_max_bytes (log_apply_config cfg s) = - (2 ^ 31)"
  using assms by (simp add: log_apply_config_def c_int_def Let_def)

section \<open>Installing and uninstalling\<close>

lemma kill_loop_fields:
  "run_values (kill_loop me n ps h) = run_values h" "can_kill (kill_loop me n ps h) = can_kill h"
  "launched (kill_loop me n ps h) = launched h" "cwd (kill_loop me n ps h) = cwd h"
  by (induction me n ps h rule: kill_loop.induct) auto

lemma kill_loop_procs:
  "procs (kill_loop me n ps h) =
     filter (\<lambda>p. \<not> (\<exists>f. (fst p, f) \<in> set ps \<and> fst p \<noteq> me \<and> strcaseeq f n \<and> can_kill h (fst p))) (procs h)"
  by (induction me n ps h rule: kill_loop.induct) (auto intro!: filter_cong)

lemma kill_all_procs:
  assumes "distinct (map fst (procs h))"
  shows "procs (kill_loop me n (procs h) h) = filter (\<lambda>(pid, f). \<not> (pid \<noteq> me \<and> strcaseeq f n \<and> can_kill h pid)) (procs h)"
proof -
  have "f = g" if "(k, f) \<in> set (procs h)" "(k, g) \<in> set (procs h)" for k f g
    using eq_key_imp_eq_value [OF assms that] .
  then show ?thesis unfolding kill_loop_procs by (intro filter_cong) (simp_all add: split_beta, metis prod.collapse)
qed

text \<open>
  Uninstalling undoes installing and stops the client: after a successful installation the
  value under the \<open>Run\<close> key is the complete quoted path of the program; a successful
  uninstallation leaves the key without the value and every other value as it was, and has
  terminated exactly the processes that are not itself, have the program's name in whatever
  case and can be terminated.
\<close>

theorem uninstall_undoes_install:
  assumes "length exe \<le> 259" and "distinct (map fst (procs h))"
    and "install_autostart exe 0 0 ok h = (0, h1)"
    and "uninstall_autostart me exe True 0 0 (h1\<lparr>procs := procs h\<rparr>) = (0, h2)"
  shows "run_values h1 REG_VALUE_NAME = Some ([CHR 0x22] @ exe @ [CHR 0x22]) \<and>
     run_values h2 = (run_values h)(REG_VALUE_NAME := None) \<and>
     procs h2 = filter (\<lambda>(pid, f). \<not> (pid \<noteq> me \<and> strcaseeq f (exe_name exe) \<and> can_kill h pid)) (procs h)"
proof -
  have cmd: "fst (snprintf_c (MAX_PATH + 64) ([CHR 0x22] @ exe @ [CHR 0x22])) = [CHR 0x22] @ exe @ [CHR 0x22]"
    using assms(1) by (simp add: snprintf_c_def MAX_PATH_def)
  have h1: "run_values h1 = (run_values h)(REG_VALUE_NAME \<mapsto> [CHR 0x22] @ exe @ [CHR 0x22])" "can_kill h1 = can_kill h"
    using assms(3) unfolding install_autostart_def cmd Let_def by auto
  have h2: "h2 = (kill_loop me (exe_name exe) (procs h) (h1\<lparr>procs := procs h\<rparr>))\<lparr>run_values := (run_values h1)(REG_VALUE_NAME := None)\<rparr>"
    using assms(4) by (simp add: uninstall_autostart_def kill_other_instances_def kill_loop_fields Let_def)
  show ?thesis using h1 kill_all_procs [of "h1\<lparr>procs := procs h\<rparr>" me "exe_name exe"] assms(2) by (simp add: h2)
qed

definition small_host :: win_host where
  "small_host = \<lparr>run_values = \<lambda>_. None, procs = [(1, ''a.exe''), (2, ''A.EXE''), (3, ''b.exe'')], can_kill = \<lambda>_. True, launched = [], cwd = []\<rparr>"

theorem uninstall_undoes_install_witness:
  "procs (snd (uninstall_autostart 1 ''a.exe'' True 0 0
      ((snd (install_autostart ''a.exe'' 0 0 True small_host))\<lparr>procs := procs small_host\<rparr>))) = [(1, ''a.exe''), (3, ''b.exe'')]"
proof -
  obtain h1 where h1: "install_autostart ''a.exe'' 0 0 True small_host = (0, h1)" by (simp add: install_autostart_def Let_def)
  obtain h2 where h2: "uninstall_autostart 1 ''a.exe'' True 0 0 (h1\<lparr>procs := procs small_host\<rparr>) = (0, h2)"
    by (simp add: uninstall_autostart_def Let_def)
  have "distinct (map fst (procs small_host))" by (simp add: small_host_def)
  moreover have "strcaseeq ''A.EXE'' ''a.exe''" "\<not> strcaseeq ''b.exe'' ''a.exe''" "exe_name ''a.exe'' = ''a.exe''" by code_simp+
  ultimately show ?thesis using uninstall_undoes_install [OF _ _ h1 h2] h1 h2 by (simp add: small_host_def)
qed

text \<open>What \<open>main\<close> does with its arguments: the first of the two switches decides, else the first argument that is no switch.\<close>

theorem main_mode_cases:
  "main_mode args = Install \<or> main_mode args = Uninstall \<or> main_mode args = Run ''config.ini'' \<or>
     (\<exists>a \<in> set args. main_mode args = Run a \<and> \<not> starts_with ''-'' a)"
proof -
  have "config_arg args = ''config.ini'' \<or> config_arg args \<in> set args \<and> \<not> starts_with ''-'' (config_arg args)"
    by (induction args) auto
  moreover have "mode_arg args \<in> {None, Some Install, Some Uninstall}" by (induction args) auto
  ultimately show ?thesis by (auto simp: main_mode_def)
qed

end
