(* ===== verification/WinClip.thy ===== *)
theory WinClip
  imports Buffers Posix ImageLoad
begin

text \<open>
  The clipboard of the Windows client, \<open>src/windows/main.c\<close>: texts, pictures and files on the
  Win32 clipboard, and the conversion of pictures between the bitmap of the clipboard and PNG.

  What Win32 answers is a record: whether the clipboard can be opened and locked, which sizes can
  be allocated, the conversions of texts, what the image codec finds in fresh memory, and how a
  list of dropped files reads. The codec itself is \<open>ImageLoad\<close>. A heap block is a list of cells as in \<open>Buffers\<close>; \<open>None\<close> as the
  outermost result is an access outside a block.
\<close>

type_synonym u16 = "16 word"

section \<open>Little-endian fields\<close>

definition le16 :: "u16 \<Rightarrow> byte list" where
  "le16 x = [ucast x, ucast (drop_bit 8 x)]"

definition le32 :: "u32 \<Rightarrow> byte list" where
  "le32 x = [ucast x, ucast (drop_bit 8 x), ucast (drop_bit 16 x), ucast (drop_bit 24 x)]"

definition get16 :: "byte list \<Rightarrow> nat \<Rightarrow> u16" where
  "get16 b i = ucast (b ! i) OR push_bit 8 (ucast (b ! (i + 1)))"

definition get32 :: "byte list \<Rightarrow> nat \<Rightarrow> u32" where
  "get32 b i = ucast (b ! i) OR push_bit 8 (ucast (b ! (i + 1))) OR push_bit 16 (ucast (b ! (i + 2))) OR push_bit 24 (ucast (b ! (i + 3)))"

lemma length_le [simp]: "length (le16 x) = 2" "length (le32 y) = 4"
  by (simp_all add: le16_def le32_def)

lemma word16_bytes: "(ucast (ucast x :: byte) :: u16) OR push_bit 8 (ucast (ucast (drop_bit 8 x) :: byte)) = x"
  by (rule bit_word_eqI) (auto simp: bit_simps not_le)

lemma word32_bytes:
  "(ucast (ucast x :: byte) :: u32) OR push_bit 8 (ucast (ucast (drop_bit 8 x) :: byte))
     OR push_bit 16 (ucast (ucast (drop_bit 16 x) :: byte)) OR push_bit 24 (ucast (ucast (drop_bit 24 x) :: byte)) = x"
proof (rule bit_word_eqI)
  fix n
  assume "n < LENGTH(32)"
  then consider "n < 8" | "8 \<le> n" "n < 16" | "16 \<le> n" "n < 24" | "24 \<le> n" "n < 32" by fastforce
  then show "bit ((ucast (ucast x :: byte) :: u32) OR push_bit 8 (ucast (ucast (drop_bit 8 x) :: byte))
     OR push_bit 16 (ucast (ucast (drop_bit 16 x) :: byte)) OR push_bit 24 (ucast (ucast (drop_bit 24 x) :: byte))) n \<longleftrightarrow> bit x n"
    by cases (auto simp: bit_simps less_diff_conv2)
qed

lemma get16_le16: "i = length a \<Longrightarrow> get16 (a @ le16 x @ b) i = x"
  by (simp add: get16_def le16_def nth_append word16_bytes)

lemma get32_le32: "i = length a \<Longrightarrow> get32 (a @ le32 x @ b) i = x"
  by (simp add: get32_def le32_def nth_append word32_bytes)

section \<open>Bitmap headers\<close>

record BITMAPFILEHEADER =
  bfType :: u16
  bfSize :: u32
  bfReserved1 :: u16
  bfReserved2 :: u16
  bfOffBits :: u32

record BITMAPINFOHEADER =
  biSize :: u32
  biWidth :: u32
  biHeight :: u32
  biPlanes :: u16
  biBitCount :: u16
  biCompression :: u32
  biSizeImage :: u32
  biXPelsPerMeter :: u32
  biYPelsPerMeter :: u32
  biClrUsed :: u32
  biClrImportant :: u32

definition bfh_bytes :: "BITMAPFILEHEADER \<Rightarrow> byte list" where
  "bfh_bytes h = le16 (bfType h) @ le32 (bfSize h) @ le16 (bfReserved1 h) @ le16 (bfReserved2 h) @ le32 (bfOffBits h)"

definition bih_bytes :: "BITMAPINFOHEADER \<Rightarrow> byte list" where
  "bih_bytes h = le32 (biSize h) @ le32 (biWidth h) @ le32 (biHeight h) @ le16 (biPlanes h) @ le16 (biBitCount h) @
     le32 (biCompression h) @ le32 (biSizeImage h) @ le32 (biXPelsPerMeter h) @ le32 (biYPelsPerMeter h) @
     le32 (biClrUsed h) @ le32 (biClrImportant h)"

definition BI_RGB :: u32 where "BI_RGB = 0"
definition BI_BITFIELDS :: u32 where "BI_BITFIELDS = 3"

lemma length_headers [simp]: "length (bfh_bytes f) = 14" "length (bih_bytes i) = 40"
  by (simp_all add: bfh_bytes_def bih_bytes_def)

section \<open>Win32\<close>

record clipboard =
  cf_unicodetext :: "u16 list option"
  cf_dib :: "byte list option"
  cf_hdrop :: "byte list option"
  cf_effect :: "byte list option"

definition EmptyClipboard :: clipboard where
  "EmptyClipboard = \<lparr>cf_unicodetext = None, cf_dib = None, cf_hdrop = None, cf_effect = None\<rparr>"

record win32 =
  open_ok :: bool
  lock_ok :: bool
  w_alloc :: "nat \<Rightarrow> bool"
  wide_to_utf8 :: "u16 list \<Rightarrow> byte list"
  utf8_to_wide :: "byte list \<Rightarrow> u16 list"
  acp_to_wide :: "byte list \<Rightarrow> u16 list"
  DragQueryFile :: "byte list \<Rightarrow> string list"
  temp_dir :: string
  w_stb :: stb_host

text \<open>
  \<open>stbi_load_from_memory\<close> with four channels asked for: width, height and pixels.
\<close>

definition stbi_load :: "win32 \<Rightarrow> byte list \<Rightarrow> int \<Rightarrow> (nat \<times> nat \<times> byte list) option option" where
  "stbi_load w32 buf len = stbi_load4 (w_alloc w32) (w_stb w32) buf len"

section \<open>Pictures as PNG\<close>

definition bmp_to_png :: "win32 \<Rightarrow> byte list \<Rightarrow> byte list option option" where
  "bmp_to_png w32 bmp =
     (case stbi_load w32 bmp (int_of_size (length bmp)) of
        None \<Rightarrow> None
      | Some None \<Rightarrow> Some None
      | Some (Some (wd, ht, pixels)) \<Rightarrow>
          (case stbi_write_png_to_func (w_alloc w32) (dynbuf_write (w_alloc w32)) \<lparr>db_data = [], db_len = 0, db_cap = 0\<rparr> wd ht 4 pixels (wd * 4) of
             None \<Rightarrow> None
           | Some (_, buf) \<Rightarrow>
               if db_len buf = 0 then Some None else Some (Some (filled (db_data buf) (db_len buf)))))"

text \<open>One pixel: red, green, blue and alpha at \<open>src\<close> become blue, green, red and alpha.\<close>

definition put_pixel :: "byte list \<Rightarrow> nat \<Rightarrow> nat \<Rightarrow> nat \<Rightarrow> block \<Rightarrow> block" where
  "put_pixel pixels src_row dst_row x dib =
     dib[dst_row + x * 4 + 0 := Some (pixels ! (src_row + x * 4 + 2)),
         dst_row + x * 4 + 1 := Some (pixels ! (src_row + x * 4 + 1)),
         dst_row + x * 4 + 2 := Some (pixels ! (src_row + x * 4 + 0)),
         dst_row + x * 4 + 3 := Some (pixels ! (src_row + x * 4 + 3))]"

definition put_row :: "nat \<Rightarrow> nat \<Rightarrow> byte list \<Rightarrow> nat \<Rightarrow> block \<Rightarrow> block" where
  "put_row wd ht pixels y dib =
     (let row_bytes = wd * 4 in
      fold (put_pixel pixels ((ht - 1 - y) * row_bytes) (40 + y * row_bytes)) [0..<wd] dib)"

definition dib_header :: "nat \<Rightarrow> nat \<Rightarrow> BITMAPINFOHEADER" where
  "dib_header wd ht =
     \<lparr>biSize = 40, biWidth = of_nat wd, biHeight = of_nat ht, biPlanes = 1, biBitCount = 32, biCompression = BI_RGB,
      biSizeImage = of_nat (wd * 4 * ht), biXPelsPerMeter = 0, biYPelsPerMeter = 0, biClrUsed = 0, biClrImportant = 0\<rparr>"

definition png_to_dib :: "win32 \<Rightarrow> byte list \<Rightarrow> byte list option option" where
  "png_to_dib w32 png =
     (case stbi_load w32 png (int_of_size (length png)) of
        None \<Rightarrow> None
      | Some None \<Rightarrow> Some None
      | Some (Some (wd, ht, pixels)) \<Rightarrow>
          (let row_bytes = wd * 4; dib_len = 40 + row_bytes * ht in
           if \<not> w_alloc w32 dib_len then Some None
           else if length pixels < row_bytes * ht then None
           else (let dib = map Some (bih_bytes (dib_header wd ht)) @ replicate (row_bytes * ht) None;
                     dib = fold (put_row wd ht pixels) [0..<ht] dib
                 in Some (Some (filled dib dib_len)))))"

section \<open>Texts and pictures on the clipboard\<close>

text \<open>The text ends at the first zero unit.\<close>

definition win_clipboard_get :: "win32 \<Rightarrow> clipboard \<Rightarrow> string option" where
  "win_clipboard_get w32 cb =
     (if \<not> open_ok w32 then None
      else (case cf_unicodetext cb of
              None \<Rightarrow> None
            | Some wtext \<Rightarrow>
                if \<not> lock_ok w32 then None
                else (let utf8 = wide_to_utf8 w32 (takeWhile (\<lambda>u. u \<noteq> 0) wtext) in
                      if w_alloc w32 (length utf8 + 1) then Some (cstr (str_of_bytes utf8)) else None)))"

definition win_clipboard_set :: "win32 \<Rightarrow> string \<Rightarrow> clipboard \<Rightarrow> clipboard" where
  "win_clipboard_set w32 text cb =
     (let wtext = utf8_to_wide w32 (bytes_of_str text) @ [0] in
      if \<not> w_alloc w32 (length wtext * 2) then cb
      else if open_ok w32 then EmptyClipboard\<lparr>cf_unicodetext := Some wtext\<rparr>
      else cb)"

definition win_clipboard_has_image :: "clipboard \<Rightarrow> bool" where
  "win_clipboard_has_image cb \<longleftrightarrow> cf_dib cb \<noteq> None"

text \<open>Where the pixels start in the file: behind the header, and the palette or the three masks.\<close>

definition pixel_offset :: "u32 \<Rightarrow> u16 \<Rightarrow> u32 \<Rightarrow> u32" where
  "pixel_offset bi_size bit_count compression =
     (let off = 14 + bi_size in
      if bit_count \<le> 8 then off + push_bit (unat bit_count) 1 * 4
      else if compression = BI_BITFIELDS \<and> bi_size = 40 then off + 3 * 4
      else off)"

definition win_clipboard_get_image :: "win32 \<Rightarrow> clipboard \<Rightarrow> byte list option option" where
  "win_clipboard_get_image w32 cb =
     (if \<not> open_ok w32 then Some None
      else (case cf_dib cb of
              None \<Rightarrow> Some None
            | Some dib \<Rightarrow>
                if \<not> lock_ok w32 then Some None
                else (let dib_size = of_nat (length dib) :: u32; total = 14 + dib_size in
                      if \<not> w_alloc w32 (unat total) then Some None
                      else if length dib < 20 \<or> unat total < 14 + unat dib_size then None
                      else Some (Some
                        (bfh_bytes \<lparr>bfType = 0x4D42, bfSize = total, bfReserved1 = 0, bfReserved2 = 0,
                           bfOffBits = pixel_offset (get32 dib 0) (get16 dib 14) (get32 dib 16)\<rparr> @
                         take (unat dib_size) dib)))))"

text \<open>The block is handed to the clipboard, or freed when that cannot be opened.\<close>

definition put_dib :: "win32 \<Rightarrow> byte list \<Rightarrow> clipboard \<Rightarrow> clipboard" where
  "put_dib w32 dib cb =
     (if \<not> w_alloc w32 (length dib) then cb
      else if open_ok w32 then EmptyClipboard\<lparr>cf_dib := Some dib\<rparr> else cb)"

definition png_signature :: "byte list" where "png_signature = [0x89, 0x50, 0x4E, 0x47]"

definition win_clipboard_set_image :: "win32 \<Rightarrow> byte list \<Rightarrow> clipboard \<Rightarrow> clipboard option" where
  "win_clipboard_set_image w32 d cb =
     (if length d > 4 \<and> take 4 d = png_signature then
        (case png_to_dib w32 d of
           None \<Rightarrow> None
         | Some None \<Rightarrow> Some cb
         | Some (Some converted) \<Rightarrow> Some (put_dib w32 converted cb))
      else Some (put_dib w32 (if length d > 14 \<and> take 2 d = [0x42, 0x4D] then drop 14 d else d) cb))"

section \<open>Files on the clipboard\<close>

text \<open>A \<open>DROPFILES\<close> header of 20 bytes, the wide path with its zero, and one more zero unit.\<close>

definition win_clipboard_set_file_path :: "win32 \<Rightarrow> string \<Rightarrow> clipboard \<Rightarrow> clipboard" where
  "win_clipboard_set_file_path w32 file_path cb =
     (let wpath = acp_to_wide w32 (bytes_of_str file_path) @ [0];
          drop_size = 20 + length wpath * 2 + 2
      in if \<not> w_alloc w32 drop_size then cb
         else (let hdrop = le32 20 @ replicate 12 0 @ le32 1 @ concat (map le16 wpath) @ [0, 0];
                   effect = (if w_alloc w32 4 then Some (le32 1) else None)
               in if open_ok w32 then EmptyClipboard\<lparr>cf_hdrop := Some hdrop, cf_effect := effect\<rparr> else cb))"

definition win_tmp_path :: "win32 \<Rightarrow> string \<Rightarrow> string" where
  "win_tmp_path w32 filename = fst (snprintf_c 260 (temp_dir w32 @ ''syncclip_'' @ filename))"

text \<open>The amount written is not looked at.\<close>

definition win_clipboard_set_file :: "win32 \<Rightarrow> byte list \<Rightarrow> string \<Rightarrow> world \<Rightarrow> clipboard \<Rightarrow> world \<times> clipboard" where
  "win_clipboard_set_file w32 d filename w cb =
     (let tmp = win_tmp_path w32 filename in
      case fopen_wb tmp w of
        None \<Rightarrow> (w, cb)
      | Some w \<Rightarrow> (snd (fwrite tmp d w), win_clipboard_set_file_path w32 tmp cb))"

definition win_clipboard_get_file_path :: "win32 \<Rightarrow> clipboard \<Rightarrow> string option" where
  "win_clipboard_get_file_path w32 cb =
     (case cf_hdrop cb of
        None \<Rightarrow> None
      | Some hdrop \<Rightarrow>
          if \<not> open_ok w32 then None
          else (case DragQueryFile w32 hdrop of
                  [] \<Rightarrow> None
                | p # _ \<Rightarrow> if p = [] then None else Some (take 259 p)))"

definition win_mime_from_ext :: "string \<Rightarrow> string" where
  "win_mime_from_ext filename =
     (case split_last CHR ''.'' filename of
        None \<Rightarrow> ''application/octet-stream''
      | Some (_, ext) \<Rightarrow>
          if strcaseeq ext ''png'' then ''image/png''
          else if strcaseeq ext ''jpg'' \<or> strcaseeq ext ''jpeg'' then ''image/jpeg''
          else if strcaseeq ext ''gif'' then ''image/gif''
          else if strcaseeq ext ''bmp'' then ''image/bmp''
          else if strcaseeq ext ''pdf'' then ''application/pdf''
          else if strcaseeq ext ''txt'' then ''text/plain''
          else ''application/octet-stream'')"

section \<open>The loops over the pixels\<close>

abbreviation bgra :: "byte list \<Rightarrow> nat \<Rightarrow> byte list" where
  "bgra p s \<equiv> [p ! (s + 2), p ! (s + 1), p ! s, p ! (s + 3)]"

text \<open>A picture with its rows in the opposite order and the colours of each pixel exchanged.\<close>

definition flip_row :: "nat \<Rightarrow> byte list \<Rightarrow> nat \<Rightarrow> byte list" where
  "flip_row wd p off = concat (map (\<lambda>x. bgra p (off + x * 4)) [0..<wd])"

definition flip_picture :: "nat \<Rightarrow> nat \<Rightarrow> byte list \<Rightarrow> byte list" where
  "flip_picture wd ht p = concat (map (\<lambda>y. flip_row wd p ((ht - 1 - y) * (wd * 4))) [0..<ht])"

lemma length_flip_row [simp]: "length (flip_row wd p off) = wd * 4"
  using length_concat_const [of "[0..<wd]" "\<lambda>x. bgra p (off + x * 4)" 4] by (simp add: flip_row_def)

lemma length_flip_picture [simp]: "length (flip_picture wd ht p) = ht * (wd * 4)"
  by (simp add: flip_picture_def length_concat_const)

lemma put_four:
  assumes "i = length a" and "4 \<le> length b"
  shows "(a @ b)[i + 0 := u0, i + 1 := u1, i + 2 := u2, i + 3 := u3] = a @ [u0, u1, u2, u3] @ drop 4 b"
proof -
  obtain b0 b1 b2 b3 r where "b = b0 # b1 # b2 # b3 # r"
    using assms(2) by (cases b; cases "tl b"; cases "tl (tl b)"; cases "tl (tl (tl b))") auto
  then show ?thesis using assms(1) by (simp add: list_update_append numeral_2_eq_2 numeral_3_eq_3)
qed

lemma put_pixels:
  assumes "dst + n * 4 \<le> length d"
  shows "fold (put_pixel p src dst) [0..<n] d = take dst d @ map Some (flip_row n p src) @ drop (dst + n * 4) d"
  using assms
proof (induction n)
  case (Suc n)
  have l: "dst + n * 4 = length (take dst d @ map Some (flip_row n p src))" using Suc(2) by simp
  have "fold (put_pixel p src dst) [0..<Suc n] d =
      put_pixel p src dst n ((take dst d @ map Some (flip_row n p src)) @ drop (dst + n * 4) d)"
    using Suc by simp
  also have "\<dots> = (take dst d @ map Some (flip_row n p src)) @ map Some (bgra p (src + n * 4)) @ drop 4 (drop (dst + n * 4) d)"
    unfolding put_pixel_def by (subst put_four [OF l]) (use Suc(2) in simp_all)
  finally show ?case by (simp add: flip_row_def ac_simps)
qed (simp add: flip_row_def)

lemma put_rows:
  assumes "length hdr = 40" and "n \<le> ht"
  shows "fold (put_row wd ht p) [0..<n] (map Some hdr @ replicate (wd * 4 * ht) None) =
     map Some (hdr @ concat (map (\<lambda>y. flip_row wd p ((ht - 1 - y) * (wd * 4))) [0..<n])) @ replicate (wd * 4 * (ht - n)) None"
  using assms(2)
proof (induction n)
  case (Suc n)
  let ?d = "map Some (hdr @ concat (map (\<lambda>y. flip_row wd p ((ht - 1 - y) * (wd * 4))) [0..<n]))"
  have len: "length ?d = 40 + n * (wd * 4)" using assms(1) by (simp add: length_concat_const)
  have "wd * 4 * (ht - n) = wd * 4 + wd * 4 * (ht - Suc n)" using Suc(2)
    by (metis Suc_diff_Suc Suc_le_lessD mult_Suc_right)
  then have split: "replicate (wd * 4 * (ht - n)) None = replicate (wd * 4) (None :: byte option) @ replicate (wd * 4 * (ht - Suc n)) None"
    by (simp add: replicate_add)
  have "fold (put_row wd ht p) [0..<Suc n] (map Some hdr @ replicate (wd * 4 * ht) None) =
      put_row wd ht p n (?d @ replicate (wd * 4 * (ht - n)) None)"
    using Suc by simp
  also have "\<dots> = ?d @ map Some (flip_row wd p ((ht - 1 - n) * (wd * 4))) @ replicate (wd * 4 * (ht - Suc n)) None"
    unfolding put_row_def Let_def split by (subst put_pixels) (use len in simp_all)
  finally show ?case by simp
qed simp

lemma filled_Some: "n = length xs \<Longrightarrow> filled (map Some xs) n = xs"
  by (simp add: filled_def comp_def)

lemma png_to_dib_result:
  assumes "stbi_load w32 png (int_of_size (length png)) = Some (Some (wd, ht, p))" and "length p = wd * 4 * ht"
    and "w_alloc w32 (40 + wd * 4 * ht)"
  shows "png_to_dib w32 png = Some (Some (bih_bytes (dib_header wd ht) @ flip_picture wd ht p))"
proof -
  have "fold (put_row wd ht p) [0..<ht] (map Some (bih_bytes (dib_header wd ht)) @ replicate (wd * 4 * ht) None) =
      map Some (bih_bytes (dib_header wd ht) @ flip_picture wd ht p)"
    by (subst put_rows) (simp_all add: flip_picture_def)
  moreover have "40 + wd * 4 * ht = length (bih_bytes (dib_header wd ht) @ flip_picture wd ht p)" by simp
  ultimately show ?thesis using assms filled_Some unfolding png_to_dib_def Let_def by (simp del: length_append map_append)
qed

text \<open>Flipping twice gives the picture back.\<close>

lemma nth_concat_const:
  assumes "\<And>x. x < n \<Longrightarrow> length (f x) = k" and "i < n" and "j < k"
  shows "concat (map f [0..<n]) ! (i * k + j) = f i ! j"
  using assms
proof (induction n)
  case (Suc n)
  have l: "length (concat (map f [0..<n])) = n * k"
    using Suc(2) by (subst length_concat_const [where k = k]) auto
  show ?case
  proof (cases "i < n")
    case True
    then have "i * k + k \<le> n * k" by (metis Suc_leI mult_Suc mult_le_mono1 add.commute)
    then have "i * k + j < n * k" using Suc(4) by linarith
    then show ?thesis using Suc True l by (simp add: nth_append)
  next
    case False
    then have "i = n" using Suc(3) by simp
    then show ?thesis using l by (simp add: nth_append)
  qed
qed simp

lemma nth_flip_row: "x < wd \<Longrightarrow> j < 4 \<Longrightarrow> flip_row wd p off ! (x * 4 + j) = bgra p (off + x * 4) ! j"
  unfolding flip_row_def by (rule nth_concat_const) auto

lemma nth_flip_picture:
  assumes "y < ht" and "x < wd" and "j < 4"
  shows "flip_picture wd ht p ! (y * (wd * 4) + (x * 4 + j)) = bgra p ((ht - 1 - y) * (wd * 4) + x * 4) ! j"
proof -
  have "x * 4 + j < wd * 4" using assms(2,3) by simp
  then have "flip_picture wd ht p ! (y * (wd * 4) + (x * 4 + j)) = flip_row wd p ((ht - 1 - y) * (wd * 4)) ! (x * 4 + j)"
    unfolding flip_picture_def by (intro nth_concat_const [OF _ assms(1)]) simp_all
  then show ?thesis using nth_flip_row [OF assms(2,3)] by simp
qed

lemma rows_of_picture:
  assumes "length p = n * k"
  shows "concat (map (\<lambda>i. take k (drop (i * k) p)) [0..<n]) = p"
  using assms
proof (induction n arbitrary: p)
  case (Suc n)
  have l: "length (drop k p) = n * k" using Suc(2) by simp
  have "concat (map (\<lambda>i. take k (drop (i * k) p)) [0..<Suc n]) =
      take k p @ concat (map (\<lambda>i. take k (drop (i * k) (drop k p))) [0..<n])"
    by (simp add: upt_rec [of 0 "Suc n"] map_Suc_upt [symmetric] comp_def add.commute del: upt_Suc map_Suc_upt)
  then show ?case using Suc(1) [OF l] by simp
qed simp

lemma pixel_index:
  fixes i ht k :: nat
  assumes "i < ht * (wd * 4)"
  obtains y x j where "y < ht" "x < wd" "j < 4" "i = y * (wd * 4) + (x * 4 + j)"
proof -
  define r where "r = i mod (wd * 4)"
  have k: "0 < wd * 4" using assms by (cases "wd = 0") auto
  have "i div (wd * 4) < ht" using assms by (rule less_mult_imp_div_less)
  moreover have r: "r < wd * 4" using k unfolding r_def by (rule mod_less_divisor)
  then have "r div 4 < wd" by (rule less_mult_imp_div_less)
  moreover have "r mod 4 < 4" by simp
  moreover have "i = i div (wd * 4) * (wd * 4) + (r div 4 * 4 + r mod 4)" by (simp only: div_mult_mod_eq r_def)
  ultimately show ?thesis by (rule that)
qed

lemma four_cases: "(j :: nat) < 4 \<Longrightarrow> j = 0 \<or> j = 1 \<or> j = 2 \<or> j = 3"
  by auto

lemma flip_flip:
  assumes "length p = ht * (wd * 4)"
  shows "flip_picture wd ht (flip_picture wd ht p) = p"
proof (rule nth_equalityI)
  fix i
  assume "i < length (flip_picture wd ht (flip_picture wd ht p))"
  then have "i < ht * (wd * 4)" by simp
  then obtain y x j where i: "y < ht" "x < wd" "j < 4" "i = y * (wd * 4) + (x * 4 + j)" by (rule pixel_index)
  have y: "ht - 1 - y < ht" "ht - 1 - (ht - 1 - y) = y" using i(1) by auto
  have inner: "flip_picture wd ht p ! ((ht - 1 - y) * (wd * 4) + x * 4 + m) = bgra p (y * (wd * 4) + x * 4) ! m" if "m < 4" for m
    using nth_flip_picture [OF y(1) i(2) that, of p] y(2) by (simp add: add.assoc)
  have "flip_picture wd ht (flip_picture wd ht p) ! i = bgra (flip_picture wd ht p) ((ht - 1 - y) * (wd * 4) + x * 4) ! j"
    unfolding i(4) by (rule nth_flip_picture [OF i(1-3)])
  also have "\<dots> = p ! i"
    using four_cases [OF i(3)] inner [of 0] inner [of 1] inner [of 2] inner [of 3] i(4)
    by (elim disjE) (simp_all add: ac_simps numeral_2_eq_2 numeral_3_eq_3)
  finally show "flip_picture wd ht (flip_picture wd ht p) ! i = p ! i" .
qed (use assms in simp)

section \<open>Pictures survive\<close>

text \<open>An open clipboard and no lack of memory.\<close>

definition win_ready :: "win32 \<Rightarrow> bool" where
  "win_ready w32 \<longleftrightarrow> open_ok w32 \<and> lock_ok w32 \<and> w_alloc w32 = (\<lambda>_. True)"

lemma bmp_to_png_result:
  assumes "win_ready w32" and "stbi_load w32 bmp (int_of_size (length bmp)) = Some (Some (wd, ht, p))"
    and "0 < wd" and "wd \<le> 2 ^ 24" and "0 < ht" and "ht \<le> 2 ^ 24" and "(wd * 4 + 1) * ht \<le> 2 ^ 28" and "length p = wd * 4 * ht"
  obtains png where "bmp_to_png w32 bmp = Some (Some png)" "take 8 png = png_sig" "length png \<le> 2 ^ 30"
    "\<And>w'. win_ready w' \<Longrightarrow> stbi_load w' png (int_of_size (length png)) = Some (Some (wd, ht, p))"
proof -
  obtain png where png: "stbi_write_png_to_mem (\<lambda>_. True) stbiw_defaults p (wd * 4) wd ht 4 = Some (Some png)" "take 8 png = png_sig" "length png \<le> 2 ^ 30"
    using written_picture_loads [OF assms(3-8)] .
  have loads: "stbi_load4 (\<lambda>_. True) sh png (int_of_size (length png)) = Some (Some (wd, ht, p))" for sh
    using written_picture_loads [OF assms(3-8), of sh] png(1) by (metis option.inject)
  have "png \<noteq> []" using png(2) by (auto simp: png_sig_def)
  define b0 where "b0 = \<lparr>db_data = [], db_len = 0, db_cap = 0\<rparr>"
  have "dyn_inv b0" "dyn_contents b0 = []" by (simp_all add: b0_def dyn_inv_def dyn_contents_def filled_def)
  then obtain b where b: "dynbuf_write (\<lambda>_. True) png b0 = Some b" "dyn_inv b" "dyn_contents b = png"
    using dynbuf_ok [of b0 png] by auto
  have "length (dyn_contents b) = db_len b" using b(2) by (simp add: dyn_contents_def dyn_inv_def filled_def)
  then have "db_len b \<noteq> 0" using b(3) \<open>png \<noteq> []\<close> by (metis length_0_conv)
  then have "bmp_to_png w32 bmp = Some (Some png)"
    using assms(1,2) png(1) b by (simp add: bmp_to_png_def stbi_write_png_to_func_def win_ready_def b0_def [symmetric] dyn_contents_def)
  then show ?thesis using that [of png] png(2,3) loads by (simp add: stbi_load_def win_ready_def)
qed

lemma sent_png_put:
  assumes "win_ready w32" and "take 8 png = png_sig"
    and "stbi_load w32 png (int_of_size (length png)) = Some (Some (wd, ht, p))" and "length p = wd * 4 * ht"
  shows "win_clipboard_set_image w32 png cb =
     Some (EmptyClipboard\<lparr>cf_dib := Some (bih_bytes (dib_header wd ht) @ flip_picture wd ht p)\<rparr>)"
proof -
  have "length (take 8 png) = 8" using assms(2) by (simp add: png_sig_def)
  then have "4 < length png" by simp
  moreover have "take 4 png = take 4 (take 8 png)" by simp
  then have "take 4 png = png_signature" using assms(2) by (simp add: png_sig_def png_signature_def)
  moreover have "png_to_dib w32 png = Some (Some (bih_bytes (dib_header wd ht) @ flip_picture wd ht p))"
    using assms by (intro png_to_dib_result) (simp_all add: win_ready_def)
  ultimately show ?thesis using assms(1) by (simp add: win_clipboard_set_image_def put_dib_def win_ready_def)
qed

section \<open>Bitmaps as files\<close>

lemma set_bmp:
  assumes "14 < length f" and "take 2 f = [0x42, 0x4D]" and "win_ready w32"
  shows "win_clipboard_set_image w32 f cb = Some (EmptyClipboard\<lparr>cf_dib := Some (drop 14 f)\<rparr>)"
proof -
  have "take 4 f \<noteq> png_signature"
  proof
    assume "take 4 f = png_signature"
    then have "take 2 (take 4 f) = take 2 png_signature" by simp
    then show False using assms(2) by (simp add: png_signature_def)
  qed
  then show ?thesis using assms by (simp add: win_clipboard_set_image_def put_dib_def win_ready_def)
qed

text \<open>
  The bitmap file made from the clipboard is one: it starts with \<open>BM\<close>, its size field is its
  length, the pixels are said to start behind the header and the palette or masks, and the
  clipboard's block follows unchanged; a client that puts such a file on its clipboard puts
  exactly that block there. Blocks of up to 4 GB are covered, less the 14 bytes of the header.
\<close>

theorem bitmap_file_roundtrip:
  assumes "win_ready w32" and "cf_dib cb = Some dib" and "20 \<le> length dib" and "length dib + 14 < 2 ^ 32"
  shows "\<exists>f. win_clipboard_get_image w32 cb = Some (Some f) \<and> length f = 14 + length dib \<and>
     take 2 f = [0x42, 0x4D] \<and> get32 f 2 = of_nat (length f) \<and>
     get32 f 10 = pixel_offset (get32 dib 0) (get16 dib 14) (get32 dib 16) \<and>
     win_clipboard_set_image w32 f cb' = Some (EmptyClipboard\<lparr>cf_dib := Some dib\<rparr>)"
proof -
  define off where "off = pixel_offset (get32 dib 0) (get16 dib 14) (get32 dib 16)"
  define f where "f = bfh_bytes \<lparr>bfType = 0x4D42, bfSize = 14 + of_nat (length dib), bfReserved1 = 0, bfReserved2 = 0, bfOffBits = off\<rparr> @ dib"
  have n: "unat (of_nat (length dib) :: u32) = length dib" using assms(4) by (simp add: unat_of_nat)
  have t: "unat (14 + of_nat (length dib) :: u32) = 14 + length dib"
    using assms(4) n by (subst unat_add_lem [THEN iffD1]) simp_all
  have "win_clipboard_get_image w32 cb = Some (Some f)"
    using assms n t by (simp add: win_clipboard_get_image_def win_ready_def Let_def f_def off_def)
  moreover have "take 2 f = [0x42, 0x4D]" "length f = 14 + length dib" "drop 14 f = dib"
    by (simp_all add: f_def bfh_bytes_def le16_def drop_bit_eq_div)
  moreover have "get32 f 2 = of_nat (length f)"
    unfolding f_def bfh_bytes_def using get32_le32 [of 2 "le16 0x4D42"] by simp
  moreover have "get32 f 10 = off"
    unfolding f_def bfh_bytes_def
    using get32_le32 [of 10 "le16 0x4D42 @ le32 (14 + of_nat (length dib)) @ le16 0 @ le16 0"] by simp
  moreover have "win_clipboard_set_image w32 f cb' = Some (EmptyClipboard\<lparr>cf_dib := Some dib\<rparr>)"
    using set_bmp [of f w32 cb'] calculation(2-4) assms(1,3) by (cases dib) simp_all
  ultimately show ?thesis by (intro exI [of _ f]) (simp add: off_def)
qed

section \<open>A small Windows\<close>

text \<open>Texts are their bytes as units.\<close>

definition small_windows :: win32 where
  "small_windows = \<lparr>open_ok = True, lock_ok = True, w_alloc = (\<lambda>_. True),
     wide_to_utf8 = map ucast, utf8_to_wide = map ucast, acp_to_wide = map ucast,
     DragQueryFile = (\<lambda>d. []), temp_dir = ''T:'', w_stb = blank_stb\<rparr>"

lemma small_windows_ready: "win_ready small_windows"
  by (simp add: win_ready_def small_windows_def)

theorem bitmap_file_roundtrip_witness:
  "\<exists>f. win_clipboard_get_image small_windows (EmptyClipboard\<lparr>cf_dib := Some (bih_bytes (dib_header 1 1) @ [1, 2, 3, 4])\<rparr>) = Some (Some f) \<and>
     win_clipboard_set_image small_windows f EmptyClipboard =
       Some (EmptyClipboard\<lparr>cf_dib := Some (bih_bytes (dib_header 1 1) @ [1, 2, 3, 4])\<rparr>)"
  using bitmap_file_roundtrip [OF small_windows_ready, of "EmptyClipboard\<lparr>cf_dib := Some (bih_bytes (dib_header 1 1) @ [1, 2, 3, 4])\<rparr>"
      "bih_bytes (dib_header 1 1) @ [1, 2, 3, 4]" EmptyClipboard] by auto

section \<open>Dropped files\<close>

text \<open>How a list of names in wide characters reads: names up to their zero, an empty name ends it.\<close>

fun wide_units :: "byte list \<Rightarrow> u16 list" where
  "wide_units (a # b # r) = (ucast a OR push_bit 8 (ucast b)) # wide_units r"
| "wide_units _ = []"

lemma wide_units_le16: "wide_units (concat (map le16 us) @ r) = us @ wide_units r"
  by (induction us) (simp_all add: le16_def word16_bytes)

text \<open>
  The block for a dropped file says that wide names start behind its 20 bytes, and there the
  path stands alone, ended by its zero and the zero that ends the list.
\<close>

theorem dropped_file_block:
  assumes "win_ready w32"
  shows "\<exists>h. cf_hdrop (win_clipboard_set_file_path w32 path cb) = Some h \<and> get32 h 0 = 20 \<and> get32 h 16 = 1 \<and>
     wide_units (drop 20 h) = acp_to_wide w32 (bytes_of_str path) @ [0, 0]"
proof -
  define us where "us = acp_to_wide w32 (bytes_of_str path) @ [0]"
  define h where "h = le32 20 @ replicate 12 0 @ le32 1 @ concat (map le16 us) @ [0, 0]"
  have "cf_hdrop (win_clipboard_set_file_path w32 path cb) = Some h"
    using assms by (simp add: win_clipboard_set_file_path_def win_ready_def Let_def h_def us_def)
  moreover have "get32 h 0 = 20" unfolding h_def using get32_le32 [of 0 "[]"] by simp
  moreover have "get32 h 16 = 1" unfolding h_def using get32_le32 [of 16 "le32 20 @ replicate 12 0"] by simp
  moreover have "wide_units (drop 20 h) = us @ [0]"
    by (simp add: h_def wide_units_le16)
  ultimately show ?thesis by (simp add: us_def)
qed

end
