(* ===== verification/FtSelect.thy ===== *)
theory FtSelect
  imports FtRace
begin

text \<open>
  The branches of \<open>src/common/ft/ft_addr.c\<close> and \<open>src/common/ft/ft_lan.c\<close> that are compiled for
  Windows: the adapters instead of the interfaces, and \<open>select\<close> instead of \<open>poll\<close>. What
  \<open>select\<close> reports is a round: \<open>pr_in\<close>, \<open>pr_out\<close> and \<open>pr_err\<close> are the three sets after the
  call. The clock is read as on the other platforms. The locale of the races has a third
  provider here, so what holds for the races with \<open>poll\<close> holds for these.
\<close>

section \<open>Own addresses\<close>

record adapter =
  ad_up :: bool
  ad_unicast :: "(bool \<times> u32) list"

text \<open>An address is (is it \<open>AF_INET\<close>, the address).\<close>

fun unicast_loop :: "netenv \<Rightarrow> int \<Rightarrow> (bool \<times> u32) list \<Rightarrow> string list \<Rightarrow> string list" where
  "unicast_loop env port [] addrs = addrs"
| "unicast_loop env port ((inet, a) # r) addrs =
     (if \<not> length addrs < FT_MAX_ADDRS then addrs
      else if \<not> inet then unicast_loop env port r addrs
      else if inet_ntop env a = ''127.0.0.1'' then unicast_loop env port r addrs
      else unicast_loop env port r (addrs @ [fst (snprintf_c 64 (inet_ntop env a @ '':'' @ dec_of_int port))]))"

fun adapter_loop :: "netenv \<Rightarrow> int \<Rightarrow> adapter list \<Rightarrow> string list \<Rightarrow> string list" where
  "adapter_loop env port [] addrs = addrs"
| "adapter_loop env port (a # r) addrs =
     (if \<not> length addrs < FT_MAX_ADDRS then addrs
      else if \<not> ad_up a then adapter_loop env port r addrs
      else adapter_loop env port r (unicast_loop env port (ad_unicast a) addrs))"

text \<open>
  The two calls of \<open>GetAdaptersAddresses\<close>: \<open>n\<close> is the size it asks for, the first call fails
  when that is more than the 15000 bytes offered. \<open>None\<close> for the second call is any error.
\<close>

definition ft_get_local_addresses_win ::
  "(nat \<Rightarrow> bool) \<Rightarrow> nat \<Rightarrow> adapter list option \<Rightarrow> netenv \<Rightarrow> int \<Rightarrow> string list" where
  "ft_get_local_addresses_win alloc n adapters env port =
     (if \<not> alloc 15000 then []
      else if n > 15000 \<and> \<not> alloc n then []
      else (case adapters of None \<Rightarrow> [] | Some l \<Rightarrow> adapter_loop env port l []))"

lemma unicast_loop_bound:
  "length addrs \<le> FT_MAX_ADDRS \<Longrightarrow> length (unicast_loop env port l addrs) \<le> FT_MAX_ADDRS"
  by (induction env port l addrs rule: unicast_loop.induct) auto

lemma adapter_loop_bound:
  "length addrs \<le> FT_MAX_ADDRS \<Longrightarrow> length (adapter_loop env port l addrs) \<le> FT_MAX_ADDRS"
  by (induction env port l addrs rule: adapter_loop.induct) (auto simp: unicast_loop_bound)

lemma unicast_loop_entries:
  "s \<in> set (unicast_loop env port l addrs) \<Longrightarrow>
     s \<in> set addrs \<or> (\<exists>a. (True, a) \<in> set l \<and> inet_ntop env a \<noteq> ''127.0.0.1'' \<and>
        s = fst (snprintf_c 64 (inet_ntop env a @ '':'' @ dec_of_int port)))"
  by (induction env port l addrs rule: unicast_loop.induct) (auto split: if_splits)

lemma adapter_loop_entries:
  "s \<in> set (adapter_loop env port l addrs) \<Longrightarrow>
     s \<in> set addrs \<or> (\<exists>i \<in> set l. \<exists>a. ad_up i \<and> (True, a) \<in> set (ad_unicast i) \<and> inet_ntop env a \<noteq> ''127.0.0.1'' \<and>
        s = fst (snprintf_c 64 (inet_ntop env a @ '':'' @ dec_of_int port)))"
  by (induction env port l addrs rule: adapter_loop.induct)
    (auto split: if_splits dest!: unicast_loop_entries)

lemma local_addresses_win_length:
  "length (ft_get_local_addresses_win alloc n ads env port) \<le> FT_MAX_ADDRS"
  by (auto simp: ft_get_local_addresses_win_def intro: adapter_loop_bound split: option.split)

section \<open>Accepting and connecting\<close>

definition ft_accept_win :: "int \<Rightarrow> world \<Rightarrow> int \<times> world" where
  "ft_accept_win sfd w =
     (let (p, w) = os_poll w;
          (result, w) = (if sfd \<in> set (pr_in p) then os_accept w else (FT_INVALID_SOCK, w))
      in (result, if result \<noteq> FT_INVALID_SOCK then ft_optimize_socket result w else w))"

text \<open>Unlike the loop with \<open>poll\<close> this one goes on when no candidate is left.\<close>

function connect_loop_win :: "int \<Rightarrow> int \<Rightarrow> int list \<Rightarrow> int \<Rightarrow> world \<Rightarrow> int list \<times> int \<times> world" where
  "connect_loop_win timeout_ms elapsed cs result w =
     (if elapsed < timeout_ms \<and> result = FT_INVALID_SOCK then
        (let (p, w) = os_poll w;
             (cs, result, w) = scan_conns (look_connected p) cs result w
         in connect_loop_win timeout_ms (elapsed + 50) cs result w)
      else (cs, result, w))"
  by pat_completeness auto
termination by (relation "measure (\<lambda>(t, e, _). nat (t - e))") auto

declare connect_loop_win.simps [simp del]

definition ft_connect_any_win :: "netenv \<Rightarrow> string list \<Rightarrow> int \<Rightarrow> world \<Rightarrow> int \<times> world" where
  "ft_connect_any_win env addrs timeout_ms w =
     (if addrs = [] then (FT_INVALID_SOCK, w)
      else (let (cs, w) = start_connects env addrs w;
                (cs, result, w) = connect_loop_win timeout_ms 0 cs FT_INVALID_SOCK w;
                w = close_all cs w
            in (result, if result \<noteq> FT_INVALID_SOCK
                        then ft_optimize_socket result (ft_set_blocking result w) else w)))"

lemma connect_loop_win_account:
  "connect_loop_win timeout_ms elapsed cs res w = (cs', r, w') \<Longrightarrow>
     ledger (cs' @ [r]) + mset (closed w') = ledger (cs @ [res]) + mset (closed w)"
proof (induction timeout_ms elapsed cs res w rule: connect_loop_win.induct)
  case (1 timeout_ms elapsed cs res w)
  obtain p w1 where p: "os_poll w = (p, w1)" by (cases "os_poll w")
  obtain cs1 r1 w2 where s: "scan_conns (look_connected p) cs res w1 = (cs1, r1, w2)"
    by (cases "scan_conns (look_connected p) cs res w1") auto
  have c: "closed w1 = closed w" using p by (auto simp: os_poll_def split: list.splits)
  show ?case
  proof (cases "elapsed < timeout_ms \<and> res = FT_INVALID_SOCK")
    case True
    have "connect_loop_win timeout_ms (elapsed + 50) cs1 r1 w2 = (cs', r, w')"
      using 1(2) True p s by (subst (asm) connect_loop_win.simps) auto
    then show ?thesis
      using 1(1) [OF _ p [symmetric] refl s [symmetric] refl refl] True plain.scan_account [OF s] c by auto
  next
    case False
    then have "cs' = cs \<and> r = res \<and> w' = w" using 1(2) by (subst (asm) connect_loop_win.simps) (auto split: if_splits)
    then show ?thesis by simp
  qed
qed

theorem connect_any_win_closes_losers:
  "mset (closed (snd (ft_connect_any_win env addrs timeout_ms w))) + ledger [fst (ft_connect_any_win env addrs timeout_ms w)] =
   mset (closed w) + ledger (fst (start_connects env addrs w))"
proof (cases "addrs = []")
  case False
  obtain cs w1 where s: "start_connects env addrs w = (cs, w1)" by (cases "start_connects env addrs w")
  obtain cs' r w2 where l: "connect_loop_win timeout_ms 0 cs FT_INVALID_SOCK w1 = (cs', r, w2)"
    by (cases "connect_loop_win timeout_ms 0 cs FT_INVALID_SOCK w1") auto
  have "closed w1 = closed w" using start_connects_effect [OF s] by simp
  moreover have "mset (closed (close_all cs' w2)) = mset (closed w2) + ledger cs'"
    by (simp add: close_all_effect(1) ledger_mset)
  ultimately show ?thesis
    using connect_loop_win_account [OF l] False s l
    by (cases "r = FT_INVALID_SOCK") (simp_all add: ft_connect_any_win_def Let_def ac_simps)
qed (simp add: ft_connect_any_win_def)

section \<open>The authenticated race\<close>

text \<open>A candidate in the set of exceptions is closed without a look at its pending error.\<close>

definition look_auth_win ::
  "openssl \<Rightarrow> string \<Rightarrow> string \<Rightarrow> bool \<Rightarrow> poll_round \<Rightarrow> int \<Rightarrow> world \<Rightarrow> int \<times> int \<times> world" where
  "look_auth_win ssl fid key_hex is_sender p c w =
     (if c = FT_INVALID_SOCK then (c, FT_INVALID_SOCK, w)
      else if c \<in> set (pr_err p) then (FT_INVALID_SOCK, FT_INVALID_SOCK, ft_close c w)
      else if c \<in> set (pr_out p) then
        (if c \<notin> set (pr_soerr p) then
           (let (r, w) = greet_auth ssl fid key_hex is_sender c w in (FT_INVALID_SOCK, r, w))
         else (FT_INVALID_SOCK, FT_INVALID_SOCK, ft_close c w))
      else (c, FT_INVALID_SOCK, w))"

text \<open>
  Without a key the function is \<open>ft_lan_transfer\<close>, whose round looks at the same two sets after
  \<open>select\<close> as after \<open>poll\<close>.
\<close>

definition ft_lan_transfer_auth_win ::
  "openssl \<Rightarrow> netenv \<Rightarrow> int \<Rightarrow> string list \<Rightarrow> int \<Rightarrow> int \<Rightarrow> string option \<Rightarrow> string option \<Rightarrow> bool \<Rightarrow> int \<Rightarrow>
     world \<Rightarrow> (int \<times> world) option" where
  "ft_lan_transfer_auth_win ssl env listen_fd peer_addrs ns timeout_ms fido keyo is_sender t0 w =
     (case (fido, keyo) of
        (Some fid, Some key_hex) \<Rightarrow>
          if key_hex = [] then Some (ft_lan_transfer env listen_fd peer_addrs ns timeout_ms w)
          else map_option (\<lambda>st. (lan_result st, lan_cleanup st))
                 (auth_loop (greet_auth ssl fid key_hex is_sender) (look_auth_win ssl fid key_hex is_sender)
                    listen_fd timeout_ms t0 (rounds w) (lan_start env listen_fd peer_addrs ns w))
      | _ \<Rightarrow> Some (ft_lan_transfer env listen_fd peer_addrs ns timeout_ms w))"

lemma look_auth_win_cases:
  assumes "look_auth_win ssl fid key_hex is_sender p c w = (c', r, w')"
  shows "(c' = c \<and> r = FT_INVALID_SOCK \<and> w' = w) \<or>
         (c \<noteq> FT_INVALID_SOCK \<and> c' = FT_INVALID_SOCK \<and> greet_auth ssl fid key_hex is_sender c w = (r, w')) \<or>
         (c \<noteq> FT_INVALID_SOCK \<and> c' = FT_INVALID_SOCK \<and> r = FT_INVALID_SOCK \<and> w' = ft_close c w)"
  using assms by (auto simp: look_auth_win_def split: if_splits prod.splits)

interpretation selected: candidate_race "greet_auth ssl fid key_hex is_sender" "look_auth_win ssl fid key_hex is_sender"
    "auth_proved ssl fid key_hex is_sender" for ssl fid key_hex is_sender
  by (rule auth_candidate_race) (rule look_auth_win_cases)

text \<open>
  C29. The race with \<open>select\<close> is as safe as the race with \<open>poll\<close>: whatever it returns, every other
  socket it opened, accepted or was given is closed exactly once, and with a key the connection
  that is returned has completed the handshake for this transfer on this very connection.
\<close>

theorem select_race_safe:
  assumes "ft_lan_transfer_auth_win ssl env lfd addrs ns timeout_ms (Some fid) (Some key_hex) sndr t0 w = Some (r, w')"
    and "distinct (valid_fds (new_fds w @ [ns] @ new_conns w))"
  shows "(\<exists>acc. new_conns w = acc @ new_conns w' \<and>
           mset (closed w') + ledger [r] = mset (closed w) + ledger (fst (start_connects env addrs w) @ [ns] @ acc)) \<and>
         (key_hex \<noteq> [] \<and> r \<noteq> FT_INVALID_SOCK \<longrightarrow> auth_proved ssl fid key_hex sndr r w w')"
proof (cases "key_hex = []")
  case True
  then have "ft_lan_transfer env lfd addrs ns timeout_ms w = (r, w')" using assms(1) by (simp add: ft_lan_transfer_auth_win_def)
  from plain_race_account [OF this] show ?thesis using True by simp
next
  case False
  then obtain s where s: "auth_loop (greet_auth ssl fid key_hex sndr) (look_auth_win ssl fid key_hex sndr) lfd timeout_ms t0 (rounds w)
      (lan_start env lfd addrs ns w) = Some s" "r = lan_result s" "w' = lan_cleanup s"
    using assms(1) by (auto simp: ft_lan_transfer_auth_win_def)
  show ?thesis unfolding s(2,3)
    using selected.timed_race_account [OF s(1)] selected.timed_race_proved [OF s(1) _ assms(2)] by blast
qed

theorem select_race_safe_witness:
  "\<exists>r w'. ft_lan_transfer_auth_win ref_ssl ref_env 3 [''10.0.0.2:80''] (-1) 5000 (Some ''id'') (Some ''xyz'') True 0
      (sample_race\<lparr>rounds := [no_events\<lparr>pr_now := 10, pr_err := [5]\<rparr>, no_events\<lparr>pr_now := 9000\<rparr>]\<rparr>) = Some (r, w') \<and>
     mset (closed w') + ledger [r] = {#5#}"
proof -
  let ?w = "sample_race\<lparr>rounds := [no_events\<lparr>pr_now := 10, pr_err := [5]\<rparr>, no_events\<lparr>pr_now := 9000\<rparr>]\<rparr>"
  let ?r = "ft_lan_transfer_auth_win ref_ssl ref_env 3 [''10.0.0.2:80''] (-1) 5000 (Some ''id'') (Some ''xyz'') True 0 ?w"
  have "map_option (\<lambda>x. new_conns (snd x)) ?r = Some [7]" "fst (start_connects ref_env [''10.0.0.2:80''] ?w) = [5]" by code_simp+
  then obtain r w' where r: "?r = Some (r, w')" "new_conns w' = [7]" by auto
  have "distinct (valid_fds (new_fds ?w @ [-1] @ new_conns ?w))" "new_conns ?w = [7]" "closed ?w = []"
    by (simp_all add: sample_race_def base_world_def FT_INVALID_SOCK_def)
  then show ?thesis using select_race_safe [OF r(1)] r \<open>fst _ = _\<close> by (auto simp: FT_INVALID_SOCK_def slot_def)
qed

end
