(* ===== verification/WinClient.thy ===== *)
theory WinClient
  imports WinClip FtSelect SendQueue AuthHttp Crypto FtNat FtProto FtHash Msg LinuxClient
begin

text \<open>
  The Windows client, \<open>src/windows/main.c\<close>: its globals, the WebSocket callback with the handlers
  of the messages, the handler of clipboard changes, the window procedure and the connection
  loop. The transfer threads and the system of all of them are in \<open>WinSystem\<close>.

  The conventions are those of the Linux client: a handler takes the environment of its event
  and returns the new state, \<open>None\<close> being undefined behaviour of C. A \<open>long\<close> has 32 bits on
  Windows. What the two clients share is imported from there: how a message's fields and peer
  addresses are read.
\<close>

section \<open>State\<close>

record WinTransfer =
  wt_file_id :: string
  wt_file_name :: string
  wt_mime_type :: string
  wt_file_size :: u64
  wt_checksum :: string
  wt_data :: "byte list option"
  wt_is_sender :: bool
  wt_listen_fd :: int
  wt_listen_port :: int
  wt_peer_addrs :: "string list"
  wt_peer_addr_count :: nat
  wt_peer_public_addr :: string
  wt_from_device :: string
  wt_max_relay_size :: int
  wt_udp_port :: int
  wt_eff_file_level :: int
  wt_same_lan :: bool
  wt_phase :: nat
  wt_success :: bool

definition win_zero_xfer :: WinTransfer where
  "win_zero_xfer =
     \<lparr>wt_file_id = [], wt_file_name = [], wt_mime_type = [], wt_file_size = 0, wt_checksum = [], wt_data = None,
      wt_is_sender = False, wt_listen_fd = 0, wt_listen_port = 0,
      wt_peer_addrs = replicate FT_MAX_ADDRS [], wt_peer_addr_count = 0, wt_peer_public_addr = [], wt_from_device = [],
      wt_max_relay_size = 0, wt_udp_port = 0, wt_eff_file_level = 0, wt_same_lan = False, wt_phase = 0, wt_success = False\<rparr>"

text \<open>
  \<open>wc_viewer\<close> is \<open>g_next_clipboard_viewer\<close>, 0 for none; \<open>wc_forwarded\<close> what was sent to viewers,
  \<open>wc_quit\<close> whether \<open>PostQuitMessage\<close> was called.
\<close>

datatype winmsg = WM_CHANGECBCHAIN nat nat | WM_DRAWCLIPBOARD | WM_DESTROY | WM_OTHER nat

record winclient =
  wc_config :: ClientConfig
  wc_authenticated :: bool
  wc_logged_in :: bool
  wc_connected :: bool
  wc_wsi :: bool
  wc_suppress_next :: bool
  wc_server_file_level :: int
  wc_reconnect_delay :: int
  wc_tokens :: AuthTokens
  wc_ws_subproto :: string
  wc_queue :: SendQueue
  wc_recv :: RecvBuf
  wc_last_clip_hash :: string
  wc_last_img_hash :: string
  wc_last_file_hash :: string
  wc_xfer :: WinTransfer
  wc_xfer_active_count :: int
  wc_viewer :: nat
  wc_clip :: clipboard
  wc_world :: world
  wc_sent :: "string list"
  wc_created :: "WinTransfer list"
  wc_running :: "WinTransfer list"
  wc_forwarded :: "(nat \<times> winmsg) list"
  wc_quit :: bool

text \<open>
  \<open>we_heap n\<close> is what a fresh block of \<open>n\<close> bytes holds; \<open>we_is_dir\<close> and \<open>we_open k\<close> what the file
  system says: whether a path is a directory, whether the \<open>k\<close>-th \<open>CreateFileA\<close> succeeds.
\<close>

record winenv =
  we_ssl :: openssl
  we_net :: netenv
  we_adapters :: "adapter list option"
  we_adapters_size :: nat
  we_fp :: fp
  we_win :: win32
  we_nonce :: "byte list option"
  we_uuid :: "byte list option"
  we_rand :: "nat \<Rightarrow> u32"
  we_junk :: "nat \<Rightarrow> u32"
  we_heap :: "nat \<Rightarrow> byte list"
  we_is_dir :: "string \<Rightarrow> bool"
  we_open :: "nat \<Rightarrow> bool"
  we_node_oom :: bool
  we_copy_oom :: bool

definition win_init_client :: "ClientConfig \<Rightarrow> world \<Rightarrow> clipboard \<Rightarrow> nat \<Rightarrow> winclient" where
  "win_init_client cfg w cb viewer =
     \<lparr>wc_config = cfg, wc_authenticated = False, wc_logged_in = False, wc_connected = False, wc_wsi = False,
      wc_suppress_next = False, wc_server_file_level = 3, wc_reconnect_delay = 1,
      wc_tokens = \<lparr>access_token = [], refresh_token = [], expires_in_sec = 0\<rparr>, wc_ws_subproto = [],
      wc_queue = empty_queue, wc_recv = empty_recv, wc_last_clip_hash = [], wc_last_img_hash = [], wc_last_file_hash = [],
      wc_xfer = win_zero_xfer, wc_xfer_active_count = 0, wc_viewer = viewer, wc_clip = cb, wc_world = w,
      wc_sent = [], wc_created = [], wc_running = [], wc_forwarded = [], wc_quit = False\<rparr>"

definition win_effective_file_level :: "winclient \<Rightarrow> int" where
  "win_effective_file_level c =
     (let s = wc_server_file_level c; l = file_transfer_level (wc_config c) in if s < l then s else l)"

text \<open>\<open>QueryPerformanceCounter\<close> ticks in milliseconds.\<close>

definition win_now_ms :: "int \<Rightarrow> int \<Rightarrow> int" where
  "win_now_ms quad freq = quad * 1000 div freq"

definition win_send :: "winenv \<Rightarrow> string option \<Rightarrow> winclient \<Rightarrow> winclient option" where
  "win_send e m c =
     (case m of None \<Rightarrow> None | Some s \<Rightarrow> Some (c\<lparr>wc_queue := queue_send (we_node_oom e) s (wc_queue c)\<rparr>))"

definition win_local_addresses :: "winenv \<Rightarrow> int \<Rightarrow> string list" where
  "win_local_addresses e port =
     ft_get_local_addresses_win (w_alloc (we_win e)) (we_adapters_size e) (we_adapters e) (we_net e) port"

section \<open>The current transfer\<close>

definition win_reset_xfer :: "winclient \<Rightarrow> winclient" where
  "win_reset_xfer c =
     c\<lparr>wc_world := (if wt_listen_fd (wc_xfer c) \<noteq> FT_INVALID_SOCK then ft_close (wt_listen_fd (wc_xfer c)) (wc_world c) else wc_world c),
       wc_xfer := win_zero_xfer\<lparr>wt_listen_fd := FT_INVALID_SOCK\<rparr>\<rparr>"

definition win_open_listener :: "winenv \<Rightarrow> winclient \<Rightarrow> winclient" where
  "win_open_listener e c =
     (let (fd, port, w) = ft_start_server (we_net e) (wc_world c) in
      c\<lparr>wc_world := w, wc_xfer := (wc_xfer c)\<lparr>wt_listen_fd := fd, wt_listen_port := port, wt_phase := 1\<rparr>\<rparr>)"

section \<open>Messages\<close>

text \<open>\<open>(long)d\<close> with 32 bits: what does not fit is the indefinite integer.\<close>

definition dbl_to_long32 :: "dbl \<Rightarrow> int" where
  "dbl_to_long32 d = dbl_to_int d"

definition win_on_hello_ack :: "json \<Rightarrow> winclient \<Rightarrow> winclient" where
  "win_on_hello_ack j c =
     c\<lparr>wc_server_file_level :=
         (case cJSON_GetObjectItem (Some j) ''serverFileLevel'' of None \<Rightarrow> 3 | Some ftl \<Rightarrow> dbl_to_int (cJSON_GetNumberValue (Some ftl)))\<rparr>"

definition win_on_clipboard :: "winenv \<Rightarrow> json \<Rightarrow> winclient \<Rightarrow> winclient" where
  "win_on_clipboard e j c =
     (case str_item j ''content'' of
        None \<Rightarrow> c
      | Some content \<Rightarrow>
          (case (case aes_gcm_decrypt (we_ssl e) content (aes_key (wc_config c)) of
                   Some d \<Rightarrow> Some d
                 | None \<Rightarrow> aes_decrypt (we_ssl e) (we_junk e) content (aes_key (wc_config c))) of
             None \<Rightarrow> c
           | Some dec \<Rightarrow>
               (let txt = cstr (str_of_bytes dec) in
                c\<lparr>wc_suppress_next := True, wc_last_clip_hash := ft_sha256 (we_ssl e) (bytes_of_str txt),
                  wc_clip := win_clipboard_set (we_win e) txt (wc_clip c)\<rparr>)))"

definition win_on_file_notify :: "winenv \<Rightarrow> json \<Rightarrow> winclient \<Rightarrow> winclient option" where
  "win_on_file_notify e j c =
     (if win_effective_file_level c \<le> 0 then Some c
      else (let c = win_reset_xfer c;
                fid = str_item j ''fileId'';
                x = wc_xfer c;
                x = x\<lparr>wt_file_id := copy_fld 63 fid (wt_file_id x),
                      wt_file_name := copy_fld 255 (str_item j ''fileName'') (wt_file_name x),
                      wt_mime_type := copy_fld 63 (str_item j ''mimeType'') (wt_mime_type x),
                      wt_checksum := copy_fld 64 (str_item j ''checksum'') (wt_checksum x),
                      wt_from_device := copy_fld 127 (str_item j ''from'') (wt_from_device x),
                      wt_file_size := dbl_to_u64 (num_item j ''fileSize''),
                      wt_max_relay_size := dbl_to_long32 (num_item j ''maxRelaySize''),
                      wt_udp_port := dbl_to_int (num_item j ''udpPort'')\<rparr>;
                c = win_open_listener e (c\<lparr>wc_xfer := x\<rparr>);
                addrs = win_local_addresses e (wt_listen_port (wc_xfer c))
            in win_send e (build_file_request (we_fp e) fid addrs) c))"

definition win_server_level_in :: "json \<Rightarrow> winclient \<Rightarrow> int" where
  "win_server_level_in j c =
     (case cJSON_GetObjectItem (Some j) ''fileTransferLevel'' of
        None \<Rightarrow> wc_server_file_level c | Some l \<Rightarrow> dbl_to_int (cJSON_GetNumberValue (Some l)))"

definition win_peer_info_accepted :: "json \<Rightarrow> winclient \<Rightarrow> bool" where
  "win_peer_info_accepted j c \<longleftrightarrow>
     (case str_item j ''fileId'' of None \<Rightarrow> True | Some fid \<Rightarrow> fid = wt_file_id (wc_xfer c)) \<and>
     \<not> (\<not> wt_is_sender (wc_xfer c) \<and> (wc_xfer_active_count c > 0 \<or> wt_phase (wc_xfer c) \<ge> 2))"

definition win_peer_xfer :: "json \<Rightarrow> winclient \<Rightarrow> WinTransfer" where
  "win_peer_xfer j c =
     (let x = wc_xfer c;
          x = x\<lparr>wt_peer_public_addr := copy_fld 63 (str_item j ''peerPublicAddress'') (wt_peer_public_addr x)\<rparr>;
          (n, ps) = peer_addrs_in j (wt_peer_addrs x);
          srv_level = win_server_level_in j c;
          eff = (if file_transfer_level (wc_config c) < srv_level then file_transfer_level (wc_config c) else srv_level)
      in x\<lparr>wt_peer_addr_count := n, wt_peer_addrs := ps, wt_eff_file_level := eff,
           wt_same_lan := cJSON_IsTrue (cJSON_GetObjectItem (Some j) ''sameLan''), wt_phase := 2\<rparr>)"

definition win_on_peer_info :: "winenv \<Rightarrow> json \<Rightarrow> winclient \<Rightarrow> winclient" where
  "win_on_peer_info e j c =
     (if \<not> win_peer_info_accepted j c then c
      else (let x = win_peer_xfer j c in
            if we_copy_oom e then c\<lparr>wc_xfer := x\<rparr>
            else c\<lparr>wc_xfer := (if wt_is_sender x then x else x\<lparr>wt_listen_fd := FT_INVALID_SOCK\<rparr>),
                   wc_created := wc_created c @ [x]\<rparr>))"

definition win_on_relay_request :: "winenv \<Rightarrow> json \<Rightarrow> winclient \<Rightarrow> winclient option" where
  "win_on_relay_request e j c =
     (case (wt_data (wc_xfer c), str_item j ''requesterId'') of
        (Some d, Some req_id) \<Rightarrow>
          if d = [] then Some c
          else win_send e (build_file_relay_data (we_ssl e) (we_fp e) (wt_file_id (wc_xfer c)) d (wt_file_size (wc_xfer c)) req_id) c
      | _ \<Rightarrow> Some c)"

text \<open>A received file goes to the clipboard: a picture as such, everything else as a file.\<close>

definition win_place :: "winenv \<Rightarrow> bool \<Rightarrow> byte list \<Rightarrow> string \<Rightarrow> winclient \<Rightarrow> winclient option" where
  "win_place e is_image d name c =
     (if is_image then map_option (\<lambda>cb. c\<lparr>wc_clip := cb\<rparr>) (win_clipboard_set_image (we_win e) d (wc_clip c))
      else (let (w, cb) = win_clipboard_set_file (we_win e) d name (wc_world c) (wc_clip c)
            in Some (c\<lparr>wc_world := w, wc_clip := cb\<rparr>)))"

definition win_on_relay_data :: "winenv \<Rightarrow> json \<Rightarrow> winclient \<Rightarrow> winclient option" where
  "win_on_relay_data e j c =
     (case str_item j ''data'' of
        None \<Rightarrow> Some c
      | Some b64 \<Rightarrow>
          (case ft_base64_decode (we_ssl e) b64 of
             None \<Rightarrow> Some c
           | Some dec \<Rightarrow>
               (case win_place e (case str_item j ''mimeType'' of None \<Rightarrow> False | Some mt \<Rightarrow> starts_with ''image/'' mt) dec
                       (case str_item j ''fileName'' of None \<Rightarrow> ''file'' | Some fn \<Rightarrow> fn) (c\<lparr>wc_suppress_next := True\<rparr>) of
                  None \<Rightarrow> None
                | Some c \<Rightarrow> win_send e (build_transfer_result (we_fp e) (str_item j ''fileId'') ''relay'' True 0 0) c)))"

definition win_handle_message :: "winenv \<Rightarrow> json \<Rightarrow> winclient \<Rightarrow> winclient option" where
  "win_handle_message e j c =
     (case str_item j ''type'' of
        None \<Rightarrow> Some c
      | Some type \<Rightarrow>
          if type = ''hello_ack'' then Some (win_on_hello_ack j c)
          else if type = ''auth_result'' \<or> type = ''login_result'' then Some c
          else if type = ''clipboard'' then Some (win_on_clipboard e j c)
          else if type = ''file_notify'' then win_on_file_notify e j c
          else if type = ''file_peer_info'' then Some (win_on_peer_info e j c)
          else if type = ''file_relay_request'' then win_on_relay_request e j c
          else if type = ''file_relay_data'' then win_on_relay_data e j c
          else Some c)"

section \<open>The WebSocket callback\<close>

definition win_on_established :: "winenv \<Rightarrow> winclient \<Rightarrow> winclient option" where
  "win_on_established e c =
     win_send e (sc_msg_hello (we_fp e) (Some ''windows'') (Some (device_id (wc_config c))) (Some ''2.0.0''))
       (c\<lparr>wc_connected := True, wc_authenticated := True, wc_logged_in := True, wc_reconnect_delay := 1\<rparr>)"

definition win_on_receive :: "winenv \<Rightarrow> byte list \<Rightarrow> bool \<Rightarrow> winclient \<Rightarrow> winclient option" where
  "win_on_receive e d final c =
     (case recv_fragment (w_alloc (we_win e)) d (wc_recv c) of
        None \<Rightarrow> None
      | Some (stored, b) \<Rightarrow>
          (let c = c\<lparr>wc_recv := b\<rparr> in
           if \<not> stored \<or> \<not> final then Some c
           else (case recv_finish b of
                   None \<Rightarrow> None
                 | Some (bytes, b) \<Rightarrow>
                     (let c = c\<lparr>wc_recv := b\<rparr> in
                      case cJSON_Parse (we_fp e) (Some (cstr (str_of_bytes bytes))) of
                        None \<Rightarrow> Some c
                      | Some j \<Rightarrow> win_handle_message e j c))))"

definition win_on_writeable :: "bool \<Rightarrow> winclient \<Rightarrow> winclient" where
  "win_on_writeable buf_ok c =
     (let (m, has_more, q) = queue_pop (wc_queue c) in
      c\<lparr>wc_queue := q, wc_sent := wc_sent c @ (case m of None \<Rightarrow> [] | Some s \<Rightarrow> if buf_ok then [s] else [])\<rparr>)"

definition win_on_closed :: "winclient \<Rightarrow> winclient" where
  "win_on_closed c = c\<lparr>wc_connected := False, wc_authenticated := False, wc_logged_in := False, wc_wsi := False,
     wc_recv := (wc_recv c)\<lparr>g_recv_len := 0\<rparr>\<rparr>"

section \<open>Clipboard changes\<close>

text \<open>
  The common end of the picture and the file branch. The wait of up to half a second for running
  transfers before it is left to the order of events, as in the Linux client.
\<close>

definition win_announce :: "winenv \<Rightarrow> string \<Rightarrow> string \<Rightarrow> u64 \<Rightarrow> byte list \<Rightarrow> string \<Rightarrow> winclient \<Rightarrow> winclient option" where
  "win_announce e name mime fsize d cksum c =
     (let x = (wc_xfer c)\<lparr>wt_file_name := strncpy_fld 255 name, wt_mime_type := strncpy_fld 63 mime, wt_file_size := fsize,
                wt_data := Some d, wt_checksum := cksum\<rparr>;
          c = win_open_listener e (c\<lparr>wc_xfer := x\<rparr>);
          x = wc_xfer c;
          addrs = win_local_addresses e (wt_listen_port x)
      in win_send e (build_file_offer (we_fp e) (wt_file_id x) (wt_file_name x) (wt_mime_type x) (wt_file_size x) (wt_checksum x) addrs) c)"

definition win_new_sender :: "winenv \<Rightarrow> winclient \<Rightarrow> winclient" where
  "win_new_sender e c =
     (let c = win_reset_xfer c in
      c\<lparr>wc_xfer := (wc_xfer c)\<lparr>wt_is_sender := True, wt_file_id := ft_generate_uuid (we_uuid e) (we_rand e)\<rparr>\<rparr>)"

definition win_offer_image :: "winenv \<Rightarrow> byte list \<Rightarrow> winclient \<Rightarrow> winclient option" where
  "win_offer_image e img c =
     (let img_hash = ft_sha256 (we_ssl e) img in
      if img_hash = wc_last_img_hash c then Some c
      else (let c = c\<lparr>wc_last_img_hash := img_hash\<rparr> in
            if wc_xfer_active_count c > 0 then Some c
            else (let c = win_new_sender e c in
                  case bmp_to_png (we_win e) img of
                    None \<Rightarrow> None
                  | Some None \<Rightarrow> Some c
                  | Some (Some png) \<Rightarrow>
                      win_announce e ''clipboard.png'' ''image/png'' (of_nat (length png)) png (ft_sha256 (we_ssl e) png) c)))"

definition win_base_name :: "string \<Rightarrow> string" where
  "win_base_name p =
     (case split_last (CHR 0x5C) p of
        Some (_, b) \<Rightarrow> b
      | None \<Rightarrow> (case split_last CHR ''/'' p of None \<Rightarrow> p | Some (_, b) \<Rightarrow> b))"

text \<open>
  The bytes read into the fresh block: \<open>ReadFile\<close> is asked for \<open>(DWORD)fsize\<close> of them, and the
  number read is compared with \<open>(DWORD)fsize\<close>. \<open>None\<close> is a block or a file that cannot be had.
\<close>

definition win_read_file :: "winenv \<Rightarrow> byte list \<Rightarrow> byte list option" where
  "win_read_file e content =
     (let fsize = length content; want = unat (of_nat fsize :: u32); got = take want content in
      if \<not> w_alloc (we_win e) fsize then None
      else if \<not> we_open e 1 then None
      else if length got \<noteq> want then None
      else Some (got @ drop want (we_heap e fsize)))"

definition win_offer_path :: "winenv \<Rightarrow> string \<Rightarrow> winclient \<Rightarrow> winclient option" where
  "win_offer_path e fpath c =
     (case fsys (wc_world c) fpath of
        None \<Rightarrow> Some c
      | Some content \<Rightarrow>
          if we_is_dir e fpath then Some c
          else if \<not> we_open e 0 then Some c
          else (let fsize = int (length content) in
                if fsize \<le> 0 \<or> fsize \<ge> 1024 * 1024 * max_transfer_size (wc_config c) then Some c
                else (case ft_sha256_file (we_ssl e) fpath (wc_world c) of
                        None \<Rightarrow> None
                      | Some fhash \<Rightarrow>
                          if fhash = wc_last_file_hash c then Some c
                          else (let c = c\<lparr>wc_last_file_hash := fhash\<rparr> in
                                case win_read_file e content of
                                  None \<Rightarrow> Some c
                                | Some fdata \<Rightarrow>
                                    if wc_xfer_active_count c > 0 then Some c
                                    else win_announce e (win_base_name fpath) (win_mime_from_ext (win_base_name fpath))
                                           (of_int fsize) fdata fhash (win_new_sender e c)))))"

definition win_process_text :: "winenv \<Rightarrow> winclient \<Rightarrow> winclient option" where
  "win_process_text e c =
     (case win_clipboard_get (we_win e) (wc_clip c) of
        None \<Rightarrow> Some c
      | Some clip \<Rightarrow>
          if clip = [] then Some c
          else (let hash = ft_sha256 (we_ssl e) (bytes_of_str clip) in
                if hash = wc_last_clip_hash c then Some c
                else (let c = c\<lparr>wc_last_clip_hash := hash\<rparr> in
                      case aes_gcm_encrypt (we_ssl e) (we_nonce e) (bytes_of_str clip) (aes_key (wc_config c)) of
                        None \<Rightarrow> Some c
                      | Some enc \<Rightarrow> win_send e (build_clipboard_msg (we_fp e) enc) c)))"

definition win_process_file :: "winenv \<Rightarrow> winclient \<Rightarrow> winclient option" where
  "win_process_file e c =
     (if win_effective_file_level c > 0 \<and> cf_hdrop (wc_clip c) \<noteq> None then
        (case win_clipboard_get_file_path (we_win e) (wc_clip c) of
           None \<Rightarrow> win_process_text e c
         | Some fpath \<Rightarrow> win_offer_path e fpath c)
      else win_process_text e c)"

definition win_process_change :: "winenv \<Rightarrow> winclient \<Rightarrow> winclient option" where
  "win_process_change e c =
     (if win_effective_file_level c > 0 \<and> win_clipboard_has_image (wc_clip c) then
        (case win_clipboard_get_image (we_win e) (wc_clip c) of
           None \<Rightarrow> None
         | Some None \<Rightarrow> win_process_file e c
         | Some (Some img) \<Rightarrow> if img \<noteq> [] then win_offer_image e img c else win_process_file e c)
      else win_process_file e c)"

definition win_on_clipboard_changed :: "winenv \<Rightarrow> winclient \<Rightarrow> winclient option" where
  "win_on_clipboard_changed e c =
     (if \<not> wc_logged_in c then Some c
      else if wc_suppress_next c then Some (c\<lparr>wc_suppress_next := False\<rparr>)
      else win_process_change e c)"

section \<open>The window\<close>

definition win_forward :: "winmsg \<Rightarrow> winclient \<Rightarrow> winclient" where
  "win_forward m c = (if wc_viewer c \<noteq> 0 then c\<lparr>wc_forwarded := wc_forwarded c @ [(wc_viewer c, m)]\<rparr> else c)"

fun WndProc :: "winenv \<Rightarrow> winmsg \<Rightarrow> winclient \<Rightarrow> winclient option" where
  "WndProc e (WM_CHANGECBCHAIN removed successor) c =
     Some (if removed = wc_viewer c then c\<lparr>wc_viewer := successor\<rparr> else win_forward (WM_CHANGECBCHAIN removed successor) c)"
| "WndProc e WM_DRAWCLIPBOARD c = map_option (win_forward WM_DRAWCLIPBOARD) (win_on_clipboard_changed e c)"
| "WndProc e WM_DESTROY c = Some (c\<lparr>wc_quit := True\<rparr>)"
| "WndProc e (WM_OTHER n) c = Some c"

section \<open>The connection loop\<close>

text \<open>One round of \<open>ws_thread\<close>: the seconds slept, 0 when the service call is reached.\<close>

definition win_connect_round ::
  "winenv \<Rightarrow> bool \<Rightarrow> winclient \<Rightarrow> http_net \<Rightarrow> (int \<times> winclient \<times> http_net) option" where
  "win_connect_round e connect_ok c net =
     (if \<not> wc_connected c \<and> \<not> wc_wsi c then
        (case ws_acquire_tokens (w_alloc (we_win e)) (we_fp e) (wc_config c) (wc_tokens c) net of
           None \<Rightarrow> None
         | Some (r, t, net) \<Rightarrow>
             (let c = c\<lparr>wc_tokens := t\<rparr>; d = wc_reconnect_delay c in
              if r \<noteq> 0 then Some (d, c\<lparr>wc_reconnect_delay := (if d < 60 then d * 2 else d)\<rparr>, net)
              else (let c = c\<lparr>wc_ws_subproto := snd (ws_build_bearer_protocol (access_token t) 1200)\<rparr> in
                    if connect_ok then Some (0, c\<lparr>wc_wsi := True\<rparr>, net)
                    else (let d2 = (if d < 60 then d * 2 else d) in
                          Some (d, c\<lparr>wc_reconnect_delay := (if d2 > 60 then 60 else d2)\<rparr>, net)))))
      else Some (0, c, net))"

section \<open>A small client\<close>

definition win_sample_env :: winenv where
  "win_sample_env = \<lparr>we_ssl = ref_ssl, we_net = ref_env, we_adapters = None, we_adapters_size = 0, we_fp = exact_fp,
     we_win = small_windows, we_nonce = Some (replicate 12 7), we_uuid = None, we_rand = \<lambda>_. 0, we_junk = \<lambda>_. 0,
     we_heap = (\<lambda>n. replicate n 0), we_is_dir = \<lambda>_. False, we_open = \<lambda>_. True, we_node_oom = False, we_copy_oom = False\<rparr>"

definition win_sample_client :: winclient where
  "win_sample_client = win_init_client (config_set_defaults\<lparr>aes_key := replicate 64 CHR ''a''\<rparr>) (base_world new_sock) EmptyClipboard 0"

end
