(* ===== verification/WinXfer.thy ===== *)
theory WinXfer
  imports WinClient LinuxXfer
begin

text \<open>
  The transfer threads of \<open>src/windows/main.c\<close>. A created thread starts by counting itself in
  \<open>g_xfer_active_count\<close>; the rest of its body runs as one step and ends by counting itself out.
  \<open>clk\<close> gives the readings of the clock in the order the body takes them. \<open>None\<close> is a body that
  does not return, or undefined behaviour. A received file is in memory, and so is a sent one.
\<close>

section \<open>The receiving thread\<close>

definition win_peer_list :: "WinTransfer \<Rightarrow> string list" where
  "win_peer_list st = take (wt_peer_addr_count st) (wt_peer_addrs st)"

definition win_punch_if_needed :: "winenv \<Rightarrow> WinTransfer \<Rightarrow> world \<Rightarrow> int \<times> world" where
  "win_punch_if_needed e st w =
     (if \<not> wt_same_lan st \<and> wt_peer_public_addr st \<noteq> [] \<and> wt_eff_file_level st \<ge> 2
      then ft_nat_punch_start (we_net e) (wt_peer_public_addr st) w else (FT_INVALID_SOCK, w))"

definition win_receive_on :: "winenv \<Rightarrow> (nat \<Rightarrow> int) \<Rightarrow> WinTransfer \<Rightarrow> int \<Rightarrow> winclient \<Rightarrow> (bool \<times> winclient) option" where
  "win_receive_on e clk st sock c =
     (let (r, ri, w) = ft_recv_file (we_ssl e) sock empty_info (wc_world c);
          c = c\<lparr>wc_world := w\<rparr>
      in if r = 0 then
           (case win_place e (starts_with ''image/'' (wt_mime_type st)) (case fi_data ri of None \<Rightarrow> [] | Some d \<Rightarrow> d) (wt_file_name st)
                   (c\<lparr>wc_suppress_next := True\<rparr>) of
              None \<Rightarrow> None
            | Some c \<Rightarrow>
                (case win_send e (build_transfer_result (we_fp e) (Some (wt_file_id st)) ''p2p'' True (clk 1 - clk 0) (clk 3 - clk 2)) c of
                   None \<Rightarrow> None
                 | Some c \<Rightarrow> Some (True, c\<lparr>wc_world := ft_close sock (wc_world c)\<rparr>)))
         else Some (False, c\<lparr>wc_world := ft_close sock (wc_world c)\<rparr>))"

definition win_receiver_thread :: "winenv \<Rightarrow> (nat \<Rightarrow> int) \<Rightarrow> WinTransfer \<Rightarrow> winclient \<Rightarrow> winclient option" where
  "win_receiver_thread e clk st c =
     (let (ns, w) = win_punch_if_needed e st (wc_world c) in
      case ft_lan_transfer_auth_win (we_ssl e) (we_net e) (wt_listen_fd st) (win_peer_list st) ns 5000
             (Some (wt_file_id st)) (Some (aes_key (wc_config c))) False (clk 0) w of
        None \<Rightarrow> None
      | Some (sock, w) \<Rightarrow>
          (case (if sock \<noteq> FT_INVALID_SOCK then win_receive_on e clk st sock (c\<lparr>wc_world := w\<rparr>)
                 else Some (False, c\<lparr>wc_world := w\<rparr>)) of
             None \<Rightarrow> None
           | Some (success, c) \<Rightarrow>
               (case (if \<not> success \<and> wt_eff_file_level st \<ge> 3 \<and> sint (wt_file_size st) \<le> wt_max_relay_size st
                      then win_send e (build_file_relay_request (we_fp e) (wt_file_id st)) c
                      else if \<not> success
                      then win_send e (build_transfer_result (we_fp e) (Some (wt_file_id st)) ''failed'' False (clk 4 - clk 0) 0) c
                      else Some c) of
                  None \<Rightarrow> None
                | Some c \<Rightarrow>
                    Some (if wt_listen_fd st \<noteq> FT_INVALID_SOCK
                          then c\<lparr>wc_world := ft_close (wt_listen_fd st) (wc_world c)\<rparr> else c))))"

section \<open>The sending thread\<close>

definition win_send_on :: "WinTransfer \<Rightarrow> int \<Rightarrow> world \<Rightarrow> bool \<times> world" where
  "win_send_on st sock w =
     (let (r, w) = ft_send_file sock (empty_info\<lparr>fi_file_id := strncpy_fld 63 (wt_file_id st), fi_file_size := wt_file_size st,
                     fi_data := wt_data st, fi_data_len := (case wt_data st of None \<Rightarrow> 0 | Some d \<Rightarrow> length d)\<rparr>) w
      in (r = 0, ft_close sock w))"

text \<open>The loop over the peers that connect, at most \<open>n\<close> of them; \<open>clk k\<close> is the clock at the end of round \<open>k\<close>.\<close>

fun win_sender_loop ::
  "nat \<Rightarrow> winenv \<Rightarrow> (nat \<Rightarrow> int) \<Rightarrow> string \<Rightarrow> WinTransfer \<Rightarrow> nat \<Rightarrow> nat \<Rightarrow> int \<Rightarrow> world \<Rightarrow> (nat \<times> world) option" where
  "win_sender_loop 0 e clk key st k sent_count sock w = (if sock = FT_INVALID_SOCK then Some (sent_count, w) else None)"
| "win_sender_loop (Suc n) e clk key st k sent_count sock w =
     (if sock = FT_INVALID_SOCK then Some (sent_count, w)
      else (let (send_ok, w) = win_send_on st sock w;
                sent_count = (if send_ok then Suc sent_count else sent_count)
            in if wt_listen_fd st = FT_INVALID_SOCK then Some (sent_count, w)
               else (let remaining = 5000 - c_int (clk (Suc k) - clk 0) in
                     if remaining \<le> 0 then Some (sent_count, w)
                     else (case ft_lan_transfer_auth_win (we_ssl e) (we_net e) (wt_listen_fd st) [] FT_INVALID_SOCK remaining
                                  (Some (wt_file_id st)) (Some key) True (clk (Suc k)) w of
                             None \<Rightarrow> None
                           | Some (sock, w) \<Rightarrow> win_sender_loop n e clk key st (Suc k) sent_count sock w))))"

definition win_sender_thread :: "nat \<Rightarrow> winenv \<Rightarrow> (nat \<Rightarrow> int) \<Rightarrow> WinTransfer \<Rightarrow> winclient \<Rightarrow> winclient option" where
  "win_sender_thread n e clk st c =
     (let (ns, w) = win_punch_if_needed e st (wc_world c) in
      case ft_lan_transfer_auth_win (we_ssl e) (we_net e) (wt_listen_fd st) (win_peer_list st) ns 5000
             (Some (wt_file_id st)) (Some (aes_key (wc_config c))) True (clk 0) w of
        None \<Rightarrow> None
      | Some (sock, w) \<Rightarrow>
          (case win_sender_loop n e clk (aes_key (wc_config c)) st 0 0 sock w of
             None \<Rightarrow> None
           | Some (sent_count, w) \<Rightarrow> Some (c\<lparr>wc_world := w\<rparr>)))"

section \<open>Starting and ending\<close>

definition win_thread_start :: "WinTransfer \<Rightarrow> winclient \<Rightarrow> winclient option" where
  "win_thread_start st c =
     (if st \<in> set (wc_created c)
      then Some (c\<lparr>wc_created := remove1 st (wc_created c), wc_running := wc_running c @ [st],
                   wc_xfer_active_count := wc_xfer_active_count c + 1\<rparr>) else None)"

definition win_thread_body :: "nat \<Rightarrow> winenv \<Rightarrow> (nat \<Rightarrow> int) \<Rightarrow> WinTransfer \<Rightarrow> winclient \<Rightarrow> winclient option" where
  "win_thread_body n e clk st c = (if wt_is_sender st then win_sender_thread n e clk st c else win_receiver_thread e clk st c)"

definition win_thread_finish :: "nat \<Rightarrow> winenv \<Rightarrow> (nat \<Rightarrow> int) \<Rightarrow> WinTransfer \<Rightarrow> winclient \<Rightarrow> winclient option" where
  "win_thread_finish n e clk st c =
     (if st \<in> set (wc_running c)
      then map_option (\<lambda>c. c\<lparr>wc_running := remove1 st (wc_running c), wc_xfer_active_count := wc_xfer_active_count c - 1\<rparr>)
             (win_thread_body n e clk st c)
      else None)"

end
