(* ===== verification/WinSystem.thy ===== *)
theory WinSystem
  imports WinXfer LinuxSystem
begin

text \<open>
  The Windows client as a system: the WebSocket callback, the window procedure, the connection
  loop and the transfer threads as steps on the shared state, in any order and with any
  environment in each step. The invariant of every state it can reach.
\<close>

section \<open>Steps\<close>

definition win_start_client :: "string option \<Rightarrow> world \<Rightarrow> clipboard \<Rightarrow> nat \<Rightarrow> winclient" where
  "win_start_client config_file w cb viewer =
     (let cfg = snd (config_load config_file);
          w = ft_set_max_file_size (of_int (max_transfer_size cfg) * 1024 * 1024) w
      in win_init_client cfg w cb viewer)"

text \<open>\<open>others\<close>: another program changes the clipboard.\<close>

inductive win_step :: "winclient \<Rightarrow> winclient \<Rightarrow> bool" where
  established: "win_on_established e c = Some c' \<Longrightarrow> win_step c c'"
| receive: "win_on_receive e d final c = Some c' \<Longrightarrow> win_step c c'"
| writeable: "win_step c (win_on_writeable buf_ok c)"
| closed: "win_step c (win_on_closed c)"
| window: "WndProc e m c = Some c' \<Longrightarrow> win_step c c'"
| others: "win_step c (c\<lparr>wc_clip := cb\<rparr>)"
| connecting: "win_connect_round e connect_ok c net = Some (slept, c', net') \<Longrightarrow> win_step c c'"
| thread_starts: "win_thread_start st c = Some c' \<Longrightarrow> win_step c c'"
| thread_finishes: "win_thread_finish n e clk st c = Some c' \<Longrightarrow> win_step c c'"

inductive win_reachable :: "winclient \<Rightarrow> bool" where
  start: "win_reachable (win_start_client config_file w cb viewer)"
| step: "win_reachable c \<Longrightarrow> win_step c c' \<Longrightarrow> win_reachable c'"

section \<open>The invariant\<close>

definition wt_ok :: "WinTransfer \<Rightarrow> bool" where
  "wt_ok x \<longleftrightarrow>
     length (wt_file_id x) \<le> 63 \<and> length (wt_file_name x) \<le> 255 \<and> length (wt_mime_type x) \<le> 63 \<and>
     length (wt_checksum x) \<le> 64 \<and> length (wt_peer_public_addr x) \<le> 63 \<and>
     length (wt_from_device x) \<le> 127 \<and> length (wt_peer_addrs x) = FT_MAX_ADDRS \<and> list_all (\<lambda>a. length a \<le> 63) (wt_peer_addrs x) \<and>
     wt_peer_addr_count x \<le> FT_MAX_ADDRS \<and> wt_phase x \<le> 2"

definition win_ok :: "winclient \<Rightarrow> bool" where
  "win_ok c \<longleftrightarrow>
     wt_ok (wc_xfer c) \<and> list_all wt_ok (wc_created c) \<and> list_all wt_ok (wc_running c) \<and>
     wc_xfer_active_count c = int (length (wc_running c)) \<and>
     (\<exists>ms. queue_rep (wc_queue c) ms) \<and> recv_inv (wc_recv c) \<and>
     wc_authenticated c = wc_connected c \<and> wc_logged_in c = wc_connected c \<and>
     tokens_ok (wc_tokens c) \<and> length (wc_ws_subproto c) < 1200 \<and> wc_reconnect_delay c \<in> delays \<and>
     length (wc_last_clip_hash c) \<le> 64 \<and> length (wc_last_img_hash c) \<le> 64 \<and> length (wc_last_file_hash c) \<le> 64"

lemma win_ok_frame [simp]:
  "win_ok (c\<lparr>wc_world := w\<rparr>) = win_ok c" "win_ok (c\<lparr>wc_clip := cb\<rparr>) = win_ok c"
  "win_ok (c\<lparr>wc_suppress_next := b\<rparr>) = win_ok c" "win_ok (c\<lparr>wc_server_file_level := l\<rparr>) = win_ok c"
  "win_ok (c\<lparr>wc_viewer := v\<rparr>) = win_ok c" "win_ok (c\<lparr>wc_forwarded := f\<rparr>) = win_ok c" "win_ok (c\<lparr>wc_quit := b\<rparr>) = win_ok c"
  by (simp_all add: win_ok_def)

lemma win_ok_hash:
  "win_ok c \<Longrightarrow> length h \<le> 64 \<Longrightarrow> win_ok (c\<lparr>wc_last_clip_hash := h\<rparr>)"
  "win_ok c \<Longrightarrow> length h \<le> 64 \<Longrightarrow> win_ok (c\<lparr>wc_last_img_hash := h\<rparr>)"
  "win_ok c \<Longrightarrow> length h \<le> 64 \<Longrightarrow> win_ok (c\<lparr>wc_last_file_hash := h\<rparr>)"
  by (simp_all add: win_ok_def)

lemma win_ok_xfer: "win_ok c \<Longrightarrow> wt_ok x \<Longrightarrow> win_ok (c\<lparr>wc_xfer := x\<rparr>)"
  by (simp add: win_ok_def)

lemma win_ok_recv: "win_ok c \<Longrightarrow> recv_inv b \<Longrightarrow> win_ok (c\<lparr>wc_recv := b\<rparr>)"
  by (simp add: win_ok_def)

lemma win_okD: "win_ok c \<Longrightarrow> wt_ok (wc_xfer c) \<and> recv_inv (wc_recv c)"
  by (simp add: win_ok_def)

lemma win_ok_queue: "win_ok c \<Longrightarrow> \<exists>ms. queue_rep q ms \<Longrightarrow> win_ok (c\<lparr>wc_queue := q\<rparr>)"
  by (simp add: win_ok_def)

lemma win_send_ok: "win_send e m c = Some c' \<Longrightarrow> win_ok c \<Longrightarrow> win_ok c'"
  using queue_send_ex [of "wc_queue c"]
  by (auto simp: win_send_def win_ok_def [of c] split: option.splits intro!: win_ok_queue)

lemma win_zero_ok: "wt_ok win_zero_xfer" "wt_ok (win_zero_xfer\<lparr>wt_listen_fd := fd\<rparr>)"
  by (simp_all add: wt_ok_def win_zero_xfer_def list_all_iff)

lemma win_reset_ok: "win_ok c \<Longrightarrow> win_ok (win_reset_xfer c)"
  by (simp add: win_reset_xfer_def win_ok_xfer win_zero_ok)

lemma win_listener_ok: "win_ok c \<Longrightarrow> win_ok (win_open_listener e c)"
  using win_okD [of c]
  by (auto simp: win_open_listener_def wt_ok_def Let_def intro!: win_ok_xfer split: prod.split)

section \<open>Handlers keep the invariant\<close>

lemma win_notify_ok: "win_on_file_notify e j c = Some c' \<Longrightarrow> win_ok c \<Longrightarrow> win_ok c'"
proof (cases "win_effective_file_level c \<le> 0")
  case False
  assume h: "win_on_file_notify e j c = Some c'" and c: "win_ok c"
  show ?thesis
    using h False unfolding win_on_file_notify_def Let_def
    apply simp
    apply (erule win_send_ok)
    apply (intro win_listener_ok win_ok_xfer win_reset_ok c)
    using win_okD [OF win_reset_ok [OF c]] copy_fld_length by (auto simp: wt_ok_def)
qed (simp add: win_on_file_notify_def)

lemma peer_addrs_in_ok:
  assumes "peer_addrs_in j ps = (n, ps')" and "length ps = FT_MAX_ADDRS" and "list_all (\<lambda>a. length a \<le> 63) ps"
  shows "n \<le> FT_MAX_ADDRS \<and> length ps' = FT_MAX_ADDRS \<and> list_all (\<lambda>a. length a \<le> 63) ps'"
  using assms set_peers_ok [of _ 0 ps n ps'] by (auto simp: peer_addrs_in_def split: option.splits json.splits)

lemma win_peer_xfer_ok: "wt_ok (wc_xfer c) \<Longrightarrow> wt_ok (win_peer_xfer j c)"
  using copy_fld_length peer_addrs_in_ok [of j "wt_peer_addrs (wc_xfer c)"]
  by (auto simp: win_peer_xfer_def wt_ok_def Let_def split: prod.split)

lemma win_ok_thread:
  "win_ok c \<Longrightarrow> wt_ok x \<Longrightarrow> wt_ok y \<Longrightarrow> win_ok (c\<lparr>wc_xfer := x, wc_created := wc_created c @ [y]\<rparr>)"
  by (simp add: win_ok_def)

lemma win_peer_info_ok:
  assumes "win_ok c"
  shows "win_ok (win_on_peer_info e j c)"
proof -
  have "wt_ok (win_peer_xfer j c)" using assms win_okD win_peer_xfer_ok by simp
  moreover from this have "wt_ok ((win_peer_xfer j c)\<lparr>wt_listen_fd := FT_INVALID_SOCK\<rparr>)" by (simp add: wt_ok_def)
  ultimately show ?thesis
    using assms by (simp add: win_on_peer_info_def win_ok_xfer win_ok_thread Let_def)
qed

lemma win_clipboard_ok: "win_ok c \<Longrightarrow> win_ok (win_on_clipboard e j c)"
  using win_ok_hash(1) [of "c\<lparr>wc_suppress_next := True\<rparr>"]
  by (auto simp: win_on_clipboard_def Let_def split: option.split)

lemma win_relay_request_ok: "win_on_relay_request e j c = Some c' \<Longrightarrow> win_ok c \<Longrightarrow> win_ok c'"
  by (auto simp: win_on_relay_request_def split: option.splits if_splits dest: win_send_ok)

lemma win_place_ok: "win_place e b d name c = Some c' \<Longrightarrow> win_ok c \<Longrightarrow> win_ok c'"
  by (auto simp: win_place_def win_ok_def [of "c\<lparr>wc_world := w, wc_clip := cb\<rparr>" for w cb] win_ok_def [of c] split: if_splits prod.splits)

lemma win_relay_data_ok: "win_on_relay_data e j c = Some c' \<Longrightarrow> win_ok c \<Longrightarrow> win_ok c'"
  unfolding win_on_relay_data_def
  by (auto split: option.splits dest!: win_place_ok elim!: win_send_ok)

lemma win_handle_message_ok: "win_handle_message e j c = Some c' \<Longrightarrow> win_ok c \<Longrightarrow> win_ok c'"
  by (auto simp: win_handle_message_def win_on_hello_ack_def split: option.splits if_splits
      intro: win_clipboard_ok win_peer_info_ok win_notify_ok win_relay_request_ok win_relay_data_ok)

lemma win_receive_ok:
  assumes "win_on_receive e d final c = Some c'" and "win_ok c"
  shows "win_ok c'"
proof -
  obtain stored b where f: "recv_fragment (w_alloc (we_win e)) d (wc_recv c) = Some (stored, b)"
    using assms(1) by (auto simp: win_on_receive_def split: option.splits)
  have b: "recv_inv b" using recv_fragment_keeps [OF f] win_okD [OF assms(2)] by simp
  show ?thesis
  proof (cases "\<not> stored \<or> \<not> final")
    case True
    then show ?thesis using assms f b by (auto simp: win_on_receive_def Let_def intro: win_ok_recv)
  next
    case False
    then obtain bytes b1 where g: "recv_finish b = Some (bytes, b1)"
      using assms(1) f by (auto simp: win_on_receive_def Let_def split: option.splits)
    have "win_ok (c\<lparr>wc_recv := b1\<rparr>)" using assms(2) recv_finish_keeps [OF g b] by (simp add: win_ok_recv)
    then show ?thesis
      using assms(1) f g False by (auto simp: win_on_receive_def Let_def split: option.splits elim: win_handle_message_ok)
  qed
qed

lemma win_established_ok: "win_on_established e c = Some c' \<Longrightarrow> win_ok c \<Longrightarrow> win_ok c'"
  unfolding win_on_established_def by (erule win_send_ok) (simp add: win_ok_def delays_def)

lemma win_writeable_ok: "win_ok c \<Longrightarrow> win_ok (win_on_writeable buf_ok c)"
  using queue_pop_ex [of "wc_queue c"] by (auto simp: win_on_writeable_def win_ok_def Let_def split: prod.split)

lemma win_closed_ok: "win_ok c \<Longrightarrow> win_ok (win_on_closed c)"
  by (simp add: win_on_closed_def win_ok_def recv_inv_def)

lemma win_new_sender_ok:
  assumes "win_ok c"
  shows "win_ok (win_new_sender e c)"
proof -
  have "length (ft_generate_uuid (we_uuid e) (we_rand e)) \<le> 63" using uuid_ok [of "we_uuid e" "we_rand e"] by simp
  then have "wt_ok ((wc_xfer (win_reset_xfer c))\<lparr>wt_is_sender := True, wt_file_id := ft_generate_uuid (we_uuid e) (we_rand e)\<rparr>)"
    using win_okD [OF win_reset_ok [OF assms]] by (simp add: wt_ok_def)
  then show ?thesis using win_reset_ok [OF assms] by (simp add: win_new_sender_def win_ok_xfer Let_def)
qed

lemma win_announce_ok:
  assumes "win_announce e name mime fsize d h c = Some c'" and "win_ok c" and "length h \<le> 64"
  shows "win_ok c'"
proof -
  have "wt_ok ((wc_xfer c)\<lparr>wt_file_name := strncpy_fld 255 name, wt_mime_type := strncpy_fld 63 mime, wt_file_size := fsize,
                wt_data := Some d, wt_checksum := h\<rparr>)"
    using win_okD [OF assms(2)] assms(3) by (simp add: wt_ok_def)
  then show ?thesis using assms(1,2)
    unfolding win_announce_def Let_def by (auto elim!: win_send_ok intro: win_listener_ok win_ok_xfer)
qed

lemma win_offer_image_ok: "win_offer_image e img c = Some c' \<Longrightarrow> win_ok c \<Longrightarrow> win_ok c'"
  by (auto simp: win_offer_image_def Let_def win_ok_hash split: if_splits option.splits
      elim!: win_announce_ok intro!: win_new_sender_ok)

lemma win_offer_path_ok: "win_offer_path e p c = Some c' \<Longrightarrow> win_ok c \<Longrightarrow> win_ok c'"
  by (auto simp: win_offer_path_def Let_def win_ok_hash sha_file_ok split: option.splits if_splits
      elim!: win_announce_ok intro!: win_new_sender_ok)

lemma win_process_text_ok: "win_process_text e c = Some c' \<Longrightarrow> win_ok c \<Longrightarrow> win_ok c'"
  by (auto simp: win_process_text_def Let_def win_ok_hash split: option.splits if_splits elim!: win_send_ok)

lemma win_process_file_ok: "win_process_file e c = Some c' \<Longrightarrow> win_ok c \<Longrightarrow> win_ok c'"
  by (auto simp: win_process_file_def split: option.splits if_splits dest: win_process_text_ok win_offer_path_ok)

lemma win_changed_ok: "win_on_clipboard_changed e c = Some c' \<Longrightarrow> win_ok c \<Longrightarrow> win_ok c'"
  by (auto simp: win_on_clipboard_changed_def win_process_change_def split: option.splits if_splits
      dest: win_process_file_ok win_offer_image_ok)

lemma win_forward_ok [simp]: "win_ok (win_forward m c) = win_ok c"
  by (simp add: win_forward_def)

lemma WndProc_ok: "WndProc e m c = Some c' \<Longrightarrow> win_ok c \<Longrightarrow> win_ok c'"
  by (cases m) (auto dest: win_changed_ok)

lemma win_connect_ok:
  assumes "win_connect_round e connect_ok c net = Some (slept, c', net')" and "win_ok c"
  shows "win_ok c'"
proof (cases "\<not> wc_connected c \<and> \<not> wc_wsi c")
  case True
  obtain r t net1 where a: "ws_acquire_tokens (w_alloc (we_win e)) (we_fp e) (wc_config c) (wc_tokens c) net = Some (r, t, net1)"
    using assms(1) True by (auto simp: win_connect_round_def split: option.splits)
  have d: "wc_reconnect_delay c \<in> delays" and t: "tokens_ok t"
    using assms(2) acquired_tokens_ok [OF a] by (simp_all add: win_ok_def)
  show ?thesis using assms True a t bearer_length delay_doubles [OF d]
    by (auto simp: win_connect_round_def win_ok_def Let_def split: if_splits)
qed (use assms in \<open>auto simp: win_connect_round_def\<close>)

section \<open>Threads keep the invariant\<close>

abbreviation win_same_threads :: "winclient \<Rightarrow> winclient \<Rightarrow> bool" where
  "win_same_threads c c' \<equiv> wc_running c' = wc_running c \<and> wc_xfer_active_count c' = wc_xfer_active_count c"

lemma win_send_threads: "win_send e m c = Some c' \<Longrightarrow> win_same_threads c c'"
  by (auto simp: win_send_def split: option.splits)

lemma win_place_threads: "win_place e b d name c = Some c' \<Longrightarrow> win_same_threads c c'"
  by (auto simp: win_place_def split: if_splits prod.splits)

text \<open>What a thread does before it ends.\<close>

abbreviation win_kept :: "winclient \<Rightarrow> winclient \<Rightarrow> bool" where
  "win_kept c c' \<equiv> (win_ok c \<longrightarrow> win_ok c') \<and> win_same_threads c c'"

lemma win_send_kept: "win_send e m c = Some c' \<Longrightarrow> win_kept c c'"
  using win_send_ok win_send_threads by blast

lemma win_place_kept: "win_place e b d name c = Some c' \<Longrightarrow> win_kept c c'"
  using win_place_ok win_place_threads by blast

lemma win_receive_on_kept:
  assumes "win_receive_on e clk st sock c = Some (ok, c')"
  shows "win_kept c c'"
proof -
  obtain r ri w where r: "ft_recv_file (we_ssl e) sock empty_info (wc_world c) = (r, ri, w)" by (metis prod_cases3)
  show ?thesis
  proof (cases "r = 0")
    case True
    obtain c2 c3 where c2: "win_place e (starts_with ''image/'' (wt_mime_type st)) (case fi_data ri of None \<Rightarrow> [] | Some d \<Rightarrow> d)
          (wt_file_name st) (c\<lparr>wc_world := w, wc_suppress_next := True\<rparr>) = Some c2"
      and c3: "win_send e (build_transfer_result (we_fp e) (Some (wt_file_id st)) ''p2p'' True (clk 1 - clk 0) (clk 3 - clk 2)) c2 = Some c3"
      and c': "c' = c3\<lparr>wc_world := ft_close sock (wc_world c3)\<rparr>"
      using assms r True by (auto simp: win_receive_on_def Let_def split: option.splits)
    have "win_ok (c\<lparr>wc_world := w, wc_suppress_next := True\<rparr>) = win_ok c" by (simp add: win_ok_def)
    then show ?thesis using win_place_kept [OF c2] win_send_kept [OF c3] c' by simp
  next
    case False
    then show ?thesis using assms r by (auto simp: win_receive_on_def Let_def win_ok_def)
  qed
qed

lemma win_receiver_kept:
  assumes "win_receiver_thread e clk st c = Some c'"
  shows "win_kept c c'"
proof -
  obtain ns w where p: "win_punch_if_needed e st (wc_world c) = (ns, w)" by force
  obtain sock w1 where l: "ft_lan_transfer_auth_win (we_ssl e) (we_net e) (wt_listen_fd st) (win_peer_list st) ns 5000
      (Some (wt_file_id st)) (Some (aes_key (wc_config c))) False (clk 0) w = Some (sock, w1)"
    using assms(1) p by (auto simp: win_receiver_thread_def split: option.splits)
  obtain ok c1 where c1: "(if sock \<noteq> FT_INVALID_SOCK then win_receive_on e clk st sock (c\<lparr>wc_world := w1\<rparr>)
      else Some (False, c\<lparr>wc_world := w1\<rparr>)) = Some (ok, c1)"
    using assms(1) p l by (auto simp: win_receiver_thread_def split: option.splits)
  have "win_kept c c1" using c1 win_receive_on_kept [of e clk st sock "c\<lparr>wc_world := w1\<rparr>" ok c1] by (auto split: if_splits)
  then show ?thesis using assms(1) p l c1
    by (auto simp: win_receiver_thread_def split: option.splits if_splits dest!: win_send_kept)
qed

lemma win_body_kept: "win_thread_body n e clk st c = Some c' \<Longrightarrow> win_kept c c'"
  by (cases "wt_is_sender st")
    (auto simp: win_thread_body_def win_sender_thread_def split: option.splits prod.splits dest: win_receiver_kept)

lemma win_thread_start_ok: "win_thread_start st c = Some c' \<Longrightarrow> win_ok c \<Longrightarrow> win_ok c'"
  by (auto simp: win_thread_start_def win_ok_def list_all_iff split: if_splits dest: notin_set_remove1)

lemma win_thread_finish_ok:
  assumes "win_thread_finish n e clk st c = Some c'" and "win_ok c"
  shows "win_ok c'"
proof -
  obtain c1 where c1: "win_thread_body n e clk st c = Some c1" "st \<in> set (wc_running c)"
    "c' = c1\<lparr>wc_running := remove1 st (wc_running c1), wc_xfer_active_count := wc_xfer_active_count c1 - 1\<rparr>"
    using assms(1) by (auto simp: win_thread_finish_def split: if_splits)
  have "win_ok c1" "st \<in> set (wc_running c1)" using win_body_kept [OF c1(1)] assms(2) c1(2) by auto
  moreover from this(2) have "int (length (remove1 st (wc_running c1))) = int (length (wc_running c1)) - 1"
    by (rule length_remove1_int)
  ultimately show ?thesis unfolding c1(3) win_ok_def by (auto simp: list_all_iff dest: notin_set_remove1)
qed

section \<open>Every reachable state\<close>

lemma win_start_ok: "win_ok (win_start_client f w cb v)"
  by (auto simp: win_start_client_def win_init_client_def win_ok_def win_zero_ok empty_recv_inv tokens_ok_def delays_def
      Let_def intro: empty_queue_rep)

lemma win_step_ok: "win_step c c' \<Longrightarrow> win_ok c \<Longrightarrow> win_ok c'"
  by (induction rule: win_step.induct)
    (auto intro: win_established_ok win_receive_ok win_writeable_ok win_closed_ok WndProc_ok win_connect_ok
      win_thread_start_ok win_thread_finish_ok)

text \<open>
  C11. Whatever happens to the Windows client, in whatever order, its state stays well-formed: every
  string is within its C array, the peer addresses within theirs, the send queue is an intact
  list, the receive buffer within its block, the three connection flags agree, the bearer fits,
  the reconnect delay is one of 1 to 64 seconds, and \<open>g_xfer_active_count\<close> is exactly the number
  of running transfer threads.
\<close>

theorem win_client_invariant:
  assumes "win_reachable c"
  shows "win_ok c"
  using assms by (induction rule: win_reachable.induct) (auto intro: win_start_ok win_step_ok)

theorem win_client_invariant_witness:
  "win_ok (win_on_closed (win_start_client None (base_world new_sock) EmptyClipboard 0))"
proof (rule win_client_invariant)
  show "win_reachable (win_on_closed (win_start_client None (base_world new_sock) EmptyClipboard 0))"
    by (rule win_reachable.step [OF win_reachable.start win_step.closed])
qed

end
