(* ===== verification/WinProps.thy ===== *)
theory WinProps
  imports LinuxProps WinSystem
begin

text \<open>
  Properties of the Windows client, and of the two clients together: texts travel between
  them, they follow the same protocol, what a copied file of any size becomes, and what the
  handlers do in the cases that go wrong.
\<close>

section \<open>Texts between Linux and Windows\<close>

text \<open>
  A common key and documented libraries on both sides; the conversions of Windows lose nothing
  of this text, which they do not for text in UTF-8.
\<close>

definition clients_match :: "env \<Rightarrow> client \<Rightarrow> winenv \<Rightarrow> winclient \<Rightarrow> bool" where
  "clients_match e a w b \<longleftrightarrow>
     can_talk e a a \<and> we_ssl w = e_ssl e \<and> we_fp w = e_fp e \<and> \<not> we_node_oom w \<and>
     aes_key (wc_config b) = aes_key (g_config a) \<and> win_ready (we_win w)"

definition utf8_text :: "win32 \<Rightarrow> string \<Rightarrow> bool" where
  "utf8_text w32 txt \<longleftrightarrow> nul \<notin> set txt \<and> 0 \<notin> set (utf8_to_wide w32 (bytes_of_str txt)) \<and>
     wide_to_utf8 w32 (utf8_to_wide w32 (bytes_of_str txt)) = bytes_of_str txt"

lemma win_text_read_back:
  assumes "win_ready w32" and "utf8_text w32 txt"
  shows "win_clipboard_get w32 (win_clipboard_set w32 txt cb) = Some txt"
proof -
  have "takeWhile (\<lambda>u. u \<noteq> 0) (utf8_to_wide w32 (bytes_of_str txt) @ [0]) = utf8_to_wide w32 (bytes_of_str txt)"
    using assms(2) by (subst takeWhile_append2) (auto simp: utf8_text_def)
  then show ?thesis using assms cstr_id [of "txt"]
    by (simp add: win_clipboard_get_def win_clipboard_set_def win_ready_def utf8_text_def Let_def)
qed

lemma win_set_text:
  "win_ready w32 \<Longrightarrow> cf_dib (win_clipboard_set w32 txt cb) = None \<and> cf_hdrop (win_clipboard_set w32 txt cb) = None"
  by (simp add: win_clipboard_set_def win_ready_def EmptyClipboard_def Let_def)

text \<open>A clipboard with a text and nothing else is looked at as a text.\<close>

lemma text_only_change:
  "cf_dib (wc_clip c) = None \<Longrightarrow> cf_hdrop (wc_clip c) = None \<Longrightarrow> win_process_change w c = win_process_text w c"
  by (simp add: win_process_change_def win_process_file_def win_clipboard_has_image_def)

lemma win_text_received:
  assumes "win_ready (we_win w)" and "utf8_text (we_win w) txt"
    and "aes_gcm_decrypt (we_ssl w) enc (aes_key (wc_config b)) = Some (bytes_of_str txt)"
  defines "b' \<equiv> b\<lparr>wc_suppress_next := True, wc_last_clip_hash := ft_sha256 (we_ssl w) (bytes_of_str txt),
    wc_clip := win_clipboard_set (we_win w) txt (wc_clip b)\<rparr>"
  shows "win_handle_message w (JObject [(''type'', JString ''clipboard''), (''content'', JString enc)]) b = Some b'"
    and "win_clipboard_get (we_win w) (wc_clip b') = Some txt"
    and "win_process_change w (b'\<lparr>wc_suppress_next := s\<rparr>) = Some (b'\<lparr>wc_suppress_next := s\<rparr>)"
proof -
  have "cstr txt = txt" using assms(2) by (simp add: cstr_id utf8_text_def)
  then show "win_handle_message w (JObject [(''type'', JString ''clipboard''), (''content'', JString enc)]) b = Some b'"
    using assms(3) by (simp add: win_handle_message_def clipboard_items win_on_clipboard_def b'_def Let_def)
  show get: "win_clipboard_get (we_win w) (wc_clip b') = Some txt"
    using win_text_read_back [OF assms(1,2)] by (simp add: b'_def)
  have "win_process_text w (b'\<lparr>wc_suppress_next := s\<rparr>) = Some (b'\<lparr>wc_suppress_next := s\<rparr>)"
    using win_text_read_back [OF assms(1,2)] by (simp add: win_process_text_def b'_def Let_def)
  moreover have "cf_dib (wc_clip b') = None" "cf_hdrop (wc_clip b') = None" using win_set_text [OF assms(1)] by (simp_all add: b'_def)
  ultimately show "win_process_change w (b'\<lparr>wc_suppress_next := s\<rparr>) = Some (b'\<lparr>wc_suppress_next := s\<rparr>)"
    using text_only_change [of "b'\<lparr>wc_suppress_next := s\<rparr>" w] by simp
qed

text \<open>
  C26. From Linux to Windows: a new text on the clipboard of a Linux client is queued as a message;
  the Windows client that gets it has exactly this text on its clipboard. The notification of
  its own change is swallowed, and every later look at the clipboard finds the text known:
  nothing is sent back.
\<close>

theorem text_linux_to_windows:
  assumes "clients_match e a w b" and "utf8_text (we_win w) txt" and "wc_logged_in b"
    and "e_nonce e = Some nonce" and "length nonce = 12" and "length txt + 29 < 2 ^ 30"
    and "g_last_clip_hash a \<noteq> ft_sha256 (e_ssl e) (bytes_of_str txt)"
  shows "\<exists>a' s j b' b''. process_text e txt a = Some a' \<and> cl_queue a' = queue_send False s (cl_queue a) \<and>
     cJSON_Parse (we_fp w) (Some s) = Some j \<and> win_handle_message w j b = Some b' \<and>
     win_clipboard_get (we_win w) (wc_clip b') = Some txt \<and>
     win_on_clipboard_changed w b' = Some b'' \<and> wc_queue b'' = wc_queue b \<and>
     win_on_clipboard_changed w b'' = Some b''"
proof -
  have m: "can_talk e a a" "we_ssl w = e_ssl e" "we_fp w = e_fp e" "aes_key (wc_config b) = aes_key (g_config a)" "win_ready (we_win w)"
    using assms(1) by (simp_all add: clients_match_def)
  obtain enc s where s: "process_text e txt a = Some (a\<lparr>g_last_clip_hash := ft_sha256 (e_ssl e) (bytes_of_str txt),
      cl_queue := queue_send False s (cl_queue a)\<rparr>)"
    "cJSON_Parse (e_fp e) (Some s) = Some (JObject [(''type'', JString ''clipboard''), (''content'', JString enc)])"
    "aes_gcm_decrypt (e_ssl e) enc (aes_key (g_config a)) = Some (bytes_of_str txt)"
    using text_sent [OF m(1) assms(4-7)] by metis
  define b' where "b' = b\<lparr>wc_suppress_next := True, wc_last_clip_hash := ft_sha256 (we_ssl w) (bytes_of_str txt),
    wc_clip := win_clipboard_set (we_win w) txt (wc_clip b)\<rparr>"
  have r: "win_handle_message w (JObject [(''type'', JString ''clipboard''), (''content'', JString enc)]) b = Some b'"
    "win_clipboard_get (we_win w) (wc_clip b') = Some txt"
    "win_process_change w (b'\<lparr>wc_suppress_next := False\<rparr>) = Some (b'\<lparr>wc_suppress_next := False\<rparr>)"
    using win_text_received [OF m(5) assms(2), of enc b] s(3) m(2,4) by (simp_all add: b'_def)
  have "wc_logged_in b'" "wc_suppress_next b'" "wc_queue b' = wc_queue b" using assms(3) by (simp_all add: b'_def)
  then have "win_on_clipboard_changed w b' = Some (b'\<lparr>wc_suppress_next := False\<rparr>)"
    "win_on_clipboard_changed w (b'\<lparr>wc_suppress_next := False\<rparr>) = Some (b'\<lparr>wc_suppress_next := False\<rparr>)"
    "wc_queue (b'\<lparr>wc_suppress_next := False\<rparr>) = wc_queue b"
    using r(3) by (simp_all add: win_on_clipboard_changed_def)
  then show ?thesis using s(1,2) r(1,2) m(3)
    by (intro exI [of _ "a\<lparr>g_last_clip_hash := ft_sha256 (e_ssl e) (bytes_of_str txt), cl_queue := queue_send False s (cl_queue a)\<rparr>"]
        exI [of _ s] exI [of _ "JObject [(''type'', JString ''clipboard''), (''content'', JString enc)]"] exI [of _ b']
        exI [of _ "b'\<lparr>wc_suppress_next := False\<rparr>"]) simp
qed

lemma win_text_sent:
  assumes "clients_match e a w b" and "we_nonce w = Some nonce" and "length nonce = 12" and "length txt + 29 < 2 ^ 30"
    and "win_clipboard_get (we_win w) (wc_clip b) = Some txt" and "txt \<noteq> []"
    and "wc_last_clip_hash b \<noteq> ft_sha256 (we_ssl w) (bytes_of_str txt)"
  obtains enc s where "win_process_text w b = Some (b\<lparr>wc_last_clip_hash := ft_sha256 (we_ssl w) (bytes_of_str txt),
      wc_queue := queue_send False s (wc_queue b)\<rparr>)"
    "cJSON_Parse (e_fp e) (Some s) = Some (JObject [(''type'', JString ''clipboard''), (''content'', JString enc)])"
    "aes_gcm_decrypt (e_ssl e) enc (aes_key (g_config a)) = Some (bytes_of_str txt)"
proof -
  have t: "b64_documented (e_ssl e)" "gcm_documented (e_ssl e)" "mem_ok (e_ssl e)" "fp_documented (e_fp e)"
    "length (aes_key (g_config a)) = 64" "\<forall>c \<in> set (aes_key (g_config a)). isxdigit c"
    and m: "we_ssl w = e_ssl e" "we_fp w = e_fp e" "aes_key (wc_config b) = aes_key (g_config a)" "\<not> we_node_oom w"
    using assms(1) by (auto simp: clients_match_def can_talk_def list_all_iff)
  obtain enc where enc: "aes_gcm_encrypt (e_ssl e) (Some nonce) (bytes_of_str txt) (aes_key (g_config a)) = Some enc"
    "aes_gcm_decrypt (e_ssl e) enc (aes_key (g_config a)) = Some (bytes_of_str txt)" "nul \<notin> set enc"
    using gcm_inverse [OF t(1-3,5,6) assms(3), of "bytes_of_str txt"] assms(4) by auto
  obtain s where s: "build_clipboard_msg (e_fp e) enc = Some s"
    "cJSON_Parse (e_fp e) (Some s) = Some (JObject [(''type'', JString ''clipboard''), (''content'', JString enc)])"
    using clipboard_read_back [OF t(4) enc(3)] by blast
  show ?thesis
    using assms(2,5-7) enc s m by (intro that [of s enc]) (auto simp: win_process_text_def win_send_def Let_def)
qed

text \<open>
  C27. From Windows to Linux: when the window is told that the clipboard holds a new text, this text
  is queued as a message, and the Linux client that gets the message puts exactly this text on
  its clipboard and does not send it back.
\<close>

theorem text_windows_to_linux:
  assumes "clients_match e a w b" and "wc_logged_in b" and "\<not> wc_suppress_next b"
    and "cf_dib (wc_clip b) = None" and "cf_hdrop (wc_clip b) = None"
    and "win_clipboard_get (we_win w) (wc_clip b) = Some txt" and "txt \<noteq> []" and "nul \<notin> set txt"
    and "we_nonce w = Some nonce" and "length nonce = 12" and "length txt + 29 < 2 ^ 30"
    and "wc_last_clip_hash b \<noteq> ft_sha256 (we_ssl w) (bytes_of_str txt)"
  shows "\<exists>b' s j a'. WndProc w WM_DRAWCLIPBOARD b = Some b' \<and> wc_queue b' = queue_send False s (wc_queue b) \<and>
     cJSON_Parse (e_fp e) (Some s) = Some j \<and> handle_message e now j a = Some a' \<and>
     cl_shell a' = co_set_text (g_clip_ops a) (e_desk e) txt (cl_shell a) \<and> process_text e txt a' = Some a'"
proof -
  obtain enc s where s: "win_process_text w b = Some (b\<lparr>wc_last_clip_hash := ft_sha256 (we_ssl w) (bytes_of_str txt),
      wc_queue := queue_send False s (wc_queue b)\<rparr>)"
    "cJSON_Parse (e_fp e) (Some s) = Some (JObject [(''type'', JString ''clipboard''), (''content'', JString enc)])"
    "aes_gcm_decrypt (e_ssl e) enc (aes_key (g_config a)) = Some (bytes_of_str txt)"
    using win_text_sent [OF assms(1,9-11,6,7,12)] .
  define a' where "a' = a\<lparr>g_last_clip_hash := ft_sha256 (e_ssl e) (bytes_of_str txt), g_suppress_until_ms := now + 2000,
    cl_shell := co_set_text (g_clip_ops a) (e_desk e) txt (cl_shell a)\<rparr>"
  have "handle_message e now (JObject [(''type'', JString ''clipboard''), (''content'', JString enc)]) a = Some a'"
    using s(3) cstr_id [OF assms(8)]
    by (simp add: handle_message_def clipboard_items on_clipboard_def suppress_clipboard_ms_def a'_def Let_def)
  moreover have "process_text e txt a' = Some a'" "cl_shell a' = co_set_text (g_clip_ops a) (e_desk e) txt (cl_shell a)"
    by (simp_all add: process_text_def a'_def)
  moreover have "\<exists>b'. WndProc w WM_DRAWCLIPBOARD b = Some b' \<and> wc_queue b' = queue_send False s (wc_queue b)"
    using s(1) assms(2-5) text_only_change [of b w] by (simp add: win_on_clipboard_changed_def win_forward_def)
  ultimately show ?thesis using s(2) by blast
qed

lemma sample_match: "clients_match sample_env sample_client win_sample_env win_sample_client"
  using sample_talk small_windows_ready
  by (simp add: clients_match_def win_sample_env_def win_sample_client_def win_init_client_def)
    (simp add: sample_env_def sample_client_def init_client_def)

lemma sample_utf8: "utf8_text small_windows ''hi''"
  by (simp add: utf8_text_def small_windows_def bytes_of_str_def nul_def of_char_byte)

theorem text_linux_to_windows_witness:
  "\<exists>a' j b' b''. process_text sample_env ''hi'' sample_client = Some a' \<and>
     win_handle_message win_sample_env j (win_sample_client\<lparr>wc_logged_in := True\<rparr>) = Some b' \<and>
     win_clipboard_get small_windows (wc_clip b') = Some ''hi'' \<and> win_on_clipboard_changed win_sample_env b' = Some b'' \<and>
     win_on_clipboard_changed win_sample_env b'' = Some b''"
proof -
  have m: "clients_match sample_env sample_client win_sample_env (win_sample_client\<lparr>wc_logged_in := True\<rparr>)"
    using sample_match by (simp add: clients_match_def)
  have u: "utf8_text (we_win win_sample_env) ''hi''" and w: "we_win win_sample_env = small_windows"
    using sample_utf8 by (simp_all add: win_sample_env_def)
  have n: "e_nonce sample_env = Some (replicate 12 7)" by (simp add: sample_env_def)
  have h: "g_last_clip_hash sample_client \<noteq> ft_sha256 (e_ssl sample_env) (bytes_of_str ''hi'')"
    using ref_sha_nonempty [symmetric] by (simp add: sample_client_def init_client_def sample_env_def)
  show ?thesis using text_linux_to_windows [OF m u _ n _ _ h] w by auto
qed

theorem text_windows_to_linux_witness:
  "\<exists>b' s j a'. WndProc win_sample_env WM_DRAWCLIPBOARD
       (win_sample_client\<lparr>wc_logged_in := True, wc_clip := win_clipboard_set small_windows ''hi'' EmptyClipboard\<rparr>) = Some b' \<and>
     cJSON_Parse exact_fp (Some s) = Some j \<and> handle_message sample_env 10 j sample_client = Some a' \<and>
     cl_shell a' = xclip_clipboard_set_text quiet_desktop ''hi'' [] \<and> process_text sample_env ''hi'' a' = Some a'"
proof -
  let ?b = "win_sample_client\<lparr>wc_logged_in := True, wc_clip := win_clipboard_set small_windows ''hi'' EmptyClipboard\<rparr>"
  have m: "clients_match sample_env sample_client win_sample_env ?b" using sample_match by (simp add: clients_match_def)
  have w: "we_win win_sample_env = small_windows" "we_nonce win_sample_env = Some (replicate 12 7)" "we_ssl win_sample_env = ref_ssl"
    "e_fp sample_env = exact_fp" "co_set_text (g_clip_ops sample_client) (e_desk sample_env) = xclip_clipboard_set_text quiet_desktop"
    "cl_shell sample_client = []"
    by (simp_all add: win_sample_env_def sample_env_def sample_client_def init_client_def xclip_ops_def)
  have c: "cf_dib (wc_clip ?b) = None" "cf_hdrop (wc_clip ?b) = None" "\<not> wc_suppress_next ?b"
    "win_clipboard_get (we_win win_sample_env) (wc_clip ?b) = Some ''hi''" "nul \<notin> set ''hi''"
    using win_set_text [OF small_windows_ready] win_text_read_back [OF small_windows_ready sample_utf8] w(1)
    by (simp_all add: win_sample_client_def win_init_client_def nul_def)
  have h: "wc_last_clip_hash ?b \<noteq> ft_sha256 (we_ssl win_sample_env) (bytes_of_str ''hi'')"
    using ref_sha_nonempty [symmetric] w(3) by (simp add: win_sample_client_def win_init_client_def)
  show ?thesis using text_windows_to_linux [OF m _ c(3,1,2,4) _ c(5) w(2) _ _ h, of 10] w by auto
qed

section \<open>Both clients follow the same protocol\<close>

text \<open>The record of a Windows transfer as the Linux client has it, without a source path.\<close>

definition as_linux :: "WinTransfer \<Rightarrow> TransferState" where
  "as_linux x =
     \<lparr>ts_file_id = wt_file_id x, ts_file_name = wt_file_name x, ts_mime_type = wt_mime_type x, ts_file_size = wt_file_size x,
      ts_checksum = wt_checksum x, ts_data = wt_data x, ts_source_path = [], ts_is_sender = wt_is_sender x,
      ts_listen_fd = wt_listen_fd x, ts_listen_port = wt_listen_port x, ts_peer_addrs = wt_peer_addrs x,
      ts_peer_addr_count = wt_peer_addr_count x, ts_peer_public_addr = wt_peer_public_addr x, ts_from_device = wt_from_device x,
      ts_max_relay_size = wt_max_relay_size x, ts_udp_port = wt_udp_port x, ts_phase = wt_phase x, ts_success = wt_success x,
      ts_eff_file_level = wt_eff_file_level x, ts_same_lan = wt_same_lan x\<rparr>"

text \<open>What the protocol sees of a client: everything but its clipboard and what it ignores there.\<close>

definition same_protocol_state :: "winclient \<Rightarrow> client \<Rightarrow> bool" where
  "same_protocol_state b a \<longleftrightarrow>
     wc_config b = g_config a \<and> wc_authenticated b = g_authenticated a \<and> wc_logged_in b = g_logged_in a \<and>
     wc_connected b = g_connected a \<and> wc_wsi b = g_wsi a \<and> wc_server_file_level b = g_server_file_level a \<and>
     wc_queue b = cl_queue a \<and> wc_recv b = cl_recv a \<and> wc_last_clip_hash b = g_last_clip_hash a \<and>
     wc_tokens b = g_tokens a \<and> wc_ws_subproto b = g_ws_subproto a \<and> wc_reconnect_delay b = g_reconnect_delay a \<and>
     as_linux (wc_xfer b) = g_xfer a \<and> wc_xfer_active_count b = g_xfer_active_count a \<and> wc_world b = cl_world a \<and>
     wc_sent b = cl_sent a \<and> map as_linux (wc_created b) = cl_created a \<and> map as_linux (wc_running b) = cl_running a"

text \<open>The same libraries and the same answers of the host to both.\<close>

definition same_surroundings :: "winenv \<Rightarrow> env \<Rightarrow> bool" where
  "same_surroundings w e \<longleftrightarrow>
     we_ssl w = e_ssl e \<and> we_net w = e_net e \<and> we_fp w = e_fp e \<and> we_junk w = e_junk e \<and> we_node_oom w = e_node_oom e \<and>
     we_copy_oom w = e_copy_oom e \<and> w_alloc (we_win w) = alloc_ok (e_desk e) \<and>
     win_local_addresses w = ft_get_local_addresses (e_net e)"

lemma as_linux_simps [simp]:
  "ts_is_sender (as_linux x) = wt_is_sender x" "ts_phase (as_linux x) = wt_phase x" "ts_file_id (as_linux x) = wt_file_id x"
  "ts_data (as_linux x) = wt_data x" "ts_file_size (as_linux x) = wt_file_size x" "ts_listen_fd (as_linux x) = wt_listen_fd x"
  "ts_listen_port (as_linux x) = wt_listen_port x" "ts_peer_addrs (as_linux x) = wt_peer_addrs x"
  "ts_peer_public_addr (as_linux x) = wt_peer_public_addr x"
  "(as_linux x)\<lparr>ts_listen_fd := fd\<rparr> = as_linux (x\<lparr>wt_listen_fd := fd\<rparr>)"
  "(as_linux x)\<lparr>ts_listen_port := n\<rparr> = as_linux (x\<lparr>wt_listen_port := n\<rparr>)"
  "(as_linux x)\<lparr>ts_phase := m\<rparr> = as_linux (x\<lparr>wt_phase := m\<rparr>)"
  "as_linux win_zero_xfer = zero_xfer"
  by (simp_all add: as_linux_def zero_xfer_def win_zero_xfer_def)

lemma same_send:
  assumes "same_protocol_state b a" and "we_node_oom w = e_node_oom e"
  shows "rel_option same_protocol_state (win_send w m b) (send_msg e m a)"
  using assms by (auto simp: win_send_def send_msg_def same_protocol_state_def split: option.split)

lemma same_fields:
  assumes "same_protocol_state b a"
  shows "g_config a = wc_config b" "g_server_file_level a = wc_server_file_level b" "g_xfer a = as_linux (wc_xfer b)"
    "g_xfer_active_count a = wc_xfer_active_count b" "cl_created a = map as_linux (wc_created b)" "cl_recv a = wc_recv b"
    "cl_world a = wc_world b"
  using assms by (simp_all add: same_protocol_state_def)

lemma same_world_xfer:
  "same_protocol_state b a \<Longrightarrow> as_linux x = y \<Longrightarrow> same_protocol_state (b\<lparr>wc_world := v, wc_xfer := x\<rparr>) (a\<lparr>cl_world := v, g_xfer := y\<rparr>)"
  by (simp add: same_protocol_state_def)

lemma same_reset:
  assumes "same_protocol_state b a"
  shows "same_protocol_state (win_reset_xfer b) (reset_xfer a)"
  unfolding win_reset_xfer_def reset_xfer_def same_fields(3,7) [OF assms] as_linux_simps
  by (rule same_world_xfer [OF assms]) (simp add: as_linux_def zero_xfer_def win_zero_xfer_def)

lemma same_listener:
  assumes "same_protocol_state b a" and "we_net w = e_net e"
  shows "same_protocol_state (win_open_listener w b) (open_listener e a)"
proof -
  obtain fd port v where "ft_start_server (e_net e) (wc_world b) = (fd, port, v)" by (metis prod_cases3)
  then show ?thesis unfolding win_open_listener_def open_listener_def same_fields(3,7) [OF assms(1)] assms(2)
    by (simp add: same_world_xfer [OF assms(1)])
qed

lemma same_xfer: "same_protocol_state b a \<Longrightarrow> as_linux x = y \<Longrightarrow> same_protocol_state (b\<lparr>wc_xfer := x\<rparr>) (a\<lparr>g_xfer := y\<rparr>)"
  by (simp add: same_protocol_state_def)

lemma same_notify:
  assumes "same_protocol_state b a" and "same_surroundings w e"
    and "dbl_to_long (num_item j ''maxRelaySize'') = dbl_to_long32 (num_item j ''maxRelaySize'')"
  shows "rel_option same_protocol_state (win_on_file_notify w j b) (on_file_notify e j a)"
proof (cases "win_effective_file_level b \<le> 0")
  case True
  then show ?thesis using assms(1) same_fields [OF assms(1)]
    by (simp add: win_on_file_notify_def on_file_notify_def win_effective_file_level_def effective_file_level_def)
next
  case False
  have s: "we_net w = e_net e" "we_fp w = e_fp e" "we_node_oom w = e_node_oom e" "win_local_addresses w = ft_get_local_addresses (e_net e)"
    using assms(2) by (simp_all add: same_surroundings_def)
  define x where "x = (wc_xfer (win_reset_xfer b))\<lparr>wt_file_id := copy_fld 63 (str_item j ''fileId'') [],
      wt_file_name := copy_fld 255 (str_item j ''fileName'') [], wt_mime_type := copy_fld 63 (str_item j ''mimeType'') [],
      wt_checksum := copy_fld 64 (str_item j ''checksum'') [], wt_from_device := copy_fld 127 (str_item j ''from'') [],
      wt_file_size := dbl_to_u64 (num_item j ''fileSize''), wt_max_relay_size := dbl_to_long32 (num_item j ''maxRelaySize''),
      wt_udp_port := dbl_to_int (num_item j ''udpPort'')\<rparr>"
  define y where "y = (g_xfer (reset_xfer a))\<lparr>ts_file_id := copy_fld 63 (str_item j ''fileId'') [],
      ts_file_name := copy_fld 255 (str_item j ''fileName'') [], ts_mime_type := copy_fld 63 (str_item j ''mimeType'') [],
      ts_checksum := copy_fld 64 (str_item j ''checksum'') [], ts_from_device := copy_fld 127 (str_item j ''from'') [],
      ts_file_size := dbl_to_u64 (num_item j ''fileSize''), ts_max_relay_size := dbl_to_long (num_item j ''maxRelaySize''),
      ts_udp_port := dbl_to_int (num_item j ''udpPort'')\<rparr>"
  have xy: "as_linux x = y"
    unfolding x_def y_def assms(3) by (simp add: win_reset_xfer_def reset_xfer_def as_linux_def win_zero_xfer_def zero_xfer_def)
  define b1 where "b1 = win_open_listener w ((win_reset_xfer b)\<lparr>wc_xfer := x\<rparr>)"
  define a1 where "a1 = open_listener e ((reset_xfer a)\<lparr>g_xfer := y\<rparr>)"
  have st: "same_protocol_state b1 a1"
    unfolding a1_def b1_def by (intro same_listener same_xfer same_reset assms(1) xy s(1))
  have "win_on_file_notify w j b = win_send w (build_file_request (we_fp w) (str_item j ''fileId'') (win_local_addresses w (wt_listen_port (wc_xfer b1)))) b1"
    using False by (simp add: win_on_file_notify_def b1_def x_def win_reset_xfer_def win_zero_xfer_def Let_def)
  moreover have "on_file_notify e j a = send_msg e (build_file_request (e_fp e) (str_item j ''fileId'') (ft_get_local_addresses (e_net e) (ts_listen_port (g_xfer a1)))) a1"
    using False same_fields [OF assms(1)]
    by (simp add: on_file_notify_def a1_def y_def reset_xfer_def zero_xfer_def win_effective_file_level_def effective_file_level_def Let_def)
  ultimately show ?thesis using same_send [OF st s(3)] same_fields(3) [OF st] s by simp
qed

lemma same_peer_info:
  assumes "same_protocol_state b a" and "same_surroundings w e"
  shows "same_protocol_state (win_on_peer_info w j b) (on_peer_info e j a)"
proof -
  note f = same_fields [OF assms(1)]
  obtain n ps where p: "peer_addrs_in j (wt_peer_addrs (wc_xfer b)) = (n, ps)" by force
  have acc: "win_peer_info_accepted j b \<longleftrightarrow> peer_info_accepted j a"
    by (simp add: win_peer_info_accepted_def peer_info_accepted_def f split: option.split)
  have lvl: "win_server_level_in j b = server_level_in j a" by (simp add: win_server_level_in_def server_level_in_def f split: option.split)
  define x where "x = win_peer_xfer j b"
  define y where "y = (g_xfer a)\<lparr>ts_peer_public_addr := copy_fld 63 (str_item j ''peerPublicAddress'') (ts_peer_public_addr (g_xfer a)),
      ts_peer_addr_count := n, ts_peer_addrs := ps,
      ts_eff_file_level := (if file_transfer_level (g_config a) < server_level_in j a then file_transfer_level (g_config a) else server_level_in j a),
      ts_same_lan := cJSON_IsTrue (cJSON_GetObjectItem (Some j) ''sameLan''), ts_phase := 2\<rparr>"
  have xy: "as_linux x = y" unfolding x_def y_def win_peer_xfer_def f lvl p Let_def
    by (simp add: p lvl f as_linux_def)
  have lin: "on_peer_info e j a = (if \<not> peer_info_accepted j a then a else if e_copy_oom e then a\<lparr>g_xfer := y\<rparr>
      else a\<lparr>g_xfer := (if ts_is_sender y then y else y\<lparr>ts_listen_fd := FT_INVALID_SOCK\<rparr>), cl_created := cl_created a @ [y]\<rparr>)"
    using p by (simp add: on_peer_info_def y_def f Let_def)
  have win: "win_on_peer_info w j b = (if \<not> peer_info_accepted j a then b else if e_copy_oom e then b\<lparr>wc_xfer := x\<rparr>
      else b\<lparr>wc_xfer := (if ts_is_sender y then x else x\<lparr>wt_listen_fd := FT_INVALID_SOCK\<rparr>), wc_created := wc_created b @ [x]\<rparr>)"
    using assms(2) acc by (simp add: win_on_peer_info_def x_def [symmetric] xy [symmetric] same_surroundings_def Let_def)
  have thread: "same_protocol_state (b\<lparr>wc_xfer := u, wc_created := wc_created b @ [x]\<rparr>) (a\<lparr>g_xfer := v, cl_created := cl_created a @ [y]\<rparr>)"
    if "as_linux u = v" for u v
    using assms(1) xy that by (simp add: same_protocol_state_def)
  have "as_linux (x\<lparr>wt_listen_fd := FT_INVALID_SOCK\<rparr>) = y\<lparr>ts_listen_fd := FT_INVALID_SOCK\<rparr>" unfolding xy [symmetric] by simp
  from thread [OF this] show ?thesis unfolding lin win using assms(1) same_xfer [OF assms(1) xy] thread [OF xy] by simp
qed

lemma same_clipboard:
  assumes "same_protocol_state b a" and "same_surroundings w e"
  shows "same_protocol_state (win_on_clipboard w j b) (on_clipboard e now j a)"
proof -
  have "same_protocol_state (b\<lparr>wc_suppress_next := s, wc_last_clip_hash := h, wc_clip := cb\<rparr>)
      (a\<lparr>g_last_clip_hash := h, g_suppress_until_ms := t, cl_shell := sh\<rparr>)" for s h cb t sh
    using assms(1) by (simp add: same_protocol_state_def)
  then show ?thesis
    using assms same_fields [OF assms(1)]
    by (auto simp: win_on_clipboard_def on_clipboard_def same_surroundings_def suppress_clipboard_ms_def Let_def split: option.split)
qed

lemma same_relay_request:
  assumes "same_protocol_state b a" and "same_surroundings w e"
  shows "rel_option same_protocol_state (win_on_relay_request w j b) (on_relay_request e j a)"
proof -
  have "we_ssl w = e_ssl e" "we_fp w = e_fp e" "we_node_oom w = e_node_oom e" using assms(2) by (simp_all add: same_surroundings_def)
  then show ?thesis
    using assms(1) same_send [OF assms(1)] same_fields(3) [OF assms(1)]
    by (auto simp: win_on_relay_request_def on_relay_request_def split: option.split)
qed

text \<open>
  C3. The Windows client and the Linux client are the same protocol machine: in the same state and
  surroundings, every message of the server (except relayed data, which goes to the file
  system and the clipboard of the platform) has the same effect on the transfer, the threads to
  be started, the queue of answers, the sockets and the recorded hash, or is undefined for both.
  The one difference is the \<open>long\<close> that holds the relay limit: the last hypothesis says that
  an announced limit has the same value in 32 bits and in 64 bits.
\<close>

theorem clients_agree:
  assumes "same_protocol_state b a" and "same_surroundings w e"
    and "str_item j ''type'' \<noteq> Some ''file_relay_data''"
    and "str_item j ''type'' = Some ''file_notify'' \<Longrightarrow>
           dbl_to_long (num_item j ''maxRelaySize'') = dbl_to_long32 (num_item j ''maxRelaySize'')"
  shows "rel_option same_protocol_state (win_handle_message w j b) (handle_message e now j a)"
proof -
  have "same_protocol_state (win_on_hello_ack j b) (on_hello_ack j a)"
    using assms(1) by (simp add: win_on_hello_ack_def on_hello_ack_def same_protocol_state_def)
  then show ?thesis
    using assms(1,3) same_notify [OF assms(1,2) assms(4)] same_peer_info [OF assms(1,2), of j]
      same_clipboard [OF assms(1,2), of j now] same_relay_request [OF assms(1,2), of j]
    by (simp add: win_handle_message_def handle_message_def split: option.split)
qed

definition win_twin_env :: winenv where
  "win_twin_env = win_sample_env\<lparr>we_adapters := Some [\<lparr>ad_up = True, ad_unicast = [(True, 0x0A000002)]\<rparr>]\<rparr>"

lemma twin_surroundings: "same_surroundings win_twin_env sample_env"
proof -
  have "win_local_addresses win_twin_env = ft_get_local_addresses ref_env"
    by (rule ext) (simp add: win_local_addresses_def win_twin_env_def win_sample_env_def small_windows_def ft_get_local_addresses_win_def
        ft_get_local_addresses_def ref_env_def FT_MAX_ADDRS_def)
  then show ?thesis
    by (simp add: same_surroundings_def) (simp add: win_twin_env_def win_sample_env_def sample_env_def small_windows_def quiet_desktop_def sample_desktop_def)
qed

lemma twin_start: "same_protocol_state win_sample_client sample_client"
  by (simp add: same_protocol_state_def win_sample_client_def win_init_client_def sample_client_def init_client_def)

theorem clients_agree_witness:
  "rel_option same_protocol_state (win_handle_message win_twin_env (JObject [(''type'', JString ''file_peer_info'')]) win_sample_client)
     (handle_message sample_env 10 (JObject [(''type'', JString ''file_peer_info'')]) sample_client)"
  by (rule clients_agree [OF twin_start twin_surroundings]) (simp_all add: lookup_simps Let_def)

section \<open>Copied files\<close>

lemma read_small_file:
  assumes "win_ready (we_win w)" and "we_open w 1" and "length (we_heap w (length content)) = length content" and "length content < 2 ^ 32"
  shows "win_read_file w content = Some content"
  using assms by (simp add: win_read_file_def win_ready_def unat_of_nat Let_def)

lemma offer_built: "\<exists>s. build_file_offer m fid name mime fsize ck addrs = Some s"
proof -
  have "build_file_offer m fid name mime fsize ck addrs = cJSON_PrintUnformatted m (JObject
      [(''type'', JString ''file_offer''), (''fileId'', JString fid), (''fileName'', JString name), (''mimeType'', JString mime),
       (''fileSize'', JNumber (to_double m (uint fsize))), (''checksum'', JString ck), (''localAddresses'', JArray (map JString addrs))])"
    by (simp add: build_file_offer_def build_simps)
  then show ?thesis using print_object by simp
qed

lemma win_announced:
  assumes "\<not> we_node_oom w"
  shows "\<exists>c' m. win_announce w name mime fsize d ck c = Some c' \<and> wc_queue c' = queue_send False m (wc_queue c) \<and>
     wt_is_sender (wc_xfer c') = wt_is_sender (wc_xfer c) \<and> wt_file_id (wc_xfer c') = wt_file_id (wc_xfer c) \<and>
     wt_data (wc_xfer c') = Some d \<and> wt_file_size (wc_xfer c') = fsize \<and> wt_checksum (wc_xfer c') = ck \<and>
     wt_file_name (wc_xfer c') = strncpy_fld 255 name \<and> wt_mime_type (wc_xfer c') = strncpy_fld 63 mime \<and> wt_phase (wc_xfer c') = 1"
proof -
  define c1 where "c1 = win_open_listener w (c\<lparr>wc_xfer := (wc_xfer c)\<lparr>wt_file_name := strncpy_fld 255 name, wt_mime_type := strncpy_fld 63 mime,
      wt_file_size := fsize, wt_data := Some d, wt_checksum := ck\<rparr>\<rparr>)"
  obtain m where m: "build_file_offer (we_fp w) (wt_file_id (wc_xfer c1)) (wt_file_name (wc_xfer c1)) (wt_mime_type (wc_xfer c1))
      (wt_file_size (wc_xfer c1)) (wt_checksum (wc_xfer c1)) (win_local_addresses w (wt_listen_port (wc_xfer c1))) = Some m"
    using offer_built by blast
  have "win_announce w name mime fsize d ck c = Some (c1\<lparr>wc_queue := queue_send False m (wc_queue c1)\<rparr>)"
    using m assms unfolding win_announce_def c1_def [symmetric] Let_def by (simp add: win_send_def)
  moreover have "wc_queue c1 = wc_queue c \<and> wt_is_sender (wc_xfer c1) = wt_is_sender (wc_xfer c) \<and> wt_file_id (wc_xfer c1) = wt_file_id (wc_xfer c) \<and>
     wt_data (wc_xfer c1) = Some d \<and> wt_file_size (wc_xfer c1) = fsize \<and> wt_checksum (wc_xfer c1) = ck \<and>
     wt_file_name (wc_xfer c1) = strncpy_fld 255 name \<and> wt_mime_type (wc_xfer c1) = strncpy_fld 63 mime \<and> wt_phase (wc_xfer c1) = 1"
    by (simp add: c1_def win_open_listener_def split: prod.split)
  ultimately show ?thesis by (intro exI [of _ "c1\<lparr>wc_queue := queue_send False m (wc_queue c1)\<rparr>"] exI [of _ m]) simp
qed

lemma new_sender_fields:
  "wt_is_sender (wc_xfer (win_new_sender w c))" "wt_file_id (wc_xfer (win_new_sender w c)) = ft_generate_uuid (we_uuid w) (we_rand w)"
  "wc_queue (win_new_sender w c) = wc_queue c" "wt_data (wc_xfer (win_new_sender w c)) = None"
  "wc_last_file_hash (win_new_sender w c) = wc_last_file_hash c" "wc_last_img_hash (win_new_sender w c) = wc_last_img_hash c"
  by (simp_all add: win_new_sender_def win_reset_xfer_def win_zero_xfer_def Let_def)

lemma sha_of_file: "fsys v p = Some content \<Longrightarrow> ft_sha256_file ssl p v = Some (ft_sha256 ssl content)"
  by (simp add: ft_sha256_file_def ft_sha256_def sha_loop_all)



text \<open>
  At 4 GB the cast of the size to 32 bits leaves nothing to read and nothing to compare: the
  offered data is what the fresh block happened to hold, and not the file.
\<close>

theorem huge_file_offers_heap:
  assumes "length content = 2 ^ 32" and "win_ready (we_win w)" and "we_open w 1"
  shows "win_read_file w content = Some (we_heap w (length content))"
  using assms by (simp add: win_read_file_def win_ready_def Let_def)

section \<open>Files from client to client\<close>

lemma result_built: "\<exists>s. build_transfer_result m fid method ok a b = Some s"
  using print_object by (cases fid) (fastforce simp: build_transfer_result_def build_simps)+

lemma stored_on_windows:
  assumes "quota v (win_tmp_path w32 name) = Some q" and "length d \<le> q"
  shows "\<exists>v'. win_clipboard_set_file w32 d name v cb = (v', win_clipboard_set_file_path w32 (win_tmp_path w32 name) cb) \<and>
     fsys v' (win_tmp_path w32 name) = Some d \<and> closed v' = closed v"
  using assms by (simp add: win_clipboard_set_file_def fopen_wb_def fwrite_def Let_def)

lemma win_file_arrives:
  assumes "wt_data st = Some d" and "wt_file_size st = of_nat (length d)" and "d \<noteq> []" and "length d < 2 ^ 31"
    and "length (wt_file_id st) = FT_UUID_LEN" and "nul \<notin> set (wt_file_id st)" and "stream_ok s v" and "stream_out s v = []"
    and "stream_in fd u = stream_out s (snd (win_send_on st s v)) @ rest"
    and "of_nat (length d) \<le> g_ft_max_size u" and "malloc_ok ssl ''ft_recv_file'' (length d)"
  shows "fst (win_send_on st s v)"
    and "\<exists>u'. ft_recv_file ssl fd empty_info u =
      (0, empty_info\<lparr>fi_file_id := wt_file_id st, fi_file_size := of_nat (length d), fi_data := Some d, fi_data_len := length d\<rparr>, u') \<and>
      world_frame {fd} u u'"
proof -
  define info where "info = empty_info\<lparr>fi_file_id := strncpy_fld 63 (wt_file_id st), fi_file_size := wt_file_size st,
      fi_data := Some d, fi_data_len := length d\<rparr>"
  have id: "strncpy_fld 63 (wt_file_id st) = wt_file_id st" using assms(5) by (simp add: strncpy_fld_short FT_UUID_LEN_def)
  have n: "unat (of_nat (length d) :: u64) = length d" using assms(4) by (simp add: unat_of_nat)
  have inf: "fi_data info = Some d" "length d = fi_data_len info" "fi_data_len info < 2 ^ 31"
    "fi_file_id info = wt_file_id st" "fi_file_size info = of_nat (length d)" using assms(2,4) id by (simp_all add: info_def)
  obtain v' where v': "ft_send_file s info v = (0, v')" "stream_out s v' = wire_frame (wt_file_id st) (of_nat (length d)) d"
    using ft_send_file_wire [OF assms(7) inf(1-3)] unfolding assms(8) inf(4,5) append_Nil by metis
  have snt: "win_send_on st s v = (True, ft_close s v')"
    using v'(1) assms(1) by (simp add: win_send_on_def info_def)
  then show "fst (win_send_on st s v)" by simp
  have "stream_in fd u = wire_frame (wt_file_id st) (of_nat (length d)) d @ rest"
    using assms(9) snt v'(2) by simp
  then show "\<exists>u'. ft_recv_file ssl fd empty_info u =
      (0, empty_info\<lparr>fi_file_id := wt_file_id st, fi_file_size := of_nat (length d), fi_data := Some d, fi_data_len := length d\<rparr>, u') \<and>
      world_frame {fd} u u'"
    using ft_recv_file_wire [OF _ assms(5,6,3) n assms(4,10,11), of fd rest empty_info] by metis
qed


definition win_sample_sender :: WinTransfer where
  "win_sample_sender = win_zero_xfer\<lparr>wt_file_id := fi_file_id sample_info, wt_file_size := 2, wt_data := Some [7, 9], wt_is_sender := True\<rparr>"


section \<open>Consequences\<close>

text \<open>
  When the clipboard cannot be opened a received text is lost, and the flag that was to swallow
  the notification of the own change swallows that of the user's next copy.
\<close>

theorem failed_set_swallows_next_copy:
  assumes "\<not> open_ok (we_win w)" and "aes_gcm_decrypt (we_ssl w) content (aes_key (wc_config c)) = Some d" and "wc_logged_in c"
  shows "\<exists>c'. win_on_clipboard w (JObject [(''content'', JString content)]) c = c' \<and> wc_clip c' = wc_clip c \<and>
     win_on_clipboard_changed w' (c'\<lparr>wc_clip := copied\<rparr>) = Some (c'\<lparr>wc_clip := copied, wc_suppress_next := False\<rparr>)"
  using assms by (simp add: win_on_clipboard_def win_clipboard_set_def win_on_clipboard_changed_def lookup_simps Let_def)

text \<open>
  A picture or a file copied while a transfer is running is never sent: its hash is recorded
  before the transfer is found to be running.
\<close>

theorem copy_during_transfer_lost:
  assumes "wc_xfer_active_count c > 0"
  shows "\<exists>c1. win_offer_image w img c = Some c1 \<and> wc_queue c1 = wc_queue c \<and>
       win_offer_image w img (c1\<lparr>wc_xfer_active_count := 0\<rparr>) = Some (c1\<lparr>wc_xfer_active_count := 0\<rparr>)"
    and "win_offer_path w p c = Some c2 \<Longrightarrow> fsys (wc_world c) p = Some content \<Longrightarrow> wc_queue c2 = wc_queue c \<and>
       (wc_last_file_hash c2 = ft_sha256 (we_ssl w) content \<longrightarrow>
          win_offer_path w p (c2\<lparr>wc_xfer_active_count := 0\<rparr>) = Some (c2\<lparr>wc_xfer_active_count := 0\<rparr>))"
proof -
  show "\<exists>c1. win_offer_image w img c = Some c1 \<and> wc_queue c1 = wc_queue c \<and>
       win_offer_image w img (c1\<lparr>wc_xfer_active_count := 0\<rparr>) = Some (c1\<lparr>wc_xfer_active_count := 0\<rparr>)"
    using assms by (simp add: win_offer_image_def Let_def)
next
  assume o: "win_offer_path w p c = Some c2" and f: "fsys (wc_world c) p = Some content"
  have "c2 = c \<or> c2 = c\<lparr>wc_last_file_hash := ft_sha256 (we_ssl w) content\<rparr>"
    using o f assms sha_of_file [OF f, of "we_ssl w"]
    by (auto simp: win_offer_path_def Let_def split: if_splits option.splits)
  then have k: "wc_queue c2 = wc_queue c" "fsys (wc_world c2) p = Some content" "wc_config c2 = wc_config c" using f by auto
  have "win_offer_path w p (c2\<lparr>wc_xfer_active_count := 0\<rparr>) = Some (c2\<lparr>wc_xfer_active_count := 0\<rparr>)"
    if "wc_last_file_hash c2 = ft_sha256 (we_ssl w) content"
    using that k sha_of_file [of "wc_world c2" p content "we_ssl w"] by (simp add: win_offer_path_def Let_def)
  then show "wc_queue c2 = wc_queue c \<and>
       (wc_last_file_hash c2 = ft_sha256 (we_ssl w) content \<longrightarrow>
          win_offer_path w p (c2\<lparr>wc_xfer_active_count := 0\<rparr>) = Some (c2\<lparr>wc_xfer_active_count := 0\<rparr>))" using k(1) by simp
qed

text \<open>
  An announcement does not wait for running senders: it closes the listening socket a running
  sending thread still accepts its peers on, and frees the data that thread still sends.
\<close>

theorem announcement_cuts_running_sender:
  assumes "win_effective_file_level c > 0" and "win_on_file_notify w j c = Some c'"
    and "st \<in> set (wc_running c)" and "wt_listen_fd st = wt_listen_fd (wc_xfer c)" and "wt_listen_fd st \<noteq> FT_INVALID_SOCK"
  shows "wt_listen_fd st \<in> set (closed (wc_world c')) \<and> st \<in> set (wc_running c') \<and> wt_data (wc_xfer c') = None"
proof -
  have cl: "set (closed v) \<subseteq> set (closed (snd (snd (ft_start_server env v))))" for env v
    by (auto simp: ft_start_server_def os_socket_def ft_close_def Let_def split: list.splits)
  have "wt_listen_fd st \<in> set (closed (wc_world (win_reset_xfer c)))"
    using assms(4,5) by (simp add: win_reset_xfer_def ft_close_def)
  moreover have "wc_running c' = wc_running c \<and> wt_data (wc_xfer c') = None \<and>
      set (closed (wc_world (win_reset_xfer c))) \<subseteq> set (closed (wc_world c'))"
    using assms(1,2) cl [of "wc_world (win_reset_xfer c)" "we_net w"]
    by (auto simp: win_on_file_notify_def win_open_listener_def win_send_def win_reset_xfer_def win_zero_xfer_def Let_def
        split: option.splits prod.splits)
  ultimately show ?thesis using assms(3) by auto
qed

end
