(* ===== verification/WinPicture.thy ===== *)
theory WinPicture
  imports WinClip
begin

text \<open>
  A picture on its way from one Windows clipboard to another: the bitmap of 32 bits per pixel that
  lies on the clipboard, the file \<open>win_clipboard_get_image\<close> makes of it, what the BMP loader reads
  from that file, the PNG of \<open>bmp_to_png\<close> and the bitmap \<open>win_clipboard_set_image\<close> makes of it
  (\<open>src/windows/main.c\<close>, \<open>src/common/stb_image.h\<close>).
\<close>

section \<open>Fields\<close>

lemma le16_value: "unat (ucast v :: byte) + unat (ucast (drop_bit 8 v) :: byte) * 2 ^ 8 = unat (v :: u16)"
proof -
  have "unat v < 2 ^ 16" using unsigned_less [of v] by simp
  moreover have "unat (drop_bit 8 v) = drop_bit 8 (unat v)" by (rule bit_eqI) (simp add: bit_unsigned_iff bit_drop_bit_eq)
  ultimately show ?thesis by (simp add: unsigned_ucast_eq take_bit_eq_mod drop_bit_eq_div)
qed

lemma digits_value:
  fixes n :: nat
  assumes "n = b * 256 + a" and "b = c * 256 + b'" and "c = d * 256 + c'"
  shows "a + b' * 256 + (c' + d * 256) * 65536 = n"
  using assms by simp

lemma four_digits: "n mod 256 + n div 2 ^ 8 mod 256 * 256 + (n div 2 ^ 16 mod 256 + n div 2 ^ 24 * 256) * 65536 = n" for n :: nat
proof (rule digits_value)
  have d: "n div 2 ^ 16 = n div 2 ^ 8 div 256" "n div 2 ^ 24 = n div 2 ^ 8 div 256 div 256"
    by (simp_all add: div_mult2_eq [symmetric])
  show "n = n div 2 ^ 8 * 256 + n mod 256" using div_mult_mod_eq [of n 256] by simp
  show "n div 2 ^ 8 = n div 2 ^ 16 * 256 + n div 2 ^ 8 mod 256" unfolding d by (rule div_mult_mod_eq [symmetric])
  show "n div 2 ^ 16 = n div 2 ^ 24 * 256 + n div 2 ^ 16 mod 256" unfolding d by (rule div_mult_mod_eq [symmetric])
qed

lemma le32_value:
  "unat (ucast v :: byte) + unat (ucast (drop_bit 8 v) :: byte) * 2 ^ 8 +
     (unat (ucast (drop_bit 16 v) :: byte) + unat (ucast (drop_bit 24 v) :: byte) * 2 ^ 8) * 2 ^ 16 = unat (v :: u32)"
proof -
  have d: "unat (drop_bit k v) = unat v div 2 ^ k" for k
  proof -
    have "unat (drop_bit k v) = drop_bit k (unat v)" by (rule bit_eqI) (simp add: bit_unsigned_iff bit_drop_bit_eq)
    then show ?thesis by (simp only: drop_bit_eq_div)
  qed
  have "unat v < 2 ^ 32" using unsigned_less [of v] by simp
  then have "unat v div 2 ^ 24 < 256" by (intro less_mult_imp_div_less) simp
  then have "unat v div 2 ^ 24 mod 256 = unat v div 2 ^ 24" by (rule mod_less)
  then show ?thesis using four_digits [of "unat v"] by (simp add: unsigned_ucast_eq take_bit_eq_mod d)
qed

lemma get16le_le16: "stbi__get16le (ctx x y n m (le16 v @ r) orig) = (unat v, ctx x y n m r orig)"
  using le16_value [of v] by (simp add: stbi__get16le_def le16_def get8_byte)

lemma get32le_le32: "stbi__get32le (ctx x y n m (le32 v @ r) orig) = (unat v, ctx x y n m r orig)"
  using le32_value [of v] by (simp add: stbi__get32le_def stbi__get16le_def le32_def get8_byte)

lemma get32i_le32: "stbi__get32i (ctx x y n m (le32 v @ r) orig) = (sint v, ctx x y n m r orig)"
  by (simp add: stbi__get32i_def get32le_le32 c_int_def)

lemma discard32_le32:
  "discard32 (Suc 0) (ctx x y n m (le32 v @ r) orig) = ctx x y n m r orig"
  "discard32 5 (ctx x y n m (le32 v1 @ le32 v2 @ le32 v3 @ le32 v4 @ le32 v5 @ r) orig) = ctx x y n m r orig"
  by (simp_all add: discard32_def get32le_le32 eval_nat_numeral)

lemmas bmp_field_simps = get16le_le16 get32le_le32 get32i_le32 get8_byte discard32_le32

section \<open>The header\<close>

text \<open>A bitmap of 32 bits per pixel without masks, bottom-up.\<close>

definition plain_bitmap :: "BITMAPINFOHEADER \<Rightarrow> nat \<Rightarrow> nat \<Rightarrow> bool" where
  "plain_bitmap h wd ht \<longleftrightarrow> biSize h = 40 \<and> biPlanes h = 1 \<and> biBitCount h = 32 \<and> biCompression h = BI_RGB \<and>
     unat (biWidth h) = wd \<and> unat (biHeight h) = ht \<and> 0 < wd \<and> wd \<le> 2 ^ 24 \<and> 0 < ht \<and> ht \<le> 2 ^ 24"

definition bitmap_file :: "BITMAPINFOHEADER \<Rightarrow> byte list \<Rightarrow> byte list" where
  "bitmap_file h q =
     bfh_bytes \<lparr>bfType = 0x4D42, bfSize = of_nat (54 + length q), bfReserved1 = 0, bfReserved2 = 0, bfOffBits = 54\<rparr> @ bih_bytes h @ q"

lemma bitmap_file_start: "bitmap_file h q = 0x42 # 0x4D # drop 2 (bitmap_file h q)"
  by (simp add: bitmap_file_def bfh_bytes_def le16_def drop_bit_eq_div)

lemma bm_type: "le16 0x4D42 = [0x42, 0x4D]"
  by (simp add: le16_def drop_bit_eq_div)

lemma not_png: "\<not> stbi__png_test (stbi__start_mem (bitmap_file h q))"
  by (subst bitmap_file_start) (simp add: stbi__png_test_def stbi__start_mem_def stbi__check_png_header_def png_sig_def get8_byte)

lemma is_bmp:
  assumes "plain_bitmap h wd ht"
  shows "stbi__bmp_test (stbi__start_mem (bitmap_file h q))"
  using assms unfolding bitmap_file_def bfh_bytes_def bih_bytes_def plain_bitmap_def
  by (simp add: stbi__bmp_test_def stbi__start_mem_def bm_type bmp_field_simps bmp_sizes_def)

definition plain_info :: stbi__bmp_data where
  "plain_info = \<lparr>bd_bpp = 32, bd_offset = 54, bd_hsz = 40, bd_mr = 0xff0000, bd_mg = 0xff00, bd_mb = 0xff, bd_ma = 0xff000000,
     bd_all_a = 0, bd_extra_read = 14\<rparr>"

lemma plain_header:
  assumes "plain_bitmap h wd ht"
  shows "stbi__bmp_parse_header (stbi__start_mem (bitmap_file h q)) = Some (plain_info, ctx wd ht 0 0 q (bitmap_file h q))"
proof -
  define f where "f = bitmap_file h q"
  have f: "bitmap_file h q = [0x42, 0x4D] @ le32 (of_nat (54 + length q)) @ le16 0 @ le16 0 @ le32 54 @
      le32 40 @ le32 (biWidth h) @ le32 (biHeight h) @ le16 1 @ le16 32 @ le32 0 @
      le32 (biSizeImage h) @ le32 (biXPelsPerMeter h) @ le32 (biYPelsPerMeter h) @ le32 (biClrUsed h) @ le32 (biClrImportant h) @ q"
    using assms by (simp add: bitmap_file_def bfh_bytes_def bih_bytes_def plain_bitmap_def bm_type BI_RGB_def)
  have "stbi__bmp_parse_header (ctx 0 0 0 0 (bitmap_file h q) f) = Some (plain_info, ctx wd ht 0 0 q f)"
    using assms unfolding f
    by (simp add: stbi__bmp_parse_header_def bmp_field_simps bmp_sizes_def plain_bitmap_def bmp_masks_info_def
        stbi__bmp_set_mask_defaults_def plain_info_def push_bit_eq_mult)
  then show ?thesis by (simp add: stbi__start_mem_def f_def)
qed

section \<open>Lines\<close>

lemma flip_row_Suc: "flip_row (Suc k) q off = bgra q off @ flip_row k q (off + 4)"
  unfolding flip_row_def
  by (simp add: upt_rec [of 0 "Suc k"] map_Suc_upt [symmetric] comp_def ac_simps del: upt_Suc map_Suc_upt)

lemma drop_four: "off + 4 \<le> length q \<Longrightarrow> drop off q = q ! off # q ! (off + 1) # q ! (off + 2) # q ! (off + 3) # drop (off + 4) q"
  using Cons_nth_drop_Suc [of off q] Cons_nth_drop_Suc [of "off + 1" q] Cons_nth_drop_Suc [of "off + 2" q] Cons_nth_drop_Suc [of "off + 3" q]
  by (simp add: eval_nat_numeral)

text \<open>The alpha values that a line adds to those seen.\<close>

definition seen_alpha :: "byte list \<Rightarrow> nat \<Rightarrow> nat \<Rightarrow> u32 \<Rightarrow> u32" where
  "seen_alpha q off k a = fold (\<lambda>i a. a OR ucast (q ! (off + i * 4 + 3))) [0..<k] a"

lemma seen_alpha_Suc: "seen_alpha q off (Suc k) a = seen_alpha q (off + 4) k (a OR ucast (q ! (off + 3)))"
  unfolding seen_alpha_def
  by (simp add: upt_rec [of 0 "Suc k"] map_Suc_upt [symmetric] fold_map comp_def ac_simps del: upt_Suc map_Suc_upt)

lemma seen_alpha_add: "seen_alpha q off (j + k) a = seen_alpha q (off + j * 4) k (seen_alpha q off j a)"
  by (induction j arbitrary: off a) (simp_all add: seen_alpha_Suc seen_alpha_def [of _ _ 0] ac_simps)

lemma row_easy:
  assumes "off + k * 4 \<le> length q"
  shows "bmp_row_easy 2 4 k (a, ctx x y n m (drop off q) orig) =
     (flip_row k q off, seen_alpha q off k a, ctx x y n m (drop (off + k * 4) q) orig)"
  using assms
proof (induction k arbitrary: off a)
  case (Suc k)
  then have "off + 4 + k * 4 \<le> length q" "off + 4 \<le> length q" by simp_all
  with Suc(1) [of "off + 4"] show ?case by (simp add: drop_four get8_byte flip_row_Suc seen_alpha_Suc ac_simps)
qed (simp add: flip_row_def seen_alpha_def)

lemma rows_easy:
  assumes "off + ht * (wd * 4) \<le> length q"
  shows "bmp_rows (bmp_row_easy 2 4 wd) 0 ht (a, ctx x y n m (drop off q) orig) =
     (concat (map (\<lambda>i. flip_row wd q (off + i * (wd * 4))) [0..<ht]), seen_alpha q off (ht * wd) a,
      ctx x y n m (drop (off + ht * (wd * 4)) q) orig)"
  using assms
proof (induction ht arbitrary: off a)
  case (Suc ht)
  then have "off + wd * 4 + ht * (wd * 4) \<le> length q" "off + wd * 4 \<le> length q" by simp_all
  moreover have "map (\<lambda>i. flip_row wd q (off + i * (wd * 4))) [0..<Suc ht] =
      flip_row wd q off # map (\<lambda>i. flip_row wd q (off + wd * 4 + i * (wd * 4))) [0..<ht]"
    by (simp add: upt_rec [of 0 "Suc ht"] map_Suc_upt [symmetric] comp_def algebra_simps del: upt_Suc map_Suc_upt)
  ultimately show ?case
    using Suc(1) [of "off + wd * 4"] seen_alpha_add [of q off wd "ht * wd" a]
    by (simp add: row_easy stbi__skip_def algebra_simps del: upt_Suc)
qed (simp add: seen_alpha_def)

section \<open>The order of the lines\<close>

lemma swap_steps:
  assumes "2 * k \<le> length l"
  shows "fold (\<lambda>j rows. rows[j := rows ! (length l - 1 - j), length l - 1 - j := rows ! j]) [0..<k] l =
     map (\<lambda>i. if i < k \<or> length l - k \<le> i then l ! (length l - 1 - i) else l ! i) [0..<length l]"
  using assms
proof (induction k)
  case 0
  show ?case by (rule nth_equalityI) simp_all
next
  case (Suc k)
  define r where "r = map (\<lambda>i. if i < k \<or> length l - k \<le> i then l ! (length l - 1 - i) else l ! i) [0..<length l]"
  have k: "k < length l - 1 - k" "length l - 1 - k < length l" "\<not> length l - k \<le> length l - 1 - k" using Suc(2) by auto
  then have r: "r ! k = l ! k" "r ! (length l - 1 - k) = l ! (length l - 1 - k)" "length r = length l"
    by (auto simp: r_def)
  have "r[k := r ! (length l - 1 - k), length l - 1 - k := r ! k] =
      map (\<lambda>i. if i < Suc k \<or> length l - Suc k \<le> i then l ! (length l - 1 - i) else l ! i) [0..<length l]"
  proof (rule nth_equalityI)
    fix i
    assume "i < length (r[k := r ! (length l - 1 - k), length l - 1 - k := r ! k])"
    then have i: "i < length l" using r(3) by simp
    consider "i = k" | "i = length l - 1 - k" | "i \<noteq> k" "i \<noteq> length l - 1 - k" by blast
    then show "r[k := r ! (length l - 1 - k), length l - 1 - k := r ! k] ! i =
        map (\<lambda>i. if i < Suc k \<or> length l - Suc k \<le> i then l ! (length l - 1 - i) else l ! i) [0..<length l] ! i"
    proof cases
      case 3
      then have "(i < Suc k \<or> length l - Suc k \<le> i) = (i < k \<or> length l - k \<le> i)" using i by auto
      then show ?thesis using 3 i by (simp add: r_def)
    qed (use k i r in \<open>auto simp: nth_list_update\<close>)
  qed (use r(3) in simp)
  then show ?case using Suc by (simp add: r_def)
qed

lemma swap_lines_rev: "swap_lines len y out = concat (rev (pixel_groups len y out))"
proof -
  let ?l = "pixel_groups len y out"
  have "map (\<lambda>i. if i < y div 2 \<or> y - y div 2 \<le> i then ?l ! (y - 1 - i) else ?l ! i) [0..<y] = rev ?l"
  proof (rule nth_equalityI)
    fix i
    assume "i < length (map (\<lambda>i. if i < y div 2 \<or> y - y div 2 \<le> i then ?l ! (y - 1 - i) else ?l ! i) [0..<y])"
    then have i: "i < y" by simp
    moreover have "i = y - 1 - i" if "\<not> (i < y div 2 \<or> y - y div 2 \<le> i)" using that i by linarith
    ultimately show "map (\<lambda>i. if i < y div 2 \<or> y - y div 2 \<le> i then ?l ! (y - 1 - i) else ?l ! i) [0..<y] ! i = rev ?l ! i"
      by (auto simp: rev_nth)
  qed simp
  moreover have "2 * (y div 2) \<le> y" by simp
  ultimately show ?thesis unfolding swap_lines_def using swap_steps [of "y div 2" ?l, unfolded length_pixels] by (simp only:)
qed

lemma groups_of_concat: "(\<And>i. i < k \<Longrightarrow> length (g i) = n) \<Longrightarrow> pixel_groups n k (concat (map g [0..<k])) = map g [0..<k]"
proof (induction k arbitrary: g)
  case (Suc k)
  have "map g [0..<Suc k] = g 0 # map (\<lambda>i. g (Suc i)) [0..<k]"
    by (simp add: upt_rec [of 0 "Suc k"] map_Suc_upt [symmetric] comp_def del: upt_Suc map_Suc_upt)
  then show ?case using Suc(1) [of "\<lambda>i. g (Suc i)"] Suc(2) by (simp del: upt_Suc)
qed simp

lemma lines_flipped: "swap_lines (wd * 4) ht (concat (map (\<lambda>i. flip_row wd q (i * (wd * 4))) [0..<ht])) = flip_picture wd ht q"
proof -
  have "rev (map (\<lambda>i. flip_row wd q (i * (wd * 4))) [0..<ht]) = map (\<lambda>i. flip_row wd q ((ht - 1 - i) * (wd * 4))) [0..<ht]"
    by (rule nth_equalityI) (simp_all add: rev_nth)
  then show ?thesis unfolding swap_lines_rev flip_picture_def by (simp add: groups_of_concat)
qed

section \<open>Alpha\<close>

text \<open>A picture with every pixel made opaque, and the picture as the loader understands it: opaque when no pixel has any alpha.\<close>

definition opaque_pixels :: "byte list \<Rightarrow> byte list" where
  "opaque_pixels q = map (\<lambda>i. if i mod 4 = 3 then 255 else q ! i) [0..<length q]"

definition shown_pixels :: "byte list \<Rightarrow> byte list" where
  "shown_pixels q = (if list_all (\<lambda>i. q ! (i * 4 + 3) = 0) [0..<length q div 4] then opaque_pixels q else q)"

lemma length_opaque [simp]: "length (opaque_pixels q) = length q" "length (shown_pixels q) = length q"
  by (simp_all add: opaque_pixels_def shown_pixels_def)

lemma nth_opaque: "i < length q \<Longrightarrow> opaque_pixels q ! i = (if i mod 4 = 3 then 255 else q ! i)"
  by (simp add: opaque_pixels_def)

lemma opaque_append:
  assumes "length a mod 4 = 0"
  shows "opaque_pixels (a @ b) = opaque_pixels a @ opaque_pixels b"
proof (rule nth_equalityI)
  fix i
  assume i: "i < length (opaque_pixels (a @ b))"
  have "(i - length a) mod 4 = i mod 4" if "\<not> i < length a"
  proof -
    have "i mod 4 = (length a + (i - length a)) mod 4" using that by simp
    also have "\<dots> = (i - length a) mod 4" using assms by (simp add: mod_add_left_eq [symmetric, of "length a"])
    finally show ?thesis ..
  qed
  then show "opaque_pixels (a @ b) ! i = (opaque_pixels a @ opaque_pixels b) ! i"
    using i by (auto simp: nth_append nth_opaque)
qed simp

lemma opaque_concat:
  assumes "\<And>x. x \<in> set xs \<Longrightarrow> length (g x) mod 4 = 0" and "\<And>x. x \<in> set xs \<Longrightarrow> opaque_pixels (g x) = h x"
  shows "opaque_pixels (concat (map g xs)) = concat (map h xs)"
  using assms by (induction xs) (simp_all add: opaque_append, simp add: opaque_pixels_def)

lemma opaque_four: "opaque_pixels [a, b, c, e] = [a, b, c, 255]"
  by (simp add: opaque_pixels_def)

lemma opaque_groups: "length d = 4 * k \<Longrightarrow> concat (map (\<lambda>p. p[3 := 255]) (pixel_groups 4 k d)) = opaque_pixels d"
proof (induction k arbitrary: d)
  case (Suc k)
  obtain a b c e r where d: "d = [a, b, c, e] @ r"
    using Suc(2) by (cases d; cases "tl d"; cases "tl (tl d)"; cases "tl (tl (tl d))") auto
  have "opaque_pixels d = [a, b, c, 255] @ opaque_pixels r" unfolding d by (subst opaque_append) (simp_all add: opaque_four)
  then show ?case using Suc d by (simp add: eval_nat_numeral)
qed (simp add: opaque_pixels_def)

lemma opaque_row:
  assumes "off mod 4 = 0" and "off + wd * 4 \<le> length q"
  shows "opaque_pixels (flip_row wd q off) = flip_row wd (opaque_pixels q) off"
proof -
  have px: "opaque_pixels (bgra q (off + x * 4)) = bgra (opaque_pixels q) (off + x * 4)" if "x < wd" for x
  proof -
    have m: "(off + x * 4) mod 4 = 0" "Suc (off + x * 4) mod 4 = 1" "(off + x * 4 + 2) mod 4 = 2" "(off + x * 4 + 3) mod 4 = 3"
      using assms(1) by presburger+
    have "off + x * 4 + 3 < length q" using assms(2) that by linarith
    then show ?thesis using m by (simp add: nth_opaque opaque_four)
  qed
  show ?thesis unfolding flip_row_def by (rule opaque_concat) (simp, rule px, simp)
qed

lemma ucast_byte_0: "(ucast x :: u32) = 0 \<longleftrightarrow> x = 0" for x :: byte
proof
  assume z: "(ucast x :: u32) = 0"
  show "x = 0"
  proof (rule bit_word_eqI)
    fix n
    assume "n < LENGTH(8)"
    then show "bit x n = bit (0 :: byte) n" using arg_cong [OF z, of "\<lambda>w. bit w n"] by (simp add: bit_simps)
  qed
qed simp

lemma seen_alpha_zero: "seen_alpha q off k a = 0 \<longleftrightarrow> a = 0 \<and> (\<forall>i < k. q ! (off + i * 4 + 3) = 0)"
proof (induction k arbitrary: off a)
  case (Suc k)
  have "(\<forall>i < Suc k. q ! (off + i * 4 + 3) = 0) \<longleftrightarrow> q ! (off + 3) = 0 \<and> (\<forall>i < k. q ! (off + 4 + i * 4 + 3) = 0)"
    unfolding All_less_Suc2 by (simp add: ac_simps)
  moreover have "a OR ucast (q ! (off + 3)) = (0 :: u32) \<longleftrightarrow> a = 0 \<and> q ! (off + 3) = 0"
    by (simp add: or_eq_0_iff ucast_byte_0)
  ultimately show ?case unfolding seen_alpha_Suc Suc by auto
qed (simp add: seen_alpha_def)

section \<open>The loaded picture\<close>

lemma opaque_lines:
  assumes "length q = ht * (wd * 4)"
  shows "opaque_pixels (concat (map (\<lambda>i. flip_row wd q (i * (wd * 4))) [0..<ht])) =
     concat (map (\<lambda>i. flip_row wd (opaque_pixels q) (i * (wd * 4))) [0..<ht])"
proof -
  have "opaque_pixels (flip_row wd q (i * (wd * 4))) = flip_row wd (opaque_pixels q) (i * (wd * 4))" if "i < ht" for i
  proof (rule opaque_row)
    have "Suc i * (wd * 4) \<le> ht * (wd * 4)" using that by (intro mult_le_mono1) simp
    then show "i * (wd * 4) + wd * 4 \<le> length q" using assms by simp
  qed simp
  then show ?thesis by (intro opaque_concat) simp_all
qed

lemma bitmap_pixels:
  assumes "length q = ht * (wd * 4)"
  shows "\<exists>out a. bmp_direct plain_info 4 (ctx wd ht 0 0 q f) = Some (out, a) \<and>
     swap_lines (wd * 4) ht (opaque_if_blank 4 a (wd * ht) out) = flip_picture wd ht (shown_pixels q)"
proof (intro exI conjI)
  let ?out = "concat (map (\<lambda>i. flip_row wd q (i * (wd * 4))) [0..<ht])" and ?a = "seen_alpha q 0 (ht * wd) 0"
  show "bmp_direct plain_info 4 (ctx wd ht 0 0 q f) = Some (?out, ?a)"
    using rows_easy [of 0 ht wd q 0 wd ht 0 0 f] assms by (simp add: bmp_direct_def plain_info_def stbi__skip_def bmp_pad_def)
  have "length ?out = 4 * (wd * ht)" by (subst length_concat_const [where k = "wd * 4"]) simp_all
  then have opaque: "opaque_if_blank 4 ?a (wd * ht) ?out = (if ?a = 0 then opaque_pixels ?out else ?out)"
    by (simp add: opaque_if_blank_def opaque_groups)
  have "length q div 4 = ht * wd" using assms by simp
  then have "shown_pixels q = (if ?a = 0 then opaque_pixels q else q)"
    by (auto simp: shown_pixels_def list_all_iff seen_alpha_zero)
  then show "swap_lines (wd * 4) ht (opaque_if_blank 4 ?a (wd * ht) ?out) = flip_picture wd ht (shown_pixels q)"
    unfolding opaque using lines_flipped opaque_lines [OF assms] by simp
qed

lemma length_bitmap_file: "length (bitmap_file h q) = 54 + length q"
  by (simp add: bitmap_file_def)

lemma bitmap_read:
  assumes "plain_bitmap h wd ht" and "length q = ht * (wd * 4)" and "4 * wd * ht < 2 ^ 31"
  shows "stbi__bmp_load (\<lambda>_. True) stack 4 (stbi__start_mem (bitmap_file h q)) = Some (wd, ht, 4, flip_picture wd ht (shown_pixels q))"
proof -
  define f where "f = bitmap_file h q"
  obtain out a where out: "bmp_direct plain_info 4 (ctx wd ht 0 0 q f) = Some (out, a)"
      "swap_lines (wd * 4) ht (opaque_if_blank 4 a (wd * ht) out) = flip_picture wd ht (shown_pixels q)"
    using bitmap_pixels [OF assms(2)] by blast
  have b: "0 < wd" "wd \<le> 2 ^ 24" "0 < ht" "ht \<le> 2 ^ 24" using assms(1) by (simp_all add: plain_bitmap_def)
  then have y: "c_int (int ht) = int ht" by (intro c_int_id) simp_all
  have "int (length f) - int (length q) = 54" unfolding f_def length_bitmap_file by simp
  then have skip: "bmp_to_pixels plain_info 0 (ctx wd ht 0 0 q f) = Some (ctx wd ht 0 0 q f)"
    by (simp add: bmp_to_pixels_def plain_info_def stbi__skip_def)
  have "stbi__malloc_mad3 (\<lambda>_. True) 4 (int wd) (int ht) 0"
    using mad3_valid [of 4 wd ht 0] assms(3) b by (simp add: stbi__malloc_mad3_def)
  moreover have "bmp_psize plain_info = 0" "bd_bpp plain_info = 32" "bd_ma plain_info = 0xff000000"
    by (simp_all add: bmp_psize_def plain_info_def)
  ultimately show ?thesis
    unfolding stbi__bmp_load_def plain_header [OF assms(1)] using out y b skip
    by (simp add: f_def [symmetric] STBI_MAX_DIMENSIONS_def)
qed

lemma bitmap_loaded:
  assumes "plain_bitmap h wd ht" and "length q = wd * 4 * ht" and "(wd * 4 + 1) * ht \<le> 2 ^ 28" and "win_ready w32"
  shows "stbi_load w32 (bitmap_file h q) (int_of_size (length (bitmap_file h q))) = Some (Some (wd, ht, flip_picture wd ht (shown_pixels q)))"
proof -
  have q: "length q = ht * (wd * 4)" and n: "4 * wd * ht < 2 ^ 31" "length (bitmap_file h q) < 2 ^ 31"
    using assms(2,3) by (simp_all add: algebra_simps length_bitmap_file)
  show ?thesis
    using bitmap_read [OF assms(1) q n(1)] not_png is_bmp [OF assms(1)] n(2) assms(4)
    by (simp add: stbi_load_def stbi_load4_def stbi_load_from_memory_def stbi__load_and_postprocess_8bit_def stbi__load_main_def
        stb_env_def stbi_defaults_def win_ready_def int_of_size_id)
qed

section \<open>A gap in front of the pixels\<close>

text \<open>
  For pictures without a palette the bytes between the headers and the pixels are skipped twice,
  by the check of the offset and again in front of the lines: a picture of one pixel of 24 bits
  with a gap of four bytes loads as black, and not with its colour.
\<close>

definition gap_bitmap :: "byte list" where
  "gap_bitmap = [0x42, 0x4D] @ le32 62 @ le16 0 @ le16 0 @ le32 58 @ le32 40 @ le32 1 @ le32 1 @ le16 1 @ le16 24 @ le32 0 @
     le32 4 @ le32 0 @ le32 0 @ le32 0 @ le32 0 @ [0, 0, 0, 0, 1, 2, 3, 0]"

theorem gap_skipped_twice:
  "stbi__bmp_load (\<lambda>_. True) stack 4 (stbi__start_mem gap_bitmap) = Some (1, 1, 3, [0, 0, 0, 255])"
proof -
  define f where "f = gap_bitmap"
  let ?info = "\<lparr>bd_bpp = 24, bd_offset = 58, bd_hsz = 40, bd_mr = 0, bd_mg = 0, bd_mb = 0, bd_ma = 0, bd_all_a = 255, bd_extra_read = 14\<rparr>"
  let ?s = "ctx 1 1 0 0 [0, 0, 0, 0, 1, 2, 3, 0] f"
  have h: "stbi__bmp_parse_header (ctx 0 0 0 0 gap_bitmap f) = Some (?info, ?s)"
    unfolding gap_bitmap_def
    by (simp add: stbi__bmp_parse_header_def bmp_field_simps bmp_sizes_def bmp_masks_info_def)
  have "int (length f) = 62" by (simp add: f_def gap_bitmap_def)
  then have p: "bmp_to_pixels ?info 0 ?s = Some (ctx 1 1 0 0 [1, 2, 3, 0] f)"
    by (simp add: bmp_to_pixels_def stbi__skip_def)
  have d: "bmp_direct ?info 4 (ctx 1 1 0 0 [1, 2, 3, 0] f) = Some ([0, 0, 0, 255], 255)"
    by (simp add: bmp_direct_def stbi__skip_def bmp_pad_def stbi__get8_def)
  have "stbi__malloc_mad3 (\<lambda>_. True) 4 1 1 0" using mad3_valid [of 4 1 1 0] by (simp add: stbi__malloc_mad3_def)
  moreover have "c_int 1 = 1" by (rule c_int_id) simp_all
  moreover have "bmp_psize ?info = 0" by (simp add: bmp_psize_def)
  moreover have "stbi__start_mem gap_bitmap = ctx 0 0 0 0 gap_bitmap f" by (simp add: stbi__start_mem_def f_def)
  ultimately show ?thesis
    unfolding stbi__bmp_load_def using h p d
    by (simp add: STBI_MAX_DIMENSIONS_def opaque_if_blank_def swap_lines_def)
qed

end
