(* ===== verification/ZlibEnds.thy ===== *)
theory ZlibEnds
  imports ZlibRead
begin

text \<open>
  The zlib decoder of \<open>src/common/stb_image.h\<close> ends on every input: a block either adds to the
  output, whose size is limited, or consumes data, and behind the end of the data only zero bits
  follow, which are no block. Nothing is assumed of the tables or of the bit buffer.
\<close>

section \<open>The data that is left\<close>

text \<open>
  While there is input, its bits and those of the bit buffer; behind its end, what the bit buffer
  still holds besides zeros.
\<close>

definition zleft :: "stbi__zbuf \<Rightarrow> nat" where
  "zleft a = (if zb_in a = [] then unat (code_buffer a) else 2 ^ 32 + 8 * length (zb_in a) + num_bits a)"

definition zkeep :: "stbi__zbuf \<Rightarrow> stbi__zbuf \<Rightarrow> bool" where
  "zkeep a b \<longleftrightarrow> zb_out b = zb_out a \<and> zb_limit b = zb_limit a \<and> z_expandable b = z_expandable a \<and> zleft b \<le> zleft a"

lemma zleft_out [simp]: "zleft (a\<lparr>zb_out := out\<rparr>) = zleft a" "zleft (a\<lparr>z_length := zl, z_distance := zd\<rparr>) = zleft a"
  by (simp_all add: zleft_def)

lemma zkeep_refl [simp]: "zkeep a a"
  by (simp add: zkeep_def)

lemma zkeep_trans: "zkeep a b \<Longrightarrow> zkeep b c \<Longrightarrow> zkeep a c"
  by (simp add: zkeep_def)

lemma code_buffer_bound: "unat (x :: u32) < 2 ^ 32"
  using unsigned_less [of x] by simp

lemma unat_drop_bit_le: "unat (drop_bit n (x :: u32)) \<le> unat x"
proof -
  have "unat (drop_bit n x) = drop_bit n (unat x)" by (rule bit_eqI) (simp add: bit_unsigned_iff bit_drop_bit_eq)
  then show ?thesis by (simp only: drop_bit_eq_div div_le_dividend)
qed

lemma unat_drop_bit_less: "0 < n \<Longrightarrow> x \<noteq> 0 \<Longrightarrow> unat (drop_bit n (x :: u32)) < unat x"
proof -
  assume n: "0 < n" "x \<noteq> 0"
  have e: "unat (drop_bit n x) = unat x div 2 ^ n"
  proof -
    have "unat (drop_bit n x) = drop_bit n (unat x)" by (rule bit_eqI) (simp add: bit_unsigned_iff bit_drop_bit_eq)
    then show ?thesis by (simp only: drop_bit_eq_div)
  qed
  have "0 < unat x" using n(2) by (simp add: unat_gt_0)
  moreover have "1 < (2 :: nat) ^ n" using one_less_power [of "2 :: nat" n] n(1) by simp
  ultimately show ?thesis unfolding e by (rule div_less_dividend [rotated])
qed

lemma zkeep_get8: "stbi__zget8 a = (b, a') \<Longrightarrow> zkeep a a'"
  using code_buffer_bound [of "code_buffer a"]
  by (auto simp: stbi__zget8_def zkeep_def zleft_def split: list.splits)

lemma zkeep_fill: "zkeep a (stbi__fill_bits a) \<and> (zb_in (stbi__fill_bits a) = [] \<or> 25 \<le> num_bits (stbi__fill_bits a))"
proof (induction a rule: stbi__fill_bits.induct)
  case (1 a)
  show ?case
  proof (cases "code_buffer a \<ge> push_bit (num_bits a) 1")
    case True
    then have "stbi__fill_bits a = a\<lparr>zb_in := []\<rparr>" by (subst stbi__fill_bits.simps) simp
    then show ?thesis using code_buffer_bound [of "code_buffer a"] by (auto simp: zkeep_def zleft_def)
  next
    case False
    obtain b a1 where g: "stbi__zget8 a = (b, a1)" by fastforce
    define a2 where "a2 = a1\<lparr>code_buffer := code_buffer a OR push_bit (num_bits a) (ucast b), num_bits := num_bits a + 8\<rparr>"
    have "zkeep a a2"
      using g code_buffer_bound [of "code_buffer a2"] by (auto simp: a2_def stbi__zget8_def zkeep_def zleft_def split: list.splits)
    moreover have "stbi__fill_bits a = (if num_bits a + 8 \<le> 24 then stbi__fill_bits a2 else a2)"
      using False g by (subst stbi__fill_bits.simps) (simp add: a2_def)
    moreover have "zkeep a2 (stbi__fill_bits a2) \<and> (zb_in (stbi__fill_bits a2) = [] \<or> 25 \<le> num_bits (stbi__fill_bits a2))"
      if "num_bits a + 8 \<le> 24"
      using 1 [OF False g [symmetric] refl] that by (simp add: a2_def)
    ultimately show ?thesis by (auto simp: a2_def intro: zkeep_trans)
  qed
qed

lemma zkeep_drop: "zkeep a (a\<lparr>code_buffer := drop_bit n (code_buffer a), num_bits := m\<rparr>)" if "m \<le> num_bits a"
  using that unat_drop_bit_le [of n "code_buffer a"] by (simp add: zkeep_def zleft_def)

lemma zkeep_receive: "stbi__zreceive n a = (k, b) \<Longrightarrow> zkeep a b"
  using zkeep_fill [of a] zkeep_drop [of "num_bits (stbi__fill_bits a) - n" "stbi__fill_bits a" n] zkeep_drop [of "num_bits a - n" a n]
  by (auto simp: stbi__zreceive_def Let_def intro: zkeep_trans split: if_splits)

lemma zkeep_slowpath: "stbi__zhuffman_decode_slowpath z a = (k, b) \<Longrightarrow> zkeep a b"
  unfolding stbi__zhuffman_decode_slowpath_def Let_def by (auto intro!: zkeep_drop split: if_splits)

lemma zkeep_decode:
  assumes "stbi__zhuffman_decode z a = (k, b)"
  shows "zkeep a b"
proof (cases "num_bits a < 16 \<and> stbi__zeof a \<and> hit_zeof_once a")
  case False
  define a1 where "a1 = (if num_bits a < 16 then
      (if stbi__zeof a then a\<lparr>hit_zeof_once := True, num_bits := num_bits a + 16\<rparr> else stbi__fill_bits a) else a)"
  have "zkeep a a1" using zkeep_fill [of a] by (auto simp: a1_def stbi__zeof_def zkeep_def zleft_def)
  moreover have "zkeep a1 b"
    using assms False unfolding stbi__zhuffman_decode_def a1_def [symmetric] Let_def
    by (auto intro: zkeep_slowpath intro!: zkeep_drop [OF diff_le_self] split: if_splits)
  ultimately show ?thesis by (rule zkeep_trans)
qed (use assms in \<open>simp add: stbi__zhuffman_decode_def\<close>)

lemma zkeep_extra: "zreceive_extra base extra a = (k, b) \<Longrightarrow> zkeep a b"
  by (auto simp: zreceive_extra_def split: if_splits prod.splits intro: zkeep_receive)

section \<open>Blocks with codes\<close>

text \<open>Between the written output and the end of its block there is room, and the block is limited.\<close>

definition zroom :: "nat \<Rightarrow> stbi__zbuf \<Rightarrow> bool" where
  "zroom l a \<longleftrightarrow> 0 < zb_limit a \<and> zb_limit a \<le> l \<and> 2 ^ 32 \<le> l \<and> length (zb_out a) \<le> zb_limit a"

lemma zroom_keep: "zkeep a b \<Longrightarrow> zroom l a \<Longrightarrow> zroom l b"
  by (simp add: zkeep_def zroom_def)

lemma zexpand_limit_result:
  assumes "0 < limit" and "limit \<le> l" and "2 ^ 32 \<le> l"
  shows "\<exists>r. zexpand_limit need limit = Some r \<and> (\<forall>m. r = Some m \<longrightarrow> need \<le> m \<and> 0 < m \<and> m \<le> l)"
  using assms
proof (induction need limit rule: zexpand_limit.induct)
  case (1 need limit)
  consider "need \<le> limit" | "\<not> need \<le> limit" "limit > (2 ^ 32 - 1) div 2" | "\<not> need \<le> limit" "\<not> limit > (2 ^ 32 - 1) div 2" by blast
  then show ?case
  proof cases
    case 3
    then have "\<exists>r. zexpand_limit need (limit * 2) = Some r \<and> (\<forall>m. r = Some m \<longrightarrow> need \<le> m \<and> 0 < m \<and> m \<le> l)"
      using 1 by simp
    then show ?thesis using 3 1(2) by (subst zexpand_limit.simps) simp
  qed (use 1 in \<open>simp_all add: zexpand_limit.simps\<close>)
qed

lemma zmake_room_result:
  assumes "zroom l a"
  shows "\<exists>r. zmake_room alloc n a = Some r \<and> (\<forall>b. r = Some b \<longrightarrow> zroom l b \<and> zb_out b = zb_out a \<and> zleft b = zleft a \<and>
     zb_in b = zb_in a \<and> length (zb_out b) + n \<le> zb_limit b)"
proof (cases "n > zb_limit a - length (zb_out a)")
  case True
  obtain r where "zexpand_limit (length (zb_out a) + n) (zb_limit a) = Some r" "\<forall>m. r = Some m \<longrightarrow> length (zb_out a) + n \<le> m \<and> 0 < m \<and> m \<le> l"
    using zexpand_limit_result [of "zb_limit a" l "length (zb_out a) + n"] assms by (auto simp: zroom_def)
  then show ?thesis using True assms
    by (auto simp: zmake_room_def stbi__zexpand_def zroom_def zleft_def split: option.split)
next
  case False
  then show ?thesis using assms by (auto simp: zmake_room_def zroom_def)
qed

lemma length_zcopy: "length (zcopy dist len out) = length out + len"
  by (induction dist len out rule: zcopy.induct) simp_all

lemma length_match: "length (zcopy_match dist len out) = length out + len"
  by (simp add: zcopy_match_def length_zcopy)

text \<open>A round of the loop that goes on adds to the output.\<close>

definition zadvances :: "nat \<Rightarrow> stbi__zbuf \<Rightarrow> zstep \<Rightarrow> bool" where
  "zadvances l a r =
     (case r of
        ZMore b \<Rightarrow> zroom l b \<and> zleft b \<le> zleft a \<and> length (zb_out a) < length (zb_out b)
      | ZDone b \<Rightarrow> zroom l b \<and> zleft b \<le> zleft a
      | ZFail \<Rightarrow> True
      | ZStuck \<Rightarrow> False)"

lemma zadvances_emit:
  assumes "zroom l a" and "zkeep a b" and "0 < n" and "length (f (zb_out b)) = length (zb_out b) + n"
  shows "zadvances l a (zemit alloc n f b)"
proof -
  have ab: "zroom l b" "zb_out b = zb_out a" "zleft b \<le> zleft a" using assms(1,2) zroom_keep by (auto simp: zkeep_def)
  obtain r where r: "zmake_room alloc n b = Some r" "\<forall>c. r = Some c \<longrightarrow> zroom l c \<and> zb_out c = zb_out b \<and> zleft c = zleft b \<and>
      zb_in c = zb_in b \<and> length (zb_out c) + n \<le> zb_limit c"
    using zmake_room_result [OF ab(1)] by blast
  show ?thesis
  proof (cases r)
    case None
    then show ?thesis using r(1) by (simp add: zemit_def zadvances_def)
  next
    case (Some c)
    then show ?thesis using r ab assms(3,4) by (auto simp: zemit_def zadvances_def zroom_def)
  qed
qed

lemma length_base_positive: "z < 286 \<Longrightarrow> 257 \<le> z \<Longrightarrow> 0 < stbi__zlength_base ! nat (z - 257)"
proof -
  assume "z < 286" "257 \<le> z"
  then have "nat (z - 257) < 29" by simp
  moreover have "list_all (\<lambda>i. 0 < stbi__zlength_base ! i) [0..<29]" by code_simp
  ultimately show ?thesis by (simp add: list_all_iff)
qed

lemma zadvances_step:
  assumes "zroom l a"
  shows "zadvances l a (zblock_step alloc a)"
proof -
  obtain z b where d: "stbi__zhuffman_decode (z_length a) a = (z, b)" by fastforce
  have b: "zkeep a b" by (rule zkeep_decode [OF d])
  consider "z < 0 \<or> 286 \<le> z" | "0 \<le> z" "z < 256" | "z = 256" | "257 \<le> z" "z < 286" by linarith
  then show ?thesis
  proof cases
    case 1
    then show ?thesis using d by (auto simp: zblock_step_def zadvances_def)
  next
    case 2
    then show ?thesis using d zadvances_emit [OF assms b, of 1] by (simp add: zblock_step_def)
  next
    case 3
    then show ?thesis using d b zroom_keep [OF b assms] by (simp add: zblock_step_def zadvances_def zkeep_def)
  next
    case 4
    define n where "n = nat (z - 257)"
    obtain len c where e: "zreceive_extra (stbi__zlength_base ! n) (stbi__zlength_extra ! n) b = (len, c)" by fastforce
    obtain y c' where f: "stbi__zhuffman_decode (z_distance c) c = (y, c')" by fastforce
    obtain dist c'' where g: "zreceive_extra (stbi__zdist_base ! nat y) (stbi__zdist_extra ! nat y) c' = (dist, c'')" by fastforce
    have k: "zkeep a c''" using b zkeep_extra [OF e] zkeep_decode [OF f] zkeep_extra [OF g] by (blast intro: zkeep_trans)
    have "0 < len" using e length_base_positive [OF 4(2,1)] by (auto simp: n_def zreceive_extra_def split: if_splits prod.splits)
    then have "zadvances l a (zemit alloc len (zcopy_match dist len) c'')"
      by (intro zadvances_emit [OF assms k]) (simp_all add: length_match)
    then show ?thesis using 4 d e f g by (simp add: zblock_step_def n_def [symmetric] zadvances_def)
  qed
qed

lemma huffman_block_returns:
  assumes "zroom l a"
  shows "\<exists>r. stbi__parse_huffman_block alloc a = Some r \<and> (\<forall>b. r = Some b \<longrightarrow> zroom l b \<and> zleft b \<le> zleft a)"
  using assms
proof (induction "l - length (zb_out a)" arbitrary: a rule: less_induct)
  case less
  have adv: "zadvances l a (zblock_step alloc a)" by (rule zadvances_step [OF less(2)])
  show ?case
  proof (cases "zblock_step alloc a")
    case (ZMore b)
    then have b: "zroom l b" "zleft b \<le> zleft a" "length (zb_out a) < length (zb_out b)" using adv by (simp_all add: zadvances_def)
    then have "l - length (zb_out b) < l - length (zb_out a)" by (auto simp: zroom_def)
    then obtain r where "stbi__parse_huffman_block alloc b = Some r" "\<forall>c. r = Some c \<longrightarrow> zroom l c \<and> zleft c \<le> zleft b"
      using less(1) b(1) by blast
    then show ?thesis using ZMore b(2) by (subst stbi__parse_huffman_block.simps) (auto intro: order_trans)
  next
    case (ZDone b)
    then show ?thesis using adv by (subst stbi__parse_huffman_block.simps) (simp add: zadvances_def)
  next
    case ZFail
    then show ?thesis by (subst stbi__parse_huffman_block.simps) simp
  next
    case ZStuck
    then show ?thesis using adv by (simp add: zadvances_def)
  qed
qed

section \<open>Tables in the data\<close>

lemma zkeep_codelengths: "fold zread_codelength is (sizes, a) = (sizes', b) \<Longrightarrow> zkeep a b"
proof (induction "is" arbitrary: sizes a)
  case (Cons i "is")
  obtain k c where c: "stbi__zreceive 3 a = (k, c)" by fastforce
  then have "zread_codelength i (sizes, a) = (sizes[length_dezigzag ! i := k], c)" by (simp add: zread_codelength_def)
  then have "fold zread_codelength is (sizes[length_dezigzag ! i := k], c) = (sizes', b)" using Cons(2) by simp
  then show ?case using Cons(1) zkeep_receive [OF c] by (blast intro: zkeep_trans)
qed simp

lemma zkeep_run: "zrun c l a = Some (v, n, b) \<Longrightarrow> zkeep a b"
  by (auto simp: zrun_def split: if_splits prod.splits intro: zkeep_receive)

lemma zkeep_lencodes: "zread_lencodes ntot zc l a = Some (l', b) \<Longrightarrow> zkeep a b"
proof (induction ntot zc l a rule: zread_lencodes.induct)
  case (1 ntot zc l a)
  show ?case
  proof (cases "length l < ntot")
    case True
    obtain c a1 where d: "stbi__zhuffman_decode zc a = (c, a1)" by fastforce
    have a1: "zkeep a a1" by (rule zkeep_decode [OF d])
    have ok: "0 \<le> c" "c < 19" using 1(3) True d by (subst (asm) zread_lencodes.simps, auto split: if_splits)+
    show ?thesis
    proof (cases "c < 16")
      case True
      then have "zread_lencodes ntot zc (l @ [nat c]) a1 = Some (l', b)"
        using 1(3) \<open>length l < ntot\<close> d ok by (subst (asm) zread_lencodes.simps) simp
      then show ?thesis using 1(1) [OF \<open>length l < ntot\<close> d [symmetric] refl] ok True a1 by (auto intro: zkeep_trans)
    next
      case False
      obtain v n a2 where r: "zrun c l a1 = Some (v, n, a2)" "\<not> ntot - length l < n" "zread_lencodes ntot zc (l @ replicate n v) a2 = Some (l', b)"
        using 1(3) \<open>length l < ntot\<close> d ok False by (subst (asm) zread_lencodes.simps) (auto split: option.splits if_splits)
      then have "zkeep a2 b" using 1(2) [OF \<open>length l < ntot\<close> d [symmetric] refl] ok False by auto
      then show ?thesis using a1 zkeep_run [OF r(1)] by (blast intro: zkeep_trans)
    qed
  qed (use 1(3) in \<open>simp add: zread_lencodes.simps\<close>)
qed

lemma zkeep_tables: "zkeep a (a\<lparr>z_length := zl, z_distance := zd\<rparr>)"
  by (simp add: zkeep_def)

lemma zkeep_codes:
  assumes "stbi__compute_huffman_codes stale a = Some b"
  shows "zkeep a b"
proof -
  obtain k1 a1 where r1: "stbi__zreceive 5 a = (k1, a1)" by fastforce
  obtain k2 a2 where r2: "stbi__zreceive 5 a1 = (k2, a2)" by fastforce
  obtain k3 a3 where r3: "stbi__zreceive 4 a2 = (k3, a3)" by fastforce
  obtain cs a4 where r4: "fold zread_codelength [0..<k3 + 4] (replicate 19 0, a3) = (cs, a4)" by fastforce
  obtain zc l a5 zl zd where r5: "zread_lencodes (k1 + 257 + (k2 + 1)) zc [] a4 = Some (l, a5)" "b = a5\<lparr>z_length := zl, z_distance := zd\<rparr>"
    using assms r1 r2 r3 r4 unfolding stbi__compute_huffman_codes_def by (auto simp: Let_def split: option.splits if_splits)
  have "zkeep a a3" by (rule zkeep_trans [OF zkeep_receive [OF r1] zkeep_trans [OF zkeep_receive [OF r2] zkeep_receive [OF r3]]])
  moreover have "zkeep a3 b"
    unfolding r5(2) by (rule zkeep_trans [OF zkeep_codelengths [OF r4] zkeep_trans [OF zkeep_lencodes [OF r5(1)] zkeep_tables]])
  ultimately show ?thesis by (rule zkeep_trans)
qed

lemma zkeep_fixed: "zfixed_codes a = Some b \<Longrightarrow> zkeep a b"
  by (auto simp: zfixed_codes_def zkeep_tables split: option.splits)

section \<open>Stored blocks\<close>

lemma zkeep_drain: "zdrain h a = (h', b) \<Longrightarrow> zkeep a b"
proof (induction h a rule: zdrain.induct)
  case (1 h a)
  show ?case
  proof (cases "num_bits a > 0")
    case True
    let ?c = "a\<lparr>code_buffer := drop_bit 8 (code_buffer a), num_bits := num_bits a - 8\<rparr>"
    have "zdrain (h @ [ucast (code_buffer a AND 255)]) ?c = (h', b)" using 1(2) True by (subst (asm) zdrain.simps) simp
    then show ?thesis using 1(1) [OF True] zkeep_drop [of "num_bits a - 8" a 8] by (auto intro: zkeep_trans)
  qed (use 1(2) in \<open>simp add: zdrain.simps\<close>)
qed

lemma zkeep_header: "zread_header h a = (h', b) \<Longrightarrow> zkeep a b"
proof (induction h a rule: zread_header.induct)
  case (1 h a)
  show ?case
  proof (cases "length h < 4")
    case True
    obtain x c where c: "stbi__zget8 a = (x, c)" by fastforce
    then have "zread_header (h @ [x]) c = (h', b)" using 1(2) True by (subst (asm) zread_header.simps) simp
    then show ?thesis using 1(1) [OF True c [symmetric]] zkeep_get8 [OF c] by (auto intro: zkeep_trans)
  qed (use 1(2) in \<open>simp add: zread_header.simps\<close>)
qed

lemma drain_zero:
  "zdrain h a = (h', b) \<Longrightarrow> zb_in a = [] \<Longrightarrow> code_buffer a = 0 \<Longrightarrow> zb_in b = [] \<and> (\<exists>k. h' = h @ replicate k 0)"
proof (induction h a rule: zdrain.induct)
  case (1 h a)
  show ?case
  proof (cases "num_bits a > 0")
    case True
    let ?c = "a\<lparr>code_buffer := drop_bit 8 (code_buffer a), num_bits := num_bits a - 8\<rparr>"
    have "zdrain (h @ [ucast (code_buffer a AND 255)]) ?c = (h', b)" using 1(2) True by (subst (asm) zdrain.simps) simp
    then have "zb_in b = [] \<and> (\<exists>k. h' = (h @ [ucast (code_buffer a AND 255)]) @ replicate k 0)" using 1(1) [OF True] 1(3,4) by simp
    then obtain k where "zb_in b = []" "h' = h @ replicate (Suc k) 0" using 1(4) by auto
    then show ?thesis by blast
  qed (use 1(2,3) in \<open>simp add: zdrain.simps\<close>)
qed

lemma header_zero: "zread_header h a = (h', b) \<Longrightarrow> zb_in a = [] \<Longrightarrow> 4 \<le> length h' \<and> (\<exists>k. h' = h @ replicate k 0)"
proof (induction h a rule: zread_header.induct)
  case (1 h a)
  show ?case
  proof (cases "length h < 4")
    case True
    have g: "stbi__zget8 a = (0, a)" using 1(3) by (simp add: stbi__zget8_def)
    then have "zread_header (h @ [0]) a = (h', b)" using 1(2) True by (subst (asm) zread_header.simps) simp
    then obtain k where "4 \<le> length h'" "h' = h @ replicate (Suc k) 0" using 1(1) [OF True g [symmetric]] 1(3) by auto
    then show ?thesis by blast
  qed (use 1(2) in \<open>simp add: zread_header.simps\<close>)
qed

text \<open>
  The states of a stored block: behind the last partial byte, behind the bit buffer, behind the
  header; then the bytes.
\<close>

definition stored_body :: "(nat \<Rightarrow> bool) \<Rightarrow> byte list \<Rightarrow> stbi__zbuf \<Rightarrow> stbi__zbuf option option" where
  "stored_body alloc h' a3 =
       (let len = unat (h' ! 1) * 256 + unat (h' ! 0); nlen = unat (h' ! 3) * 256 + unat (h' ! 2)
        in if nlen \<noteq> len XOR 0xffff then Some None
           else if len > length (zb_in a3) then Some None
           else (case zmake_room alloc len a3 of
                   None \<Rightarrow> None
                 | Some None \<Rightarrow> Some None
                 | Some (Some b) \<Rightarrow> Some (Some (b\<lparr>zb_out := zb_out b @ take len (zb_in b), zb_in := drop len (zb_in b)\<rparr>))))"

lemma stored_states:
  obtains a1 h a2 h' a3 where "a1 = (if num_bits a mod 8 \<noteq> 0 then snd (stbi__zreceive (num_bits a mod 8) a) else a)"
    "zdrain [] a1 = (h, a2)" "zread_header h a2 = (h', a3)"
    "stbi__parse_uncompressed_block alloc a = stored_body alloc h' a3"
proof -
  define a1 where "a1 = (if num_bits a mod 8 \<noteq> 0 then snd (stbi__zreceive (num_bits a mod 8) a) else a)"
  obtain h a2 where d: "zdrain [] a1 = (h, a2)" by fastforce
  obtain h' a3 where r: "zread_header h a2 = (h', a3)" by fastforce
  show ?thesis
    by (rule that [OF a1_def d r]) (simp only: stbi__parse_uncompressed_block_def stored_body_def a1_def [symmetric] d r Let_def prod.case)
qed

lemma stored_zero:
  assumes "zb_in a = []" and "code_buffer a = 0"
  shows "stbi__parse_uncompressed_block alloc a = Some None"
proof -
  obtain a1 h a2 h' a3 where s: "a1 = (if num_bits a mod 8 \<noteq> 0 then snd (stbi__zreceive (num_bits a mod 8) a) else a)"
      "zdrain [] a1 = (h, a2)" "zread_header h a2 = (h', a3)"
      "stbi__parse_uncompressed_block alloc a = stored_body alloc h' a3"
    using stored_states [of a alloc] .
  have "num_bits a mod 8 \<le> num_bits a" by (rule mod_less_eq_dividend)
  then have "zb_in a1 = []" "code_buffer a1 = 0" using assms s(1) by (simp_all add: stbi__zreceive_def)
  then obtain k where h: "zb_in a2 = []" "h = replicate k 0" using drain_zero [OF s(2)] by auto
  then obtain m where "4 \<le> length h'" "h' = replicate m 0" using header_zero [OF s(3)] by (auto simp: replicate_add [symmetric])
  then have "h' ! 0 = 0" "h' ! 1 = 0" "h' ! 2 = 0" "h' ! 3 = 0" by simp_all
  then show ?thesis using s(4) by (simp add: stored_body_def)
qed

lemma stored_returns:
  assumes "zroom l a"
  shows "\<exists>r. stbi__parse_uncompressed_block alloc a = Some r \<and> (\<forall>b. r = Some b \<longrightarrow> zroom l b \<and> zleft b \<le> zleft a)"
proof -
  obtain a1 h a2 h' a3 where s: "a1 = (if num_bits a mod 8 \<noteq> 0 then snd (stbi__zreceive (num_bits a mod 8) a) else a)"
      "zdrain [] a1 = (h, a2)" "zread_header h a2 = (h', a3)"
      "stbi__parse_uncompressed_block alloc a = stored_body alloc h' a3"
    using stored_states [of a alloc] .
  define len where "len = unat (h' ! 1) * 256 + unat (h' ! 0)"
  have "zkeep a a1" using s(1) zkeep_receive [of "num_bits a mod 8" a] by (cases "stbi__zreceive (num_bits a mod 8) a") auto
  then have k: "zkeep a a3" using zkeep_drain [OF s(2)] zkeep_header [OF s(3)] by (blast intro: zkeep_trans)
  obtain r where r: "zmake_room alloc len a3 = Some r" "\<forall>b. r = Some b \<longrightarrow> zroom l b \<and> zb_out b = zb_out a3 \<and> zleft b = zleft a3 \<and>
      zb_in b = zb_in a3 \<and> length (zb_out b) + len \<le> zb_limit b"
    using zmake_room_result [OF zroom_keep [OF k assms]] by blast
  have less: "zleft (b\<lparr>zb_out := x, zb_in := drop len (zb_in b)\<rparr>) \<le> zleft b" for b x
    using code_buffer_bound [of "code_buffer b"] by (auto simp: zleft_def)
  have fits: "zroom l (b\<lparr>zb_out := zb_out b @ take len (zb_in b), zb_in := drop len (zb_in b)\<rparr>) \<and>
      zleft (b\<lparr>zb_out := zb_out b @ take len (zb_in b), zb_in := drop len (zb_in b)\<rparr>) \<le> zleft a" if "r = Some b" for b
  proof
    have b: "zroom l b" "zleft b \<le> zleft a" "length (zb_out b) + len \<le> zb_limit b" using r(2) that k by (auto simp: zkeep_def)
    show "zroom l (b\<lparr>zb_out := zb_out b @ take len (zb_in b), zb_in := drop len (zb_in b)\<rparr>)" using b(1,3) by (simp add: zroom_def)
    show "zleft (b\<lparr>zb_out := zb_out b @ take len (zb_in b), zb_in := drop len (zb_in b)\<rparr>) \<le> zleft a" by (rule order_trans [OF less b(2)])
  qed
  show ?thesis using fits r(1) unfolding s(4) stored_body_def len_def [symmetric] Let_def by (cases r) auto
qed

section \<open>All blocks\<close>

text \<open>Two bits are taken from data, or the bits are zeros behind its end.\<close>

lemma receive_two:
  assumes "stbi__zreceive 2 a = (t, b)"
  shows "zleft b < zleft a \<or> t = 0 \<and> zb_in b = [] \<and> code_buffer b = 0"
proof -
  define c where "c = (if num_bits a < 2 then stbi__fill_bits a else a)"
  have c: "zkeep a c" "zb_in c = [] \<or> 2 \<le> num_bits c" using zkeep_fill [of a] by (auto simp: c_def)
  have b: "b = c\<lparr>code_buffer := drop_bit 2 (code_buffer c), num_bits := num_bits c - 2\<rparr>" and t: "t = unat (code_buffer c AND (push_bit 2 1 - 1))"
    using assms by (auto simp: stbi__zreceive_def c_def Let_def)
  show ?thesis
  proof (cases "zb_in c = []")
    case True
    then have e: "zb_in b = []" "code_buffer b = drop_bit 2 (code_buffer c)" "zleft b = unat (drop_bit 2 (code_buffer c))"
      "zleft c = unat (code_buffer c)" by (simp_all add: b zleft_def)
    show ?thesis
    proof (cases "code_buffer c = 0")
      case False
      then show ?thesis using e(3,4) unat_drop_bit_less [of 2 "code_buffer c"] c(1) by (simp add: zkeep_def)
    qed (use e t in simp)
  next
    case False
    then have "zleft b < zleft c" using c(2) by (simp add: b zleft_def)
    then show ?thesis using c(1) by (simp add: zkeep_def)
  qed
qed

lemma block_returns:
  assumes "zroom l a"
  shows "\<exists>r. zparse_block alloc stale a = Some r \<and> (\<forall>final b. r = Some (final, b) \<longrightarrow> zroom l b \<and> zleft b < zleft a)"
proof -
  obtain f a1 where r1: "stbi__zreceive 1 a = (f, a1)" by fastforce
  obtain t a2 where r2: "stbi__zreceive 2 a1 = (t, a2)" by fastforce
  have k1: "zkeep a a1" and k2: "zkeep a a2" using zkeep_receive [OF r1] zkeep_receive [OF r2] by (blast intro: zkeep_trans)+
  have room: "zroom l a2" by (rule zroom_keep [OF k2 assms])
  define c where "c = (if t = 1 then zfixed_codes a2 else stbi__compute_huffman_codes stale a2)"
  define r where "r = (if t = 0 then stbi__parse_uncompressed_block alloc a2 else if t = 3 then Some None
      else (case c of None \<Rightarrow> Some None | Some b \<Rightarrow> stbi__parse_huffman_block alloc b))"
  have block: "zparse_block alloc stale a = map_option (map_option (Pair (f \<noteq> 0))) r"
    by (simp only: zparse_block_def r1 r2 r_def c_def Let_def prod.case)
  have "\<exists>r'. r = Some r' \<and> (\<forall>b. r' = Some b \<longrightarrow> zroom l b \<and> zleft b \<le> zleft a2)"
  proof (cases "t = 0 \<or> t = 3")
    case True
    then show ?thesis using stored_returns [OF room] by (auto simp: r_def)
  next
    case False
    show ?thesis
    proof (cases c)
      case None
      then show ?thesis using False by (simp add: r_def)
    next
      case (Some b)
      then have k: "zkeep a2 b" using zkeep_fixed zkeep_codes by (auto simp: c_def split: if_splits)
      then obtain r' where "stbi__parse_huffman_block alloc b = Some r'" "\<forall>d. r' = Some d \<longrightarrow> zroom l d \<and> zleft d \<le> zleft b"
        using huffman_block_returns [OF zroom_keep [OF k room]] by blast
      moreover have "zleft b \<le> zleft a2" using k by (simp add: zkeep_def)
      ultimately show ?thesis using False Some by (auto simp: r_def intro: order_trans)
    qed
  qed
  moreover have "zleft a2 < zleft a \<or> r = Some None"
    using receive_two [OF r2] k1 stored_zero by (auto simp: r_def zkeep_def)
  ultimately show ?thesis unfolding block by (auto intro: order_le_less_trans)
qed

lemma blocks_return:
  assumes "zroom l a"
  shows "\<exists>r. zparse_blocks alloc stale a = Some r"
  using assms
proof (induction "zleft a" arbitrary: a rule: less_induct)
  case less
  obtain r where r: "zparse_block alloc stale a = Some r" "\<forall>final b. r = Some (final, b) \<longrightarrow> zroom l b \<and> zleft b < zleft a"
    using block_returns [OF less(2)] by blast
  then show ?case using less(1) by (subst zparse_blocks.simps) (auto split: option.split)
qed

lemma decode_returns:
  assumes "0 < initial_size"
  shows "\<exists>r. stbi_zlib_decode_malloc_guesssize_headerflag alloc stale buffer initial_size parse_header = Some r"
proof -
  have "\<exists>r. zparse_blocks alloc stale (a\<lparr>num_bits := 0, code_buffer := 0, hit_zeof_once := False\<rparr>) = Some r"
    if "zb_out a = []" "zb_limit a = initial_size" for a
    using that assms by (intro blocks_return [of "max initial_size (2 ^ 32)"]) (simp add: zroom_def)
  moreover have "zb_out b = zb_out a \<and> zb_limit b = zb_limit a" if "stbi__parse_zlib_header a = Some b" for a b
    using that by (auto simp: stbi__parse_zlib_header_def stbi__zget8_def Let_def split: list.splits if_splits prod.splits)
  ultimately have "\<exists>r. stbi__parse_zlib alloc stale parse_header a = Some r" if "zb_out a = []" "zb_limit a = initial_size" for a
    using that by (cases "if parse_header then stbi__parse_zlib_header a else Some a") (auto simp: stbi__parse_zlib_def split: if_splits)
  then have "\<exists>r. stbi__parse_zlib alloc stale parse_header
      \<lparr>zb_in = buffer, num_bits = 0, hit_zeof_once = False, code_buffer = 0, zb_out = [], zb_limit = initial_size,
        z_expandable = True, z_length = stale, z_distance = stale\<rparr> = Some r" by simp
  then show ?thesis unfolding stbi_zlib_decode_malloc_guesssize_headerflag_def by auto
qed

end
