(* ===== verification/ImageEnds.thy ===== *)
theory ImageEnds
  imports ImageLoad ZlibEnds
begin

text \<open>
  The image loader of \<open>src/common/stb_image.h\<close> ends on every input: each chunk of a PNG consumes
  data, a chunk behind the end of the data has the type 0 and is refused, and the zlib decoder
  ends (\<open>ZlibEnds\<close>).
\<close>

section \<open>Reads consume\<close>

definition reads :: "stbi__context \<Rightarrow> stbi__context \<Rightarrow> bool" where
  "reads s t \<longleftrightarrow> length (img_buffer t) \<le> length (img_buffer s) \<and> img_x t = img_x s \<and> img_y t = img_y s \<and> img_n t = img_n s"

lemma reads_refl [simp]: "reads s s"
  by (simp add: reads_def)

lemma reads_trans: "reads s t \<Longrightarrow> reads t u \<Longrightarrow> reads s u"
  by (simp add: reads_def)

lemma reads_get8: "stbi__get8 s = (b, t) \<Longrightarrow> reads s t"
  by (auto simp: stbi__get8_def reads_def split: list.splits)

lemma reads_get16be: "stbi__get16be s = (b, t) \<Longrightarrow> reads s t"
  by (auto simp: stbi__get16be_def split: prod.splits intro: reads_trans dest!: reads_get8)

lemma reads_get32be: "stbi__get32be s = (b, t) \<Longrightarrow> reads s t"
  by (auto simp: stbi__get32be_def split: prod.splits intro: reads_trans dest!: reads_get16be)

lemma reads_snd: "reads s (snd (stbi__get32be s))"
  by (rule reads_get32be) (rule surjective_pairing)

lemma reads_get8s: "stbi__get8s n s = (bs, t) \<Longrightarrow> reads s t"
  by (induction n s arbitrary: bs rule: stbi__get8s.induct) (auto split: prod.splits intro: reads_trans dest!: reads_get8)

lemma reads_get16bes: "stbi__get16bes n s = (bs, t) \<Longrightarrow> reads s t"
  by (induction n s arbitrary: bs rule: stbi__get16bes.induct) (auto split: prod.splits intro: reads_trans dest!: reads_get16be)

lemma reads_skip: "reads s (stbi__skip n s)"
  by (simp add: stbi__skip_def reads_def)

lemma reads_getn: "stbi__getn n s = Some (bs, t) \<Longrightarrow> reads s t"
  by (auto simp: stbi__getn_def reads_def split: if_splits)

section \<open>Chunks\<close>

text \<open>Behind the header chunk the picture has lines.\<close>

definition png_ok :: "stbi__png \<Rightarrow> bool" where
  "png_ok z \<longleftrightarrow> pz_first z \<or> 0 < img_y (pz_s z)"

definition chunk_ends :: "stbi__png \<Rightarrow> png_step \<Rightarrow> bool" where
  "chunk_ends z r =
     (case r of
        PngNext z' \<Rightarrow> png_ok z' \<and> length (img_buffer (pz_s z')) \<le> length (img_buffer (pz_s z))
      | PngStuck \<Rightarrow> False
      | _ \<Rightarrow> True)"

lemma ends_read:
  assumes "png_ok z" and "pz_first z' = pz_first z" and "reads (pz_s z) (pz_s z')"
  shows "chunk_ends z (PngNext z')"
  using assms by (simp add: chunk_ends_def png_ok_def reads_def)

lemma ends_ihdr: "chunk_ends z (png_ihdr len z)"
proof -
  obtain x s1 where r1: "stbi__get32be (pz_s z) = (x, s1)" by fastforce
  obtain y s2 where r2: "stbi__get32be s1 = (y, s2)" by fastforce
  obtain depth s3 where r3: "stbi__get8 s2 = (depth, s3)" by fastforce
  obtain color s4 where r4: "stbi__get8 s3 = (color, s4)" by fastforce
  obtain cm s5 where r5: "stbi__get8 s4 = (cm, s5)" by fastforce
  obtain fl s6 where r6: "stbi__get8 s5 = (fl, s6)" by fastforce
  obtain il s7 where r7: "stbi__get8 s6 = (il, s7)" by fastforce
  have "length (img_buffer s7) \<le> length (img_buffer (pz_s z))"
    using reads_get32be [OF r1] reads_get32be [OF r2] reads_get8 [OF r3] reads_get8 [OF r4] reads_get8 [OF r5] reads_get8 [OF r6] reads_get8 [OF r7]
    by (simp add: reads_def)
  then show ?thesis by (simp add: png_ihdr_def r1 r2 r3 r4 r5 r6 r7 chunk_ends_def png_ok_def Let_def)
qed

lemma ends_plte: "png_ok z \<Longrightarrow> chunk_ends z (png_plte len z)"
  by (auto simp: png_plte_def Let_def chunk_ends_def png_ok_def split: prod.split dest!: reads_get8s) (auto simp: reads_def)

lemma ends_trns: "png_ok z \<Longrightarrow> chunk_ends z (png_trns scan len z)"
  by (auto simp: png_trns_def Let_def chunk_ends_def png_ok_def split: prod.split dest!: reads_get8s reads_get16bes) (auto simp: reads_def)

lemma ends_idat: "png_ok z \<Longrightarrow> chunk_ends z (png_idat alloc scan len z)"
  by (auto simp: png_idat_def Let_def chunk_ends_def png_ok_def split: option.split prod.split dest!: reads_getn) (auto simp: reads_def)

lemma ends_iend:
  assumes "png_ok z"
  shows "chunk_ends z (png_iend env opts scan req_comp z)"
proof (cases "pz_first z \<or> scan \<noteq> STBI__SCAN_load \<or> pz_idata z = None")
  case False
  then obtain idata where d: "pz_idata z = Some idata" "\<not> pz_first z" "scan = STBI__SCAN_load" by auto
  define n where "n = size_of_u32 ((img_x (pz_s z) * pz_depth z + 7) div 8 * img_y (pz_s z) * img_n (pz_s z) + img_y (pz_s z))"
  have "0 < n" using assms d(2) by (simp add: n_def size_of_u32_def png_ok_def)
  then obtain r where "stbi_zlib_decode_malloc_guesssize_headerflag (pe_alloc env) (pe_tables env) idata n (\<not> pz_is_iphone z) = Some r"
    using decode_returns by blast
  then show ?thesis using d by (auto simp: png_iend_def n_def Let_def chunk_ends_def split: option.split)
qed (auto simp: png_iend_def chunk_ends_def)

lemma ends_chunk:
  assumes "png_ok z"
  shows "chunk_ends z (png_chunk env opts scan req_comp c z)"
  unfolding png_chunk_def Let_def
  using ends_ihdr ends_plte [OF assms] ends_trns [OF assms] ends_idat [OF assms] ends_iend [OF assms] ends_read [OF assms] reads_skip
  by (simp add: chunk_ends_def [of z PngFail])

section \<open>The loop over the chunks\<close>

lemma header_empty: "img_buffer s = [] \<Longrightarrow> stbi__get_chunk_header s = (\<lparr>chunk_length = 0, chunk_type = 0\<rparr>, s)"
  by (simp add: stbi__get_chunk_header_def stbi__get32be_def stbi__get16be_def stbi__get8_def)

lemma header_reads:
  assumes "stbi__get_chunk_header s = (c, t)"
  shows "reads s t"
  using assms by (auto simp: stbi__get_chunk_header_def split: prod.splits intro: reads_trans dest!: reads_get32be)

lemma get32be_shorter: "img_buffer s \<noteq> [] \<Longrightarrow> length (img_buffer (snd (stbi__get32be s))) < length (img_buffer s)"
proof -
  assume "img_buffer s \<noteq> []"
  then obtain b r where b: "img_buffer s = b # r" by (cases "img_buffer s") auto
  obtain z s1 where s1: "stbi__get8 (s\<lparr>img_buffer := r\<rparr>) = (z, s1)" by fastforce
  obtain w s2 where s2: "stbi__get16be s1 = (w, s2)" by fastforce
  have "stbi__get32be s = ((unat b * 2 ^ 8 + unat z) * 2 ^ 16 + w, s2)"
    using s1 s2 by (simp add: stbi__get32be_def stbi__get16be_def [of s] get8_Cons [OF b])
  then show ?thesis using reads_get8 [OF s1] reads_get16be [OF s2] b by (simp add: reads_def)
qed

lemma header_shorter: "img_buffer s \<noteq> [] \<Longrightarrow> length (img_buffer (snd (stbi__get_chunk_header s))) < length (img_buffer s)"
  using get32be_shorter [of s] reads_snd [of "snd (stbi__get32be s)"]
  by (auto simp: stbi__get_chunk_header_def reads_def split: prod.split)

lemma next_chunk_ends:
  assumes "png_ok z"
  shows "png_next_chunk env opts scan req_comp z \<noteq> PngStuck \<and>
     (\<forall>z'. png_next_chunk env opts scan req_comp z = PngNext z' \<longrightarrow>
        png_ok z' \<and> length (img_buffer (pz_s z')) < length (img_buffer (pz_s z)))"
proof -
  obtain c s where h: "stbi__get_chunk_header (pz_s z) = (c, s)" by fastforce
  let ?z = "z\<lparr>pz_s := s\<rparr>"
  have ok: "png_ok ?z" using assms header_reads [OF h] by (simp add: png_ok_def reads_def)
  have e: "chunk_ends ?z (png_chunk env opts scan req_comp c ?z)" by (rule ends_chunk [OF ok])
  have nx: "png_next_chunk env opts scan req_comp z =
      (case png_chunk env opts scan req_comp c ?z of PngNext z \<Rightarrow> PngNext (z\<lparr>pz_s := snd (stbi__get32be (pz_s z))\<rparr>) | r \<Rightarrow> r)"
    by (simp add: png_next_chunk_def h)
  show ?thesis
  proof (cases "png_chunk env opts scan req_comp c ?z")
    case (PngNext z1)
    have "img_buffer (pz_s z) \<noteq> []"
    proof
      assume "img_buffer (pz_s z) = []"
      then have "c = \<lparr>chunk_length = 0, chunk_type = 0\<rparr>" using h header_empty by simp
      then show False using PngNext by (simp add: png_chunk_def type_values split: if_splits)
    qed
    then have "length (img_buffer s) < length (img_buffer (pz_s z))" using header_shorter h by force
    then show ?thesis using PngNext nx e reads_snd [of "pz_s z1"] by (auto simp: chunk_ends_def png_ok_def reads_def)
  next
    case PngStuck
    then show ?thesis using e by (simp add: chunk_ends_def)
  qed (use nx in simp_all)
qed

lemma chunks_return:
  assumes "png_ok z"
  shows "\<exists>r. png_chunks env opts scan req_comp z = Some r"
  using assms
proof (induction "length (img_buffer (pz_s z))" arbitrary: z rule: less_induct)
  case less
  have n: "png_next_chunk env opts scan req_comp z \<noteq> PngStuck"
    "png_next_chunk env opts scan req_comp z = PngNext z' \<Longrightarrow> png_ok z' \<and> length (img_buffer (pz_s z')) < length (img_buffer (pz_s z))" for z'
    using next_chunk_ends [OF less(2)] by blast+
  show ?case
  proof (cases "png_next_chunk env opts scan req_comp z")
    case (PngNext z')
    then show ?thesis using less(1) n(2) by (subst png_chunks.simps) simp
  qed (use n(1) in \<open>simp_all add: png_chunks.simps\<close>)
qed

lemma do_png_returns: "\<exists>r. stbi__do_png env opts req_comp s = Some r"
proof -
  have "\<exists>r. stbi__parse_png_file env opts STBI__SCAN_load req_comp s = Some r"
    using chunks_return [of "png_start env (snd (stbi__check_png_header s))" env opts STBI__SCAN_load req_comp]
    by (auto simp: stbi__parse_png_file_def Let_def png_ok_def png_start_def split: prod.split)
  then show ?thesis by (auto simp: stbi__do_png_def Let_def split: option.split)
qed

lemma load_returns:
  assumes "\<forall>b. \<exists>r. other b req_comp = Some r"
  shows "\<exists>r. stbi_load_from_memory env opts other buffer len req_comp = Some r"
proof -
  have "\<exists>r. stbi__load_main env opts other req_comp s = Some r" for s
    using do_png_returns assms by (simp add: stbi__load_main_def)
  then show ?thesis
    by (auto simp: stbi_load_from_memory_def stbi__load_and_postprocess_8bit_def Let_def split: option.split)
qed



end
