(* ===== verification/ImageSizes.thy ===== *)
theory ImageSizes
  imports ImageEnds
begin

text \<open>
  The pictures of the image loader of \<open>src/common/stb_image.h\<close> have the size they claim: whatever the
  file, PNG of any depth, interlaced or with a palette, or BMP of any kind, width times height times
  channels samples are returned, all written inside the block allocated for them.
\<close>

section \<open>Lines\<close>

lemma length_unfilter_loop: "length (unfilter_loop p raw ks cur) = length cur + length ks"
  unfolding unfilter_loop_def by (induction ks arbitrary: cur) simp_all

lemma length_unfilter_line: "fb \<le> nk \<Longrightarrow> nk \<le> length raw \<Longrightarrow> length (unfilter_line f fb nk raw prior) = nk"
  by (cases f) (simp_all add: length_unfilter_loop)

lemma length_png_rows:
  assumes "png_rows fb nk y first raw prior = Some rows" and "fb \<le> nk" and "(nk + 1) * y \<le> length raw"
  shows "length rows = y \<and> (\<forall>r \<in> set rows. length r = nk)"
  using assms
proof (induction y arbitrary: first raw prior rows)
  case (Suc y)
  let ?cur = "unfilter_line ((if first then first_row_filter else later_row_filter) ! unat (hd raw)) fb nk (tl raw) prior"
  have raw: "nk \<le> length (tl raw)" "(nk + 1) * y \<le> length (drop nk (tl raw))" using Suc(4) by simp_all
  obtain r where r: "png_rows fb nk y False (drop nk (tl raw)) ?cur = Some r" "rows = ?cur # r"
    using Suc(2) by (auto simp: Let_def split: if_splits)
  then show ?case using Suc(1) [OF r(1) Suc(3) raw(2)] length_unfilter_line [OF Suc(3) raw(1)] by simp
qed simp

lemma length_concat_groups:
  assumes "nch * k \<le> length d" and "\<And>p. length p = nch \<Longrightarrow> length (f p) = m"
  shows "length (concat (map f (pixel_groups nch k d))) = k * m"
  using assms pixels_lengths [OF assms(1)] by (subst length_concat_const [where k = m]) simp_all

lemma length_alpha_expand: "nch * x \<le> length src \<Longrightarrow> length (stbi__create_png_alpha_expand8 src x nch) = x * (nch + 1)"
  unfolding stbi__create_png_alpha_expand8_def by (rule length_concat_groups) simp_all

text \<open>The depths and channels a PNG may have.\<close>

definition png_depths :: "nat \<Rightarrow> bool" where
  "png_depths d \<longleftrightarrow> d = 1 \<or> d = 2 \<or> d = 4 \<or> d = 8 \<or> d = 16"

lemma length_row8:
  assumes "png_depths depth" and "depth \<noteq> 16" and "out_n = nch \<or> out_n = nch + 1" and "length cur = png_width_bytes nch x depth"
  shows "length (png_row8 depth color nch out_n x cur) = x * out_n"
proof -
  let ?d = "if depth < 8 then unpack_bits depth (if color = 0 then stbi__depth_scale_table ! depth else 1) (x * nch) cur else take (x * nch) cur"
  have "\<not> depth < 8 \<Longrightarrow> depth = 8" using assms(1,2) by (auto simp: png_depths_def)
  then have "length ?d = x * nch" using assms(4) by (auto simp: unpack_bits_def png_width_bytes_def)
  then show ?thesis using assms(3) length_alpha_expand [of nch x ?d] by (auto simp: png_row8_def Let_def mult.commute)
qed

lemma length_row16:
  assumes "out_n = nch \<or> out_n = nch + 1"
  shows "length (png_row16 nch out_n x cur) = x * out_n"
proof -
  let ?d = "map (\<lambda>i. unat (cur ! (2 * i)) * 2 ^ 8 + unat (cur ! (2 * i + 1))) [0..<x * nch]"
  have "length (concat (map (\<lambda>p. p @ [0xffff]) (pixel_groups nch x ?d))) = x * (nch + 1)"
    by (rule length_concat_groups) (simp_all add: mult.commute)
  then show ?thesis using assms by (auto simp: png_row16_def Let_def)
qed

lemma length_raw:
  assumes "stbi__create_png_image_raw alloc row nch raw out_n x y depth = Some l" and "png_depths depth" and "0 < x" and "0 < nch"
    and "\<And>cur. length cur = png_width_bytes nch x depth \<Longrightarrow> length (row x cur) = x * out_n"
  shows "length l = x * y * out_n"
proof -
  define fb where "fb = (if depth < 8 then 1 else nch * (if depth = 16 then 2 else 1))"
  obtain rows where rows: "png_rows fb (png_width_bytes nch x depth) y True raw [] = Some rows" "l = concat (map (row x) rows)"
      "(png_width_bytes nch x depth + 1) * y \<le> length raw"
    using assms(1) by (auto simp: stbi__create_png_image_raw_def fb_def Let_def split: if_splits)
  define p where "p = nch * x"
  have p: "1 \<le> p" "nch \<le> p" using assms(3,4) by (simp_all add: p_def)
  have "fb \<le> (p * depth + 7) div 8"
    using p assms(2) by (auto simp: fb_def png_depths_def less_eq_div_iff_mult_less_eq)
  then have "fb \<le> png_width_bytes nch x depth" by (simp add: png_width_bytes_def p_def)
  then have "length rows = y" "\<forall>r \<in> set rows. length r = png_width_bytes nch x depth" using length_png_rows [OF rows(1) _ rows(3)] by auto
  then show ?thesis unfolding rows(2) by (subst length_concat_const [where k = "x * out_n"]) (simp_all add: assms(5))
qed

section \<open>Interlaced pictures\<close>

lemma length_put_samples: "off + length p \<le> length l \<Longrightarrow> length (put_samples off p l) = length l"
  by (simp add: put_samples_def)

lemma length_fold: "(\<And>a l. a \<in> set as \<Longrightarrow> length l = n \<Longrightarrow> length (f a l) = n) \<Longrightarrow> length l = n \<Longrightarrow> length (fold f as l) = n"
  by (induction as arbitrary: l) simp_all

lemma pass_index:
  fixes i :: nat
  assumes "i < (w + s - 1 - o') div s" and "o' < s"
  shows "i * s + o' < w"
proof -
  have "Suc i * s \<le> (w + s - 1 - o') div s * s" using assms(1) by (intro mult_le_mono1) simp
  also have "\<dots> \<le> w + s - 1 - o'" by (rule div_times_less_eq_dividend)
  finally show ?thesis using assms(2) by simp
qed

lemma piece_fits:
  fixes r :: nat
  assumes "r < height" and "c < width"
  shows "(r * width + c) * out_n + out_n \<le> width * height * out_n"
proof -
  have "r * width + c < r * width + width" using assms(2) by simp
  also have "\<dots> \<le> height * width" using assms(1) mult_le_mono1 [of "Suc r" height width] by (simp add: ac_simps)
  finally have "Suc (r * width + c) * out_n \<le> height * width * out_n" by (intro mult_le_mono1) simp
  then show ?thesis by (simp add: ac_simps)
qed

lemma length_spread:
  assumes "length out = x * y * out_n" and "x = (width + xs - 1 - xo) div xs" and "y = (height + ys - 1 - yo) div ys" and "xo < xs" and "yo < ys"
    and "length final = width * height * out_n"
  shows "length (spread_pass width out_n xo yo xs ys x y out final) = width * height * out_n"
  unfolding spread_pass_def
proof (rule length_fold [OF length_fold assms(6)])
  fix j i and l :: "'a list"
  assume ji: "j \<in> set [0..<y]" "i \<in> set [0..<x]" and l: "length l = width * height * out_n"
  have "(j * ys + yo) < height" "(i * xs + xo) < width" using ji assms(2-5) by (auto intro: pass_index)
  from piece_fits [OF this, of out_n] show "length (put_samples (((j * ys + yo) * width + (i * xs + xo)) * out_n)
      (take out_n (drop ((j * x + i) * out_n) out)) l) = width * height * out_n"
    using l by (subst length_put_samples) auto
qed

lemma length_passes:
  assumes "png_passes raw line width height out_n ps d final = Some l" and "\<forall>(xo, yo, xs, ys) \<in> set ps. xo < xs \<and> yo < ys"
    and "\<And>d x y out. raw d x y = Some out \<Longrightarrow> 0 < x \<Longrightarrow> length out = x * y * out_n" and "length final = width * height * out_n"
  shows "length l = width * height * out_n"
  using assms(1,2,4)
proof (induction ps arbitrary: d final)
  case (Cons p ps)
  obtain xo yo xs ys where p: "p = (xo, yo, xs, ys)" by (cases p) auto
  define x where "x = (width + xs - 1 - xo) div xs"
  define y where "y = (height + ys - 1 - yo) div ys"
  have o: "xo < xs" "yo < ys" using Cons(3) p by simp_all
  show ?case
  proof (cases "x \<noteq> 0 \<and> y \<noteq> 0")
    case True
    then obtain out where out: "raw d x y = Some out"
        "png_passes raw line width height out_n ps (drop ((line x + 1) * y) d) (spread_pass width out_n xo yo xs ys x y out final) = Some l"
      using Cons(2) by (auto simp: p x_def y_def Let_def split: option.splits)
    have "length out = x * y * out_n" using assms(3) [OF out(1)] True by simp
    from length_spread [OF this x_def y_def o Cons(4)] show ?thesis using Cons(1) [OF out(2)] Cons(3) by simp
  next
    case False
    then show ?thesis using Cons by (auto simp: p x_def y_def Let_def)
  qed
qed simp

lemma length_png_image:
  assumes "png_image alloc row fresh s d out_n depth interlaced = Some l" and "png_depths depth" and "0 < img_x s" and "0 < img_n s"
    and "\<And>x cur. length cur = png_width_bytes (img_n s) x depth \<Longrightarrow> length (row x cur) = x * out_n"
  shows "length l = img_x s * img_y s * out_n"
proof -
  have raw: "length out = x * y * out_n" if "stbi__create_png_image_raw alloc row (img_n s) d out_n x y depth = Some out" "0 < x" for d x y out
    using length_raw [OF that(1) assms(2) that(2) assms(4,5)] .
  have a: "\<forall>(xo, yo, xs, ys) \<in> set adam7. xo < xs \<and> yo < ys" by (simp add: adam7_def)
  show ?thesis
  proof (cases interlaced)
    case True
    then show ?thesis using assms(1) length_passes [OF _ a raw] by (auto simp: png_image_def Let_def split: if_splits)
  next
    case False
    then show ?thesis using assms(1,3) raw by (simp add: png_image_def)
  qed
qed

section \<open>The end of a PNG\<close>

definition stb_len :: "stb_samples \<Rightarrow> nat" where
  "stb_len d = (case d of S8 l \<Rightarrow> length l | S16 l \<Rightarrow> length l)"

lemma stb_len_simps [simp]: "stb_len (S8 l) = length l" "stb_len (S16 m) = length m"
  by (simp_all add: stb_len_def)

lemma length_create_image:
  assumes "stbi__create_png_image env s d out_n depth color interlaced = Some out" and "png_depths depth" and "0 < img_x s" and "0 < img_n s"
    and "out_n = img_n s \<or> out_n = img_n s + 1"
  shows "stb_len out = img_x s * img_y s * out_n"
proof (cases "depth = 16")
  case True
  then obtain l where l: "png_image (pe_alloc env) (png_row16 (img_n s) out_n)
      (\<lambda>i. unat (pe_heap env (2 * i)) + unat (pe_heap env (2 * i + 1)) * 2 ^ 8) s d out_n depth interlaced = Some l" "out = S16 l"
    using assms(1) by (auto simp: stbi__create_png_image_def)
  have "length l = img_x s * img_y s * out_n" by (rule length_png_image [OF l(1) assms(2-4) length_row16 [OF assms(5)]])
  then show ?thesis using l(2) by simp
next
  case False
  then obtain l where l: "png_image (pe_alloc env) (png_row8 depth color (img_n s) out_n) (pe_heap env) s d out_n depth interlaced = Some l" "out = S8 l"
    using assms(1) by (auto simp: stbi__create_png_image_def)
  have "length l = img_x s * img_y s * out_n" by (rule length_png_image [OF l(1) assms(2-4) length_row8 [OF assms(2) False assms(5)]])
  then show ?thesis using l(2) by simp
qed

lemma length_transparent: "length p = out_n \<Longrightarrow> length (transparent_pixel opaque tc out_n p) = out_n"
  by (simp add: transparent_pixel_def)

lemma length_transparency:
  "out_n * k \<le> length l \<Longrightarrow> length (stbi__compute_transparency k tc out_n l) = k * out_n"
  "out_n * k \<le> length m \<Longrightarrow> length (stbi__compute_transparency16 k tc16 out_n m) = k * out_n"
  unfolding stbi__compute_transparency_def stbi__compute_transparency16_def
  by (rule length_concat_groups; simp add: length_transparent)+

lemma length_palette:
  assumes "stbi__expand_png_palette alloc k pal n orig = Some l" and "length pal = 1024" and "n = 3 \<or> n = 4" and "k \<le> length orig"
  shows "length l = k * n"
proof -
  have "length (take n (drop (unat v * 4) pal)) = n" for v :: byte
  proof -
    have "unat v < 2 ^ LENGTH(8)" by (rule unsigned_less)
    then have "unat v * 4 + n \<le> length pal" using assms(2,3) by auto
    then show ?thesis by simp
  qed
  then have "length (concat (map (\<lambda>v. take n (drop (unat v * 4) pal)) (take k orig))) = k * n"
    using assms(4) by (subst length_concat_const [where k = n]) simp_all
  then show ?thesis using assms(1,3) by (auto simp: stbi__expand_png_palette_def split: if_splits)
qed

text \<open>What every chunk keeps.\<close>

definition png_shape :: "stbi__png \<Rightarrow> bool" where
  "png_shape z \<longleftrightarrow> length (pz_palette z) = 1024 \<and>
     (pz_first z \<or> 0 < img_x (pz_s z) \<and> 0 < img_y (pz_s z) \<and> 0 < img_n (pz_s z) \<and> png_depths (pz_depth z) \<and> pz_pal_img_n z \<in> {0, 3, 4})"

definition png_sized :: "stbi__png \<Rightarrow> bool" where
  "png_sized z \<longleftrightarrow> stb_len (pz_out z) = img_x (pz_s z) * img_y (pz_s z) * img_out_n (pz_s z)"

lemma finish_sized:
  assumes "png_finish env opts req_comp expanded z = Some z'" and "png_shape z" and "\<not> pz_first z" and "\<not> de_iphone_flag opts" and "req_comp \<le> 4"
  shows "png_sized z'"
proof -
  let ?s = "pz_s z" and ?k = "img_x (pz_s z) * img_y (pz_s z)"
  have z: "length (pz_palette z) = 1024" "0 < img_x ?s" "0 < img_n ?s" "png_depths (pz_depth z)" "pz_pal_img_n z \<in> {0, 3, 4}"
    using assms(2,3) by (simp_all add: png_shape_def)
  define out_n where "out_n = (if (req_comp = img_n ?s + 1 \<and> req_comp \<noteq> 3 \<and> pz_pal_img_n z = 0) \<or> pz_has_trans z then img_n ?s + 1 else img_n ?s)"
  have on: "out_n = img_n ?s \<or> out_n = img_n ?s + 1" "0 < out_n" using z(3) by (simp_all add: out_n_def)
  obtain out where out: "stbi__create_png_image env ?s expanded out_n (pz_depth z) (pz_color z) (pz_interlace z) = Some out"
    using assms(1) by (auto simp: png_finish_def Let_def out_n_def split: option.splits)
  have len: "stb_len out = ?k * out_n" by (rule length_create_image [OF out z(4,2,3) on(1)])
  define out1 where "out1 = (if pz_has_trans z then
      (case out of S8 l \<Rightarrow> S8 (stbi__compute_transparency ?k (pz_tc z) out_n l) | S16 l \<Rightarrow> S16 (stbi__compute_transparency16 ?k (pz_tc16 z) out_n l)) else out)"
  have len1: "stb_len out1 = ?k * out_n"
    using len length_transparency [of out_n ?k] by (cases out) (simp_all add: out1_def mult.commute)
  define m where "m = (if req_comp \<ge> 3 then req_comp else pz_pal_img_n z)"
  have fin: "png_finish env opts req_comp expanded z =
      (if pz_pal_img_n z \<noteq> 0 then
         (case out1 of
            S8 l \<Rightarrow> map_option (\<lambda>l. z\<lparr>pz_out := S8 l, pz_s := ?s\<lparr>img_n := pz_pal_img_n z, img_out_n := m\<rparr>\<rparr>)
                      (stbi__expand_png_palette (pe_alloc env) ?k (pz_palette z) m l)
          | S16 l \<Rightarrow> None)
       else Some (z\<lparr>pz_out := out1, pz_s := ?s\<lparr>img_n := (if pz_has_trans z then img_n ?s + 1 else img_n ?s), img_out_n := out_n\<rparr>\<rparr>))"
    using out assms(4) unfolding png_finish_def Let_def out_n_def [symmetric] out1_def m_def by simp
  show ?thesis
  proof (cases "pz_pal_img_n z = 0")
    case True
    then show ?thesis using assms(1) [unfolded fin] len1 by (auto simp: png_sized_def)
  next
    case False
    then have m: "m = 3 \<or> m = 4" using z(5) assms(5) by (auto simp: m_def)
    obtain l l' where l: "out1 = S8 l" "stbi__expand_png_palette (pe_alloc env) ?k (pz_palette z) m l = Some l'"
        "z' = z\<lparr>pz_out := S8 l', pz_s := ?s\<lparr>img_n := pz_pal_img_n z, img_out_n := m\<rparr>\<rparr>"
      using assms(1) [unfolded fin] False by (auto split: stb_samples.splits)
    have "?k \<le> length l" using len1 l(1) on(2) by simp
    from length_palette [OF l(2) z(1) m this] show ?thesis by (simp add: png_sized_def l(3))
  qed
qed

section \<open>Chunks\<close>

lemma shape_ihdr:
  assumes "png_ihdr len z = PngNext z'" and "length (pz_palette z) = 1024"
  shows "png_shape z'"
proof -
  obtain x s1 where r1: "stbi__get32be (pz_s z) = (x, s1)" by fastforce
  obtain y s2 where r2: "stbi__get32be s1 = (y, s2)" by fastforce
  obtain depth s3 where r3: "stbi__get8 s2 = (depth, s3)" by fastforce
  obtain color s4 where r4: "stbi__get8 s3 = (color, s4)" by fastforce
  obtain cm s5 where r5: "stbi__get8 s4 = (cm, s5)" by fastforce
  obtain fl s6 where r6: "stbi__get8 s5 = (fl, s6)" by fastforce
  obtain il s7 where r7: "stbi__get8 s6 = (il, s7)" by fastforce
  show ?thesis using assms
    by (auto simp: png_ihdr_def r1 r2 r3 r4 r5 r6 r7 png_shape_def png_depths_def Let_def split: if_splits)
qed

lemma shape_same:
  assumes "png_shape z" and "pz_first z' = pz_first z" and "img_x (pz_s z') = img_x (pz_s z)" and "img_y (pz_s z') = img_y (pz_s z)"
    and "img_n (pz_s z') = img_n (pz_s z)" and "pz_depth z' = pz_depth z" and "pz_pal_img_n z' \<in> {pz_pal_img_n z, 4}"
    and "length (pz_palette z') = length (pz_palette z)"
  shows "png_shape z'"
  using assms by (auto simp: png_shape_def)

lemma shape_plte:
  assumes "png_plte len z = PngNext z'" and "png_shape z"
  shows "png_shape z'"
proof -
  obtain bs s where r: "stbi__get8s (len div 3 * 3) (pz_s z) = (bs, s)" by fastforce
  have "length (fold (\<lambda>i p. p[i * 4 := bs ! (3 * i), i * 4 + 1 := bs ! (3 * i + 1), i * 4 + 2 := bs ! (3 * i + 2), i * 4 + 3 := 255])
      [0..<len div 3] (pz_palette z)) = length (pz_palette z)" by (rule length_fold) simp_all
  then show ?thesis using assms r reads_get8s [OF r]
    by (intro shape_same [OF assms(2)]) (auto simp: png_plte_def reads_def Let_def split: if_splits)
qed

lemma shape_trns:
  assumes "png_trns STBI__SCAN_load len z = PngNext z'" and "png_shape z"
  shows "png_shape z'"
proof (cases "pz_pal_img_n z = 0")
  case False
  obtain bs s where r: "stbi__get8s len (pz_s z) = (bs, s)" by fastforce
  have "length (fold (\<lambda>i p. p[i * 4 + 3 := bs ! i]) [0..<len] (pz_palette z)) = length (pz_palette z)" by (rule length_fold) simp_all
  then show ?thesis using assms(1) False r reads_get8s [OF r]
    by (intro shape_same [OF assms(2)]) (auto simp: png_trns_def reads_def Let_def split: if_splits)
next
  case True
  obtain vs s where r: "stbi__get16bes (min (img_n (pz_s z)) 3) (pz_s z) = (vs, s)" by fastforce
  then show ?thesis using assms(1) True reads_get16bes [OF r]
    by (intro shape_same [OF assms(2)]) (auto simp: png_trns_def reads_def Let_def split: if_splits)
qed

lemma shape_idat:
  assumes "png_idat alloc STBI__SCAN_load len z = PngNext z'" and "png_shape z"
  shows "png_shape z'"
  using assms(1)
  by (intro shape_same [OF assms(2)])
    (auto simp: png_idat_def Let_def reads_def split: if_splits option.splits prod.splits dest!: reads_getn)

lemma shape_skip: "png_shape z \<Longrightarrow> png_shape (z\<lparr>pz_is_iphone := b, pz_s := stbi__skip n (pz_s z)\<rparr>) \<and> png_shape (z\<lparr>pz_s := stbi__skip n (pz_s z)\<rparr>)"
  using reads_skip [of "pz_s z" n] by (simp add: png_shape_def reads_def)

lemma iend_no_next: "png_iend env opts scan req_comp z \<noteq> PngNext z'"
  by (simp add: png_iend_def Let_def split: option.split)

lemma chunk_shape:
  assumes "png_chunk env opts STBI__SCAN_load req_comp c z = PngNext z'" and "png_shape z"
  shows "png_shape z'"
proof -
  have "length (pz_palette z) = 1024" using assms(2) by (simp add: png_shape_def)
  then show ?thesis
    using assms shape_ihdr shape_plte shape_trns shape_idat shape_skip [OF assms(2)] iend_no_next
    by (auto simp: png_chunk_def Let_def split: if_splits)
qed

lemma iend_sized:
  assumes "png_iend env opts STBI__SCAN_load req_comp z = PngDone z'" and "png_shape z" and "\<not> de_iphone_flag opts" and "req_comp \<le> 4"
  shows "png_sized z'"
proof -
  obtain expanded z1 where z1: "png_finish env opts req_comp expanded z = Some z1" "z' = z1\<lparr>pz_s := snd (stbi__get32be (pz_s z1))\<rparr>" "\<not> pz_first z"
    using assms(1) by (auto simp: png_iend_def Let_def split: if_splits option.splits)
  have "img_out_n (snd (stbi__get32be s)) = img_out_n s" for s
    by (simp add: stbi__get32be_def stbi__get16be_def stbi__get8_def split: list.split prod.split)
  then show ?thesis using finish_sized [OF z1(1) assms(2) z1(3) assms(3,4)] reads_snd [of "pz_s z1"] by (simp add: png_sized_def z1(2) reads_def)
qed

lemma chunk_sized:
  assumes "png_chunk env opts STBI__SCAN_load req_comp c z = PngDone z'" and "png_shape z" and "\<not> de_iphone_flag opts" and "req_comp \<le> 4"
  shows "png_sized z'"
proof -
  have "png_ihdr len z \<noteq> PngDone z'" "png_plte len z \<noteq> PngDone z'" "png_trns STBI__SCAN_load len z \<noteq> PngDone z'"
    "png_idat (pe_alloc env) STBI__SCAN_load len z \<noteq> PngDone z'" for len
    by (auto simp: png_ihdr_def png_plte_def png_trns_def png_idat_def Let_def split: if_splits prod.splits option.splits)
  then show ?thesis using assms iend_sized by (auto simp: png_chunk_def Let_def split: if_splits)
qed

lemma chunks_sized:
  assumes "png_chunks env opts STBI__SCAN_load req_comp z = Some (Some z')" and "png_shape z" and "\<not> de_iphone_flag opts" and "req_comp \<le> 4"
  shows "png_sized z'"
  using assms(1,2)
proof (induction "length (img_buffer (pz_s z))" arbitrary: z rule: less_induct)
  case less
  obtain c s where h: "stbi__get_chunk_header (pz_s z) = (c, s)" by fastforce
  have ok: "png_shape (z\<lparr>pz_s := s\<rparr>)" using less(3) header_reads [OF h] by (simp add: png_shape_def reads_def)
  have nx: "png_next_chunk env opts STBI__SCAN_load req_comp z =
      (case png_chunk env opts STBI__SCAN_load req_comp c (z\<lparr>pz_s := s\<rparr>) of
         PngNext z \<Rightarrow> PngNext (z\<lparr>pz_s := snd (stbi__get32be (pz_s z))\<rparr>) | r \<Rightarrow> r)"
    by (simp add: png_next_chunk_def h)
  show ?case
  proof (cases "png_chunk env opts STBI__SCAN_load req_comp c (z\<lparr>pz_s := s\<rparr>)")
    case (PngNext z1)
    let ?z = "z1\<lparr>pz_s := snd (stbi__get32be (pz_s z1))\<rparr>"
    have n: "png_next_chunk env opts STBI__SCAN_load req_comp z = PngNext ?z" using nx PngNext by simp
    have "png_ok z" using less(3) by (auto simp: png_shape_def png_ok_def)
    then have "length (img_buffer (pz_s ?z)) < length (img_buffer (pz_s z))" using next_chunk_ends n by blast
    moreover have "png_chunks env opts STBI__SCAN_load req_comp ?z = Some (Some z')" using less(2) n by (subst (asm) png_chunks.simps) simp
    moreover have "png_shape ?z" using chunk_shape [OF PngNext ok] reads_snd [of "pz_s z1"] by (simp add: png_shape_def reads_def)
    ultimately show ?thesis by (rule less(1))
  next
    case (PngDone z1)
    then have "z' = z1" using less(2) nx by (subst (asm) png_chunks.simps) simp
    then show ?thesis using chunk_sized [OF PngDone ok assms(3,4)] by simp
  qed (use less(2) nx in \<open>simp_all add: png_chunks.simps\<close>)
qed

section \<open>Loaded PNG\<close>

lemma length_converted:
  "stbi__convert_format alloc d nch req_comp x y = Some l \<Longrightarrow> req_comp \<noteq> nch \<Longrightarrow> length l = x * y * req_comp"
  "stbi__convert_format16 alloc e nch req_comp x y = Some m \<Longrightarrow> req_comp \<noteq> nch \<Longrightarrow> length m = x * y * req_comp"
  by (auto simp: stbi__convert_format_def stbi__convert_format16_def length_convert_pixels mult.commute split: if_splits option.splits)

lemma do_png_sized:
  assumes "stbi__do_png env opts req_comp s = Some (Some (x, y, n, d))" and "length (pe_stack env) = 1024" and "\<not> de_iphone_flag opts"
    and "req_comp \<noteq> 0"
  shows "stb_len d = x * y * req_comp"
proof -
  obtain z where z: "stbi__parse_png_file env opts STBI__SCAN_load req_comp s = Some (Some z)" "req_comp \<le> 4"
    using assms(1) by (auto simp: stbi__do_png_def split: if_splits option.splits)
  then have "png_chunks env opts STBI__SCAN_load req_comp (png_start env (snd (stbi__check_png_header s))) = Some (Some z)"
    by (auto simp: stbi__parse_png_file_def Let_def split: prod.splits if_splits)
  moreover have "png_shape (png_start env t)" for t using assms(2) by (simp add: png_shape_def png_start_def)
  ultimately have "png_sized z" using chunks_sized [OF _ _ assms(3) z(2)] by blast
  then show ?thesis using assms(1,4) z length_converted
    by (auto simp: stbi__do_png_def Let_def png_sized_def split: if_splits stb_samples.splits)
qed

section \<open>Loaded BMP\<close>

lemma length_colour:
  assumes "length pal = 1024" and "target = 3 \<or> target = 4" and "v < 256"
  shows "length (bmp_colour pal target v) = target"
  using assms by (auto simp: bmp_colour_def)

lemma unat_byte: "unat (v :: byte) < 256"
proof -
  have "unat v < 2 ^ LENGTH(8)" by (rule unsigned_less)
  then show ?thesis by simp
qed

lemma length_row1:
  assumes "length pal = 1024" and "target = 3 \<or> target = 4"
  shows "length (fst (bmp_row1 pal target v bo k s)) = k * target"
  using length_colour [OF assms unat_byte]
  by (induction pal target v bo k s rule: bmp_row1.induct) (auto simp: Let_def split: prod.split)

lemma length_row8_bmp:
  assumes "length pal = 1024" and "target = 3 \<or> target = 4"
  shows "length (fst (bmp_row8 pal target bpp k s)) = k * target"
  using length_colour [OF assms unat_byte] length_colour [OF assms, of 0]
  by (induction pal target bpp k s rule: bmp_row8.induct) (auto simp: Let_def split: prod.split)

lemma length_row_easy: "target = 3 \<or> target = 4 \<Longrightarrow> length (fst (bmp_row_easy easy target k t)) = k * target"
  by (induction easy target k t rule: bmp_row_easy.induct) (auto simp: Let_def split: prod.split)

lemma length_row_masks: "target = 3 \<or> target = 4 \<Longrightarrow> length (fst (bmp_row_masks info target k t)) = k * target"
  by (induction info target k t rule: bmp_row_masks.induct) (auto simp: Let_def split: prod.split)

lemma length_bmp_rows:
  assumes "\<And>t. length (fst (row t)) = m"
  shows "length (fst (bmp_rows row pad y t)) = y * m"
proof (induction y arbitrary: t)
  case (Suc y)
  obtain t1 s1 where t: "t = (t1, s1)" by fastforce
  obtain line t2 s2 where r: "row (t1, s1) = (line, t2, s2)" by (metis surj_pair)
  show ?case using Suc [of "(t2, stbi__skip pad s2)"] assms [of "(t1, s1)"] by (auto simp: t r split: prod.split)
qed (auto split: prod.split)

lemma length_bmp_palette: "length (fst (bmp_palette fourth is pal s)) = length pal"
  by (induction fourth "is" pal s rule: bmp_palette.induct) (auto simp: Let_def split: prod.split)

lemma get8_dims: "img_x (snd (stbi__get8 s)) = img_x s" "img_y (snd (stbi__get8 s)) = img_y s"
  by (simp_all add: stbi__get8_def split: list.split)

lemma palette_dims:
  "img_x (snd (bmp_palette fourth is pal s)) = img_x s \<and> img_y (snd (bmp_palette fourth is pal s)) = img_y s"
proof (induction "is" arbitrary: pal s)
  case (Cons i "is")
  obtain b s1 where r1: "stbi__get8 s = (b, s1)" by fastforce
  obtain g s2 where r2: "stbi__get8 s1 = (g, s2)" by fastforce
  obtain r s3 where r3: "stbi__get8 s2 = (r, s3)" by fastforce
  have "img_x s3 = img_x s" "img_y s3 = img_y s" using get8_dims [of s] get8_dims [of s1] get8_dims [of s2] by (simp_all add: r1 r2 r3)
  then show ?case using Cons get8_dims [of s3] by (simp add: r1 r2 r3 Let_def)
qed simp

lemma length_indexed:
  assumes "bmp_indexed stack info psize target s = Some out" and "length stack = 1024" and "target = 3 \<or> target = 4"
  shows "length out = img_x s * img_y s * target"
proof -
  obtain pal s1 where p: "bmp_palette (bd_hsz info \<noteq> 12) [0..<nat psize] stack s = (pal, s1)" by fastforce
  have pal: "length pal = 1024" using length_bmp_palette [of "bd_hsz info \<noteq> 12" "[0..<nat psize]" stack s] p assms(2) by simp
  have same: "img_x (stbi__skip m s1) = img_x s" "img_y (stbi__skip m s1) = img_y s" for m
    using palette_dims [of "bd_hsz info \<noteq> 12" "[0..<nat psize]" stack s] p by (simp_all add: stbi__skip_def)
  have "length (fst (bmp_rows (\<lambda>(t, s). let (v, s) = stbi__get8 s; (l, s) = bmp_row1 pal target v 7 x s in (l, t, s)) pad y t0)) = y * (x * target)"
    for x pad y and t0 :: "unit \<times> stbi__context"
    by (rule length_bmp_rows) (use length_row1 [OF pal assms(3)] in \<open>auto simp: Let_def split: prod.split\<close>, metis fst_conv)
  moreover have "length (fst (bmp_rows (\<lambda>(t, s). let (l, s) = bmp_row8 pal target bpp x s in (l, t, s)) pad y t0)) = y * (x * target)"
    for x pad y bpp and t0 :: "unit \<times> stbi__context"
    by (rule length_bmp_rows) (use length_row8_bmp [OF pal assms(3)] in \<open>auto simp: Let_def split: prod.split\<close>, metis fst_conv)
  ultimately show ?thesis using assms(1) p same by (auto simp: bmp_indexed_def Let_def split: if_splits)
qed

lemma length_direct:
  assumes "bmp_direct info target s = Some (out, a)" and "target = 3 \<or> target = 4"
  shows "length out = img_x s * img_y s * target"
proof -
  define sk where "sk = stbi__skip (bd_offset info - bd_extra_read info - bd_hsz info) s"
  have same: "img_x sk = img_x s" "img_y sk = img_y s" by (simp_all add: sk_def stbi__skip_def)
  define easy :: nat where "easy = (if bd_bpp info = 24 then 1
      else if bd_bpp info = 32 \<and> bd_mb info = 0xff \<and> bd_mg info = 0xff00 \<and> bd_mr info = 0x00ff0000 \<and> bd_ma info = 0xff000000 then 2 else 0)"
  define row where "row = (if easy \<noteq> 0 then bmp_row_easy easy target (img_x s) else bmp_row_masks info target (img_x s))"
  define pad where "pad = bmp_pad (if bd_bpp info = 24 then 3 * img_x s else if bd_bpp info = 16 then 2 * img_x s else 0)"
  have "bmp_direct info target s =
      (if easy = 0 \<and> (bd_mr info = 0 \<or> bd_mg info = 0 \<or> bd_mb info = 0) then None
       else if easy = 0 \<and> list_ex (\<lambda>c. c > 8) (map stbi__bitcount [bd_mr info, bd_mg info, bd_mb info, bd_ma info]) then None
       else (let (out, all_a, s) = bmp_rows row pad (img_y s) (bd_all_a info, sk) in Some (out, all_a)))"
    unfolding bmp_direct_def Let_def sk_def [symmetric] same easy_def [symmetric] row_def pad_def ..
  then have "out = fst (bmp_rows row pad (img_y s) (bd_all_a info, sk))"
    using assms(1) by (simp add: split: if_splits prod.splits)
  moreover have "length (fst (row t)) = img_x s * target" for t
    by (simp add: row_def length_row_easy [OF assms(2)] length_row_masks [OF assms(2)])
  ultimately show ?thesis using length_bmp_rows [of row "img_x s * target" pad "img_y s"] by simp
qed

lemma length_opaque_if_blank: "length out = k * target \<Longrightarrow> length (opaque_if_blank target a k out) = k * target"
  unfolding opaque_if_blank_def by (auto intro!: length_concat_groups)

lemma length_swap_lines:
  assumes "length out = y * len"
  shows "length (swap_lines len y out) = y * len"
proof -
  let ?f = "\<lambda>j rows. rows[j := rows ! (y - 1 - j), y - 1 - j := rows ! j]"
  have g: "\<forall>r \<in> set (pixel_groups len y out). length r = len" using pixels_lengths [of len y out] assms by (simp add: mult.commute)
  have swaps: "length (fold ?f js rows) = y \<and> (\<forall>r \<in> set (fold ?f js rows). length r = len)"
    if "set js \<subseteq> {..<y}" "length rows = y" "\<forall>r \<in> set rows. length r = len" for js and rows :: "byte list list"
    using that
  proof (induction js arbitrary: rows)
    case (Cons j js)
    have "rows ! j \<in> set rows" "rows ! (y - 1 - j) \<in> set rows" using Cons(2,3) by auto
    then have "\<forall>r \<in> set (?f j rows). length r = len" using Cons(4) by (auto dest!: set_update_subset_insert [THEN subsetD])
    then have "length (fold ?f js (?f j rows)) = y \<and> (\<forall>r \<in> set (fold ?f js (?f j rows)). length r = len)"
      using Cons(2,3) by (intro Cons(1)) simp_all
    then show ?case unfolding fold_simps .
  qed simp
  have "set [0..<y div 2] \<subseteq> {..<y}" by auto
  from swaps [OF this length_pixels g]
  have "length (concat (map id (fold ?f [0..<y div 2] (pixel_groups len y out)))) = y * len"
    by (subst length_concat_const [where k = len]) simp_all
  then show ?thesis by (simp add: swap_lines_def)
qed

lemma skip_dims [simp]: "img_x (stbi__skip m s) = img_x s" "img_y (stbi__skip m s) = img_y s"
  by (simp_all add: stbi__skip_def)

lemma to_pixels_dims: "bmp_to_pixels info psize s = Some t \<Longrightarrow> img_x t = img_x s \<and> img_y t = img_y s"
  by (auto simp: bmp_to_pixels_def Let_def split: if_splits)

text \<open>The last steps of the loader: alpha, order of the lines, channels.\<close>

definition bmp_final :: "(nat \<Rightarrow> bool) \<Rightarrow> nat \<Rightarrow> nat \<Rightarrow> bool \<Rightarrow> nat \<Rightarrow> nat \<Rightarrow> byte list \<Rightarrow> u32 \<Rightarrow> byte list option" where
  "bmp_final alloc req_comp target flip x y out a =
     (let out = opaque_if_blank target a (x * y) out; out = (if flip then swap_lines (x * target) y out else out)
      in if req_comp \<noteq> 0 \<and> req_comp \<noteq> target then stbi__convert_format alloc out target req_comp x y else Some out)"

lemma bmp_final_sized:
  assumes "bmp_final alloc req_comp target flip x y out a = Some l" and "length out = x * y * target" and "req_comp \<noteq> 0"
  shows "length l = x * y * req_comp"
proof -
  define out1 where "out1 = opaque_if_blank target a (x * y) out"
  define out2 where "out2 = (if flip then swap_lines (x * target) y out1 else out1)"
  have "length out1 = y * (x * target)" using length_opaque_if_blank [OF assms(2)] by (simp add: out1_def ac_simps)
  then have "length out2 = x * y * target" using length_swap_lines [of out1 y "x * target"] by (simp add: out2_def ac_simps)
  then show ?thesis using assms(1,3) length_converted(1) by (auto simp: bmp_final_def out1_def out2_def Let_def split: if_splits)
qed

lemma bmp_load_sized:
  assumes "stbi__bmp_load alloc stack req_comp s = Some (x, y, n, out)" and "length stack = 1024" and "req_comp \<noteq> 0" and "req_comp \<le> 4"
  shows "length out = x * y * req_comp"
proof -
  obtain info s1 where h: "stbi__bmp_parse_header s = Some (info, s1)" using assms(1) by (auto simp: stbi__bmp_load_def split: option.splits)
  define flip where "flip = (c_int (int (img_y s1)) > 0)"
  define s2 where "s2 = s1\<lparr>img_y := nat \<bar>c_int (int (img_y s1))\<bar>\<rparr>"
  obtain s3 where t: "bmp_to_pixels info (bmp_psize info) s2 = Some s3"
    using assms(1) h by (auto simp: stbi__bmp_load_def s2_def Let_def split: option.splits if_splits)
  define nch :: nat where "nch = (if bd_bpp info = 24 \<and> bd_ma info = 0xff000000 then 3 else if bd_ma info \<noteq> 0 then 4 else 3)"
  define target where "target = (if req_comp \<ge> 3 then req_comp else nch)"
  have target: "target = 3 \<or> target = 4" using assms(4) by (auto simp: target_def nch_def)
  define drawn where "drawn = (if bd_bpp info < 16 then map_option (\<lambda>out. (out, bd_all_a info)) (bmp_indexed stack info (bmp_psize info) target s3)
      else bmp_direct info target s3)"
  have load: "stbi__bmp_load alloc stack req_comp s =
      (if img_y s2 > STBI_MAX_DIMENSIONS then None else if img_x s2 > STBI_MAX_DIMENSIONS then None
       else if \<not> stbi__malloc_mad3 alloc (int target) (int (img_x s3)) (int (img_y s3)) 0 then None
       else (case drawn of None \<Rightarrow> None
             | Some (out, a) \<Rightarrow> map_option (\<lambda>out. (img_x s3, img_y s3, nch, out)) (bmp_final alloc req_comp target flip (img_x s3) (img_y s3) out a)))"
    by (simp only: stbi__bmp_load_def h t option.case prod.case Let_def s2_def [symmetric] flip_def [symmetric] nch_def [symmetric]
        target_def [symmetric] drawn_def [symmetric] bmp_final_def)
  obtain out0 a where o: "drawn = Some (out0, a)" "bmp_final alloc req_comp target flip (img_x s3) (img_y s3) out0 a = Some out" "x = img_x s3" "y = img_y s3"
    using assms(1) [unfolded load] by (auto split: if_splits option.splits)
  have "length out0 = img_x s3 * img_y s3 * target"
    using o(1) length_indexed [OF _ assms(2) target] length_direct [OF _ target] by (auto simp: drawn_def split: if_splits)
  from bmp_final_sized [OF o(2) this assms(3)] show ?thesis by (simp add: o)
qed

section \<open>Every loaded picture\<close>

lemma picture_sized:
  assumes "stbi_load_from_memory env opts other buffer len req_comp = Some (Some (x, y, n, d))"
    and "length (pe_stack env) = 1024" and "\<not> de_iphone_flag opts" and "req_comp \<noteq> 0" and "req_comp \<le> 4"
    and "\<forall>b x y n d. other b req_comp = Some (Some (x, y, n, d)) \<longrightarrow> stb_len d = x * y * req_comp"
  shows "length d = x * y * req_comp"
proof -
  obtain e where e: "stbi__load_main env opts other req_comp (stbi__start_mem (take (nat len) buffer)) = Some (Some (x, y, n, e))"
    "\<exists>l. (case e of S8 l \<Rightarrow> Some l | S16 l \<Rightarrow> stbi__convert_16_to_8 (pe_alloc env) l x y req_comp) = Some l \<and>
       d = (if flip_on_load opts then stbi__vertical_flip x y req_comp l else l)"
    using assms(1,4) by (auto simp: stbi_load_from_memory_def stbi__load_and_postprocess_8bit_def Let_def split: option.splits)
  let ?s = "stbi__start_mem (take (nat len) buffer)"
  consider "stbi__do_png env opts req_comp ?s = Some (Some (x, y, n, e))"
    | l where "stbi__bmp_load (pe_alloc env) (pe_stack env) req_comp ?s = Some (x, y, n, l)" "e = S8 l"
    | "other (img_buffer ?s) req_comp = Some (Some (x, y, n, e))"
    using e(1) unfolding stbi__load_main_def by (auto split: if_splits)
  then have "stb_len e = x * y * req_comp"
  proof cases
    case 1
    then show ?thesis by (rule do_png_sized [OF _ assms(2-4)])
  next
    case 2
    then show ?thesis using bmp_load_sized [OF _ assms(2,4,5)] by simp
  next
    case 3
    then show ?thesis using assms(6) by blast
  qed
  then have len: "stb_len e = y * (x * req_comp)" by (simp add: ac_simps)
  obtain l where l: "(case e of S8 l \<Rightarrow> Some l | S16 l \<Rightarrow> stbi__convert_16_to_8 (pe_alloc env) l x y req_comp) = Some l"
      "d = (if flip_on_load opts then stbi__vertical_flip x y req_comp l else l)"
    using e(2) by blast
  have "length l = y * (x * req_comp)"
  proof (cases e)
    case (S8 m)
    then show ?thesis using l(1) len by simp
  next
    case (S16 m)
    then have "x * y * req_comp \<le> length m" using len by (simp add: ac_simps)
    then show ?thesis using l(1) S16 by (auto simp: stbi__convert_16_to_8_def Let_def ac_simps split: if_splits)
  qed
  then have "length d = y * (x * req_comp)" using l(2) length_swap_lines [of l y "x * req_comp"] by (simp add: stbi__vertical_flip_def)
  then show ?thesis by (simp add: ac_simps)
qed



section \<open>What the clients load\<close>

text \<open>What is relied on: the stack array has its size, and the loaders of other formats end and return pictures of the size they say.\<close>

definition stb_documented :: "stb_host \<Rightarrow> bool" where
  "stb_documented sh \<longleftrightarrow> length (sh_stack sh) = 1024 \<and>
     (\<forall>b. \<exists>r. sh_other sh b 4 = Some r \<and> (\<forall>x y n d. r = Some (x, y, n, d) \<longrightarrow> stb_len d = x * y * 4))"

lemma blank_stb_documented: "stb_documented blank_stb"
  by (simp add: stb_documented_def blank_stb_def)

lemma load4_result:
  assumes "stb_documented sh"
  shows "\<exists>r. stbi_load4 alloc sh buffer len = Some r \<and> (\<forall>x y d. r = Some (x, y, d) \<longrightarrow> length d = x * y * 4)"
proof -
  have "\<forall>b. \<exists>r. sh_other sh b 4 = Some r" using assms by (metis stb_documented_def)
  then have "\<exists>r. stbi_load_from_memory (stb_env alloc sh) stbi_defaults (sh_other sh) buffer len 4 = Some r" by (rule load_returns)
  then obtain r where r: "stbi_load_from_memory (stb_env alloc sh) stbi_defaults (sh_other sh) buffer len 4 = Some r" ..
  have h: "stb_len d = x * y * 4" if "sh_other sh b 4 = Some (Some (x, y, n, d))" for b x y n d
    using assms that unfolding stb_documented_def by (metis option.inject)
  have "length d = x * y * 4" if "r = Some (x, y, n, d)" for x y n d
    using assms that r h by (intro picture_sized [of "stb_env alloc sh" stbi_defaults "sh_other sh" buffer len 4 x y n d])
      (simp_all add: stb_documented_def stb_env_def stbi_defaults_def)
  then show ?thesis using r by (auto simp: stbi_load4_def)
qed

end
