(* ===== verification/PictureProps.thy ===== *)
theory PictureProps
  imports WinProps WinPicture ImageSizes
begin

text \<open>
  Pictures from one Windows client to another: from the notification that a bitmap was copied,
  through the conversion to PNG, the offer and the transfer, to the bitmap on the clipboard of the
  receiver (\<open>src/windows/main.c\<close>, with the transfer of \<open>src/common/ft\<close> and the image codec of
  \<open>src/common/stb_image.h\<close> and \<open>src/common/stb_image_write.h\<close>).
\<close>

section \<open>The copied bitmap\<close>

text \<open>
  The clipboard holds a bitmap of 32 bits per pixel with the pixels \<open>q\<close>, and its PNG lines take
  up to 256 MB.
\<close>

definition copied_bitmap :: "clipboard \<Rightarrow> BITMAPINFOHEADER \<Rightarrow> nat \<Rightarrow> nat \<Rightarrow> byte list \<Rightarrow> bool" where
  "copied_bitmap cb h wd ht q \<longleftrightarrow> cf_dib cb = Some (bih_bytes h @ q) \<and> plain_bitmap h wd ht \<and>
     length q = wd * 4 * ht \<and> (wd * 4 + 1) * ht \<le> 2 ^ 28"

lemma plain_fields:
  assumes "plain_bitmap h wd ht"
  shows "get32 (bih_bytes h @ q) 0 = 40" "get16 (bih_bytes h @ q) 14 = 32" "get32 (bih_bytes h @ q) 16 = 0"
proof -
  show "get32 (bih_bytes h @ q) 0 = 40"
    using assms get32_le32 [of 0 "[]"] by (simp add: bih_bytes_def plain_bitmap_def)
  show "get16 (bih_bytes h @ q) 14 = 32"
    using assms get16_le16 [of 14 "le32 40 @ le32 (biWidth h) @ le32 (biHeight h) @ le16 1"] by (simp add: bih_bytes_def plain_bitmap_def)
  show "get32 (bih_bytes h @ q) 16 = 0"
    using assms get32_le32 [of 16 "le32 40 @ le32 (biWidth h) @ le32 (biHeight h) @ le16 1 @ le16 32"]
    by (simp add: bih_bytes_def plain_bitmap_def BI_RGB_def)
qed

lemma bitmap_copied_out:
  assumes "copied_bitmap cb h wd ht q" and "win_ready w32"
  shows "win_clipboard_get_image w32 cb = Some (Some (bitmap_file h q))"
proof -
  have p: "plain_bitmap h wd ht" "cf_dib cb = Some (bih_bytes h @ q)" using assms(1) by (simp_all add: copied_bitmap_def)
  have "length q \<le> 2 ^ 28" using assms(1) by (simp add: copied_bitmap_def algebra_simps)
  then have n: "unat (of_nat (40 + length q) :: u32) = 40 + length q" "unat (of_nat (54 + length q) :: u32) = 54 + length q"
    by (simp_all add: unat_of_nat del: of_nat_add)
  have t: "(14 :: u32) + of_nat (40 + length q) = of_nat (54 + length q)" by simp
  have o: "pixel_offset 40 32 0 = 54" by (simp add: pixel_offset_def BI_BITFIELDS_def)
  show ?thesis
    unfolding win_clipboard_get_image_def p(2) option.case Let_def length_append length_headers t n plain_fields [OF p(1)] o
    using assms(2) by (simp add: win_ready_def bitmap_file_def)
qed

lemma bitmap_as_png:
  assumes "copied_bitmap cb h wd ht q" and "win_ready w32"
  obtains png where "bmp_to_png w32 (bitmap_file h q) = Some (Some png)" "png \<noteq> []" "length png \<le> 2 ^ 30"
    "\<And>w' cb'. win_ready w' \<Longrightarrow>
       win_clipboard_set_image w' png cb' = Some (EmptyClipboard\<lparr>cf_dib := Some (bih_bytes (dib_header wd ht) @ shown_pixels q)\<rparr>)"
proof -
  have p: "plain_bitmap h wd ht" "length q = wd * 4 * ht" "(wd * 4 + 1) * ht \<le> 2 ^ 28" using assms(1) by (simp_all add: copied_bitmap_def)
  have b: "0 < wd" "wd \<le> 2 ^ 24" "0 < ht" "ht \<le> 2 ^ 24" using p(1) by (simp_all add: plain_bitmap_def)
  have len: "length (flip_picture wd ht (shown_pixels q)) = wd * 4 * ht" by simp
  obtain png where png: "bmp_to_png w32 (bitmap_file h q) = Some (Some png)" "take 8 png = png_sig" "length png \<le> 2 ^ 30"
      "\<And>w'. win_ready w' \<Longrightarrow> stbi_load w' png (int_of_size (length png)) = Some (Some (wd, ht, flip_picture wd ht (shown_pixels q)))"
    using bmp_to_png_result [OF assms(2) bitmap_loaded [OF p assms(2)] b p(3) len] by blast
  have "win_clipboard_set_image w' png cb' = Some (EmptyClipboard\<lparr>cf_dib := Some (bih_bytes (dib_header wd ht) @ shown_pixels q)\<rparr>)"
    if "win_ready w'" for w' cb'
    using sent_png_put [OF that png(2) png(4) [OF that] len] flip_flip [of "shown_pixels q" ht wd] p(2) by (simp add: ac_simps)
  moreover have "png \<noteq> []" using png(2) by (auto simp: png_sig_def)
  ultimately show ?thesis using that png(1,3) by blast
qed

section \<open>The offer\<close>

text \<open>
  C10. A copied picture is offered as PNG: when the window of a logged-in Windows client is told
  of a bitmap of 32 bits per pixel that it has not offered before and no transfer runs, the
  client becomes the sender of a new transfer. Its data is the PNG of the bitmap, with the size
  and the checksum of this data and the type of a PNG, and exactly one message, the offer, is
  queued.
\<close>

theorem picture_offered:
  assumes "win_ready (we_win w)" and "\<not> we_node_oom w" and "wc_logged_in c" and "\<not> wc_suppress_next c" and "win_effective_file_level c > 0"
    and "copied_bitmap (wc_clip c) h wd ht q" and "wc_last_img_hash c \<noteq> ft_sha256 (we_ssl w) (bitmap_file h q)" and "wc_xfer_active_count c = 0"
  shows "\<exists>c' m png. win_on_clipboard_changed w c = Some c' \<and> wc_queue c' = queue_send False m (wc_queue c) \<and>
     bmp_to_png (we_win w) (bitmap_file h q) = Some (Some png) \<and> wt_is_sender (wc_xfer c') \<and> wt_data (wc_xfer c') = Some png \<and>
     wt_file_size (wc_xfer c') = of_nat (length png) \<and> wt_checksum (wc_xfer c') = ft_sha256 (we_ssl w) png \<and>
     wt_mime_type (wc_xfer c') = ''image/png'' \<and> wt_phase (wc_xfer c') = 1"
proof -
  let ?f = "bitmap_file h q"
  let ?c = "win_new_sender w (c\<lparr>wc_last_img_hash := ft_sha256 (we_ssl w) ?f\<rparr>)"
  obtain png where png: "bmp_to_png (we_win w) ?f = Some (Some png)"
    using bitmap_as_png [OF assms(6,1)] by blast
  have "win_clipboard_has_image (wc_clip c)" using assms(6) by (simp add: win_clipboard_has_image_def copied_bitmap_def)
  moreover have "?f \<noteq> []" by (subst bitmap_file_start) simp
  ultimately have "win_on_clipboard_changed w c =
      win_announce w ''clipboard.png'' ''image/png'' (of_nat (length png)) png (ft_sha256 (we_ssl w) png) ?c"
    using assms(3-5,7,8) png bitmap_copied_out [OF assms(6,1)]
    by (simp add: win_on_clipboard_changed_def win_process_change_def win_offer_image_def Let_def)
  moreover obtain c' m where "win_announce w ''clipboard.png'' ''image/png'' (of_nat (length png)) png (ft_sha256 (we_ssl w) png) ?c = Some c'"
      "wc_queue c' = queue_send False m (wc_queue ?c)" "wt_is_sender (wc_xfer c') = wt_is_sender (wc_xfer ?c)" "wt_data (wc_xfer c') = Some png"
      "wt_file_size (wc_xfer c') = of_nat (length png)" "wt_checksum (wc_xfer c') = ft_sha256 (we_ssl w) png"
      "wt_mime_type (wc_xfer c') = strncpy_fld 63 ''image/png''" "wt_phase (wc_xfer c') = 1"
    using win_announced [OF assms(2), of "''clipboard.png''" "''image/png''" "of_nat (length png)" png "ft_sha256 (we_ssl w) png" ?c]
    by (elim exE conjE)
  ultimately show ?thesis using png
    by (intro exI [of _ c'] exI [of _ m] exI [of _ png]) (simp add: new_sender_fields strncpy_fld_short)
qed

section \<open>The transfer\<close>

text \<open>
  C4. A copied picture appears on the other Windows client as it was copied: the bitmap on the
  sender's clipboard, written to a file and converted to PNG, sent over a connection in whatever
  segments, is accepted by the receiving thread, which puts a bitmap of the same width and height
  with exactly the same pixel bytes on its clipboard; only a picture without any alpha comes out
  opaque. The change is not taken for a copy of the user, success is reported and the
  connection is closed.
\<close>

theorem windows_picture_transfer:
  assumes "copied_bitmap cb h wd ht q" and "win_ready w32"
    and "win_clipboard_get_image w32 cb = Some (Some f)" and "bmp_to_png w32 f = Some (Some png)"
    and "wt_data st = Some png" and "wt_file_size st = of_nat (length png)"
    and "length (wt_file_id st) = FT_UUID_LEN" and "nul \<notin> set (wt_file_id st)" and "stream_ok s v" and "stream_out s v = []"
    and "stream_in fd (wc_world c) = stream_out s (snd (win_send_on st s v)) @ rest"
    and "starts_with ''image/'' (wt_mime_type rst)" and "of_nat (length png) \<le> g_ft_max_size (wc_world c)"
    and "malloc_ok (we_ssl w) ''ft_recv_file'' (length png)" and "\<not> we_node_oom w" and "fd \<noteq> FT_INVALID_SOCK" and "win_ready (we_win w)"
  shows "fst (win_send_on st s v) \<and>
     (\<exists>c' m. win_receive_on w clk rst fd c = Some (True, c') \<and>
        wc_clip c' = EmptyClipboard\<lparr>cf_dib := Some (bih_bytes (dib_header wd ht) @ shown_pixels q)\<rparr> \<and>
        wc_suppress_next c' \<and> wc_queue c' = queue_send False m (wc_queue c) \<and> closed (wc_world c') = closed (wc_world c) @ [fd])"
proof -
  have f: "f = bitmap_file h q" using bitmap_copied_out [OF assms(1,2)] assms(3) by simp
  obtain png' where png': "bmp_to_png w32 f = Some (Some png')" "png' \<noteq> []" "length png' \<le> 2 ^ 30"
      "\<And>w' cb'. win_ready w' \<Longrightarrow> win_clipboard_set_image w' png' cb' =
         Some (EmptyClipboard\<lparr>cf_dib := Some (bih_bytes (dib_header wd ht) @ shown_pixels q)\<rparr>)"
    using bitmap_as_png [OF assms(1,2)] unfolding f by blast
  have "png' = png" using png'(1) assms(4) by simp
  then have png: "png \<noteq> []" "length png < 2 ^ 31"
    and placed: "win_clipboard_set_image (we_win w) png (wc_clip c) = Some (EmptyClipboard\<lparr>cf_dib := Some (bih_bytes (dib_header wd ht) @ shown_pixels q)\<rparr>)"
    using png'(2-4) assms(17) by auto
  have arrives: "fst (win_send_on st s v)"
    "\<exists>u. ft_recv_file (we_ssl w) fd empty_info (wc_world c) =
      (0, empty_info\<lparr>fi_file_id := wt_file_id st, fi_file_size := of_nat (length png), fi_data := Some png, fi_data_len := length png\<rparr>, u) \<and>
      world_frame {fd} (wc_world c) u"
    using win_file_arrives [OF assms(5,6) png assms(7-11,13,14)] by blast+
  then obtain u where u: "ft_recv_file (we_ssl w) fd empty_info (wc_world c) =
      (0, empty_info\<lparr>fi_file_id := wt_file_id st, fi_file_size := of_nat (length png), fi_data := Some png, fi_data_len := length png\<rparr>, u)"
      "world_frame {fd} (wc_world c) u"
    by blast
  obtain m where m: "build_transfer_result (we_fp w) (Some (wt_file_id rst)) ''p2p'' True (clk 1 - clk 0) (clk 3 - clk 2) = Some m"
    using result_built by blast
  let ?c = "c\<lparr>wc_world := ft_close fd u, wc_suppress_next := True,
      wc_clip := EmptyClipboard\<lparr>cf_dib := Some (bih_bytes (dib_header wd ht) @ shown_pixels q)\<rparr>, wc_queue := queue_send False m (wc_queue c)\<rparr>"
  have "win_receive_on w clk rst fd c = Some (True, ?c)"
    using u(1) placed m assms(12,15) by (simp add: win_receive_on_def win_place_def win_send_def)
  moreover have "closed (wc_world ?c) = closed (wc_world c) @ [fd]"
    using u(2) assms(16) by (simp add: ft_close_def world_frame_def)
  ultimately show ?thesis using arrives(1) by (intro conjI exI [of _ ?c] exI [of _ m]) simp_all
qed

section \<open>One pixel\<close>

abbreviation one_pixel :: clipboard where
  "one_pixel \<equiv> EmptyClipboard\<lparr>cf_dib := Some (bih_bytes (dib_header 1 1) @ [1, 2, 3, 4])\<rparr>"

lemma one_pixel_copied: "copied_bitmap one_pixel (dib_header 1 1) 1 1 [1, 2, 3, 4]"
  by (simp add: copied_bitmap_def plain_bitmap_def dib_header_def)

lemma one_pixel_shown: "shown_pixels [1, 2, 3, 4] = [1, 2, 3, 4]"
  by (simp add: shown_pixels_def)

theorem picture_offered_witness:
  "\<exists>c' png. win_on_clipboard_changed win_sample_env (win_sample_client\<lparr>wc_logged_in := True, wc_clip := one_pixel\<rparr>) = Some c' \<and>
     bmp_to_png small_windows (bitmap_file (dib_header 1 1) [1, 2, 3, 4]) = Some (Some png) \<and> wt_data (wc_xfer c') = Some png \<and>
     wt_mime_type (wc_xfer c') = ''image/png''"
proof -
  let ?c = "win_sample_client\<lparr>wc_logged_in := True, wc_clip := one_pixel\<rparr>"
  have w: "win_ready (we_win win_sample_env)" "\<not> we_node_oom win_sample_env" "we_ssl win_sample_env = ref_ssl" "we_win win_sample_env = small_windows"
    using small_windows_ready by (simp_all add: win_sample_env_def)
  have c: "wc_logged_in ?c" "\<not> wc_suppress_next ?c" "win_effective_file_level ?c > 0" "copied_bitmap (wc_clip ?c) (dib_header 1 1) 1 1 [1, 2, 3, 4]"
    "wc_last_img_hash ?c \<noteq> ft_sha256 (we_ssl win_sample_env) (bitmap_file (dib_header 1 1) [1, 2, 3, 4])" "wc_xfer_active_count ?c = 0"
    using ref_sha_nonempty [symmetric] w(3) one_pixel_copied
    by (simp_all add: win_sample_client_def win_init_client_def config_set_defaults_def win_effective_file_level_def)
  from picture_offered [OF w(1,2) c] w(4) show ?thesis by auto
qed

theorem windows_picture_transfer_witness:
  "\<exists>f png c'. win_clipboard_get_image small_windows one_pixel = Some (Some f) \<and> bmp_to_png small_windows f = Some (Some png) \<and>
     win_receive_on win_sample_env (\<lambda>_. 0) (win_zero_xfer\<lparr>wt_mime_type := ''image/png''\<rparr>) 3
       (win_sample_client\<lparr>wc_world := (base_world (new_sock\<lparr>rx := [stream_out 4 (snd (win_send_on
          (win_sample_sender\<lparr>wt_data := Some png, wt_file_size := of_nat (length png)\<rparr>) 4 (base_world new_sock)))]\<rparr>))\<lparr>g_ft_max_size := of_nat (length png)\<rparr>\<rparr>) = Some (True, c') \<and>
     wc_clip c' = one_pixel"
proof -
  let ?f = "bitmap_file (dib_header 1 1) [1, 2, 3, 4]" and ?r = "win_zero_xfer\<lparr>wt_mime_type := ''image/png''\<rparr>"
  obtain png where png: "bmp_to_png small_windows ?f = Some (Some png)"
    using bitmap_as_png [OF one_pixel_copied small_windows_ready] by blast
  let ?st = "win_sample_sender\<lparr>wt_data := Some png, wt_file_size := of_nat (length png)\<rparr>"
  let ?out = "stream_out 4 (snd (win_send_on ?st 4 (base_world new_sock)))"
  let ?c = "win_sample_client\<lparr>wc_world := (base_world (new_sock\<lparr>rx := [?out]\<rparr>))\<lparr>g_ft_max_size := of_nat (length png)\<rparr>\<rparr>"
  have f: "win_clipboard_get_image small_windows one_pixel = Some (Some ?f)"
    by (rule bitmap_copied_out [OF one_pixel_copied small_windows_ready])
  have k: "stream_ok 4 (base_world new_sock)" "nul \<notin> set (wt_file_id win_sample_sender)" by code_simp+
  have i: "stream_in 3 (wc_world ?c) = ?out @ []" by (simp add: stream_in_def base_world_def)
  have "fst (win_send_on ?st 4 (base_world new_sock)) \<and>
     (\<exists>c' m. win_receive_on win_sample_env (\<lambda>_. 0) ?r 3 ?c = Some (True, c') \<and>
        wc_clip c' = EmptyClipboard\<lparr>cf_dib := Some (bih_bytes (dib_header 1 1) @ shown_pixels [1, 2, 3, 4])\<rparr> \<and>
        wc_suppress_next c' \<and> wc_queue c' = queue_send False m (wc_queue ?c) \<and> closed (wc_world c') = closed (wc_world ?c) @ [3])"
    by (rule windows_picture_transfer [OF one_pixel_copied small_windows_ready f png _ _ _ _ k(1) _ i])
      (use k(2) small_windows_ready in \<open>simp_all add: win_sample_sender_def win_zero_xfer_def sample_info_def FT_UUID_LEN_def stream_out_def base_world_def
        new_sock_def starts_with_def win_sample_env_def ref_ssl_def FT_INVALID_SOCK_def\<close>)
  then show ?thesis using f png one_pixel_shown by auto
qed

section \<open>Received pictures\<close>



section \<open>Both clients convert alike\<close>

theorem same_conversion:
  assumes "alloc_ok dt = w_alloc w32" and "dt_stb dt = w_stb w32"
  shows "bmp_to_png_buf dt bmp = bmp_to_png w32 bmp"
  using assms by (simp add: bmp_to_png_buf_def bmp_to_png_def stbi_load_def dyn_contents_def split: option.split)

text \<open>The Linux client puts a bitmap of 32 bits on its clipboard as a PNG with the same pixels.\<close>

theorem linux_gets_png:
  assumes "copied_bitmap cb h wd ht q" and "alloc_ok dt = (\<lambda>_. True)"
  shows "\<exists>png. prepare_image dt (bitmap_file h q) ''image/bmp'' = Some (png, ''image/png'') \<and>
     stbi_load4 (\<lambda>_. True) sh png (int_of_size (length png)) = Some (Some (wd, ht, flip_picture wd ht (shown_pixels q)))"
proof -
  let ?w = "small_windows\<lparr>w_stb := dt_stb dt\<rparr>" and ?v = "small_windows\<lparr>w_stb := sh\<rparr>"
  have w: "win_ready ?w" "win_ready ?v" by (simp_all add: win_ready_def small_windows_def)
  have p: "plain_bitmap h wd ht" "length q = wd * 4 * ht" "(wd * 4 + 1) * ht \<le> 2 ^ 28" using assms(1) by (simp_all add: copied_bitmap_def)
  have b: "0 < wd" "wd \<le> 2 ^ 24" "0 < ht" "ht \<le> 2 ^ 24" using p(1) by (simp_all add: plain_bitmap_def)
  have len: "length (flip_picture wd ht (shown_pixels q)) = wd * 4 * ht" by simp
  obtain png where png: "bmp_to_png ?w (bitmap_file h q) = Some (Some png)"
      "\<And>w'. win_ready w' \<Longrightarrow> stbi_load w' png (int_of_size (length png)) = Some (Some (wd, ht, flip_picture wd ht (shown_pixels q)))"
    using bmp_to_png_result [OF w(1) bitmap_loaded [OF p w(1)] b p(3) len] by blast
  have "bmp_to_png_buf dt (bitmap_file h q) = Some (Some png)"
    using png(1) assms(2) same_conversion [of dt ?w] by (simp add: small_windows_def)
  moreover have "stbi_load4 (\<lambda>_. True) sh png (int_of_size (length png)) = Some (Some (wd, ht, flip_picture wd ht (shown_pixels q)))"
    using png(2) [OF w(2)] by (simp add: stbi_load_def small_windows_def)
  moreover have "take 2 (bitmap_file h q) = [0x42, 0x4D]" "2 < length (bitmap_file h q)"
    by (subst bitmap_file_start, simp, simp add: length_bitmap_file)
  ultimately show ?thesis by (simp add: prepare_image_def)
qed

end
